(* ===== verification/Styx_Prelude.thy ===== *)
theory Styx_Prelude
  imports Main "HOL-Library.Word" "HOL-Library.Finite_Map"
begin

text \<open>
  The prelude of the development: the machine integer types of the Rust code, the checked and
  saturating operations of its standard library, big-endian byte encodings, and the generic
  list and result-type lemmas that the component theories share.

  A Rust \<open>u64\<close> is a \<open>64 word\<close> throughout, so a value can never leave its width; every property
  of an amount is read through \<open>unat\<close>, and the collection \<open>to_nat\<close> moves a goal about words to a
  goal about natural numbers, which linear arithmetic then closes. A plain Rust \<open>+\<close> is the
  wrapping word addition, as in a release build.
\<close>

named_theorems to_nat

type_synonym u8 = "8 word"
type_synonym u16 = "16 word"
type_synonym u32 = "32 word"
type_synonym u64 = "64 word"
type_synonym u256 = "256 word"
type_synonym bytes = "u8 list"

section \<open>Standard library arithmetic on unsigned integers\<close>

definition u64_max :: u64 where
  "u64_max = - 1"

definition u32_max :: u32 where
  "u32_max = - 1"

definition add_checked :: "'a::len word \<Rightarrow> 'a word \<Rightarrow> 'a word option" where
  "add_checked a b = (if unat a + unat b < 2 ^ LENGTH('a) then Some (a + b) else None)"

definition sub_checked :: "'a::len word \<Rightarrow> 'a word \<Rightarrow> 'a word option" where
  "sub_checked a b = (if b \<le> a then Some (a - b) else None)"

definition sat_add :: "'a::len word \<Rightarrow> 'a word \<Rightarrow> 'a word" where
  "sat_add a b = (if unat a + unat b < 2 ^ LENGTH('a) then a + b else - 1)"

definition sat_sub :: "'a::len word \<Rightarrow> 'a word \<Rightarrow> 'a word" where
  "sat_sub a b = (if b \<le> a then a - b else 0)"

definition sat_mul :: "'a::len word \<Rightarrow> 'a word \<Rightarrow> 'a word" where
  "sat_mul a b = (if unat a * unat b < 2 ^ LENGTH('a) then a * b else - 1)"

definition div_ceil :: "'a::len word \<Rightarrow> 'a word \<Rightarrow> 'a word" where
  "div_ceil a b = (if a mod b = 0 then a div b else a div b + 1)"

section \<open>Big-endian bytes\<close>

fun be_bytes :: "nat \<Rightarrow> nat \<Rightarrow> bytes" where
  "be_bytes 0 x = []"
| "be_bytes (Suc n) x = be_bytes n (x div 256) @ [of_nat (x mod 256)]"

definition from_be :: "bytes \<Rightarrow> nat" where
  "from_be bs = foldl (\<lambda>acc b. acc * 256 + unat b) 0 bs"

definition u32_be :: "u32 \<Rightarrow> bytes" where
  "u32_be w = be_bytes 4 (unat w)"

definition u64_be :: "u64 \<Rightarrow> bytes" where
  "u64_be w = be_bytes 8 (unat w)"

definition u256_be :: "u256 \<Rightarrow> bytes" where
  "u256_be w = be_bytes 32 (unat w)"

section \<open>Lists and options\<close>

fun position :: "('a \<Rightarrow> bool) \<Rightarrow> 'a list \<Rightarrow> nat option" where
  "position P [] = None"
| "position P (x # xs) = (if P x then Some 0 else map_option Suc (position P xs))"

definition first_elem :: "'a list \<Rightarrow> 'a option" where
  "first_elem xs = (case xs of [] \<Rightarrow> None | x # _ \<Rightarrow> Some x)"

text \<open>The iterator adaptor \<open>flatten\<close> on a sequence of options.\<close>

fun somes :: "'a option list \<Rightarrow> 'a list" where
  "somes [] = []"
| "somes (None # xs) = somes xs"
| "somes (Some x # xs) = x # somes xs"

fun sum_res :: "('e + 'a) \<Rightarrow> 'a option" where
  "sum_res (Inl e) = None"
| "sum_res (Inr a) = Some a"

text \<open>The operator \<open>?\<close>: an error returns early, a value continues; \<open>refuse_if\<close> is an early return.\<close>

definition bind_res :: "('e + 'a) \<Rightarrow> ('a \<Rightarrow> 'e + 'b) \<Rightarrow> 'e + 'b" where
  "bind_res r f = (case r of Inl e \<Rightarrow> Inl e | Inr a \<Rightarrow> f a)"

definition refuse_if :: "bool \<Rightarrow> 'e \<Rightarrow> ('e + 'b) \<Rightarrow> 'e + 'b" where
  "refuse_if c e k = (if c then Inl e else k)"

definition map_err :: "('e \<Rightarrow> 'f) \<Rightarrow> ('e + 'a) \<Rightarrow> 'f + 'a" where
  "map_err f r = (case r of Inl e \<Rightarrow> Inl (f e) | Inr a \<Rightarrow> Inr a)"

section \<open>From words to natural numbers\<close>

lemmas word_order_nat [to_nat] = word_le_nat_alt word_less_nat_alt

lemma unat_bound: "unat (x :: 'a::len word) < 2 ^ LENGTH('a)"
  by (rule unsigned_less)

lemma unat_max [simp, to_nat]: "unat (- 1 :: 'a::len word) = 2 ^ LENGTH('a) - 1"
  by (simp add: unsigned_minus_1_eq_mask mask_eq_exp_minus_1)

lemma unat_u64_max [simp, to_nat]: "unat u64_max = 2 ^ 64 - 1"
  by (simp add: u64_max_def)

lemma unat_u32_max [simp, to_nat]: "unat u32_max = 2 ^ 32 - 1"
  by (simp add: u32_max_def)

lemma unat_lt_u8: "unat (b :: u8) < 256"
  using unsigned_less[of b] by simp

lemma unat_lt_u64: "unat (x :: u64) < 18446744073709551616"
  using unat_bound[of x] by simp

lemma unat_lt_u32: "unat (x :: u32) < 4294967296"
  using unat_bound[of x] by simp

lemma unat_lt_u256: "unat (x :: u256) < 256 ^ 32"
  using unat_bound[of x] by (simp add: power_mult [symmetric] flip: power_mult)

lemma unat_sat_add [to_nat]:
  "unat (sat_add a b :: 'a::len word) = min (unat a + unat b) (2 ^ LENGTH('a) - 1)"
  by (auto simp: sat_add_def unat_word_ariths min_def)

lemma unat_sat_add_exact:
  "unat a + unat b < 2 ^ LENGTH('a) \<Longrightarrow> unat (sat_add a b :: 'a::len word) = unat a + unat b"
  by (simp add: unat_sat_add)

lemma unat_sat_sub [simp, to_nat]: "unat (sat_sub a b) = unat a - unat b"
  by (auto simp: sat_sub_def unat_sub word_le_nat_alt)

lemma unat_sat_mul [to_nat]:
  "unat (sat_mul a b :: 'a::len word) = min (unat a * unat b) (2 ^ LENGTH('a) - 1)"
proof (cases "unat a * unat b < 2 ^ LENGTH('a)")
  case True
  then show ?thesis by (simp add: sat_mul_def unat_word_ariths)
next
  case False
  then have "2 ^ LENGTH('a) - 1 \<le> unat a * unat b" by linarith
  with False show ?thesis unfolding sat_mul_def by (simp only: if_False unat_max min_def) auto
qed

lemma unat_minus_le [to_nat]: "b \<le> a \<Longrightarrow> unat (a - b :: 'a::len word) = unat a - unat b"
  by (rule unat_sub)

lemma unat_plus_exact:
  "unat a + unat b < 2 ^ LENGTH('a) \<Longrightarrow> unat (a + b :: 'a::len word) = unat a + unat b"
  by (simp add: unat_word_ariths)

lemma unat_min [to_nat]: "unat (min a b) = min (unat a) (unat (b :: 'a::len word))"
  by (simp add: min_def word_le_nat_alt)

lemma min3_cases:
  "(pay :: nat) = min (min (w - c + b) cap) r \<Longrightarrow>
     pay \<le> r \<and> pay \<le> cap \<and> (w \<le> c + pay \<or> pay = r \<or> pay = cap)"
  by (auto simp: min_def)

lemma add_checked_Some_iff:
  "add_checked a b = Some (c :: 'a::len word) \<longleftrightarrow>
     unat a + unat b < 2 ^ LENGTH('a) \<and> unat c = unat a + unat b"
  by (auto simp: add_checked_def unat_plus_exact word_unat_eq_iff split: if_splits)

lemma add_checked_None_iff:
  "add_checked a b = None \<longleftrightarrow> 2 ^ LENGTH('a) \<le> unat (a :: 'a::len word) + unat b"
  by (auto simp: add_checked_def)

lemma sub_checked_Some_iff:
  "sub_checked a b = Some (c :: 'a::len word) \<longleftrightarrow> unat b \<le> unat a \<and> unat c = unat a - unat b"
  by (auto simp: sub_checked_def unat_sub word_le_nat_alt word_unat_eq_iff split: if_splits)

lemma sub_checked_None_iff: "sub_checked a b = None \<longleftrightarrow> unat a < unat b"
  by (auto simp: sub_checked_def word_le_nat_alt)

lemma unat_u32_to_u64 [simp, to_nat]: "unat (ucast (x :: u32) :: u64) = unat x"
  using unat_bound[of x] by (simp add: unsigned_ucast_eq take_bit_nat_eq_self)

lemma unat_u64_to_u32: "unat (x :: u64) < 2 ^ 32 \<Longrightarrow> unat (ucast x :: u32) = unat x"
  by (simp add: unsigned_ucast_eq take_bit_nat_eq_self)

lemma mult_less_square: "\<lbrakk>(a :: nat) < n; b < n\<rbrakk> \<Longrightarrow> a * b < n * n"
  by (rule mult_strict_mono) auto

text \<open>A product of two widened \<open>u32\<close> values never leaves the \<open>u64\<close> range.\<close>

lemma unat_mul_u32:
  fixes a b :: u32
  shows "unat (ucast a * ucast b :: u64) = unat a * unat b"
proof -
  have "unat a * unat b < 2 ^ 32 * 2 ^ 32"
    using unat_bound[of a] unat_bound[of b] by (intro mult_less_square) simp_all
  then show ?thesis by (simp add: unat_word_ariths)
qed

section \<open>Bytes: width, round trip, injectivity\<close>

lemma length_be_bytes [simp]: "length (be_bytes n x) = n"
  by (induction n arbitrary: x) auto

lemma from_be_append: "from_be (xs @ [b]) = from_be xs * 256 + unat b"
  by (simp add: from_be_def)

lemma from_be_be_bytes: "x < 256 ^ n \<Longrightarrow> from_be (be_bytes n x) = x"
proof (induction n arbitrary: x)
  case 0
  then show ?case by (simp add: from_be_def)
next
  case (Suc n)
  from Suc.prems have "x div 256 < 256 ^ n"
    by (simp add: less_mult_imp_div_less mult.commute)
  then have "from_be (be_bytes n (x div 256)) = x div 256"
    by (rule Suc.IH)
  moreover have "unat (of_nat (x mod 256) :: u8) = x mod 256"
    by (simp add: unat_of_nat)
  ultimately show ?case
    by (simp add: from_be_append)
qed

lemma from_be_u32 [simp]: "from_be (u32_be w) = unat w"
  unfolding u32_be_def using unat_bound[of w] by (intro from_be_be_bytes) simp

lemma from_be_u64 [simp]: "from_be (u64_be w) = unat w"
  unfolding u64_be_def using unat_bound[of w] by (intro from_be_be_bytes) simp

lemma from_be_u256 [simp]: "from_be (u256_be w) = unat w"
  unfolding u256_be_def using unat_lt_u256[of w] by (rule from_be_be_bytes)

lemma length_be [simp]:
  "length (u32_be a) = 4" "length (u64_be b) = 8" "length (u256_be c) = 32"
  by (simp_all add: u32_be_def u64_be_def u256_be_def)

lemma u32_be_inject [simp]: "u32_be a = u32_be b \<longleftrightarrow> a = b"
  by (metis from_be_u32 word_unat_eq_iff)

lemma u64_be_inject [simp]: "u64_be a = u64_be b \<longleftrightarrow> a = b"
  by (metis from_be_u64 word_unat_eq_iff)

lemma u256_be_inject [simp]: "u256_be a = u256_be b \<longleftrightarrow> a = b"
  by (metis from_be_u256 word_unat_eq_iff)

section \<open>List lemmas\<close>

lemma position_None_iff: "position P xs = None \<longleftrightarrow> (\<forall>x \<in> set xs. \<not> P x)"
  by (induction xs) auto

lemma position_Some:
  "position P xs = Some n \<Longrightarrow> n < length xs \<and> P (xs ! n) \<and> (\<forall>i < n. \<not> P (xs ! i))"
proof (induction xs arbitrary: n)
  case (Cons x xs)
  show ?case
  proof (cases "P x")
    case False
    with Cons.prems obtain m where "position P xs = Some m" and n: "n = Suc m" by auto
    then have "m < length xs \<and> P (xs ! m) \<and> (\<forall>i < m. \<not> P (xs ! i))" by (intro Cons.IH)
    with False n show ?thesis by (auto simp: nth_Cons split: nat.splits)
  qed (use Cons.prems in auto)
qed simp

lemma bind_res_Inr: "bind_res r f = Inr b \<longleftrightarrow> (\<exists>a. r = Inr a \<and> f a = Inr b)"
  by (cases r) (auto simp: bind_res_def)

lemma refuse_if_Inr: "refuse_if c e k = Inr b \<longleftrightarrow> \<not> c \<and> k = Inr b"
  by (simp add: refuse_if_def)

lemma map_err_Inr [simp]: "map_err f r = Inr a \<longleftrightarrow> r = Inr a"
  by (auto simp: map_err_def split: sum.splits)

lemmas res_Inr = bind_res_Inr refuse_if_Inr map_err_Inr

lemma find_SomeD: "find P xs = Some x \<Longrightarrow> P x \<and> x \<in> set xs"
  by (induction xs) (auto split: if_splits)

lemma set_somes: "x \<in> set (somes xs) \<longleftrightarrow> Some x \<in> set xs"
  by (induction xs rule: somes.induct) auto

lemma somes_replicate_None [simp]: "somes (replicate n None) = []"
  by (induction n) auto

lemma somes_update:
  "\<lbrakk>i < length xs; xs ! i = None\<rbrakk>
     \<Longrightarrow> length (somes (xs[i := Some q])) = Suc (length (somes xs)) \<and>
         set (somes (xs[i := Some q])) = insert q (set (somes xs))"
proof (induction xs arbitrary: i rule: somes.induct)
  case (2 xs)
  then show ?case by (cases i) auto
next
  case (3 x xs)
  then show ?case by (cases i) auto
qed simp

lemma foldl_min_Min: "foldl (\<lambda>lo q. min lo (f q)) (l :: 'a::linorder) qs = Min (insert l (f ` set qs))"
proof (induction qs arbitrary: l)
  case (Cons q qs)
  have "Min (insert (min l (f q)) (f ` set qs)) = min l (Min (insert (f q) (f ` set qs)))"
    by (cases "qs = []") (simp_all add: min.assoc)
  with Cons show ?case by simp
qed simp

lemma foldl_max_Max: "foldl (\<lambda>hi q. max hi (f q)) (h :: 'a::linorder) qs = Max (insert h (f ` set qs))"
proof (induction qs arbitrary: h)
  case (Cons q qs)
  have "Max (insert (max h (f q)) (f ` set qs)) = max h (Max (insert (f q) (f ` set qs)))"
    by (cases "qs = []") (simp_all add: max.assoc)
  with Cons show ?case by simp
qed simp

lemma first_elem_simps [simp]: "first_elem [] = None" "first_elem (x # xs) = Some x"
  by (simp_all add: first_elem_def)

lemma sum_res_Some [simp]: "sum_res r = Some a \<longleftrightarrow> r = Inr a"
  by (cases r) auto

end
