(* ===== verification/Styx_Units.thy ===== *)
theory Styx_Units
  imports Styx_Prelude
begin

text \<open>
  The unit newtypes of \<open>styx-core/src/units.rs\<close>, the collateral-ratio constants of
  \<open>consts.rs\<close> and the covenant collateral arithmetic of \<open>math.rs\<close>. Every newtype of the source is
  a datatype with one constructor, so that adding satoshis to OBOL does not type-check here
  either; the comparison operators the source derives are \<open>linorder\<close> instances.

  The central facts are \<open>unat_coll\<close> (the Rust port of \<open>coll_at_cr\<close> is the exact truncated
  quotient on the whole \<open>u32\<close> domain, with the zero-price convention) and its monotonicity in
  each argument; the builders, the keeper ladder and the explorer bands all rest on them.
\<close>

section \<open>Newtypes\<close>

datatype math_error = Overflow | Underflow | DebtExceedsU32 u64

datatype sats = Sats (sats_raw: u64)
datatype obol = Obol (obol_raw: u64)
datatype price = Price (price_raw: u32)
datatype ratio_k = RatioK (ratio_raw: u32)
datatype block_height = BlockHeight (height_raw: u32)

definition sats_ZERO :: sats where
  "sats_ZERO = Sats 0"

definition obol_ZERO :: obol where
  "obol_ZERO = Obol 0"

definition sats_checked_add :: "sats \<Rightarrow> sats \<Rightarrow> math_error + sats" where
  "sats_checked_add a b =
     (case add_checked (sats_raw a) (sats_raw b) of
        Some c \<Rightarrow> Inr (Sats c) | None \<Rightarrow> Inl Overflow)"

definition sats_checked_sub :: "sats \<Rightarrow> sats \<Rightarrow> math_error + sats" where
  "sats_checked_sub a b =
     (case sub_checked (sats_raw a) (sats_raw b) of
        Some c \<Rightarrow> Inr (Sats c) | None \<Rightarrow> Inl Underflow)"

definition obol_checked_add :: "obol \<Rightarrow> obol \<Rightarrow> math_error + obol" where
  "obol_checked_add a b =
     (case add_checked (obol_raw a) (obol_raw b) of
        Some c \<Rightarrow> Inr (Obol c) | None \<Rightarrow> Inl Overflow)"

definition obol_checked_sub :: "obol \<Rightarrow> obol \<Rightarrow> math_error + obol" where
  "obol_checked_sub a b =
     (case sub_checked (obol_raw a) (obol_raw b) of
        Some c \<Rightarrow> Inr (Obol c) | None \<Rightarrow> Inl Underflow)"

text \<open>The narrowing to the covenants' 32-bit cents domain.\<close>

definition covenant_cents :: "obol \<Rightarrow> math_error + u32" where
  "covenant_cents d =
     (if unat (obol_raw d) < 2 ^ 32 then Inr (ucast (obol_raw d))
      else Inl (DebtExceedsU32 (obol_raw d)))"

definition PER_CR_PERCENT :: u32 where
  "PER_CR_PERCENT = 2000000"

definition from_cr_percent :: "u32 \<Rightarrow> ratio_k" where
  "from_cr_percent percent = RatioK (percent * PER_CR_PERCENT)"

text \<open>The derived orderings compare the wrapped integers.\<close>

instantiation sats :: linorder
begin
definition less_eq_sats :: "sats \<Rightarrow> sats \<Rightarrow> bool" where
  "less_eq_sats a b \<longleftrightarrow> sats_raw a \<le> sats_raw b"
definition less_sats :: "sats \<Rightarrow> sats \<Rightarrow> bool" where
  "less_sats a b \<longleftrightarrow> sats_raw a < sats_raw b"
instance
  by standard (auto simp: less_eq_sats_def less_sats_def sats.expand)
end

instantiation obol :: linorder
begin
definition less_eq_obol :: "obol \<Rightarrow> obol \<Rightarrow> bool" where
  "less_eq_obol a b \<longleftrightarrow> obol_raw a \<le> obol_raw b"
definition less_obol :: "obol \<Rightarrow> obol \<Rightarrow> bool" where
  "less_obol a b \<longleftrightarrow> obol_raw a < obol_raw b"
instance
  by standard (auto simp: less_eq_obol_def less_obol_def obol.expand)
end

instantiation price :: linorder
begin
definition less_eq_price :: "price \<Rightarrow> price \<Rightarrow> bool" where
  "less_eq_price a b \<longleftrightarrow> price_raw a \<le> price_raw b"
definition less_price :: "price \<Rightarrow> price \<Rightarrow> bool" where
  "less_price a b \<longleftrightarrow> price_raw a < price_raw b"
instance
  by standard (auto simp: less_eq_price_def less_price_def price.expand)
end

instantiation ratio_k :: linorder
begin
definition less_eq_ratio_k :: "ratio_k \<Rightarrow> ratio_k \<Rightarrow> bool" where
  "less_eq_ratio_k a b \<longleftrightarrow> ratio_raw a \<le> ratio_raw b"
definition less_ratio_k :: "ratio_k \<Rightarrow> ratio_k \<Rightarrow> bool" where
  "less_ratio_k a b \<longleftrightarrow> ratio_raw a < ratio_raw b"
instance
  by standard (auto simp: less_eq_ratio_k_def less_ratio_k_def ratio_k.expand)
end

instantiation block_height :: linorder
begin
definition less_eq_block_height :: "block_height \<Rightarrow> block_height \<Rightarrow> bool" where
  "less_eq_block_height a b \<longleftrightarrow> height_raw a \<le> height_raw b"
definition less_block_height :: "block_height \<Rightarrow> block_height \<Rightarrow> bool" where
  "less_block_height a b \<longleftrightarrow> height_raw a < height_raw b"
instance
  by standard (auto simp: less_eq_block_height_def less_block_height_def block_height.expand)
end

section \<open>Collateral-ratio constants\<close>

definition K_PAR :: ratio_k where
  "K_PAR = from_cr_percent 100"
definition K_FULL_LIQ_CAP :: ratio_k where
  "K_FULL_LIQ_CAP = from_cr_percent 115"
definition K_HEALTH_GATE :: ratio_k where
  "K_HEALTH_GATE = from_cr_percent 130"
definition K_HEAL_LO :: ratio_k where
  "K_HEAL_LO = from_cr_percent 132"
definition K_HEAL_HI :: ratio_k where
  "K_HEAL_HI = from_cr_percent 137"
definition K_OPEN_MIN :: ratio_k where
  "K_OPEN_MIN = from_cr_percent 150"
definition K_FEE_HALF_PERCENT :: ratio_k where
  "K_FEE_HALF_PERCENT = RatioK 1000000"
definition K_RESERVE_SHARE :: ratio_k where
  "K_RESERVE_SHARE = RatioK 10000000"
definition K_BAD_DEBT_CAP :: ratio_k where
  "K_BAD_DEBT_CAP = RatioK 40000000"

section \<open>Covenant collateral arithmetic\<close>

definition coll_at_cr :: "u32 \<Rightarrow> price \<Rightarrow> ratio_k \<Rightarrow> sats" where
  "coll_at_cr debt_cents p k =
     (let numerator = (ucast debt_cents * ucast (ratio_raw k) :: u64);
          denom = (ucast (price_raw p) * 200 :: u64)
      in if denom = 0 then sats_ZERO else Sats (numerator div denom))"

definition coll_at_cr_obol :: "obol \<Rightarrow> price \<Rightarrow> ratio_k \<Rightarrow> math_error + sats" where
  "coll_at_cr_obol debt p k =
     (case covenant_cents debt of
        Inl e \<Rightarrow> Inl e | Inr cents \<Rightarrow> Inr (coll_at_cr cents p k))"

definition bad_debt_reserve_pay :: "u32 \<Rightarrow> price \<Rightarrow> sats \<Rightarrow> sats \<Rightarrow> sats" where
  "bad_debt_reserve_pay debt_cents p coll reserve =
     (let debt_sats = coll_at_cr debt_cents p K_PAR;
          shortfall = sat_sub (sats_raw debt_sats) (sats_raw coll);
          bounty = sats_raw (coll_at_cr debt_cents p K_RESERVE_SHARE);
          cap = sats_raw (coll_at_cr debt_cents p K_BAD_DEBT_CAP)
      in Sats (min (min (sat_add shortfall bounty) cap) (sats_raw reserve)))"

section \<open>The amount interface\<close>

text \<open>
  The macro \<open>amount_newtype!\<close> gives every amount type the same constructor, projection and
  checked operations. The locale states that contract once; the lemmas proved from it are
  instantiated for both amount types below.
\<close>

locale amount_newtype =
  fixes mk :: "u64 \<Rightarrow> 'a"
    and raw :: "'a \<Rightarrow> u64"
    and cadd :: "'a \<Rightarrow> 'a \<Rightarrow> math_error + 'a"
    and csub :: "'a \<Rightarrow> 'a \<Rightarrow> math_error + 'a"
  assumes raw_mk: "raw (mk x) = x"
    and mk_raw: "mk (raw a) = a"
    and cadd_eq: "cadd a b =
      (case add_checked (raw a) (raw b) of Some c \<Rightarrow> Inr (mk c) | None \<Rightarrow> Inl Overflow)"
    and csub_eq: "csub a b =
      (case sub_checked (raw a) (raw b) of Some c \<Rightarrow> Inr (mk c) | None \<Rightarrow> Inl Underflow)"
begin

lemma raw_inject: "raw a = raw b \<longleftrightarrow> a = b"
  by (metis mk_raw)

lemma cadd_Inr_iff:
  "cadd a b = Inr c \<longleftrightarrow> unat (raw a) + unat (raw b) < 2 ^ 64 \<and> unat (raw c) = unat (raw a) + unat (raw b)"
  by (auto simp: cadd_eq raw_mk add_checked_Some_iff add_checked_None_iff
      simp flip: raw_inject word_unat_eq_iff split: option.splits)
    (auto simp: word_unat_eq_iff)

lemma csub_Inr_iff:
  "csub a b = Inr c \<longleftrightarrow> unat (raw b) \<le> unat (raw a) \<and> unat (raw c) = unat (raw a) - unat (raw b)"
  by (auto simp: csub_eq raw_mk sub_checked_Some_iff sub_checked_None_iff
      simp flip: raw_inject word_unat_eq_iff split: option.splits)
    (auto simp: word_unat_eq_iff)

lemma cadd_Inl_iff: "cadd a b = Inl e \<longleftrightarrow> e = Overflow \<and> 2 ^ 64 \<le> unat (raw a) + unat (raw b)"
  by (auto simp: cadd_eq add_checked_def split: option.splits if_splits)

lemma csub_Inl_iff: "csub a b = Inl e \<longleftrightarrow> e = Underflow \<and> unat (raw a) < unat (raw b)"
  by (auto simp: csub_eq sub_checked_def word_le_nat_alt split: option.splits if_splits)

lemma cadd_csub: "cadd a b = Inr c \<Longrightarrow> csub c b = Inr a"
  by (simp add: cadd_Inr_iff csub_Inr_iff)

lemma csub_cadd: "csub a b = Inr c \<Longrightarrow> cadd c b = Inr a"
  using unat_lt_u64[of "raw a"] by (simp add: cadd_Inr_iff csub_Inr_iff)

end

interpretation sats_amt: amount_newtype Sats sats_raw sats_checked_add sats_checked_sub
  by unfold_locales (simp_all add: sats_checked_add_def sats_checked_sub_def)

interpretation obol_amt: amount_newtype Obol obol_raw obol_checked_add obol_checked_sub
  by unfold_locales (simp_all add: obol_checked_add_def obol_checked_sub_def)

section \<open>Comparison and narrowing through natural numbers\<close>

lemmas unit_order [to_nat] =
  less_eq_sats_def less_sats_def less_eq_obol_def less_obol_def less_eq_price_def less_price_def
  less_eq_ratio_k_def less_ratio_k_def less_eq_block_height_def less_block_height_def

lemma covenant_cents_Inr_iff:
  "covenant_cents d = Inr c \<longleftrightarrow> unat (obol_raw d) < 2 ^ 32 \<and> unat c = unat (obol_raw d)"
  by (auto simp: covenant_cents_def unat_u64_to_u32 word_unat_eq_iff)

lemma covenant_cents_Inl_iff:
  "covenant_cents d = Inl e \<longleftrightarrow> e = DebtExceedsU32 (obol_raw d) \<and> 2 ^ 32 \<le> unat (obol_raw d)"
  by (auto simp: covenant_cents_def)

lemma K_raw [simp]:
  "unat (ratio_raw K_PAR) = 200000000"
  "unat (ratio_raw K_FULL_LIQ_CAP) = 230000000"
  "unat (ratio_raw K_HEALTH_GATE) = 260000000"
  "unat (ratio_raw K_HEAL_LO) = 264000000"
  "unat (ratio_raw K_HEAL_HI) = 274000000"
  "unat (ratio_raw K_OPEN_MIN) = 300000000"
  "unat (ratio_raw K_FEE_HALF_PERCENT) = 1000000"
  "unat (ratio_raw K_RESERVE_SHARE) = 10000000"
  "unat (ratio_raw K_BAD_DEBT_CAP) = 40000000"
  by (simp_all add: K_PAR_def K_FULL_LIQ_CAP_def K_HEALTH_GATE_def K_HEAL_LO_def K_HEAL_HI_def
      K_OPEN_MIN_def K_FEE_HALF_PERCENT_def K_RESERVE_SHARE_def K_BAD_DEBT_CAP_def
      from_cr_percent_def PER_CR_PERCENT_def)

section \<open>The collateral formula is the exact truncated quotient\<close>

abbreviation coll_nat :: "nat \<Rightarrow> nat \<Rightarrow> nat \<Rightarrow> nat" where
  "coll_nat d p k \<equiv> d * k div (p * 200)"

lemma unat_denom: "unat (ucast (p :: u32) * 200 :: u64) = unat p * 200"
proof -
  have "unat p * 200 < 2 ^ 64" using unat_lt_u32[of p] by simp
  then show ?thesis by (simp add: unat_word_ariths)
qed

lemma unat_coll [to_nat]:
  "unat (sats_raw (coll_at_cr d p k)) = coll_nat (unat d) (unat (price_raw p)) (unat (ratio_raw k))"
proof -
  have "(ucast (price_raw p) * 200 :: u64) = 0 \<longleftrightarrow> unat (price_raw p) = 0"
    using unat_denom[of "price_raw p"] by (metis mult_is_0 unat_eq_zero zero_neq_numeral)
  then show ?thesis
    by (auto simp: coll_at_cr_def Let_def sats_ZERO_def unat_div unat_mul_u32 unat_denom)
qed

lemma coll_zero_debt [simp]: "coll_at_cr 0 p k = Sats 0"
  by (rule sats.expand) (simp add: unat_coll word_unat_eq_iff)

lemma coll_nat_bound: "\<lbrakk>d < 2 ^ 32; k < 2 ^ 32\<rbrakk> \<Longrightarrow> coll_nat d p k < 2 ^ 64 div 200 + 1"
proof -
  assume "d < 2 ^ 32" "k < 2 ^ 32"
  then have "d * k < 2 ^ 32 * 2 ^ 32" by (intro mult_less_square)
  then have "d * k div 200 < 2 ^ 64 div 200 + 1" by simp
  moreover have "coll_nat d p k \<le> d * k div 200"
    by (cases "p = 0") (simp_all add: div_le_mono2)
  ultimately show ?thesis by linarith
qed

lemma coll_nat_mono_debt: "d \<le> d' \<Longrightarrow> coll_nat d p k \<le> coll_nat d' p k"
  by (intro div_le_mono mult_le_mono1)

lemma coll_nat_mono_k: "k \<le> k' \<Longrightarrow> coll_nat d p k \<le> coll_nat d p k'"
  by (intro div_le_mono mult_le_mono2)

lemma coll_nat_antimono_price: "\<lbrakk>0 < p; p \<le> p'\<rbrakk> \<Longrightarrow> coll_nat d p' k \<le> coll_nat d p k"
  by (rule div_le_mono2) auto

lemma coll_nat_superadditive: "coll_nat a p k + coll_nat b p k \<le> coll_nat (a + b) p k"
proof (cases "p = 0")
  case False
  let ?n = "p * 200"
  have "(a * k div ?n + b * k div ?n) * ?n \<le> a * k + b * k"
    by (simp add: add_mult_distrib add_mono div_times_less_eq_dividend)
  then have "(a * k div ?n + b * k div ?n) * ?n div ?n \<le> (a * k + b * k) div ?n"
    by (rule div_le_mono)
  with False show ?thesis by (simp add: add_mult_distrib)
qed simp

lemma coll_nat_superadditive_k: "coll_nat d p a + coll_nat d p b \<le> coll_nat d p (a + b)"
  using coll_nat_superadditive[where a = a and b = b and k = d] by (simp add: mult.commute)

section \<open>The bad-debt payout\<close>

lemma u32_price_le: "unat (ratio_raw k) \<le> 300000000 \<Longrightarrow> unat (sats_raw (coll_at_cr d p k)) < 2 ^ 60"
proof -
  assume "unat (ratio_raw k) \<le> 300000000"
  then have "coll_nat (unat d) (unat (price_raw p)) (unat (ratio_raw k)) < 2 ^ 64 div 200 + 1"
    using unat_lt_u32[of d] unat_lt_u32[of "ratio_raw k"] by (intro coll_nat_bound) simp_all
  then show ?thesis by (simp add: unat_coll)
qed

lemma unat_reserve_pay [to_nat]:
  "unat (sats_raw (bad_debt_reserve_pay d p coll reserve)) =
     min (min ((coll_nat (unat d) (unat (price_raw p)) 200000000 - unat (sats_raw coll)) +
               coll_nat (unat d) (unat (price_raw p)) 10000000)
              (coll_nat (unat d) (unat (price_raw p)) 40000000))
         (unat (sats_raw reserve))"
proof -
  have "unat (sats_raw (coll_at_cr d p K_PAR)) < 2 ^ 60"
    "unat (sats_raw (coll_at_cr d p K_RESERVE_SHARE)) < 2 ^ 60"
    by (rule u32_price_le, simp)+
  then have "unat (sat_sub (sats_raw (coll_at_cr d p K_PAR)) (sats_raw coll)) +
      unat (sats_raw (coll_at_cr d p K_RESERVE_SHARE)) < 2 ^ LENGTH(64)"
    by simp
  from unat_sat_add_exact[OF this] show ?thesis
    by (simp add: bad_debt_reserve_pay_def Let_def unat_min unat_coll)
qed

section \<open>Properties\<close>

text \<open>
  C39 (coll_at_cr_exact): on the whole domain of the covenants' 32-bit cents, prices and ratios the
  machine computation of \<open>coll_at_cr\<close> is the exact truncated quotient
  \<open>debt * k / (price * 200)\<close>, zero at price zero: neither product wraps, and the result always
  fits 57 bits.
\<close>

theorem coll_at_cr_exact:
  "unat (sats_raw (coll_at_cr d p k)) =
     (if price_raw p = 0 then 0
      else unat d * unat (ratio_raw k) div (unat (price_raw p) * 200)) \<and>
   unat (sats_raw (coll_at_cr d p k)) < 2 ^ 57"
proof -
  have "coll_nat (unat d) (unat (price_raw p)) (unat (ratio_raw k)) < 2 ^ 64 div 200 + 1"
    using unat_lt_u32[of d] unat_lt_u32[of "ratio_raw k"] by (intro coll_nat_bound) simp_all
  then show ?thesis by (simp add: unat_coll)
qed

text \<open>
  More debt or a higher ratio never needs less collateral, and a higher
  (positive) price never needs more. The directional choice of the low quote for minting and the
  high quote for liquidation rests on this.
\<close>

lemma coll_at_cr_monotone:
  assumes "d \<le> d'" "k \<le> k'" "p' \<le> p" "price_raw p' \<noteq> 0"
  shows "coll_at_cr d p k \<le> coll_at_cr d' p' k'"
proof -
  let ?D = "unat d" and ?D' = "unat d'" and ?P = "unat (price_raw p)" and ?P' = "unat (price_raw p')"
  let ?K = "unat (ratio_raw k)" and ?K' = "unat (ratio_raw k')"
  have le: "?D \<le> ?D'" "?K \<le> ?K'" "?P' \<le> ?P" "0 < ?P'"
    using assms by (simp_all add: to_nat unat_gt_0)
  have "coll_nat ?D ?P ?K \<le> coll_nat ?D ?P' ?K" using le by (intro coll_nat_antimono_price)
  also have "\<dots> \<le> coll_nat ?D' ?P' ?K" using le by (intro coll_nat_mono_debt)
  also have "\<dots> \<le> coll_nat ?D' ?P' ?K'" using le by (intro coll_nat_mono_k)
  finally show ?thesis by (simp add: to_nat)
qed

text \<open>
  The reserve never pays more than it holds nor more than 20% of the
  debt, no saturating operation saturates, and whenever the reserve and the cap allow it the
  payout is exactly the shortfall plus the 5% bounty, so the keeper's collateral plus payout is
  worth at least the debt.
\<close>

lemma bad_debt_pay_bounds:
  "sats_raw (bad_debt_reserve_pay d p coll reserve) \<le> sats_raw reserve \<and>
   bad_debt_reserve_pay d p coll reserve \<le> coll_at_cr d p K_BAD_DEBT_CAP \<and>
   unat (sats_raw (bad_debt_reserve_pay d p coll reserve)) =
     min (min (unat (sats_raw (coll_at_cr d p K_PAR)) - unat (sats_raw coll) +
               unat (sats_raw (coll_at_cr d p K_RESERVE_SHARE)))
              (unat (sats_raw (coll_at_cr d p K_BAD_DEBT_CAP))))
         (unat (sats_raw reserve)) \<and>
   (unat (sats_raw (coll_at_cr d p K_PAR)) \<le>
      unat (sats_raw coll) + unat (sats_raw (bad_debt_reserve_pay d p coll reserve)) \<or>
    bad_debt_reserve_pay d p coll reserve = reserve \<or>
    bad_debt_reserve_pay d p coll reserve = coll_at_cr d p K_BAD_DEBT_CAP)"
proof -
  have inj: "unat (sats_raw x) = unat (sats_raw y) \<longleftrightarrow> x = y" for x y
    by (simp add: sats.expand word_unat_eq_iff[symmetric] sats_amt.raw_inject)
  have pay: "unat (sats_raw (bad_debt_reserve_pay d p coll reserve)) =
      min (min (unat (sats_raw (coll_at_cr d p K_PAR)) - unat (sats_raw coll) +
                unat (sats_raw (coll_at_cr d p K_RESERVE_SHARE)))
               (unat (sats_raw (coll_at_cr d p K_BAD_DEBT_CAP)))) (unat (sats_raw reserve))"
    by (simp add: unat_reserve_pay unat_coll)
  note cases = min3_cases[OF pay, unfolded inj]
  show ?thesis
    unfolding less_eq_sats_def word_le_nat_alt by (intro conjI pay) (use cases in blast)+
qed

end
