(* ===== verification/Styx_Oracle.thy ===== *)
theory Styx_Oracle
  imports Styx_Units
begin

text \<open>
  Oracle ticks (\<open>styx-core/src/oracle.rs\<close>): the signed payload and its digest, the five slots,
  the 3-of-5 tick constructor and the directional price range. The hash and the signature scheme
  belong to libraries outside the repository; they are arguments \<open>sha256\<close> and \<open>sign\<close> of the
  definitions that use them.
\<close>

section \<open>Payloads, slots and ticks\<close>

definition LOCK_TIME_HEIGHT_THRESHOLD :: u32 where
  "LOCK_TIME_HEIGHT_THRESHOLD = 500000000"

datatype oracle_error = InvalidSlot u8 | DuplicateSlot u8 | HeightAboveThreshold u32

record tick_payload =
  tp_height :: block_height
  tp_price :: price
  tp_backing_k :: ratio_k

definition tick_preimage :: "tick_payload \<Rightarrow> bytes" where
  "tick_preimage p =
     u32_be (height_raw (tp_height p)) @ u32_be (price_raw (tp_price p)) @ u32_be (ratio_raw (tp_backing_k p))"

definition tick_digest :: "(bytes \<Rightarrow> bytes) \<Rightarrow> tick_payload \<Rightarrow> bytes" where
  "tick_digest sha256 p = sha256 (tick_preimage p)"

datatype oracle_slot = OracleSlot (slot_byte: u8)

definition oracle_slot_new :: "u8 \<Rightarrow> oracle_error + oracle_slot" where
  "oracle_slot_new i = (if 4 < i then Inl (InvalidSlot i) else Inr (OracleSlot i))"

definition slot_index :: "oracle_slot \<Rightarrow> nat" where
  "slot_index s = unat (slot_byte s)"

text \<open>The wrapped byte is private in the source: a slot only comes from the constructor.\<close>

definition slot_ok :: "oracle_slot \<Rightarrow> bool" where
  "slot_ok s \<longleftrightarrow> slot_index s < 5"

record signed_quote =
  sq_price :: price
  sq_sig :: bytes

record oracle_tick =
  ot_height :: block_height
  ot_backing_k :: ratio_k
  ot_slots :: "signed_quote option list"

type_synonym slotted_quote = "oracle_slot \<times> signed_quote"

fun place_quotes ::
  "signed_quote option list \<Rightarrow> slotted_quote list \<Rightarrow> oracle_error + signed_quote option list" where
  "place_quotes slots [] = Inr slots"
| "place_quotes slots ((s, q) # rest) =
     (if slots ! slot_index s \<noteq> None then Inl (DuplicateSlot (slot_byte s))
      else place_quotes (slots[slot_index s := Some q]) rest)"

definition oracle_tick_new ::
  "block_height \<Rightarrow> ratio_k \<Rightarrow> slotted_quote \<times> slotted_quote \<times> slotted_quote \<Rightarrow> oracle_error + oracle_tick" where
  "oracle_tick_new h k qs =
     (case qs of (q1, q2, q3) \<Rightarrow>
        if LOCK_TIME_HEIGHT_THRESHOLD \<le> height_raw h then Inl (HeightAboveThreshold (height_raw h))
        else (case place_quotes (replicate 5 None) [q1, q2, q3] of
                Inl e \<Rightarrow> Inl e
              | Inr slots \<Rightarrow> Inr \<lparr>ot_height = h, ot_backing_k = k, ot_slots = slots\<rparr>))"

definition active_quotes :: "oracle_tick \<Rightarrow> signed_quote list" where
  "active_quotes t = somes (ot_slots t)"

definition price_range :: "oracle_tick \<Rightarrow> price \<times> price" where
  "price_range t =
     foldl (\<lambda>(lo, hi) q. (min lo (sq_price q), max hi (sq_price q)))
       (Price u32_max, Price 0) (active_quotes t)"

definition sign_quote ::
  "(bytes \<Rightarrow> bytes) \<Rightarrow> ('key \<Rightarrow> bytes \<Rightarrow> bytes) \<Rightarrow> 'key \<Rightarrow> tick_payload \<Rightarrow> signed_quote" where
  "sign_quote sha256 sign kp p = \<lparr>sq_price = tp_price p, sq_sig = sign kp (tick_digest sha256 p)\<rparr>"

text \<open>What every tick built by the constructor satisfies.\<close>

definition tick_wf :: "oracle_tick \<Rightarrow> bool" where
  "tick_wf t \<longleftrightarrow> length (ot_slots t) = 5 \<and> length (active_quotes t) = 3 \<and>
     height_raw (ot_height t) < LOCK_TIME_HEIGHT_THRESHOLD"

abbreviation tick_lo :: "oracle_tick \<Rightarrow> price" where
  "tick_lo t \<equiv> fst (price_range t)"

abbreviation tick_hi :: "oracle_tick \<Rightarrow> price" where
  "tick_hi t \<equiv> snd (price_range t)"

section \<open>Filling slots\<close>

lemma slot_ok_new: "oracle_slot_new i = Inr s \<Longrightarrow> slot_ok s \<and> slot_byte s = i"
  by (auto simp: oracle_slot_new_def slot_ok_def slot_index_def word_less_nat_alt split: if_splits)

lemma slot_index_inject: "slot_index s = slot_index s' \<longleftrightarrow> s = s'"
  by (cases s; cases s') (simp add: slot_index_def word_unat_eq_iff)

lemma place_quotes_length:
  "place_quotes slots qs = Inr slots' \<Longrightarrow> length slots' = length slots"
  by (induction slots qs rule: place_quotes.induct) (auto split: if_splits)

lemma place_quotes_keep:
  "\<lbrakk>place_quotes slots qs = Inr slots'; slots ! i = Some q; i < length slots\<rbrakk> \<Longrightarrow> slots' ! i = Some q"
proof (induction slots qs rule: place_quotes.induct)
  case (2 slots s q' rest)
  then show ?case by (cases "i = slot_index s") (auto split: if_splits)
qed simp

lemma place_quotes_placed:
  "\<lbrakk>place_quotes slots qs = Inr slots'; (s, q) \<in> set qs; slot_index s < length slots\<rbrakk>
     \<Longrightarrow> slots' ! slot_index s = Some q"
proof (induction slots qs rule: place_quotes.induct)
  case (2 slots s' q' rest)
  then have rest: "place_quotes (slots[slot_index s' := Some q']) rest = Inr slots'"
    and free: "slots ! slot_index s' = None" by (auto split: if_splits)
  from "2.prems"(2) consider "(s, q) = (s', q')" | "(s, q) \<in> set rest" by auto
  then show ?case
  proof cases
    case 1
    with "2.prems"(3) place_quotes_keep[OF rest, of "slot_index s'" q'] show ?thesis by simp
  next
    case 2
    with "2.IH" free rest "2.prems"(3) show ?thesis by simp
  qed
qed simp

lemma place_quotes_distinct:
  "\<lbrakk>\<forall>(s, q) \<in> set qs. slot_index s < length slots \<and> slots ! slot_index s = None;
    distinct (map fst qs)\<rbrakk> \<Longrightarrow> \<exists>slots'. place_quotes slots qs = Inr slots'"
proof (induction slots qs rule: place_quotes.induct)
  case (2 slots s q rest)
  from "2.prems" have "\<forall>(s', q') \<in> set rest. slot_index s' < length (slots[slot_index s := Some q]) \<and>
      slots[slot_index s := Some q] ! slot_index s' = None"
    by (force simp: nth_list_update slot_index_inject)
  with "2.IH" "2.prems" show ?case by auto
qed simp

lemma place_quotes_dup:
  "\<lbrakk>place_quotes slots qs = Inr slots'; \<forall>(s, q) \<in> set qs. slot_index s < length slots\<rbrakk>
     \<Longrightarrow> distinct (map fst qs) \<and> (\<forall>(s, q) \<in> set qs. slots ! slot_index s = None)"
proof (induction slots qs rule: place_quotes.induct)
  case (2 slots s q rest)
  then have "distinct (map fst rest)"
    and free: "\<forall>(s', q') \<in> set rest. slots[slot_index s := Some q] ! slot_index s' = None"
    and none: "slots ! slot_index s = None"
    by (auto split: if_splits)
  moreover have "s' \<noteq> s \<and> slots ! slot_index s' = None" if "(s', q') \<in> set rest" for s' q'
    using free that "2.prems"(2) by (fastforce simp: nth_list_update split: if_splits)
  ultimately show ?case by (force simp: image_iff)
qed simp

lemma place_quotes_active:
  "\<lbrakk>place_quotes slots qs = Inr slots'; \<forall>(s, q) \<in> set qs. slot_index s < length slots\<rbrakk>
     \<Longrightarrow> length (somes slots') = length (somes slots) + length qs \<and>
         set (somes slots') = set (somes slots) \<union> snd ` set qs"
proof (induction slots qs rule: place_quotes.induct)
  case (2 slots s q rest)
  then have "slot_index s < length slots" "slots ! slot_index s = None"
    by (auto split: if_splits)
  from somes_update[OF this, of q] "2" show ?case
    by (auto split: if_splits)
qed simp

section \<open>The price range\<close>

lemma price_fold:
  "foldl (\<lambda>(lo, hi) q. (min lo (sq_price q), max hi (sq_price q))) (l, h) qs =
     (foldl (\<lambda>lo q. min lo (sq_price q)) l qs, foldl (\<lambda>hi q. max hi (sq_price q)) h qs)"
  by (induction qs arbitrary: l h) auto

lemma price_top: "p \<le> Price u32_max"
  by (simp add: less_eq_price_def word_le_nat_alt) (use unat_lt_u32[of "price_raw p"] in simp)

lemma price_bot: "Price 0 \<le> p"
  by (simp add: less_eq_price_def)

lemma price_range_Min_Max:
  assumes "active_quotes t \<noteq> []"
  shows "price_range t = (Min (sq_price ` set (active_quotes t)), Max (sq_price ` set (active_quotes t)))"
proof -
  let ?P = "sq_price ` set (active_quotes t)"
  have fin: "finite ?P" "?P \<noteq> {}" using assms by auto
  have "Min (insert (Price u32_max) ?P) = Min ?P"
    using fin price_top by (simp add: min_absorb2)
  moreover have "Max (insert (Price 0) ?P) = Max ?P"
    using fin price_bot by (simp add: max_absorb2)
  ultimately show ?thesis
    by (simp add: price_range_def price_fold foldl_min_Min foldl_max_Max)
qed

lemma tick_wf_active: "tick_wf t \<Longrightarrow> active_quotes t \<noteq> []"
  by (auto simp: tick_wf_def)

lemma tick_lo_le_hi: "tick_wf t \<Longrightarrow> tick_lo t \<le> tick_hi t"
  by (simp add: price_range_Min_Max tick_wf_active)

lemma tick_hi_pos: "\<lbrakk>tick_wf t; tick_lo t \<noteq> Price 0\<rbrakk> \<Longrightarrow> 0 < unat (price_raw (tick_hi t))"
  using tick_lo_le_hi[of t] price_bot[of "tick_lo t"]
  by (auto simp: less_eq_price_def word_le_nat_alt price.expand unat_gt_0)
    (metis dual_order.antisym le0 price.collapse unat_eq_zero)

section \<open>The constructor and the digest\<close>

text \<open>
  The tick constructor accepts three quotes exactly when the height
  is a block height (below the BIP65 threshold) and the three slots are distinct; the tick it
  returns has exactly three active slots, holding exactly the three given quotes, each at its own
  slot, so a quorum shape other than 3-of-5 cannot be represented.
\<close>

lemma oracle_tick_new_quorum:
  assumes "slot_ok s1" "slot_ok s2" "slot_ok s3"
  shows "((\<exists>t. oracle_tick_new h k ((s1, q1), (s2, q2), (s3, q3)) = Inr t) \<longleftrightarrow>
            height_raw h < LOCK_TIME_HEIGHT_THRESHOLD \<and> distinct [s1, s2, s3]) \<and>
         (\<forall>t. oracle_tick_new h k ((s1, q1), (s2, q2), (s3, q3)) = Inr t \<longrightarrow>
            tick_wf t \<and> ot_height t = h \<and> ot_backing_k t = k \<and>
            set (active_quotes t) = {q1, q2, q3} \<and> ot_slots t ! slot_index s1 = Some q1 \<and>
            ot_slots t ! slot_index s2 = Some q2 \<and> ot_slots t ! slot_index s3 = Some q3)"
    (is "?accepts \<and> ?result")
proof
  let ?qs = "[(s1, q1), (s2, q2), (s3, q3)]"
  let ?none = "replicate 5 (None :: signed_quote option)"
  have ix: "\<forall>(s, q) \<in> set ?qs. slot_index s < length ?none"
    and empty: "\<forall>(s, q) \<in> set ?qs. slot_index s < length ?none \<and> ?none ! slot_index s = None"
    using assms by (auto simp: slot_ok_def)
  have "(\<exists>slots. place_quotes ?none ?qs = Inr slots) \<longleftrightarrow> distinct [s1, s2, s3]"
  proof
    assume "\<exists>slots. place_quotes ?none ?qs = Inr slots"
    then obtain slots where "place_quotes ?none ?qs = Inr slots" ..
    from place_quotes_dup[OF this ix] show "distinct [s1, s2, s3]" by simp
  next
    assume "distinct [s1, s2, s3]"
    then have "distinct (map fst ?qs)" by simp
    from place_quotes_distinct[OF empty this] show "\<exists>slots. place_quotes ?none ?qs = Inr slots" .
  qed
  then show ?accepts
    by (auto simp: oracle_tick_new_def simp del: place_quotes.simps split: sum.splits)
  show ?result
  proof (intro allI impI)
    fix t
    assume "oracle_tick_new h k ((s1, q1), (s2, q2), (s3, q3)) = Inr t"
    then obtain slots where slots: "place_quotes ?none ?qs = Inr slots"
      and t: "t = \<lparr>ot_height = h, ot_backing_k = k, ot_slots = slots\<rparr>"
      and h: "height_raw h < LOCK_TIME_HEIGHT_THRESHOLD"
      by (auto simp: oracle_tick_new_def simp del: place_quotes.simps split: sum.splits if_splits)
    from place_quotes_active[OF slots ix] place_quotes_length[OF slots]
      place_quotes_placed[OF slots] ix t h
    show "tick_wf t \<and> ot_height t = h \<and> ot_backing_k t = k \<and>
        set (active_quotes t) = {q1, q2, q3} \<and> ot_slots t ! slot_index s1 = Some q1 \<and>
        ot_slots t ! slot_index s2 = Some q2 \<and> ot_slots t ! slot_index s3 = Some q3"
      by (auto simp: tick_wf_def active_quotes_def)
  qed
qed

definition sample_quote :: "u32 \<Rightarrow> signed_quote" where
  "sample_quote p = \<lparr>sq_price = Price p, sq_sig = replicate 64 0\<rparr>"

definition sample_tick :: "u32 \<Rightarrow> u32 \<Rightarrow> u32 \<Rightarrow> u32 \<Rightarrow> oracle_tick" where
  "sample_tick h a b c =
     \<lparr>ot_height = BlockHeight h, ot_backing_k = K_PAR,
      ot_slots = [Some (sample_quote a), None, Some (sample_quote b), None, Some (sample_quote c)]\<rparr>"

text \<open>
  For every tick the constructor can build, \<open>price_range\<close> returns
  the least and the greatest of the active quotes; both are prices an oracle really signed in this
  tick and the low side never exceeds the high side, which is what the mint gates (low) and the
  liquidation gates (high) rely on.
\<close>

lemma price_range_directional:
  assumes "tick_wf t"
  shows "tick_lo t \<in> sq_price ` set (active_quotes t) \<and> tick_hi t \<in> sq_price ` set (active_quotes t) \<and>
    (\<forall>q \<in> set (active_quotes t). tick_lo t \<le> sq_price q \<and> sq_price q \<le> tick_hi t) \<and>
    tick_lo t \<le> tick_hi t"
  using tick_wf_active[OF assms] tick_lo_le_hi[OF assms]
  by (simp add: price_range_Min_Max)

lemma sample_tick_wf: "h < LOCK_TIME_HEIGHT_THRESHOLD \<Longrightarrow> tick_wf (sample_tick h a b c)"
  by (simp add: tick_wf_def sample_tick_def active_quotes_def)

lemma sample_tick_range:
  "price_range (sample_tick h a b c) = (Price (min (min a b) c), Price (max (max a b) c))"
proof -
  have top: "x \<le> u32_max" for x :: u32
    using price_top[of "Price x"] by (simp add: less_eq_price_def)
  have "min (Price x) (Price y) = Price (min x y)" "max (Price x) (Price y) = Price (max x y)" for x y
    by (simp_all add: min_def max_def less_eq_price_def)
  then show ?thesis
    by (simp add: price_range_def sample_tick_def active_quotes_def sample_quote_def min_absorb2[OF top])
qed

text \<open>
  The twelve bytes an oracle signs determine the height, the price and
  the backing ratio, so a signature for one payload is a signature over the bytes of no other.
\<close>

lemma tick_preimage_inject:
  "length (tick_preimage p) = 12 \<and> (tick_preimage p = tick_preimage q \<longleftrightarrow>
     tp_height p = tp_height q \<and> tp_price p = tp_price q \<and> tp_backing_k p = tp_backing_k q)"
  by (auto simp: tick_preimage_def block_height.expand price.expand ratio_k.expand)

end
