(* ===== verification/Styx_Domain.thy ===== *)
theory Styx_Domain
  imports Styx_Oracle
begin

text \<open>
  Domain state (\<open>styx-core/src/domain.rs\<close>), the deployment parameters with their preflight
  (\<open>params.rs\<close>) and the data leaves that commit state into taproot addresses (\<open>leaves.rs\<close>, with
  the leaf constants of \<open>consts.rs\<close>).

  Identifiers that the elements library represents as 32-byte strings (transaction ids, asset
  ids, block hashes, x-only keys) are 256-bit words here; only their equality and order matter to
  the code. A script is its byte string.
\<close>

section \<open>Identifiers\<close>

type_synonym txid = u256
type_synonym asset_id = u256
type_synonym block_hash = u256
type_synonym xonly = u256
type_synonym script = bytes

datatype outpoint = OutPoint (op_txid: txid) (op_vout: u32)

instantiation outpoint :: linorder
begin
definition less_eq_outpoint :: "outpoint \<Rightarrow> outpoint \<Rightarrow> bool" where
  "less_eq_outpoint a b \<longleftrightarrow>
     op_txid a < op_txid b \<or> op_txid a = op_txid b \<and> op_vout a \<le> op_vout b"
definition less_outpoint :: "outpoint \<Rightarrow> outpoint \<Rightarrow> bool" where
  "less_outpoint a b \<longleftrightarrow>
     op_txid a < op_txid b \<or> op_txid a = op_txid b \<and> op_vout a < op_vout b"
instance
  by standard (auto simp: less_eq_outpoint_def less_outpoint_def outpoint.expand)
end

section \<open>Protocol state\<close>

record vault_state =
  vs_debt :: obol
  vs_owner :: xonly
  vs_last_height :: block_height

record issuer_state =
  is_last_mint_height :: block_height

datatype pot_state = PotState
datatype reserve_state = ReserveState

record ('s, 'v) on_chain =
  oc_state :: 's
  oc_outpoint :: outpoint
  oc_value :: 'v

type_synonym vault_utxo = "(vault_state, sats) on_chain"
type_synonym pot_utxo = "(pot_state, obol) on_chain"
type_synonym reserve_utxo = "(reserve_state, sats) on_chain"
type_synonym issuer_utxo = "(issuer_state, u64) on_chain"

record protocol_state =
  ps_pot :: pot_utxo
  ps_reserve :: reserve_utxo
  ps_issuer :: issuer_utxo

section \<open>Deployment parameters\<close>

record params =
  pr_obol :: asset_id
  pr_issuer_token :: asset_id
  pr_policy :: asset_id
  pr_oracle_pks :: "xonly list"

datatype preflight_error =
    DuplicateOracleKey nat nat
  | AssetCollision string string

definition pairs_upto :: "nat \<Rightarrow> (nat \<times> nat) list" where
  "pairs_upto n = concat (map (\<lambda>a. map (\<lambda>b. (a, b)) [Suc a..<n]) [0..<n])"

definition named_assets :: "params \<Rightarrow> (string \<times> asset_id) list" where
  "named_assets p =
     [(''OBOL_ID'', pr_obol p), (''ISSUER_TOKEN_ID'', pr_issuer_token p), (''POLICY'', pr_policy p)]"

definition preflight :: "params \<Rightarrow> preflight_error + unit" where
  "preflight p =
     (case find (\<lambda>(a, b). pr_oracle_pks p ! a = pr_oracle_pks p ! b) (pairs_upto 5) of
        Some (a, b) \<Rightarrow> Inl (DuplicateOracleKey a b)
      | None \<Rightarrow>
          (let assets = named_assets p in
           case find (\<lambda>(i, j). snd (assets ! i) = snd (assets ! j)) (pairs_upto (length assets)) of
             Some (i, j) \<Rightarrow> Inl (AssetCollision (fst (assets ! i)) (fst (assets ! j)))
           | None \<Rightarrow> Inr ()))"

definition xonly_u256 :: "xonly \<Rightarrow> u256" where
  "xonly_u256 pk = pk"

section \<open>Data leaves\<close>

definition DATA_LEAF_VER :: u8 where
  "DATA_LEAF_VER = 196"

definition leaf_vc :: u16 where
  "leaf_vc = or (push_bit 8 (ucast DATA_LEAF_VER)) 45"

definition issuer_leaf_vc :: u16 where
  "issuer_leaf_vc = or (push_bit 8 (ucast DATA_LEAF_VER)) 5"

definition data_leaf_version :: u8 where
  "data_leaf_version = DATA_LEAF_VER"

definition vault_data_leaf :: "vault_state \<Rightarrow> script \<times> u8" where
  "vault_data_leaf st =
     ([106] @ u64_be (obol_raw (vs_debt st)) @ u256_be (vs_owner st) @ u32_be (height_raw (vs_last_height st)),
      data_leaf_version)"

definition issuer_data_leaf :: "block_height \<Rightarrow> script \<times> u8" where
  "issuer_data_leaf h = ([106] @ u32_be (height_raw h), data_leaf_version)"

section \<open>Preflight\<close>

lemma set_pairs_upto: "set (pairs_upto n) = {(a, b). a < b \<and> b < n}"
proof -
  have "(a, b) \<in> set (pairs_upto n) \<longleftrightarrow> a < b \<and> b < n" for a b
    unfolding pairs_upto_def by (simp add: image_iff) linarith
  then show ?thesis by auto
qed

lemma pairs_upto_distinct:
  "find (\<lambda>(a, b). xs ! a = xs ! b) (pairs_upto (length xs)) = None \<longleftrightarrow> distinct xs"
proof -
  have "find (\<lambda>(a, b). xs ! a = xs ! b) (pairs_upto (length xs)) = None \<longleftrightarrow>
      (\<forall>a b. a < b \<and> b < length xs \<longrightarrow> xs ! a \<noteq> xs ! b)"
    by (auto simp: find_None_iff set_pairs_upto)
  also have "\<dots> \<longleftrightarrow> distinct xs"
    by (auto simp: distinct_conv_nth) (metis linorder_neqE_nat)
  finally show ?thesis .
qed

definition params_wf :: "params \<Rightarrow> bool" where
  "params_wf p \<longleftrightarrow> length (pr_oracle_pks p) = 5"

lemma named_assets_distinct:
  "find (\<lambda>(i, j). snd (named_assets p ! i) = snd (named_assets p ! j))
     (pairs_upto (length (named_assets p))) = None \<longleftrightarrow>
   distinct [pr_obol p, pr_issuer_token p, pr_policy p]"
proof -
  have eq: "(\<lambda>(i, j). snd (named_assets p ! i) = snd (named_assets p ! j)) x \<longleftrightarrow>
      (\<lambda>(i, j). map snd (named_assets p) ! i = map snd (named_assets p) ! j) x"
    if "x \<in> set (pairs_upto (length (named_assets p)))" for x
    using that by (auto simp: set_pairs_upto)
  have "find (\<lambda>(i, j). snd (named_assets p ! i) = snd (named_assets p ! j))
      (pairs_upto (length (named_assets p))) = None \<longleftrightarrow>
    find (\<lambda>(i, j). map snd (named_assets p) ! i = map snd (named_assets p) ! j)
      (pairs_upto (length (map snd (named_assets p)))) = None"
    using eq by (simp add: find_None_iff cong: ball_cong) blast
  also have "\<dots> \<longleftrightarrow> distinct (map snd (named_assets p))"
    by (rule pairs_upto_distinct)
  finally show ?thesis by (simp add: named_assets_def)
qed

text \<open>
  The deployment preflight passes exactly when the five oracle keys are
  pairwise distinct (so three signatures always mean three signers) and the OBOL, issuer-token and
  policy assets are pairwise distinct; a refusal names a pair of equal keys or of equal assets.
\<close>

lemma preflight_distinct:
  assumes "params_wf p"
  shows "(preflight p = Inr () \<longleftrightarrow>
            distinct (pr_oracle_pks p) \<and> distinct [pr_obol p, pr_issuer_token p, pr_policy p]) \<and>
         (\<forall>a b. preflight p = Inl (DuplicateOracleKey a b) \<longrightarrow>
            a < b \<and> b < 5 \<and> pr_oracle_pks p ! a = pr_oracle_pks p ! b) \<and>
         (\<forall>x y. preflight p = Inl (AssetCollision x y) \<longrightarrow>
            (\<exists>v. (x, v) \<in> set (named_assets p) \<and> (y, v) \<in> set (named_assets p) \<and> x \<noteq> y))"
    (is "?pass \<and> ?keys \<and> ?assets")
proof (intro conjI)
  have len: "length (pr_oracle_pks p) = 5" using assms by (simp add: params_wf_def)
  show ?pass
    using pairs_upto_distinct[of "pr_oracle_pks p"] named_assets_distinct[of p]
    by (auto simp: preflight_def Let_def len split: option.splits)
  show ?keys
    by (auto simp: preflight_def Let_def set_pairs_upto dest!: find_SomeD split: option.splits)
  show ?assets
  proof (intro allI impI)
    fix x y
    assume "preflight p = Inl (AssetCollision x y)"
    then obtain i j where "(i, j) \<in> set (pairs_upto (length (named_assets p)))"
      and eq: "snd (named_assets p ! i) = snd (named_assets p ! j)"
      and xy: "x = fst (named_assets p ! i)" "y = fst (named_assets p ! j)"
      by (auto simp: preflight_def Let_def dest!: find_SomeD split: option.splits)
    then have ij: "i < j" "j < length (named_assets p)" by (auto simp: set_pairs_upto)
    have "distinct (map fst (named_assets p))" by (simp add: named_assets_def)
    from nth_eq_iff_index_eq[OF this, of i j] ij have "x \<noteq> y"
      unfolding xy by simp
    moreover have "(x, snd (named_assets p ! i)) \<in> set (named_assets p)"
      unfolding xy(1) prod.collapse using ij by (intro nth_mem) simp
    moreover have "(y, snd (named_assets p ! i)) \<in> set (named_assets p)"
      unfolding xy(2) eq prod.collapse using ij by (intro nth_mem)
    ultimately show "\<exists>v. (x, v) \<in> set (named_assets p) \<and> (y, v) \<in> set (named_assets p) \<and> x \<noteq> y"
      by blast
  qed
qed

section \<open>Leaves commit their state\<close>

lemma vault_data_leaf_inject [simp]: "vault_data_leaf a = vault_data_leaf b \<longleftrightarrow> a = b"
  by (cases a; cases b) (auto simp: vault_data_leaf_def obol.expand block_height.expand)

lemma issuer_data_leaf_inject [simp]: "issuer_data_leaf a = issuer_data_leaf b \<longleftrightarrow> a = b"
  by (auto simp: issuer_data_leaf_def block_height.expand)

text \<open>
  The vault leaf is 45 bytes and the issuer leaf 5 bytes, both start with
  \<open>OP_RETURN\<close>, the version-control words carry the leaf version and exactly these lengths, the leaf
  determines the committed state, and no vault leaf is an issuer leaf.
\<close>

lemma data_leaves_commit:
  "length (fst (vault_data_leaf st)) = 45 \<and> length (fst (issuer_data_leaf h)) = 5 \<and>
   hd (fst (vault_data_leaf st)) = 106 \<and> hd (fst (issuer_data_leaf h)) = 106 \<and>
   leaf_vc = 256 * ucast DATA_LEAF_VER + of_nat (length (fst (vault_data_leaf st))) \<and>
   issuer_leaf_vc = 256 * ucast DATA_LEAF_VER + of_nat (length (fst (issuer_data_leaf h))) \<and>
   (vault_data_leaf st = vault_data_leaf st' \<longleftrightarrow> st = st') \<and>
   (issuer_data_leaf h = issuer_data_leaf h' \<longleftrightarrow> h = h') \<and>
   vault_data_leaf st \<noteq> issuer_data_leaf h"
proof -
  have lens: "length (fst (vault_data_leaf st)) = 45" "length (fst (issuer_data_leaf h)) = 5"
    by (simp_all add: vault_data_leaf_def issuer_data_leaf_def)
  then have "vault_data_leaf st \<noteq> issuer_data_leaf h" by force
  with lens show ?thesis
    by (simp add: leaf_vc_def issuer_leaf_vc_def DATA_LEAF_VER_def)
      (simp add: vault_data_leaf_def issuer_data_leaf_def)
qed

end
