(* ===== verification/Styx_Encode.thy ===== *)
theory Styx_Encode
  imports Styx_Domain
begin

text \<open>
  The witness encoders (\<open>styx-core/src/encode/\<close>). The trait \<open>ToSimf\<close> pairs a SimplicityHL type
  with an encoding into it; here it is a record of a type and a value function, with one combinator
  per \<open>impl\<close> of the source. The three operation enums, their lowering into the covenants' nested
  sums and the friendly helpers follow. The value and type constructors of the SimplicityHL library
  are the two datatypes \<open>simf_ty\<close> and \<open>simf_val\<close>; \<open>has_ty\<close> is the typing relation between them.

  The locale \<open>encoder\<close> is the contract the finalizer relies on: on its domain an encoder produces a
  value of the declared type, and different operations have different encodings.
\<close>

section \<open>SimplicityHL types and values\<close>

datatype simf_ty =
    TUnit | TU32 | TU64 | TU256
  | TByteArray nat
  | TTuple simf_ty simf_ty
  | TEither simf_ty simf_ty
  | TArray simf_ty nat

datatype simf_val =
    VUnit | VU32 u32 | VU64 u64 | VU256 u256
  | VByteArray bytes
  | VProduct simf_val simf_val
  | VLeft simf_val simf_ty
  | VRight simf_ty simf_val
  | VArray "simf_val list" simf_ty

fun has_ty :: "simf_val \<Rightarrow> simf_ty \<Rightarrow> bool" where
  "has_ty VUnit ty = (ty = TUnit)"
| "has_ty (VU32 _) ty = (ty = TU32)"
| "has_ty (VU64 _) ty = (ty = TU64)"
| "has_ty (VU256 _) ty = (ty = TU256)"
| "has_ty (VByteArray bs) ty = (ty = TByteArray (length bs))"
| "has_ty (VProduct a b) ty = (case ty of TTuple s t \<Rightarrow> has_ty a s \<and> has_ty b t | _ \<Rightarrow> False)"
| "has_ty (VLeft a t') ty = (case ty of TEither s t \<Rightarrow> t' = t \<and> has_ty a s | _ \<Rightarrow> False)"
| "has_ty (VRight s' b) ty = (case ty of TEither s t \<Rightarrow> s' = s \<and> has_ty b t | _ \<Rightarrow> False)"
| "has_ty (VArray vs s') ty = (case ty of TArray s n \<Rightarrow> s' = s \<and> length vs = n \<and> (\<forall>v \<in> set vs. has_ty v s) | _ \<Rightarrow> False)"

section \<open>ToSimf\<close>

record 'a to_simf =
  ts_ty :: simf_ty
  ts_value :: "'a \<Rightarrow> simf_val"

definition simf_unit :: "unit to_simf" where
  "simf_unit = \<lparr>ts_ty = TUnit, ts_value = (\<lambda>_. VUnit)\<rparr>"

definition simf_u32 :: "u32 to_simf" where
  "simf_u32 = \<lparr>ts_ty = TU32, ts_value = VU32\<rparr>"

definition simf_u64 :: "u64 to_simf" where
  "simf_u64 = \<lparr>ts_ty = TU64, ts_value = VU64\<rparr>"

definition simf_u256 :: "u256 to_simf" where
  "simf_u256 = \<lparr>ts_ty = TU256, ts_value = VU256\<rparr>"

definition simf_sig :: "bytes to_simf" where
  "simf_sig = \<lparr>ts_ty = TByteArray 64, ts_value = VByteArray\<rparr>"

definition simf_pair :: "'a to_simf \<Rightarrow> 'b to_simf \<Rightarrow> ('a \<times> 'b) to_simf" where
  "simf_pair A B =
     \<lparr>ts_ty = TTuple (ts_ty A) (ts_ty B),
      ts_value = (\<lambda>(a, b). VProduct (ts_value A a) (ts_value B b))\<rparr>"

definition simf_either :: "'a to_simf \<Rightarrow> 'b to_simf \<Rightarrow> ('a + 'b) to_simf" where
  "simf_either A B =
     \<lparr>ts_ty = TEither (ts_ty A) (ts_ty B),
      ts_value = (\<lambda>x. case x of Inl a \<Rightarrow> VLeft (ts_value A a) (ts_ty B)
                              | Inr b \<Rightarrow> VRight (ts_ty A) (ts_value B b))\<rparr>"

definition simf_array :: "nat \<Rightarrow> 'a to_simf \<Rightarrow> 'a list to_simf" where
  "simf_array n A =
     \<lparr>ts_ty = TArray (ts_ty A) n, ts_value = (\<lambda>xs. VArray (map (ts_value A) xs) (ts_ty A))\<rparr>"

section \<open>Ticks and operation sums\<close>

type_synonym sig = bytes
type_synonym slot_sum = "unit + (u32 \<times> sig)"
type_synonym tick_sum = "u32 \<times> u32 \<times> slot_sum list"

definition lower_tick :: "oracle_tick \<Rightarrow> tick_sum" where
  "lower_tick t =
     (height_raw (ot_height t), ratio_raw (ot_backing_k t),
      map (\<lambda>s. case s of None \<Rightarrow> Inl ()
                | Some q \<Rightarrow> Inr (price_raw (sq_price q), sq_sig q)) (ot_slots t))"

datatype vault_op =
    VaultClose sig
  | VaultRepay sig obol
  | VaultDraw sig obol oracle_tick
  | VaultLiquidate obol oracle_tick
  | VaultFullLiq oracle_tick
  | VaultBadDebt oracle_tick
  | VaultRedeem obol oracle_tick
  | VaultRefresh oracle_tick

type_synonym owner_kind = "unit + (u64 + (u64 \<times> tick_sum))"
type_synonym vault_op_sum =
  "(sig \<times> owner_kind) + ((u64 \<times> tick_sum) + (tick_sum + (tick_sum + ((u64 \<times> tick_sum) + tick_sum))))"

fun lower_vault_op :: "vault_op \<Rightarrow> vault_op_sum" where
  "lower_vault_op (VaultClose s) = Inl (s, Inl ())"
| "lower_vault_op (VaultRepay s amount) = Inl (s, Inr (Inl (obol_raw amount)))"
| "lower_vault_op (VaultDraw s amount t) = Inl (s, Inr (Inr (obol_raw amount, lower_tick t)))"
| "lower_vault_op (VaultLiquidate dd t) = Inr (Inl (obol_raw dd, lower_tick t))"
| "lower_vault_op (VaultFullLiq t) = Inr (Inr (Inl (lower_tick t)))"
| "lower_vault_op (VaultBadDebt t) = Inr (Inr (Inr (Inl (lower_tick t))))"
| "lower_vault_op (VaultRedeem x t) = Inr (Inr (Inr (Inr (Inl (obol_raw x, lower_tick t)))))"
| "lower_vault_op (VaultRefresh t) = Inr (Inr (Inr (Inr (Inr (lower_tick t)))))"

fun with_owner_sig :: "vault_op \<Rightarrow> sig \<Rightarrow> vault_op" where
  "with_owner_sig (VaultClose _) s = VaultClose s"
| "with_owner_sig (VaultRepay _ amount) s = VaultRepay s amount"
| "with_owner_sig (VaultDraw _ amount t) s = VaultDraw s amount t"
| "with_owner_sig other s = other"

fun is_owner_op :: "vault_op \<Rightarrow> bool" where
  "is_owner_op (VaultClose _) = True"
| "is_owner_op (VaultRepay _ _) = True"
| "is_owner_op (VaultDraw _ _ _) = True"
| "is_owner_op _ = False"

datatype issuer_op =
    IssuerOpen obol u256 oracle_tick
  | IssuerDraw obol u256 block_height obol block_height
  | IssuerPoke oracle_tick
  | IssuerAttest obol u256 block_height oracle_tick

type_synonym open_sum = "u64 \<times> u256 \<times> tick_sum"
type_synonym draw_sum = "u64 \<times> u256 \<times> u32 \<times> u64 \<times> u32"
type_synonym attest_sum = "u64 \<times> u256 \<times> u32 \<times> tick_sum"
type_synonym issuer_op_sum = "open_sum + (draw_sum + (tick_sum + attest_sum))"

fun lower_issuer_op :: "issuer_op \<Rightarrow> issuer_op_sum" where
  "lower_issuer_op (IssuerOpen minted own t) = Inl (obol_raw minted, own, lower_tick t)"
| "lower_issuer_op (IssuerDraw old_debt own old_h new_debt h) =
     Inr (Inl (obol_raw old_debt, own, height_raw old_h, obol_raw new_debt, height_raw h))"
| "lower_issuer_op (IssuerPoke t) = Inr (Inr (Inl (lower_tick t)))"
| "lower_issuer_op (IssuerAttest d own h t) =
     Inr (Inr (Inr (obol_raw d, own, height_raw h, lower_tick t)))"

datatype stability_op = StabilityAccumulate | StabilityBadDebt

fun lower_stability_op :: "stability_op \<Rightarrow> unit + unit" where
  "lower_stability_op StabilityAccumulate = Inl ()"
| "lower_stability_op StabilityBadDebt = Inr ()"

section \<open>Encoders of the sums\<close>

definition simf_slot :: "slot_sum to_simf" where
  "simf_slot = simf_either simf_unit (simf_pair simf_u32 simf_sig)"

definition simf_tick :: "tick_sum to_simf" where
  "simf_tick = simf_pair simf_u32 (simf_pair simf_u32 (simf_array 5 simf_slot))"

definition simf_vault_op :: "vault_op_sum to_simf" where
  "simf_vault_op =
     simf_either
       (simf_pair simf_sig (simf_either simf_unit (simf_either simf_u64 (simf_pair simf_u64 simf_tick))))
       (simf_either (simf_pair simf_u64 simf_tick)
         (simf_either simf_tick
           (simf_either simf_tick (simf_either (simf_pair simf_u64 simf_tick) simf_tick))))"

definition simf_issuer_op :: "issuer_op_sum to_simf" where
  "simf_issuer_op =
     simf_either (simf_pair simf_u64 (simf_pair simf_u256 simf_tick))
       (simf_either
         (simf_pair simf_u64 (simf_pair simf_u256 (simf_pair simf_u32 (simf_pair simf_u64 simf_u32))))
         (simf_either simf_tick
           (simf_pair simf_u64 (simf_pair simf_u256 (simf_pair simf_u32 simf_tick)))))"

definition simf_stability_op :: "(unit + unit) to_simf" where
  "simf_stability_op = simf_either simf_unit simf_unit"

definition vault_op_value :: "vault_op \<Rightarrow> simf_val" where
  "vault_op_value op = ts_value simf_vault_op (lower_vault_op op)"

definition issuer_op_value :: "issuer_op \<Rightarrow> simf_val" where
  "issuer_op_value op = ts_value simf_issuer_op (lower_issuer_op op)"

definition stability_op_value :: "stability_op \<Rightarrow> simf_val" where
  "stability_op_value op = ts_value simf_stability_op (lower_stability_op op)"

text \<open>The domain facts that the Rust array types \<open>[u8; 64]\<close> and \<open>[Slot; 5]\<close> carry.\<close>

definition tick_sized :: "oracle_tick \<Rightarrow> bool" where
  "tick_sized t \<longleftrightarrow> length (ot_slots t) = 5 \<and> (\<forall>q \<in> set (active_quotes t). length (sq_sig q) = 64)"

fun vault_op_sized :: "vault_op \<Rightarrow> bool" where
  "vault_op_sized (VaultClose s) = (length s = 64)"
| "vault_op_sized (VaultRepay s _) = (length s = 64)"
| "vault_op_sized (VaultDraw s _ t) = (length s = 64 \<and> tick_sized t)"
| "vault_op_sized (VaultLiquidate _ t) = tick_sized t"
| "vault_op_sized (VaultFullLiq t) = tick_sized t"
| "vault_op_sized (VaultBadDebt t) = tick_sized t"
| "vault_op_sized (VaultRedeem _ t) = tick_sized t"
| "vault_op_sized (VaultRefresh t) = tick_sized t"

fun issuer_op_sized :: "issuer_op \<Rightarrow> bool" where
  "issuer_op_sized (IssuerOpen _ _ t) = tick_sized t"
| "issuer_op_sized (IssuerDraw _ _ _ _ _) = True"
| "issuer_op_sized (IssuerPoke t) = tick_sized t"
| "issuer_op_sized (IssuerAttest _ _ _ t) = tick_sized t"

section \<open>The encoder contract\<close>

definition sound_enc :: "'a to_simf \<Rightarrow> ('a \<Rightarrow> bool) \<Rightarrow> bool" where
  "sound_enc A D \<longleftrightarrow>
     (\<forall>x. D x \<longrightarrow> has_ty (ts_value A x) (ts_ty A)) \<and>
     (\<forall>x y. ts_value A x = ts_value A y \<longrightarrow> x = y)"

locale encoder =
  fixes enc :: "'op \<Rightarrow> simf_val"
    and ty :: simf_ty
    and sized :: "'op \<Rightarrow> bool"
  assumes typed: "sized x \<Longrightarrow> has_ty (enc x) ty"
    and inject: "enc x = enc y \<Longrightarrow> x = y"
begin

lemma enc_eq_iff: "enc x = enc y \<longleftrightarrow> x = y"
  by (auto dest: inject)

lemma decodable: "\<exists>decode. \<forall>x. decode (enc x) = Some x"
  by (rule exI[of _ "\<lambda>v. Some (THE x. enc x = v)"]) (simp add: enc_eq_iff)

end

lemma sound_leaves:
  "sound_enc simf_unit (\<lambda>_. True)" "sound_enc simf_u32 (\<lambda>_. True)" "sound_enc simf_u64 (\<lambda>_. True)"
  "sound_enc simf_u256 (\<lambda>_. True)" "sound_enc simf_sig (\<lambda>s. length s = 64)"
  by (auto simp: sound_enc_def simf_unit_def simf_u32_def simf_u64_def simf_u256_def simf_sig_def)

lemma sound_pair:
  "\<lbrakk>sound_enc A P; sound_enc B Q\<rbrakk> \<Longrightarrow> sound_enc (simf_pair A B) (\<lambda>(a, b). P a \<and> Q b)"
  by (auto simp: sound_enc_def simf_pair_def)

lemma sound_either:
  "\<lbrakk>sound_enc A P; sound_enc B Q\<rbrakk> \<Longrightarrow> sound_enc (simf_either A B) (case_sum P Q)"
  by (auto simp: sound_enc_def simf_either_def split: sum.splits)

lemma sound_array:
  "sound_enc A P \<Longrightarrow> sound_enc (simf_array n A) (\<lambda>xs. length xs = n \<and> list_all P xs)"
  by (auto simp: sound_enc_def simf_array_def list_all_iff dest!: map_injective intro: injI)

lemma sound_mono: "\<lbrakk>sound_enc A P; \<And>x. Q x \<Longrightarrow> P x\<rbrakk> \<Longrightarrow> sound_enc A Q"
  by (auto simp: sound_enc_def)

abbreviation slot_sum_sized :: "slot_sum \<Rightarrow> bool" where
  "slot_sum_sized \<equiv> case_sum (\<lambda>_. True) (\<lambda>(_, s). length s = 64)"

definition tick_sum_sized :: "tick_sum \<Rightarrow> bool" where
  "tick_sum_sized t \<longleftrightarrow> (case t of (_, _, slots) \<Rightarrow> length slots = 5 \<and> list_all slot_sum_sized slots)"

lemma sound_tick: "sound_enc simf_tick tick_sum_sized"
proof -
  have slot: "sound_enc simf_slot slot_sum_sized"
    unfolding simf_slot_def
    by (rule sound_mono[OF sound_either[OF sound_leaves(1) sound_pair[OF sound_leaves(2,5)]]])
      (auto split: sum.splits)
  show ?thesis
    unfolding simf_tick_def
    by (rule sound_mono[OF sound_pair[OF sound_leaves(2) sound_pair[OF sound_leaves(2) sound_array[OF slot]]]])
      (auto simp: tick_sum_sized_def)
qed

lemma lower_tick_sized: "tick_sized t \<Longrightarrow> tick_sum_sized (lower_tick t)"
  by (auto simp: tick_sized_def tick_sum_sized_def lower_tick_def list_all_iff active_quotes_def
      set_somes split: option.splits)

lemma lower_slot_inject:
  fixes s s' :: "signed_quote option"
  shows "(case s of None \<Rightarrow> Inl () | Some q \<Rightarrow> Inr (price_raw (sq_price q), sq_sig q)) =
   (case s' of None \<Rightarrow> Inl () | Some q \<Rightarrow> Inr (price_raw (sq_price q), sq_sig q)) \<Longrightarrow> s = s'"
  by (auto split: option.splits intro!: signed_quote.equality price.expand)

lemma lower_tick_inject [simp]: "lower_tick a = lower_tick b \<longleftrightarrow> a = b"
proof
  assume eq: "lower_tick a = lower_tick b"
  let ?f = "\<lambda>s. case s of None \<Rightarrow> Inl () | Some q \<Rightarrow> Inr (price_raw (sq_price q), sq_sig q)"
  have "map ?f (ot_slots a) = map ?f (ot_slots b)" using eq by (simp add: lower_tick_def)
  then have "ot_slots a = ot_slots b"
    by (rule map_injective) (auto intro!: injI dest: lower_slot_inject)
  with eq show "a = b"
    by (intro oracle_tick.equality) (auto simp: lower_tick_def block_height.expand ratio_k.expand)
qed simp

lemma lower_vault_op_inject: "lower_vault_op a = lower_vault_op b \<Longrightarrow> a = b"
  by (cases a; cases b) (auto simp: obol.expand)

lemma lower_issuer_op_inject: "lower_issuer_op a = lower_issuer_op b \<Longrightarrow> a = b"
  by (cases a; cases b) (auto simp: obol.expand block_height.expand)

text \<open>The sizes of the lowered sums follow from the sizes of the operations.\<close>

definition vault_sum_sized :: "vault_op_sum \<Rightarrow> bool" where
  "vault_sum_sized =
     case_sum
       (\<lambda>(s, k). length s = 64 \<and> case_sum (\<lambda>_. True) (case_sum (\<lambda>_. True) (\<lambda>(_, t). tick_sum_sized t)) k)
       (case_sum (\<lambda>(_, t). tick_sum_sized t)
         (case_sum tick_sum_sized
           (case_sum tick_sum_sized (case_sum (\<lambda>(_, t). tick_sum_sized t) tick_sum_sized))))"

definition issuer_sum_sized :: "issuer_op_sum \<Rightarrow> bool" where
  "issuer_sum_sized =
     case_sum (\<lambda>(_, _, t). tick_sum_sized t)
       (case_sum (\<lambda>_. True) (case_sum tick_sum_sized (\<lambda>(_, _, _, t). tick_sum_sized t)))"

lemma sound_vault_op: "sound_enc simf_vault_op vault_sum_sized"
  unfolding simf_vault_op_def
  by (rule sound_mono[OF sound_either[OF sound_pair[OF sound_leaves(5)
        sound_either[OF sound_leaves(1) sound_either[OF sound_leaves(3) sound_pair[OF sound_leaves(3) sound_tick]]]]
      sound_either[OF sound_pair[OF sound_leaves(3) sound_tick] sound_either[OF sound_tick
        sound_either[OF sound_tick sound_either[OF sound_pair[OF sound_leaves(3) sound_tick] sound_tick]]]]]])
    (auto simp: vault_sum_sized_def split: sum.splits)

lemma sound_issuer_op: "sound_enc simf_issuer_op issuer_sum_sized"
  unfolding simf_issuer_op_def
  by (rule sound_mono[OF sound_either[OF
        sound_pair[OF sound_leaves(3) sound_pair[OF sound_leaves(4) sound_tick]]
        sound_either[OF
          sound_pair[OF sound_leaves(3) sound_pair[OF sound_leaves(4) sound_pair[OF sound_leaves(2)
            sound_pair[OF sound_leaves(3) sound_leaves(2)]]]]
          sound_either[OF sound_tick
            sound_pair[OF sound_leaves(3) sound_pair[OF sound_leaves(4) sound_pair[OF sound_leaves(2) sound_tick]]]]]]])
    (auto simp: issuer_sum_sized_def split: sum.splits)

lemma lower_vault_op_sized: "vault_op_sized op \<Longrightarrow> vault_sum_sized (lower_vault_op op)"
  by (cases op) (auto simp: vault_sum_sized_def lower_tick_sized)

lemma lower_issuer_op_sized: "issuer_op_sized op \<Longrightarrow> issuer_sum_sized (lower_issuer_op op)"
  by (cases op) (auto simp: issuer_sum_sized_def lower_tick_sized)

interpretation vault_enc: encoder vault_op_value "ts_ty simf_vault_op" vault_op_sized
  using sound_vault_op
  by unfold_locales
    (auto simp: sound_enc_def vault_op_value_def lower_vault_op_sized dest!: lower_vault_op_inject)

interpretation issuer_enc: encoder issuer_op_value "ts_ty simf_issuer_op" issuer_op_sized
  using sound_issuer_op
  by unfold_locales
    (auto simp: sound_enc_def issuer_op_value_def lower_issuer_op_sized dest!: lower_issuer_op_inject)

lemma stability_op_values:
  "stability_op_value StabilityAccumulate = VLeft VUnit TUnit"
  "stability_op_value StabilityBadDebt = VRight TUnit VUnit"
  by (simp_all add: stability_op_value_def simf_stability_op_def simf_either_def simf_unit_def)

interpretation stability_enc: encoder stability_op_value "TEither TUnit TUnit" "\<lambda>_. True"
proof
  show "has_ty (stability_op_value x) (TEither TUnit TUnit)" for x
    by (cases x) (simp_all add: stability_op_values)
  show "stability_op_value x = stability_op_value y \<Longrightarrow> x = y" for x y
    by (cases x; cases y) (simp_all add: stability_op_values)
qed

section \<open>Witness arms\<close>

text \<open>The covenant arm an encoded vault operation selects: the path of lefts and rights.\<close>

fun vault_arm :: "simf_val \<Rightarrow> nat" where
  "vault_arm (VLeft (VProduct _ (VLeft _ _)) _) = 0"
| "vault_arm (VLeft (VProduct _ (VRight _ (VLeft _ _))) _) = 1"
| "vault_arm (VLeft (VProduct _ (VRight _ (VRight _ _))) _) = 2"
| "vault_arm (VRight _ (VLeft _ _)) = 3"
| "vault_arm (VRight _ (VRight _ (VLeft _ _))) = 4"
| "vault_arm (VRight _ (VRight _ (VRight _ (VLeft _ _)))) = 5"
| "vault_arm (VRight _ (VRight _ (VRight _ (VRight _ (VLeft _ _))))) = 6"
| "vault_arm (VRight _ (VRight _ (VRight _ (VRight _ (VRight _ _))))) = 7"
| "vault_arm _ = 8"

definition sample_sig :: sig where
  "sample_sig = replicate 64 0"

text \<open>
  C40 (op_encoding_sound): every vault, issuer and reserve operation encodes to a value of the type
  its covenant declares, two different operations never share an encoding (so no operation can be
  replayed as another arm or with another payload), and a vault operation selects an owner arm of
  the covenant exactly when it carries an owner signature.
\<close>

theorem op_encoding_sound:
  assumes "vault_op_sized v" "issuer_op_sized i"
  shows "has_ty (vault_op_value v) (ts_ty simf_vault_op) \<and>
    has_ty (issuer_op_value i) (ts_ty simf_issuer_op) \<and>
    has_ty (stability_op_value s) (ts_ty simf_stability_op) \<and>
    (vault_op_value v = vault_op_value v' \<longleftrightarrow> v = v') \<and>
    (issuer_op_value i = issuer_op_value i' \<longleftrightarrow> i = i') \<and>
    (stability_op_value s = stability_op_value s' \<longleftrightarrow> s = s') \<and>
    (vault_arm (vault_op_value v) < 3 \<longleftrightarrow> is_owner_op v)"
proof -
  have "vault_arm (vault_op_value v) < 3 \<longleftrightarrow> is_owner_op v"
    by (cases v) (simp_all add: vault_op_value_def simf_vault_op_def simf_either_def simf_pair_def
        simf_unit_def simf_u64_def)
  moreover have "ts_ty simf_stability_op = TEither TUnit TUnit"
    by (simp add: simf_stability_op_def simf_either_def simf_unit_def)
  ultimately show ?thesis
    using vault_enc.typed[OF assms(1)] issuer_enc.typed[OF assms(2)] stability_enc.typed
    by (simp add: vault_enc.enc_eq_iff issuer_enc.enc_eq_iff stability_enc.enc_eq_iff)
qed

theorem op_encoding_sound_witness:
  "has_ty (vault_op_value (VaultClose sample_sig)) (ts_ty simf_vault_op) \<and>
   vault_op_value (VaultClose sample_sig) \<noteq> vault_op_value (VaultRepay sample_sig (Obol 1)) \<and>
   vault_arm (vault_op_value (VaultClose sample_sig)) < 3"
  using op_encoding_sound[of "VaultClose sample_sig"
      "IssuerDraw (Obol 1) 7 (BlockHeight 1) (Obol 2) (BlockHeight 2)"
      StabilityAccumulate "VaultRepay sample_sig (Obol 1)"]
  by (simp add: sample_sig_def)

text \<open>
  Installing an owner signature keeps the operation's arm and payload:
  a second installation overrides the first, permissionless operations are untouched, and for an
  owner operation two signatures give the same operation only when they are equal.
\<close>

lemma with_owner_sig_spec:
  "with_owner_sig (with_owner_sig op s) s' = with_owner_sig op s' \<and>
   is_owner_op (with_owner_sig op s) = is_owner_op op \<and>
   vault_arm (vault_op_value (with_owner_sig op s)) = vault_arm (vault_op_value op) \<and>
   (with_owner_sig op s \<noteq> with_owner_sig op s' \<longleftrightarrow> is_owner_op op \<and> s \<noteq> s')"
  by (cases op) (simp_all add: vault_op_value_def simf_vault_op_def simf_either_def simf_pair_def
        simf_unit_def simf_u64_def)

end
