(* ===== verification/Styx_Tx.thy ===== *)
theory Styx_Tx
  imports Styx_Encode
begin

text \<open>
  Elements transactions as the code builds and reads them (\<open>styx-pset/src/layout.rs\<close> with the
  transaction types of the elements library), and the per-asset totals that the conservation
  properties are stated with.
\<close>

section \<open>Transactions\<close>

datatype conf_value = VNull | VExplicit u64 | VConfidential bytes
datatype conf_asset = ANull | AExplicit asset_id | AConfidential bytes
datatype conf_nonce = NNull | NExplicit u256 | NConfidential bytes

record asset_issuance =
  ai_blinding_nonce :: u256
  ai_entropy :: u256
  ai_amount :: conf_value
  ai_inflation_keys :: conf_value

record txin_witness =
  tiw_amount_rangeproof :: "bytes option"
  tiw_inflation_rangeproof :: "bytes option"
  tiw_script_witness :: "bytes list"
  tiw_pegin_witness :: "bytes list"

record txout_witness =
  tow_surjection_proof :: "bytes option"
  tow_rangeproof :: "bytes option"

record tx_in =
  ti_previous_output :: outpoint
  ti_is_pegin :: bool
  ti_script_sig :: script
  ti_sequence :: u32
  ti_asset_issuance :: asset_issuance
  ti_witness :: txin_witness

record tx_out =
  to_asset :: conf_asset
  to_value :: conf_value
  to_nonce :: conf_nonce
  to_script_pubkey :: script
  to_witness :: txout_witness

record transaction =
  tx_version :: u32
  tx_lock_time :: u32
  tx_input :: "tx_in list"
  tx_output :: "tx_out list"

text \<open>A claimed UTXO of the spend environment (\<open>ElementsUtxo\<close>).\<close>

record elements_utxo =
  eu_script_pubkey :: script
  eu_asset :: conf_asset
  eu_value :: conf_value

definition issuance_null :: asset_issuance where
  "issuance_null =
     \<lparr>ai_blinding_nonce = 0, ai_entropy = 0, ai_amount = VNull, ai_inflation_keys = VNull\<rparr>"

definition txin_witness_empty :: txin_witness where
  "txin_witness_empty =
     \<lparr>tiw_amount_rangeproof = None, tiw_inflation_rangeproof = None, tiw_script_witness = [],
      tiw_pegin_witness = []\<rparr>"

definition txout_witness_empty :: txout_witness where
  "txout_witness_empty = \<lparr>tow_surjection_proof = None, tow_rangeproof = None\<rparr>"

section \<open>Layout primitives\<close>

definition txin :: "outpoint \<Rightarrow> tx_in" where
  "txin op =
     \<lparr>ti_previous_output = op, ti_is_pegin = False, ti_script_sig = [], ti_sequence = 0,
      ti_asset_issuance = issuance_null, ti_witness = txin_witness_empty\<rparr>"

definition txout :: "u64 \<Rightarrow> script \<Rightarrow> asset_id \<Rightarrow> tx_out" where
  "txout v spk a =
     \<lparr>to_asset = AExplicit a, to_value = VExplicit v, to_nonce = NNull, to_script_pubkey = spk,
      to_witness = txout_witness_empty\<rparr>"

definition utxo_from :: "tx_out \<Rightarrow> elements_utxo" where
  "utxo_from o' =
     \<lparr>eu_script_pubkey = to_script_pubkey o', eu_asset = to_asset o', eu_value = to_value o'\<rparr>"

definition claimed :: "u64 \<Rightarrow> script \<Rightarrow> asset_id \<Rightarrow> elements_utxo" where
  "claimed v spk a = utxo_from (txout v spk a)"

text \<open>\<open>TxOut::new_fee\<close>: the fee output is the one with the empty script.\<close>

definition fee_out :: "sats \<Rightarrow> asset_id \<Rightarrow> tx_out" where
  "fee_out fee policy = txout (sats_raw fee) [] policy"

definition is_fee :: "tx_out \<Rightarrow> bool" where
  "is_fee o' \<longleftrightarrow> to_script_pubkey o' = [] \<and>
     (\<exists>v. to_value o' = VExplicit v) \<and> (\<exists>a. to_asset o' = AExplicit a)"

section \<open>Totals per asset\<close>

text \<open>The explicit amount an output carries in one asset.\<close>

fun amount_in :: "asset_id \<Rightarrow> conf_asset \<Rightarrow> conf_value \<Rightarrow> nat" where
  "amount_in a (AExplicit b) (VExplicit v) = (if a = b then unat v else 0)"
| "amount_in a _ _ = 0"

definition outs_total :: "asset_id \<Rightarrow> tx_out list \<Rightarrow> nat" where
  "outs_total a os = sum_list (map (\<lambda>o'. amount_in a (to_asset o') (to_value o')) os)"

definition utxos_total :: "asset_id \<Rightarrow> elements_utxo list \<Rightarrow> nat" where
  "utxos_total a us = sum_list (map (\<lambda>u. amount_in a (eu_asset u) (eu_value u)) us)"

lemma txout_sel [simp]:
  "to_asset (txout v spk a) = AExplicit a" "to_value (txout v spk a) = VExplicit v"
  "to_script_pubkey (txout v spk a) = spk" "to_nonce (txout v spk a) = NNull"
  by (simp_all add: txout_def)

lemma fee_out_sel [simp]:
  "to_asset (fee_out f a) = AExplicit a" "to_value (fee_out f a) = VExplicit (sats_raw f)"
  "to_script_pubkey (fee_out f a) = []" "to_nonce (fee_out f a) = NNull"
  by (simp_all add: fee_out_def)

lemma claimed_sel [simp]:
  "eu_asset (claimed v spk a) = AExplicit a" "eu_value (claimed v spk a) = VExplicit v"
  "eu_script_pubkey (claimed v spk a) = spk"
  by (simp_all add: claimed_def utxo_from_def)

lemma txin_sel [simp]:
  "ti_previous_output (txin op) = op" "ti_sequence (txin op) = 0" "\<not> ti_is_pegin (txin op)"
  "ti_script_sig (txin op) = []" "ti_witness (txin op) = txin_witness_empty"
  "ti_asset_issuance (txin op) = issuance_null"
  by (simp_all add: txin_def)

lemma outs_total_simps [simp]:
  "outs_total a [] = 0"
  "outs_total a (o' # os) = amount_in a (to_asset o') (to_value o') + outs_total a os"
  "outs_total a (os @ os') = outs_total a os + outs_total a os'"
  by (simp_all add: outs_total_def)

lemma utxos_total_simps [simp]:
  "utxos_total a [] = 0"
  "utxos_total a (u # us) = amount_in a (eu_asset u) (eu_value u) + utxos_total a us"
  by (simp_all add: utxos_total_def)

end
