(* ===== verification/Styx_Artifacts.thy ===== *)
theory Styx_Artifacts
  imports Styx_Tx "HOL-Library.Multiset"
begin

text \<open>
  Compilation of a deployment and the address derivation (\<open>styx-core/src/artifacts.rs\<close>).

  The Simplicity compiler, the taproot arithmetic, the hash and the transaction id belong to
  libraries outside the repository. They are the fields of the record \<open>library\<close>, an argument of
  every definition that reaches them; the type variable is the library's compiled program. What
  the code relies on is the predicate \<open>library_ok\<close>: two finalized taproot trees with the same
  scriptPubKey have the same leaves (collision resistance of the tree hash and of the output key,
  idealised to injectivity), Simplicity leaves do not use the data-leaf version, and a control
  block exists for every leaf of a tree.
\<close>

section \<open>Covenants and libraries\<close>

datatype covenant = ReserveRepay | PotOutflow | Stability | Vault | Issuer

definition covenant_ALL :: "covenant list" where
  "covenant_ALL = [ReserveRepay, PotOutflow, Stability, Vault, Issuer]"

fun covenant_name :: "covenant \<Rightarrow> string" where
  "covenant_name ReserveRepay = ''reserve_repay''"
| "covenant_name PotOutflow = ''pot_outflow''"
| "covenant_name Stability = ''stability''"
| "covenant_name Vault = ''vault''"
| "covenant_name Issuer = ''issuer''"

datatype arg_val = AU16 u16 | AU256 u256

type_synonym leaf = "script \<times> u8"

datatype tap_tree = TapLeaf leaf | TapBranch tap_tree tap_tree

record spend_info =
  si_internal_key :: xonly
  si_tree :: tap_tree

record 'p library =
  lb_sha256 :: "bytes \<Rightarrow> bytes"
  lb_program :: "covenant \<Rightarrow> (string \<times> arg_val) list \<Rightarrow> string + 'p"
  lb_cmr :: "'p \<Rightarrow> bytes"
  lb_leaf_version :: u8
  lb_merkle_root :: "tap_tree \<Rightarrow> bytes"
  lb_p2tr :: "xonly \<Rightarrow> bytes \<Rightarrow> script"
  lb_control_block :: "spend_info \<Rightarrow> leaf \<Rightarrow> bytes option"
  lb_txid :: "transaction \<Rightarrow> txid"
  lb_xonly :: "bytes \<Rightarrow> xonly option"

datatype deploy_error =
    Preflight preflight_error
  | Compile string string

definition compile_covenant ::
  "'p library \<Rightarrow> covenant \<Rightarrow> (string \<times> arg_val) list \<Rightarrow> deploy_error + 'p" where
  "compile_covenant L cov args =
     (case lb_program L cov args of
        Inl msg \<Rightarrow> Inl (Compile (covenant_name cov) msg) | Inr prog \<Rightarrow> Inr prog)"

definition cmr_script :: "'p library \<Rightarrow> 'p \<Rightarrow> script" where
  "cmr_script L prog = lb_cmr L prog"

definition u256_from_bytes :: "bytes \<Rightarrow> u256" where
  "u256_from_bytes bs = of_nat (from_be bs)"

definition cmr_u256 :: "'p library \<Rightarrow> 'p \<Rightarrow> u256" where
  "cmr_u256 L prog = u256_from_bytes (lb_cmr L prog)"

definition nums_key :: xonly where
  "nums_key = 0x50929b74c1a04954b78b4b6035e97a5e078a5a0f28ec96d547bfee9ace803ac0"

definition ascii :: "string \<Rightarrow> bytes" where
  "ascii s = map (\<lambda>c. of_nat (of_char c)) s"

definition tapleaf_tag :: "'p library \<Rightarrow> u256" where
  "tapleaf_tag L = u256_from_bytes (lb_sha256 L (ascii ''TapLeaf/elements''))"

section \<open>Taproot derivation\<close>

definition two_leaf_tree :: "leaf \<Rightarrow> leaf \<Rightarrow> spend_info" where
  "two_leaf_tree a b =
     \<lparr>si_internal_key = nums_key, si_tree = TapBranch (TapLeaf a) (TapLeaf b)\<rparr>"

definition single_leaf_tree :: "'p library \<Rightarrow> script \<Rightarrow> spend_info" where
  "single_leaf_tree L leaf =
     \<lparr>si_internal_key = nums_key, si_tree = TapLeaf (leaf, lb_leaf_version L)\<rparr>"

definition p2tr_spk :: "'p library \<Rightarrow> spend_info \<Rightarrow> script" where
  "p2tr_spk L info = lb_p2tr L (si_internal_key info) (lb_merkle_root L (si_tree info))"

definition spk_hash :: "'p library \<Rightarrow> script \<Rightarrow> u256" where
  "spk_hash L spk = u256_from_bytes (lb_sha256 L spk)"

text \<open>The control block of a leaf; the \<open>unwrap\<close> of the source is the value \<open>None\<close> here.\<close>

definition control_block :: "'p library \<Rightarrow> spend_info \<Rightarrow> script \<Rightarrow> u8 \<Rightarrow> bytes option" where
  "control_block L info leaf ver = lb_control_block L info (leaf, ver)"

section \<open>A compiled deploy\<close>

datatype pot_leaf = Inflow | Outflow

record 'p artifacts =
  ar_reserve_repay :: 'p
  ar_pot_outflow :: 'p
  ar_stability :: 'p
  ar_vault :: 'p
  ar_issuer :: 'p
  ar_pot_info :: spend_info
  ar_stability_info :: spend_info

definition oracle_args :: "params \<Rightarrow> (string \<times> arg_val) list" where
  "oracle_args p =
     map (\<lambda>(n, pk). (''ORACLE_PK_'' @ n, AU256 (xonly_u256 pk)))
       (zip [''1'', ''2'', ''3'', ''4'', ''5''] (pr_oracle_pks p))"

definition reserve_repay_args :: "params \<Rightarrow> (string \<times> arg_val) list" where
  "reserve_repay_args p = [(''OBOL_ID'', AU256 (pr_obol p))]"

definition pot_outflow_args :: "params \<Rightarrow> (string \<times> arg_val) list" where
  "pot_outflow_args p =
     [(''OBOL_ID'', AU256 (pr_obol p)), (''ISSUER_TOKEN_ID'', AU256 (pr_issuer_token p))]"

definition stability_args :: "params \<Rightarrow> u256 \<Rightarrow> (string \<times> arg_val) list" where
  "stability_args p pot =
     [(''POT_SPK'', AU256 pot), (''ISSUER_TOKEN_ID'', AU256 (pr_issuer_token p)),
      (''OBOL_ID'', AU256 (pr_obol p)), (''POLICY'', AU256 (pr_policy p))]"

definition vault_args :: "'p library \<Rightarrow> params \<Rightarrow> u256 \<Rightarrow> u256 \<Rightarrow> (string \<times> arg_val) list" where
  "vault_args L p pot stab =
     [(''NUMS'', AU256 nums_key), (''TAPLEAF_TAG'', AU256 (tapleaf_tag L)), (''LEAF_VC'', AU16 leaf_vc),
      (''OBOL_ID'', AU256 (pr_obol p)), (''POLICY'', AU256 (pr_policy p)), (''POT_SPK'', AU256 pot),
      (''STABILITY_SPK'', AU256 stab)] @ oracle_args p"

definition issuer_args ::
  "'p library \<Rightarrow> params \<Rightarrow> u256 \<Rightarrow> u256 \<Rightarrow> u256 \<Rightarrow> (string \<times> arg_val) list" where
  "issuer_args L p vault_cmr pot stab =
     [(''NUMS'', AU256 nums_key), (''TAPLEAF_TAG'', AU256 (tapleaf_tag L)), (''LEAF_VC'', AU16 leaf_vc),
      (''ISSUER_LEAF_VC'', AU16 issuer_leaf_vc), (''VAULT_CMR'', AU256 vault_cmr),
      (''STABILITY_SPK'', AU256 stab), (''OBOL_ID'', AU256 (pr_obol p)),
      (''POLICY'', AU256 (pr_policy p)), (''POT_SPK'', AU256 pot),
      (''ISSUER_TOKEN_ID'', AU256 (pr_issuer_token p))] @ oracle_args p"

definition artifacts_compile :: "'p library \<Rightarrow> params \<Rightarrow> deploy_error + 'p artifacts" where
  "artifacts_compile L p =
     (case preflight p of
        Inl e \<Rightarrow> Inl (Preflight e)
      | Inr _ \<Rightarrow>
     bind_res (compile_covenant L ReserveRepay (reserve_repay_args p)) (\<lambda>reserve_repay.
     bind_res (compile_covenant L PotOutflow (pot_outflow_args p)) (\<lambda>pot_outflow.
     let pot_info = two_leaf_tree (cmr_script L reserve_repay, lb_leaf_version L)
                      (cmr_script L pot_outflow, lb_leaf_version L);
         pot = spk_hash L (p2tr_spk L pot_info)
     in bind_res (compile_covenant L Stability (stability_args p pot)) (\<lambda>stability.
     let stability_info = single_leaf_tree L (cmr_script L stability);
         stab = spk_hash L (p2tr_spk L stability_info)
     in bind_res (compile_covenant L Vault (vault_args L p pot stab)) (\<lambda>vault.
     bind_res (compile_covenant L Issuer (issuer_args L p (cmr_u256 L vault) pot stab)) (\<lambda>issuer.
     Inr \<lparr>ar_reserve_repay = reserve_repay, ar_pot_outflow = pot_outflow, ar_stability = stability,
          ar_vault = vault, ar_issuer = issuer, ar_pot_info = pot_info,
          ar_stability_info = stability_info\<rparr>))))))"

definition pot_spk :: "'p library \<Rightarrow> 'p artifacts \<Rightarrow> script" where
  "pot_spk L a = p2tr_spk L (ar_pot_info a)"

definition pot_spk_hash :: "'p library \<Rightarrow> 'p artifacts \<Rightarrow> u256" where
  "pot_spk_hash L a = spk_hash L (pot_spk L a)"

definition pot_control_block :: "'p library \<Rightarrow> 'p artifacts \<Rightarrow> pot_leaf \<Rightarrow> bytes option" where
  "pot_control_block L a leaf =
     (let prog = (case leaf of Inflow \<Rightarrow> ar_reserve_repay a | Outflow \<Rightarrow> ar_pot_outflow a)
      in control_block L (ar_pot_info a) (cmr_script L prog) (lb_leaf_version L))"

definition stability_spk :: "'p library \<Rightarrow> 'p artifacts \<Rightarrow> script" where
  "stability_spk L a = p2tr_spk L (ar_stability_info a)"

definition stability_spk_hash :: "'p library \<Rightarrow> 'p artifacts \<Rightarrow> u256" where
  "stability_spk_hash L a = spk_hash L (stability_spk L a)"

definition stability_control_block :: "'p library \<Rightarrow> 'p artifacts \<Rightarrow> bytes option" where
  "stability_control_block L a =
     control_block L (ar_stability_info a) (cmr_script L (ar_stability a)) (lb_leaf_version L)"

definition vault_cmr :: "'p library \<Rightarrow> 'p artifacts \<Rightarrow> u256" where
  "vault_cmr L a = cmr_u256 L (ar_vault a)"

definition vault_spend_info :: "'p library \<Rightarrow> 'p artifacts \<Rightarrow> vault_state \<Rightarrow> spend_info" where
  "vault_spend_info L a st =
     two_leaf_tree (cmr_script L (ar_vault a), lb_leaf_version L) (vault_data_leaf st)"

definition vault_spk :: "'p library \<Rightarrow> 'p artifacts \<Rightarrow> vault_state \<Rightarrow> script" where
  "vault_spk L a st = p2tr_spk L (vault_spend_info L a st)"

definition vault_control_block :: "'p library \<Rightarrow> 'p artifacts \<Rightarrow> vault_state \<Rightarrow> bytes option" where
  "vault_control_block L a st =
     control_block L (vault_spend_info L a st) (cmr_script L (ar_vault a)) (lb_leaf_version L)"

definition issuer_spend_info :: "'p library \<Rightarrow> 'p artifacts \<Rightarrow> issuer_state \<Rightarrow> spend_info" where
  "issuer_spend_info L a st =
     two_leaf_tree (cmr_script L (ar_issuer a), lb_leaf_version L)
       (issuer_data_leaf (is_last_mint_height st))"

definition issuer_spk :: "'p library \<Rightarrow> 'p artifacts \<Rightarrow> issuer_state \<Rightarrow> script" where
  "issuer_spk L a st = p2tr_spk L (issuer_spend_info L a st)"

definition issuer_control_block :: "'p library \<Rightarrow> 'p artifacts \<Rightarrow> issuer_state \<Rightarrow> bytes option" where
  "issuer_control_block L a st =
     control_block L (issuer_spend_info L a st) (cmr_script L (ar_issuer a)) (lb_leaf_version L)"

record 'p ctx =
  cx_params :: params
  cx_artifacts :: "'p artifacts"
  cx_genesis :: block_hash

section \<open>What the code relies on\<close>

fun leaves_of :: "tap_tree \<Rightarrow> leaf multiset" where
  "leaves_of (TapLeaf l) = {#l#}"
| "leaves_of (TapBranch t u) = leaves_of t + leaves_of u"

definition library_ok :: "'p library \<Rightarrow> bool" where
  "library_ok L \<longleftrightarrow>
     lb_leaf_version L \<noteq> DATA_LEAF_VER \<and>
     (\<forall>t u. lb_p2tr L nums_key (lb_merkle_root L t) = lb_p2tr L nums_key (lb_merkle_root L u) \<longrightarrow>
        leaves_of t = leaves_of u) \<and>
     (\<forall>k r. lb_p2tr L k r \<noteq> []) \<and>
     (\<forall>info l. l \<in># leaves_of (si_tree info) \<longrightarrow> lb_control_block L info l \<noteq> None)"

text \<open>The trees of the two constant addresses, as \<open>compile\<close> builds them.\<close>

definition artifacts_wf :: "'p library \<Rightarrow> 'p artifacts \<Rightarrow> bool" where
  "artifacts_wf L a \<longleftrightarrow>
     ar_pot_info a = two_leaf_tree (cmr_script L (ar_reserve_repay a), lb_leaf_version L)
                       (cmr_script L (ar_pot_outflow a), lb_leaf_version L) \<and>
     ar_stability_info a = single_leaf_tree L (cmr_script L (ar_stability a))"

lemmas spk_defs = pot_spk_def stability_spk_def vault_spk_def issuer_spk_def p2tr_spk_def
  vault_spend_info_def issuer_spend_info_def two_leaf_tree_def single_leaf_tree_def

lemma data_leaf_versions [simp]:
  "snd (vault_data_leaf st) = DATA_LEAF_VER" "snd (issuer_data_leaf h) = DATA_LEAF_VER"
  by (simp_all add: vault_data_leaf_def issuer_data_leaf_def data_leaf_version_def)

lemma p2tr_same_leaves:
  "\<lbrakk>library_ok L; lb_p2tr L nums_key (lb_merkle_root L t) = lb_p2tr L nums_key (lb_merkle_root L u)\<rbrakk>
     \<Longrightarrow> leaves_of t = leaves_of u"
  unfolding library_ok_def by blast

lemma vault_ne_issuer_leaf [simp]:
  "vault_data_leaf st \<noteq> issuer_data_leaf h" "issuer_data_leaf h \<noteq> vault_data_leaf st"
proof -
  have "length (fst (vault_data_leaf st)) \<noteq> length (fst (issuer_data_leaf h))"
    by (simp add: vault_data_leaf_def issuer_data_leaf_def)
  then show "vault_data_leaf st \<noteq> issuer_data_leaf h" "issuer_data_leaf h \<noteq> vault_data_leaf st"
    by force+
qed

text \<open>The data leaves of a tree; a Simplicity leaf is never one of them.\<close>

definition data_leaves :: "tap_tree \<Rightarrow> leaf multiset" where
  "data_leaves t = filter_mset (\<lambda>l. snd l = DATA_LEAF_VER) (leaves_of t)"

lemma same_spk:
  assumes "library_ok L" "si_internal_key i = nums_key" "si_internal_key j = nums_key"
    "p2tr_spk L i = p2tr_spk L j"
  shows "data_leaves (si_tree i) = data_leaves (si_tree j)"
    "size (leaves_of (si_tree i)) = size (leaves_of (si_tree j))"
  using assms p2tr_same_leaves[OF assms(1), of "si_tree i" "si_tree j"]
  by (simp_all add: p2tr_spk_def data_leaves_def)

lemma tree_data_leaves:
  assumes "library_ok L"
  shows "data_leaves (si_tree (vault_spend_info L a st)) = {#vault_data_leaf st#}"
    "data_leaves (si_tree (issuer_spend_info L a ist)) = {#issuer_data_leaf (is_last_mint_height ist)#}"
    "artifacts_wf L a \<Longrightarrow> data_leaves (si_tree (ar_pot_info a)) = {#}"
    "artifacts_wf L a \<Longrightarrow> data_leaves (si_tree (ar_stability_info a)) = {#}"
  using assms by (simp_all add: data_leaves_def spk_defs artifacts_wf_def library_ok_def)

lemma tree_keys [simp]:
  "si_internal_key (vault_spend_info L a st) = nums_key"
  "si_internal_key (issuer_spend_info L a ist) = nums_key"
  by (simp_all add: spk_defs)

lemma const_tree_keys:
  "artifacts_wf L a \<Longrightarrow> si_internal_key (ar_pot_info a) = nums_key"
  "artifacts_wf L a \<Longrightarrow> si_internal_key (ar_stability_info a) = nums_key"
  by (simp_all add: artifacts_wf_def spk_defs)

lemma vault_spk_inject:
  "library_ok L \<Longrightarrow> vault_spk L a st = vault_spk L a st' \<longleftrightarrow> st = st'"
  using same_spk(1)[of L "vault_spend_info L a st" "vault_spend_info L a st'"]
  by (auto simp: vault_spk_def tree_data_leaves)

lemma issuer_spk_inject:
  fixes st st' :: issuer_state
  shows "library_ok L \<Longrightarrow> issuer_spk L a st = issuer_spk L a st' \<longleftrightarrow> st = st'"
  using same_spk(1)[of L "issuer_spend_info L a st" "issuer_spend_info L a st'"]
  by (auto simp: issuer_spk_def tree_data_leaves)

lemma vault_ne_issuer_spk: "library_ok L \<Longrightarrow> vault_spk L a st \<noteq> issuer_spk L a ist"
  using same_spk(1)[of L "vault_spend_info L a st" "issuer_spend_info L a ist"]
  by (auto simp: vault_spk_def issuer_spk_def tree_data_leaves)

lemma spk_ne:
  assumes ok: "library_ok L" and wf: "artifacts_wf L a"
  shows "vault_spk L a st \<noteq> pot_spk L a" "issuer_spk L a ist \<noteq> pot_spk L a"
    "vault_spk L a st \<noteq> stability_spk L a" "issuer_spk L a ist \<noteq> stability_spk L a"
    "pot_spk L a \<noteq> stability_spk L a"
proof -
  note keys = const_tree_keys[OF wf] and leaves = tree_data_leaves[OF ok]
  show "vault_spk L a st \<noteq> pot_spk L a"
    using same_spk(1)[OF ok tree_keys(1)[of L a st] keys(1)] leaves wf
    by (auto simp: vault_spk_def pot_spk_def)
  show "issuer_spk L a ist \<noteq> pot_spk L a"
    using same_spk(1)[OF ok tree_keys(2)[of L a ist] keys(1)] leaves wf
    by (auto simp: issuer_spk_def pot_spk_def)
  show "vault_spk L a st \<noteq> stability_spk L a"
    using same_spk(1)[OF ok tree_keys(1)[of L a st] keys(2)] leaves wf
    by (auto simp: vault_spk_def stability_spk_def)
  show "issuer_spk L a ist \<noteq> stability_spk L a"
    using same_spk(1)[OF ok tree_keys(2)[of L a ist] keys(2)] leaves wf
    by (auto simp: issuer_spk_def stability_spk_def)
  show "pot_spk L a \<noteq> stability_spk L a"
    using same_spk(2)[OF ok keys] wf
    by (auto simp: pot_spk_def stability_spk_def artifacts_wf_def two_leaf_tree_def single_leaf_tree_def)
qed

lemma spk_nonempty:
  assumes "library_ok L"
  shows "vault_spk L a st \<noteq> []" "issuer_spk L a ist \<noteq> []" "pot_spk L a \<noteq> []" "stability_spk L a \<noteq> []"
  using assms by (simp_all add: library_ok_def spk_defs)

section \<open>Compilation\<close>

lemma compile_covenant_Inr [simp]:
  "compile_covenant L cov args = Inr prog \<longleftrightarrow> lb_program L cov args = Inr prog"
  by (auto simp: compile_covenant_def split: sum.splits)

lemma artifacts_compile_Inr:
  assumes "artifacts_compile L p = Inr a"
  shows "preflight p = Inr ()" "artifacts_wf L a"
    "lb_program L Stability (stability_args p (pot_spk_hash L a)) = Inr (ar_stability a)"
    "lb_program L Vault (vault_args L p (pot_spk_hash L a) (stability_spk_hash L a)) = Inr (ar_vault a)"
    "lb_program L Issuer (issuer_args L p (vault_cmr L a) (pot_spk_hash L a) (stability_spk_hash L a)) =
       Inr (ar_issuer a)"
proof -
  have pre: "preflight p = Inr ()"
    using assms by (cases "preflight p") (simp_all add: artifacts_compile_def)
  note unfolded = assms[unfolded artifacts_compile_def pre sum.case bind_res_Inr Let_def compile_covenant_Inr]
  show "preflight p = Inr ()" by (rule pre)
  show "artifacts_wf L a"
    using unfolded by (elim exE conjE) (auto simp: artifacts_wf_def)
  show "lb_program L Stability (stability_args p (pot_spk_hash L a)) = Inr (ar_stability a)"
    using unfolded by (elim exE conjE) (auto simp: pot_spk_hash_def pot_spk_def)
  show "lb_program L Vault (vault_args L p (pot_spk_hash L a) (stability_spk_hash L a)) = Inr (ar_vault a)"
    using unfolded
    by (elim exE conjE) (auto simp: pot_spk_hash_def pot_spk_def stability_spk_hash_def stability_spk_def)
  show "lb_program L Issuer (issuer_args L p (vault_cmr L a) (pot_spk_hash L a) (stability_spk_hash L a)) =
      Inr (ar_issuer a)"
    using unfolded
    by (elim exE conjE)
      (auto simp: pot_spk_hash_def pot_spk_def stability_spk_hash_def stability_spk_def vault_cmr_def)
qed

section \<open>A concrete library\<close>

text \<open>
  A library for which \<open>library_ok\<close> holds: trees are serialised with a prefix-free code, so the
  addresses are injective in the leaves. It is used to evaluate the model on concrete inputs.
\<close>

fun ser_tree :: "tap_tree \<Rightarrow> bytes" where
  "ser_tree (TapLeaf l) = concat (map (\<lambda>b. [1, b]) (fst l)) @ [0, snd l]"
| "ser_tree (TapBranch t u) = 2 # ser_tree t @ ser_tree u"

fun covenant_byte :: "covenant \<Rightarrow> u8" where
  "covenant_byte ReserveRepay = 0"
| "covenant_byte PotOutflow = 1"
| "covenant_byte Stability = 2"
| "covenant_byte Vault = 3"
| "covenant_byte Issuer = 4"

definition sample_library :: "u8 library" where
  "sample_library =
     \<lparr>lb_sha256 = (\<lambda>bs. bs), lb_program = (\<lambda>cov args. Inr (covenant_byte cov)), lb_cmr = (\<lambda>b. [b]),
      lb_leaf_version = 190, lb_merkle_root = ser_tree, lb_p2tr = (\<lambda>k r. 81 # r),
      lb_control_block = (\<lambda>info l. Some []), lb_txid = (\<lambda>tx. 1),
      lb_xonly = (\<lambda>bs. Some (of_nat (from_be bs)))\<rparr>"

lemma ser_leaf_prefix:
  "concat (map (\<lambda>b. [1, b]) s) @ [0, v] @ xs = concat (map (\<lambda>b. [1 :: u8, b]) s') @ [0, v'] @ ys
     \<Longrightarrow> s = s' \<and> v = v' \<and> xs = ys"
proof (induction s arbitrary: s')
  case Nil
  then show ?case by (cases s') auto
next
  case (Cons b s)
  then show ?case by (cases s') auto
qed

lemma ser_tree_prefix: "ser_tree t @ xs = ser_tree u @ ys \<Longrightarrow> t = u \<and> xs = ys"
proof (induction t arbitrary: u xs ys)
  case (TapLeaf l)
  show ?case
  proof (cases u)
    case (TapLeaf m)
    with TapLeaf.prems ser_leaf_prefix[of "fst l" "snd l" xs "fst m" "snd m" ys] show ?thesis
      by (auto intro: prod_eqI)
  next
    case (TapBranch v w)
    with TapLeaf.prems show ?thesis by (cases "fst l") auto
  qed
next
  case (TapBranch v w)
  show ?case
  proof (cases u)
    case (TapLeaf m)
    with TapBranch.prems show ?thesis by (cases "fst m") auto
  next
    case (TapBranch v' w')
    with TapBranch.prems have eq: "ser_tree v @ ser_tree w @ xs = ser_tree v' @ ser_tree w' @ ys" by simp
    from TapBranch.IH(1)[OF eq] have "v = v'" and rest: "ser_tree w @ xs = ser_tree w' @ ys" by blast+
    with TapBranch.IH(2)[OF rest] \<open>u = TapBranch v' w'\<close> show ?thesis by simp
  qed
qed

lemma sample_library_ok: "library_ok sample_library"
  using ser_tree_prefix[where xs = "[]" and ys = "[]"]
  by (auto simp: library_ok_def sample_library_def DATA_LEAF_VER_def)

section \<open>Compilation wires every pin; addresses identify their state\<close>

text \<open>
  A successful compilation has passed the preflight, and every cross-covenant
  pin is the value of the sibling that was really compiled: the pot address hash in the reserve,
  the vault and the issuer, the reserve address hash in the vault and the issuer, and the vault's
  CMR in the issuer.
\<close>

lemma artifacts_pins:
  assumes "artifacts_compile L p = Inr a"
  shows "preflight p = Inr () \<and>
    (\<exists>sargs vargs iargs.
       lb_program L Stability sargs = Inr (ar_stability a) \<and>
       lb_program L Vault vargs = Inr (ar_vault a) \<and> lb_program L Issuer iargs = Inr (ar_issuer a) \<and>
       map_of sargs ''POT_SPK'' = Some (AU256 (pot_spk_hash L a)) \<and>
       map_of vargs ''POT_SPK'' = Some (AU256 (pot_spk_hash L a)) \<and>
       map_of vargs ''STABILITY_SPK'' = Some (AU256 (stability_spk_hash L a)) \<and>
       map_of iargs ''POT_SPK'' = Some (AU256 (pot_spk_hash L a)) \<and>
       map_of iargs ''STABILITY_SPK'' = Some (AU256 (stability_spk_hash L a)) \<and>
       map_of iargs ''VAULT_CMR'' = Some (AU256 (vault_cmr L a)))"
proof -
  note c = artifacts_compile_Inr[OF assms]
  show ?thesis
    by (intro conjI c(1) exI) (rule c(3-5) | simp add: stability_args_def vault_args_def issuer_args_def)+
qed

definition sample_params :: params where
  "sample_params =
     \<lparr>pr_obol = 10, pr_issuer_token = 11, pr_policy = 12, pr_oracle_pks = [1, 2, 3, 4, 5]\<rparr>"

definition sample_artifacts :: "u8 artifacts" where
  "sample_artifacts =
     \<lparr>ar_reserve_repay = 0, ar_pot_outflow = 1, ar_stability = 2, ar_vault = 3, ar_issuer = 4,
      ar_pot_info = two_leaf_tree ([0], 190) ([1], 190),
      ar_stability_info = single_leaf_tree sample_library [2]\<rparr>"

lemma sample_preflight: "preflight sample_params = Inr ()"
  by (simp add: preflight_def sample_params_def pairs_upto_def named_assets_def Let_def upt_rec)

lemma sample_compile: "artifacts_compile sample_library sample_params = Inr sample_artifacts"
  by (simp add: artifacts_compile_def sample_preflight bind_res_def compile_covenant_def Let_def
      sample_artifacts_def sample_library_def cmr_script_def)

lemma sample_artifacts_wf: "artifacts_wf sample_library sample_artifacts"
  by (rule artifacts_compile_Inr(2)[OF sample_compile])

text \<open>
  In a compiled deploy, two vaults share an address only when debt, owner
  and ratchet agree, two issuer addresses only when the anchors agree, and no two of the pot, the
  reserve, a vault and the issuer ever share an address. The indexer and the covenants identify
  protocol outputs by their scriptPubKey alone, so this is what makes that identification sound.
\<close>

lemma covenant_addresses:
  assumes "library_ok L" "artifacts_compile L p = Inr a"
  shows "(vault_spk L a st = vault_spk L a st' \<longleftrightarrow> st = st') \<and>
    (issuer_spk L a ist = issuer_spk L a ist' \<longleftrightarrow> ist = ist') \<and>
    distinct [pot_spk L a, stability_spk L a, vault_spk L a st, issuer_spk L a ist]"
proof -
  note ne = spk_ne[OF assms(1) artifacts_compile_Inr(2)[OF assms(2)]]
  show ?thesis
    using ne(1)[of st] ne(2)[of ist] ne(3)[of st] ne(4)[of ist] ne(5) vault_ne_issuer_spk[OF assms(1), of a st ist]
    by (simp add: vault_spk_inject[OF assms(1)] issuer_spk_inject[OF assms(1)])
qed

lemma covenant_addresses_sample:
  "distinct [pot_spk sample_library sample_artifacts, stability_spk sample_library sample_artifacts,
     vault_spk sample_library sample_artifacts \<lparr>vs_debt = Obol 5, vs_owner = 9, vs_last_height = BlockHeight 1\<rparr>,
     issuer_spk sample_library sample_artifacts \<lparr>is_last_mint_height = BlockHeight 1\<rparr>]"
  using covenant_addresses[OF sample_library_ok sample_compile] by blast

end
