(* ===== verification/Styx_Plan.thy ===== *)
theory Styx_Plan
  imports Styx_Artifacts
begin

text \<open>
  What the transaction builders share (\<open>styx-pset/src/plan.rs\<close>, \<open>intent.rs\<close>, \<open>error.rs\<close>,
  \<open>build/mod.rs\<close>): the witness plan, the intents, the builder errors and the common tick checks.

  The locale \<open>plan_builder\<close> is the contract every builder keeps: a plan it returns is well formed
  (\<open>plan_wf\<close>: claimed UTXOs match the inputs, every output explicit, the fee output last, one slot
  per covenant input, the vault's slot last), and on inputs inside its accounting domain the plan
  conserves every asset.
\<close>

section \<open>Plans\<close>

datatype slot_kind =
    PotInflow
  | PotOutflow
  | SlotStability stability_op
  | SlotIssuer issuer_state issuer_op
  | SlotVault vault_state vault_op

record witness_slot =
  ws_input :: u32
  ws_kind :: slot_kind

record tx_plan =
  pl_tx :: transaction
  pl_in_utxos :: "elements_utxo list"
  pl_slots :: "witness_slot list"

definition plan_txid :: "'p library \<Rightarrow> tx_plan \<Rightarrow> txid" where
  "plan_txid L plan = lb_txid L (pl_tx plan)"

record 'd built =
  bt_plan :: tx_plan
  bt_expected :: 'd

section \<open>Intents\<close>

record funding_coin =
  fc_outpoint :: outpoint
  fc_value :: sats
  fc_spk :: script

record obol_coin =
  oc_coin_outpoint :: outpoint
  oc_coin_value :: obol
  oc_coin_spk :: script

record poke_intent =
  pk_tick :: oracle_tick
  pk_funding :: funding_coin
  pk_change_spk :: script
  pk_fee :: sats

record open_intent =
  op_owner :: xonly
  op_principal :: obol
  op_collateral :: sats
  op_borrower_spk :: script
  op_funding :: funding_coin
  op_tick :: oracle_tick
  op_fee :: sats

record close_intent =
  cl_payer :: obol_coin
  cl_recipient_spk :: script
  cl_payer_change_spk :: script
  cl_fee :: sats

record repay_intent =
  rp_amount :: obol
  rp_payer :: obol_coin
  rp_payer_change_spk :: script
  rp_fee_coin :: funding_coin
  rp_change_spk :: script
  rp_fee :: sats

record draw_intent =
  dr_amount :: obol
  dr_borrower_spk :: script
  dr_tick :: oracle_tick
  dr_fee :: sats

record refresh_intent =
  rf_tick :: oracle_tick
  rf_fee_coin :: funding_coin
  rf_change_spk :: script
  rf_fee :: sats

record liquidate_intent =
  lq_dd :: obol
  lq_residual :: sats
  lq_keeper :: obol_coin
  lq_keeper_spk :: script
  lq_obol_change_spk :: script
  lq_tick :: oracle_tick
  lq_fee :: sats

record full_liq_intent =
  fl_keeper :: obol_coin
  fl_keeper_spk :: script
  fl_obol_change_spk :: script
  fl_tick :: oracle_tick
  fl_fee :: sats

record bad_debt_intent =
  bd_keeper :: obol_coin
  bd_keeper_spk :: script
  bd_obol_change_spk :: script
  bd_fee_coin :: funding_coin
  bd_change_spk :: script
  bd_tick :: oracle_tick
  bd_fee :: sats

record redeem_intent =
  rd_x :: obol
  rd_redeemer :: obol_coin
  rd_redeemer_spk :: script
  rd_obol_change_spk :: script
  rd_tick :: oracle_tick
  rd_fee :: sats

section \<open>Builder errors and shared checks\<close>

datatype build_error =
    StaleTick block_height block_height
  | RatchetNotAdvanced block_height block_height
  | ZeroPrice
  | ZeroAmount
  | Undercollateralized sats sats
  | InsufficientPot obol obol
  | InsufficientFunding sats sats
  | FundingMismatch sats sats
  | NotPartial obol obol
  | VaultTooHealthy sats sats
  | HealOutOfBand sats sats sats
  | ExtractionExceedsCap sats sats
  | CrOutOfBand sats sats sats
  | NotUnderwater sats sats
  | InsufficientPayer obol obol
  | AmountExceedsDebt obol obol
  | Math math_error

definition check_zero_price :: "oracle_tick \<Rightarrow> build_error + unit" where
  "check_zero_price t = refuse_if (price_raw (fst (price_range t)) = 0) ZeroPrice (Inr ())"

definition check_tick :: "oracle_tick \<Rightarrow> block_height \<Rightarrow> build_error + unit" where
  "check_tick t anchor =
     bind_res (check_zero_price t) (\<lambda>_.
     refuse_if (ot_height t < anchor) (StaleTick (ot_height t) anchor) (Inr ()))"

definition check_vault_ratchet :: "oracle_tick \<Rightarrow> block_height \<Rightarrow> build_error + unit" where
  "check_vault_ratchet t h0 =
     refuse_if (ot_height t \<le> h0) (RatchetNotAdvanced (ot_height t) h0) (Inr ())"

text \<open>The placeholder signature of an owner operation, and \<open>covenant_cents().unwrap_or(u32::MAX)\<close>.\<close>

definition placeholder_sig :: sig where
  "placeholder_sig = replicate 64 0"

definition cents_or_max :: "obol \<Rightarrow> u32" where
  "cents_or_max d = (case covenant_cents d of Inl _ \<Rightarrow> u32_max | Inr c \<Rightarrow> c)"

lemma check_zero_price_Inr [simp]:
  "check_zero_price t = Inr u \<longleftrightarrow> price_raw (tick_lo t) \<noteq> 0"
  by (simp add: check_zero_price_def res_Inr)

lemma check_tick_Inr [simp]:
  "check_tick t anchor = Inr u \<longleftrightarrow> price_raw (tick_lo t) \<noteq> 0 \<and> anchor \<le> ot_height t"
  by (auto simp: check_tick_def res_Inr)

lemma check_vault_ratchet_Inr [simp]:
  "check_vault_ratchet t h0 = Inr u \<longleftrightarrow> h0 < ot_height t"
  by (auto simp: check_vault_ratchet_def res_Inr)

lemma cents_or_max_Inr [simp]: "covenant_cents d = Inr c \<Longrightarrow> cents_or_max d = c"
  by (simp add: cents_or_max_def)

section \<open>Well-formed plans\<close>

definition plan_input_ok :: "tx_in \<Rightarrow> bool" where
  "plan_input_ok i \<longleftrightarrow> ti_sequence i = 0 \<and> \<not> ti_is_pegin i \<and> ti_script_sig i = [] \<and>
     ti_asset_issuance i = issuance_null \<and> ti_witness i = txin_witness_empty"

definition explicit_out :: "tx_out \<Rightarrow> bool" where
  "explicit_out o' \<longleftrightarrow> (case to_value o' of VExplicit _ \<Rightarrow> True | _ \<Rightarrow> False) \<and>
     (case to_asset o' of AExplicit _ \<Rightarrow> True | _ \<Rightarrow> False)"

fun is_vault_slot :: "slot_kind \<Rightarrow> bool" where
  "is_vault_slot (SlotVault _ _) = True"
| "is_vault_slot _ = False"

definition plan_wf :: "tx_plan \<Rightarrow> bool" where
  "plan_wf plan \<longleftrightarrow>
     (let tx = pl_tx plan; ins = map (unat \<circ> ws_input) (pl_slots plan) in
      tx_version tx = 2 \<and> length (pl_in_utxos plan) = length (tx_input tx) \<and>
      list_all plan_input_ok (tx_input tx) \<and>
      list_all explicit_out (tx_output tx) \<and>
      tx_output tx \<noteq> [] \<and> to_script_pubkey (last (tx_output tx)) = [] \<and>
      pl_slots plan \<noteq> [] \<and> distinct ins \<and> list_all (\<lambda>i. i < length (tx_input tx)) ins \<and>
      list_all (\<lambda>s. \<not> is_vault_slot (ws_kind s)) (butlast (pl_slots plan)))"

text \<open>Every asset that leaves the claimed inputs arrives in the outputs, the fee included.\<close>

definition conserves :: "tx_plan \<Rightarrow> bool" where
  "conserves plan \<longleftrightarrow>
     (\<forall>a. utxos_total a (pl_in_utxos plan) = outs_total a (tx_output (pl_tx plan)))"

locale plan_builder =
  fixes build :: "'i \<Rightarrow> build_error + 'd built"
    and accounted :: "'i \<Rightarrow> bool"
  assumes plan_ok: "build i = Inr b \<Longrightarrow> plan_wf (bt_plan b)"
    and balanced: "\<lbrakk>build i = Inr b; accounted i\<rbrakk> \<Longrightarrow> conserves (bt_plan b)"
begin

lemma fee_last:
  "build i = Inr b \<Longrightarrow> to_script_pubkey (last (tx_output (pl_tx (bt_plan b)))) = []"
  using plan_ok by (auto simp: plan_wf_def Let_def)

lemma utxo_per_input:
  "build i = Inr b \<Longrightarrow> length (pl_in_utxos (bt_plan b)) = length (tx_input (pl_tx (bt_plan b)))"
  using plan_ok by (auto simp: plan_wf_def Let_def)

end

lemma explicit_outs [simp]: "explicit_out (txout v spk a)" "explicit_out (fee_out f a)"
  by (simp_all add: explicit_out_def)

lemma plan_inputs [simp]: "plan_input_ok (txin op)"
  by (simp add: plan_input_ok_def)

text \<open>The asset-distinctness half of the preflight, as the accounting lemmas use it.\<close>

definition assets_ok :: "params \<Rightarrow> bool" where
  "assets_ok p \<longleftrightarrow> distinct [pr_obol p, pr_issuer_token p, pr_policy p]"

lemma assets_ok_ne:
  assumes "assets_ok p"
  shows "pr_obol p \<noteq> pr_issuer_token p" "pr_issuer_token p \<noteq> pr_obol p" "pr_obol p \<noteq> pr_policy p"
    "pr_policy p \<noteq> pr_obol p" "pr_issuer_token p \<noteq> pr_policy p" "pr_policy p \<noteq> pr_issuer_token p"
  using assms by (auto simp: assets_ok_def)

text \<open>
  Checking conservation asset by asset: only the three assets of the deployment occur in a plan,
  and they are distinct.
\<close>

definition uses_assets :: "asset_id set \<Rightarrow> tx_plan \<Rightarrow> bool" where
  "uses_assets A plan \<longleftrightarrow>
     (\<forall>o' \<in> set (tx_output (pl_tx plan)). \<exists>a \<in> A. to_asset o' = AExplicit a) \<and>
     (\<forall>u \<in> set (pl_in_utxos plan). \<exists>a \<in> A. eu_asset u = AExplicit a)"

lemma amount_in_other: "a \<noteq> b \<Longrightarrow> amount_in a (AExplicit b) v = 0"
  by (cases v) auto

lemma outs_total_other:
  "\<lbrakk>\<forall>o' \<in> set os. \<exists>b \<in> A. to_asset o' = AExplicit b; a \<notin> A\<rbrakk> \<Longrightarrow> outs_total a os = 0"
  by (induction os) (auto intro!: amount_in_other)

lemma utxos_total_other:
  "\<lbrakk>\<forall>u \<in> set us. \<exists>b \<in> A. eu_asset u = AExplicit b; a \<notin> A\<rbrakk> \<Longrightarrow> utxos_total a us = 0"
  by (induction us) (auto intro!: amount_in_other)

lemma conservesI:
  assumes "uses_assets {pr_obol p, pr_issuer_token p, pr_policy p} plan"
    and "\<And>a. a \<in> {pr_obol p, pr_issuer_token p, pr_policy p} \<Longrightarrow>
      utxos_total a (pl_in_utxos plan) = outs_total a (tx_output (pl_tx plan))"
  shows "conserves plan"
  unfolding conserves_def
proof
  fix a
  show "utxos_total a (pl_in_utxos plan) = outs_total a (tx_output (pl_tx plan))"
  proof (cases "a \<in> {pr_obol p, pr_issuer_token p, pr_policy p}")
    case False
    with assms(1) have "utxos_total a (pl_in_utxos plan) = 0" "outs_total a (tx_output (pl_tx plan)) = 0"
      unfolding uses_assets_def by (blast intro: utxos_total_other outs_total_other)+
    then show ?thesis by simp
  qed (rule assms(2))
qed

lemma plan_wfI:
  assumes "tx_version (pl_tx plan) = 2" "length (pl_in_utxos plan) = length (tx_input (pl_tx plan))"
    "list_all plan_input_ok (tx_input (pl_tx plan))" "list_all explicit_out (tx_output (pl_tx plan))"
    "tx_output (pl_tx plan) = os @ [fee_out f a]"
    "pl_slots plan \<noteq> []" "distinct (map (unat \<circ> ws_input) (pl_slots plan))"
    "list_all (\<lambda>i. i < length (tx_input (pl_tx plan))) (map (unat \<circ> ws_input) (pl_slots plan))"
    "list_all (\<lambda>s. \<not> is_vault_slot (ws_kind s)) (butlast (pl_slots plan))"
  shows "plan_wf plan"
  using assms by (simp add: plan_wf_def Let_def)

text \<open>
  No amount of the model comes near the limits of \<open>u64\<close>: the supply of an Elements asset is
  bounded far below \<open>2 ^ 63\<close>.
\<close>

definition sane_amounts :: "u64 list \<Rightarrow> bool" where
  "sane_amounts xs \<longleftrightarrow> (\<forall>x \<in> set xs. unat x < 2 ^ 63)"

lemma sat_add_sane: "sane_amounts [x, y] \<Longrightarrow> unat (sat_add x y) = unat x + unat y"
  by (rule unat_sat_add_exact) (simp add: sane_amounts_def)

lemma sane_simps [simp]:
  "sane_amounts [] = True" "sane_amounts (x # xs) = (unat x < 2 ^ 63 \<and> sane_amounts xs)"
  by (simp_all add: sane_amounts_def)

lemma unat_diff_gt: "(b :: u64) < a \<Longrightarrow> unat (a - b) = unat a - unat b"
  by (simp add: unat_sub order.strict_implies_order)

end
