(* ===== verification/Styx_Pset.thy ===== *)
theory Styx_Pset
  imports Styx_Plan
begin

text \<open>
  From a plan to a broadcastable transaction (\<open>styx-pset/src/pset.rs\<close>, \<open>finalize.rs\<close>,
  \<open>sign.rs\<close>, \<open>signing.rs\<close>): PSET emission, pruning of every covenant slot in plan order, owner
  signing in and out of process, and the finalization of key-spend signatures.

  The Simplicity satisfier, the sighash algorithms and the Schnorr scheme are library code; they
  are the fields of the record \<open>prover\<close>. A panic of the source (an \<open>unwrap\<close> on a missing control
  block, an index out of range) is the error value \<open>PrunePanic\<close>; the lemmas show that it is never
  reached from a well-formed plan.
\<close>

section \<open>Library interface\<close>

record spend_env =
  en_tx :: transaction
  en_utxos :: "elements_utxo list"
  en_index :: u32
  en_cmr :: bytes
  en_control_block :: bytes
  en_genesis :: block_hash

type_synonym witness_values = "(string \<times> simf_val) list"

datatype sighash_type = SighashAll | SighashOther nat

record schnorr_sig =
  ss_sig :: bytes
  ss_hash_ty :: sighash_type

text \<open>The second component of a satisfied program is its program, the first its witness bytes.\<close>

record 'p prover =
  pv_satisfy :: "'p \<Rightarrow> witness_values \<Rightarrow> spend_env option \<Rightarrow> string + (bytes \<times> bytes)"
  pv_env_sighash :: "spend_env \<Rightarrow> bytes"
  pv_key_sighash :: "transaction \<Rightarrow> tx_out list \<Rightarrow> nat \<Rightarrow> block_hash \<Rightarrow> string + bytes"
  pv_sign :: "u256 \<Rightarrow> bytes \<Rightarrow> bytes"
  pv_verify :: "bytes \<Rightarrow> bytes \<Rightarrow> xonly \<Rightarrow> bool"
  pv_sig_ok :: "bytes \<Rightarrow> bool"
  pv_tweak :: "u256 \<Rightarrow> string + u256"
  pv_sig_to_vec :: "schnorr_sig \<Rightarrow> bytes"

section \<open>Finalization\<close>

datatype prune_error = PruneRejected u32 string string | PrunePanic

definition cb_or_panic :: "bytes option \<Rightarrow> prune_error + bytes" where
  "cb_or_panic cb = (case cb of None \<Rightarrow> Inl PrunePanic | Some b \<Rightarrow> Inr b)"

definition stack :: "'p library \<Rightarrow> 'p \<Rightarrow> bytes \<Rightarrow> bytes \<Rightarrow> bytes \<Rightarrow> bytes list" where
  "stack L prog program_bytes witness_bytes cb = [witness_bytes, program_bytes, cmr_script L prog, cb]"

definition leaf_witness ::
  "'p library \<Rightarrow> 'p prover \<Rightarrow> 'p \<Rightarrow> bytes option \<Rightarrow> u32 \<Rightarrow> string \<Rightarrow> prune_error + bytes list" where
  "leaf_witness L S prog cb input covenant =
     bind_res (cb_or_panic cb) (\<lambda>cb.
     bind_res (map_err (PruneRejected input covenant) (pv_satisfy S prog [] None)) (\<lambda>(wit, prg).
     Inr (stack L prog prg wit cb)))"

definition pruned_witness ::
  "'p library \<Rightarrow> 'p prover \<Rightarrow> 'p ctx \<Rightarrow> 'p \<Rightarrow> bytes option \<Rightarrow> transaction \<Rightarrow> elements_utxo list \<Rightarrow> u32 \<Rightarrow>
     witness_values \<Rightarrow> string \<Rightarrow> prune_error + bytes list" where
  "pruned_witness L S c prog cb tx utxos input wv covenant =
     bind_res (cb_or_panic cb) (\<lambda>cb.
     let env = \<lparr>en_tx = tx, en_utxos = utxos, en_index = input, en_cmr = lb_cmr L prog,
                en_control_block = cb, en_genesis = cx_genesis c\<rparr>
     in bind_res (map_err (PruneRejected input covenant) (pv_satisfy S prog wv (Some env))) (\<lambda>(wit, prg).
        Inr (stack L prog prg wit cb)))"

definition slot_witness ::
  "'p library \<Rightarrow> 'p prover \<Rightarrow> 'p ctx \<Rightarrow> transaction \<Rightarrow> elements_utxo list \<Rightarrow> witness_slot \<Rightarrow>
     prune_error + bytes list" where
  "slot_witness L S c tx utxos slot =
     (let a = cx_artifacts c in
      case ws_kind slot of
        PotInflow \<Rightarrow>
          leaf_witness L S (ar_reserve_repay a) (pot_control_block L a Inflow) (ws_input slot) ''reserve_repay''
      | PotOutflow \<Rightarrow>
          leaf_witness L S (ar_pot_outflow a) (pot_control_block L a Outflow) (ws_input slot) ''pot_outflow''
      | SlotStability op \<Rightarrow>
          pruned_witness L S c (ar_stability a) (stability_control_block L a) tx utxos (ws_input slot)
            [(''OP'', stability_op_value op)] ''stability''
      | SlotIssuer st op \<Rightarrow>
          pruned_witness L S c (ar_issuer a) (issuer_control_block L a st) tx utxos (ws_input slot)
            [(''LAST_MINT_HEIGHT'', VU32 (height_raw (is_last_mint_height st))), (''OP'', issuer_op_value op)]
            ''issuer''
      | SlotVault st op \<Rightarrow>
          pruned_witness L S c (ar_vault a) (vault_control_block L a st) tx utxos (ws_input slot)
            [(''DEBT'', VU64 (obol_raw (vs_debt st))), (''OWNER'', VU256 (xonly_u256 (vs_owner st))),
             (''LAST_HEIGHT'', VU32 (height_raw (vs_last_height st))), (''OP'', vault_op_value op)]
            ''vault'')"

definition set_witness :: "transaction \<Rightarrow> nat \<Rightarrow> bytes list \<Rightarrow> prune_error + transaction" where
  "set_witness tx i w =
     (if i < length (tx_input tx)
      then Inr (tx\<lparr>tx_input := (tx_input tx)[i := (tx_input tx ! i)\<lparr>ti_witness :=
                  (ti_witness (tx_input tx ! i))\<lparr>tiw_script_witness := w\<rparr>\<rparr>]\<rparr>)
      else Inl PrunePanic)"

fun witness_slots ::
  "'p library \<Rightarrow> 'p prover \<Rightarrow> 'p ctx \<Rightarrow> elements_utxo list \<Rightarrow> transaction \<Rightarrow> witness_slot list \<Rightarrow>
     prune_error + transaction" where
  "witness_slots L S c utxos tx [] = Inr tx"
| "witness_slots L S c utxos tx (slot # slots) =
     bind_res (slot_witness L S c tx utxos slot) (\<lambda>w.
     bind_res (set_witness tx (unat (ws_input slot)) w) (\<lambda>tx'.
     witness_slots L S c utxos tx' slots))"

definition finalize :: "'p library \<Rightarrow> 'p prover \<Rightarrow> 'p ctx \<Rightarrow> tx_plan \<Rightarrow> prune_error + transaction" where
  "finalize L S c plan = witness_slots L S c (pl_in_utxos plan) (pl_tx plan) (pl_slots plan)"

text \<open>The slots before the first one at \<open>input\<close>: the loop stops there.\<close>

definition tx_before_slot ::
  "'p library \<Rightarrow> 'p prover \<Rightarrow> 'p ctx \<Rightarrow> tx_plan \<Rightarrow> u32 \<Rightarrow> prune_error + transaction" where
  "tx_before_slot L S c plan input =
     witness_slots L S c (pl_in_utxos plan) (pl_tx plan)
       (takeWhile (\<lambda>s. ws_input s \<noteq> input) (pl_slots plan))"

fun find_vault :: "witness_slot list \<Rightarrow> (u32 \<times> vault_state) option" where
  "find_vault [] = None"
| "find_vault (s # ss) =
     (case ws_kind s of SlotVault st _ \<Rightarrow> Some (ws_input s, st) | _ \<Rightarrow> find_vault ss)"

definition vault_sighash :: "'p library \<Rightarrow> 'p prover \<Rightarrow> 'p ctx \<Rightarrow> tx_plan \<Rightarrow> prune_error + bytes" where
  "vault_sighash L S c plan =
     (case find_vault (pl_slots plan) of
        None \<Rightarrow> Inl (PruneRejected 0 ''vault'' ''no vault slot'')
      | Some (input, st) \<Rightarrow>
          bind_res (tx_before_slot L S c plan input) (\<lambda>tx.
          bind_res (cb_or_panic (vault_control_block L (cx_artifacts c) st)) (\<lambda>cb.
          Inr (pv_env_sighash S
            \<lparr>en_tx = tx, en_utxos = pl_in_utxos plan, en_index = input,
             en_cmr = lb_cmr L (ar_vault (cx_artifacts c)), en_control_block = cb,
             en_genesis = cx_genesis c\<rparr>))))"

section \<open>Owner signing\<close>

definition sign_slot :: "sig \<Rightarrow> witness_slot \<Rightarrow> witness_slot" where
  "sign_slot sg s =
     (case ws_kind s of SlotVault st op \<Rightarrow> s\<lparr>ws_kind := SlotVault st (with_owner_sig op sg)\<rparr> | _ \<Rightarrow> s)"

definition install_owner_sig :: "tx_plan \<Rightarrow> sig \<Rightarrow> tx_plan" where
  "install_owner_sig plan sg = plan\<lparr>pl_slots := map (sign_slot sg) (pl_slots plan)\<rparr>"

definition owner_sign ::
  "'p library \<Rightarrow> 'p prover \<Rightarrow> 'p ctx \<Rightarrow> tx_plan \<Rightarrow> u256 \<Rightarrow> prune_error + tx_plan" where
  "owner_sign L S c plan key =
     bind_res (vault_sighash L S c plan) (\<lambda>digest. Inr (install_owner_sig plan (pv_sign S key digest)))"

datatype signing_error =
    Sighash prune_error
  | NoOwnerOp
  | SigEncoding string
  | BadSignature

record owner_signing_request =
  sr_txid :: string
  sr_sighash :: string
  sr_owner :: string

definition hex_digit :: "nat \<Rightarrow> char" where
  "hex_digit n = (if n < 10 then char_of (48 + n) else char_of (87 + n))"

definition hex_byte :: "u8 \<Rightarrow> string" where
  "hex_byte b = [hex_digit (unat b div 16), hex_digit (unat b mod 16)]"

definition hex_str :: "bytes \<Rightarrow> string" where
  "hex_str bs = concat (map hex_byte bs)"

text \<open>A transaction id prints its bytes in reverse (the hash type's display convention).\<close>

definition txid_display :: "txid \<Rightarrow> string" where
  "txid_display t = hex_str (rev (u256_be t))"

fun find_owner :: "witness_slot list \<Rightarrow> xonly option" where
  "find_owner [] = None"
| "find_owner (s # ss) =
     (case ws_kind s of
        SlotVault st op \<Rightarrow> if is_owner_op op then Some (vs_owner st) else find_owner ss
      | _ \<Rightarrow> find_owner ss)"

definition owner_signing_request ::
  "'p library \<Rightarrow> 'p prover \<Rightarrow> 'p ctx \<Rightarrow> tx_plan \<Rightarrow> signing_error + owner_signing_request" where
  "owner_signing_request L S c plan =
     (case find_owner (pl_slots plan) of
        None \<Rightarrow> Inl NoOwnerOp
      | Some owner \<Rightarrow>
          bind_res (map_err Sighash (vault_sighash L S c plan)) (\<lambda>digest.
          Inr \<lparr>sr_txid = txid_display (plan_txid L plan), sr_sighash = hex_str digest,
               sr_owner = hex_str (u256_be owner)\<rparr>))"

text \<open>
  \<open>u8::from_str_radix\<close> on two characters, in base 16: upper and lower case digits, and a leading
  plus sign, as the standard library accepts.
\<close>

definition digit_of :: "char \<Rightarrow> nat option" where
  "digit_of ch =
     (let n = of_char ch :: nat in
      if 48 \<le> n \<and> n \<le> 57 then Some (n - 48)
      else if 97 \<le> n \<and> n \<le> 102 then Some (n - 87)
      else if 65 \<le> n \<and> n \<le> 70 then Some (n - 55)
      else None)"

definition from_str_radix16 :: "char \<Rightarrow> char \<Rightarrow> u8 option" where
  "from_str_radix16 x y =
     (if x = CHR ''+'' then map_option of_nat (digit_of y)
      else case (digit_of x, digit_of y) of
             (Some a, Some b) \<Rightarrow> Some (of_nat (a * 16 + b)) | _ \<Rightarrow> None)"

fun decode_pairs :: "string \<Rightarrow> bytes option" where
  "decode_pairs (x # y # rest) =
     (case from_str_radix16 x y of
        None \<Rightarrow> None | Some b \<Rightarrow> map_option ((#) b) (decode_pairs rest))"
| "decode_pairs _ = Some []"

definition is_ascii :: "string \<Rightarrow> bool" where
  "is_ascii s \<longleftrightarrow> list_all (\<lambda>ch. (of_char ch :: nat) < 128) s"

definition decode_64 :: "string \<Rightarrow> signing_error + bytes" where
  "decode_64 s =
     (if \<not> is_ascii s \<or> length s \<noteq> 128 then Inl (SigEncoding ''expected 128 hex chars'')
      else case decode_pairs s of
             None \<Rightarrow> Inl (SigEncoding ''not hex'') | Some bs \<Rightarrow> Inr bs)"

definition apply_owner_sig ::
  "'p library \<Rightarrow> 'p prover \<Rightarrow> 'p ctx \<Rightarrow> tx_plan \<Rightarrow> string \<Rightarrow> signing_error + tx_plan" where
  "apply_owner_sig L S c plan sig_hex =
     (case find_owner (pl_slots plan) of
        None \<Rightarrow> Inl NoOwnerOp
      | Some owner \<Rightarrow>
          bind_res (decode_64 sig_hex) (\<lambda>bytes.
          refuse_if (\<not> pv_sig_ok S bytes) (SigEncoding ''not a schnorr signature'') (
          bind_res (map_err Sighash (vault_sighash L S c plan)) (\<lambda>digest.
          refuse_if (\<not> pv_verify S bytes digest owner) BadSignature (
          Inr (install_owner_sig plan bytes))))))"

section \<open>PSET emission and finalization\<close>

record pset_input =
  pi_witness_utxo :: "tx_out option"
  pi_tap_internal_key :: "xonly option"
  pi_tap_scripts :: "bytes \<rightharpoonup> leaf"
  pi_tap_key_sig :: "schnorr_sig option"

record pset =
  px_tx :: transaction
  px_inputs :: "pset_input list"

datatype pset_error =
    NonExplicitOutput u32
  | NonAllSighash u32 sighash_type
  | InvalidFundingSignature u32
  | PsetSighash string
  | PsetTweak string
  | Prune prune_error

definition value_explicit :: "conf_value \<Rightarrow> bool" where
  "value_explicit v = (case v of VExplicit _ \<Rightarrow> True | _ \<Rightarrow> False)"

definition asset_explicit :: "conf_asset \<Rightarrow> bool" where
  "asset_explicit a = (case a of AExplicit _ \<Rightarrow> True | _ \<Rightarrow> False)"

definition validate_explicit :: "transaction \<Rightarrow> pset_error + unit" where
  "validate_explicit tx =
     (case position (\<lambda>o'. \<not> value_explicit (to_value o') \<or> \<not> asset_explicit (to_asset o')) (tx_output tx) of
        Some index \<Rightarrow> Inl (NonExplicitOutput (of_nat index)) | None \<Rightarrow> Inr ())"

definition utxo_out :: "elements_utxo \<Rightarrow> tx_out" where
  "utxo_out u =
     \<lparr>to_asset = eu_asset u, to_value = eu_value u, to_nonce = NNull,
      to_script_pubkey = eu_script_pubkey u, to_witness = txout_witness_empty\<rparr>"

definition pset_input_empty :: pset_input where
  "pset_input_empty =
     \<lparr>pi_witness_utxo = None, pi_tap_internal_key = None, pi_tap_scripts = Map.empty, pi_tap_key_sig = None\<rparr>"

definition slot_leaf :: "'p library \<Rightarrow> 'p ctx \<Rightarrow> slot_kind \<Rightarrow> bytes option \<times> 'p" where
  "slot_leaf L c k =
     (let a = cx_artifacts c in
      case k of
        PotInflow \<Rightarrow> (pot_control_block L a Inflow, ar_reserve_repay a)
      | PotOutflow \<Rightarrow> (pot_control_block L a Outflow, ar_pot_outflow a)
      | SlotStability _ \<Rightarrow> (stability_control_block L a, ar_stability a)
      | SlotIssuer st _ \<Rightarrow> (issuer_control_block L a st, ar_issuer a)
      | SlotVault st _ \<Rightarrow> (vault_control_block L a st, ar_vault a))"

fun fill_slots :: "'p library \<Rightarrow> 'p ctx \<Rightarrow> pset_input list \<Rightarrow> witness_slot list \<Rightarrow> pset_error + pset_input list" where
  "fill_slots L c ins [] = Inr ins"
| "fill_slots L c ins (slot # slots) =
     bind_res (map_err Prune (cb_or_panic (fst (slot_leaf L c (ws_kind slot))))) (\<lambda>cb.
     let i = unat (ws_input slot) in
     refuse_if (\<not> i < length ins) (Prune PrunePanic) (
     fill_slots L c
       (ins[i := (ins ! i)\<lparr>pi_tap_internal_key := Some nums_key,
                           pi_tap_scripts := (pi_tap_scripts (ins ! i))
                             (cb \<mapsto> (cmr_script L (snd (slot_leaf L c (ws_kind slot))), lb_leaf_version L))\<rparr>])
       slots))"

definition to_pset :: "'p library \<Rightarrow> 'p ctx \<Rightarrow> tx_plan \<Rightarrow> pset_error + pset" where
  "to_pset L c plan =
     bind_res (validate_explicit (pl_tx plan)) (\<lambda>_.
     let n = length (tx_input (pl_tx plan)); us = pl_in_utxos plan in
     refuse_if (n < length us) (Prune PrunePanic) (
     let ins = map (\<lambda>i. if i < length us then pset_input_empty\<lparr>pi_witness_utxo := Some (utxo_out (us ! i))\<rparr>
                        else pset_input_empty) [0..<n]
     in bind_res (fill_slots L c ins (pl_slots plan)) (\<lambda>ins'.
        Inr \<lparr>px_tx = pl_tx plan, px_inputs = ins'\<rparr>)))"

definition prevouts :: "tx_plan \<Rightarrow> tx_out list" where
  "prevouts plan = map utxo_out (pl_in_utxos plan)"

definition funding_sighash :: "'p prover \<Rightarrow> 'p ctx \<Rightarrow> tx_plan \<Rightarrow> nat \<Rightarrow> pset_error + bytes" where
  "funding_sighash S c plan input =
     map_err PsetSighash (pv_key_sighash S (pl_tx plan) (prevouts plan) input (cx_genesis c))"

definition sign_funding ::
  "'p prover \<Rightarrow> 'p ctx \<Rightarrow> tx_plan \<Rightarrow> pset \<Rightarrow> nat \<Rightarrow> u256 \<Rightarrow> pset_error + pset" where
  "sign_funding S c plan px input key =
     bind_res (map_err PsetTweak (pv_tweak S key)) (\<lambda>tweaked.
     bind_res (funding_sighash S c plan input) (\<lambda>digest.
     refuse_if (\<not> input < length (px_inputs px)) (Prune PrunePanic) (
     Inr (px\<lparr>px_inputs := (px_inputs px)[input := (px_inputs px ! input)\<lparr>pi_tap_key_sig :=
            Some \<lparr>ss_sig = pv_sign S tweaked digest, ss_hash_ty = SighashAll\<rparr>\<rparr>]\<rparr>))))"

text \<open>One signed input of the finalization loop: type, output key and signature are checked.\<close>

definition check_funding_sig ::
  "'p library \<Rightarrow> 'p prover \<Rightarrow> 'p ctx \<Rightarrow> tx_plan \<Rightarrow> nat \<Rightarrow> schnorr_sig \<Rightarrow> pset_error + unit" where
  "check_funding_sig L S c plan i sg =
     refuse_if (ss_hash_ty sg \<noteq> SighashAll) (NonAllSighash (of_nat i) (ss_hash_ty sg)) (
     refuse_if (\<not> i < length (pl_in_utxos plan)) (Prune PrunePanic) (
     let spk = eu_script_pubkey (pl_in_utxos plan ! i); bad = InvalidFundingSignature (of_nat i) in
     refuse_if (length spk \<noteq> 34 \<or> spk ! 0 \<noteq> 0x51 \<or> spk ! 1 \<noteq> 0x20) bad (
     case lb_xonly L (drop 2 spk) of
       None \<Rightarrow> Inl bad
     | Some output_key \<Rightarrow>
         bind_res (funding_sighash S c plan i) (\<lambda>digest.
         refuse_if (\<not> pv_verify S (ss_sig sg) digest output_key) bad (Inr ())))))"

fun attach_sigs ::
  "'p library \<Rightarrow> 'p prover \<Rightarrow> 'p ctx \<Rightarrow> tx_plan \<Rightarrow> transaction \<Rightarrow> nat \<Rightarrow> pset_input list \<Rightarrow> pset_error + transaction" where
  "attach_sigs L S c plan tx i [] = Inr tx"
| "attach_sigs L S c plan tx i (inp # ins) =
     (case pi_tap_key_sig inp of
        None \<Rightarrow> attach_sigs L S c plan tx (Suc i) ins
      | Some sg \<Rightarrow>
          bind_res (check_funding_sig L S c plan i sg) (\<lambda>_.
          bind_res (map_err Prune (set_witness tx i [pv_sig_to_vec S sg])) (\<lambda>tx'.
          attach_sigs L S c plan tx' (Suc i) ins)))"

definition finalize_pset ::
  "'p library \<Rightarrow> 'p prover \<Rightarrow> 'p ctx \<Rightarrow> tx_plan \<Rightarrow> pset \<Rightarrow> pset_error + transaction" where
  "finalize_pset L S c plan px =
     bind_res (map_err Prune (finalize L S c plan)) (\<lambda>tx. attach_sigs L S c plan tx 0 (px_inputs px))"

section \<open>Witnessing keeps the transaction body\<close>

definition strip_in :: "tx_in \<Rightarrow> tx_in" where
  "strip_in i = i\<lparr>ti_witness := (ti_witness i)\<lparr>tiw_script_witness := []\<rparr>\<rparr>"

text \<open>The body of a transaction: everything but the script witnesses. It determines the txid.\<close>

definition strip :: "transaction \<Rightarrow> transaction" where
  "strip tx = tx\<lparr>tx_input := map strip_in (tx_input tx)\<rparr>"

lemma set_witness_Inr:
  assumes "set_witness tx i w = Inr tx'"
  shows "strip tx' = strip tx" "i < length (tx_input tx)" "length (tx_input tx') = length (tx_input tx)"
    "j \<noteq> i \<Longrightarrow> tx_input tx' ! j = tx_input tx ! j"
    "tiw_script_witness (ti_witness (tx_input tx' ! i)) = w"
  using assms
  by (auto simp: set_witness_def strip_def strip_in_def map_update list_update_same_conv split: if_splits
      intro!: list_update_same_conv[THEN iffD2])

lemma witness_slots_body:
  assumes "witness_slots L S c us tx slots = Inr tx'"
  shows "strip tx' = strip tx \<and> length (tx_input tx') = length (tx_input tx) \<and>
    (\<forall>j. j \<notin> set (map (unat \<circ> ws_input) slots) \<longrightarrow> tx_input tx' ! j = tx_input tx ! j)"
  using assms
proof (induction L S c us tx slots rule: witness_slots.induct)
  case (2 L S c us tx slot slots)
  then obtain w tx1 where w: "slot_witness L S c tx us slot = Inr w"
    and tx1: "set_witness tx (unat (ws_input slot)) w = Inr tx1"
    and rest: "witness_slots L S c us tx1 slots = Inr tx'"
    by (auto simp: bind_res_Inr)
  from "2.IH"[OF rest] set_witness_Inr[OF tx1] show ?case by auto
qed simp

lemma witness_slots_append:
  "witness_slots L S c us tx (xs @ ys) =
     bind_res (witness_slots L S c us tx xs) (\<lambda>tx'. witness_slots L S c us tx' ys)"
proof (induction xs arbitrary: tx)
  case (Cons x xs)
  then show ?case by (simp add: bind_res_def split: sum.splits)
qed (simp add: bind_res_def)

section \<open>The vault slot is last\<close>

lemma sign_slot_sel [simp]: "ws_input (sign_slot sg s) = ws_input s"
  by (cases "ws_kind s") (simp_all add: sign_slot_def)

lemma sign_slot_other [simp]: "\<not> is_vault_slot (ws_kind s) \<Longrightarrow> sign_slot sg s = s"
  by (cases "ws_kind s") (simp_all add: sign_slot_def)

lemma map_sign_slot: "list_all (\<lambda>s. \<not> is_vault_slot (ws_kind s)) ss \<Longrightarrow> map (sign_slot sg) ss = ss"
  by (induction ss) auto

lemma find_vault_append:
  "list_all (\<lambda>s. \<not> is_vault_slot (ws_kind s)) ss \<Longrightarrow> find_vault (ss @ ts) = find_vault ts"
proof (induction ss)
  case (Cons s ss)
  then show ?case by (cases "ws_kind s") auto
qed simp

lemma find_vault_last:
  assumes "plan_wf plan" "find_vault (pl_slots plan) = Some (inp, st)"
  obtains ss op where "pl_slots plan = ss @ [\<lparr>ws_input = inp, ws_kind = SlotVault st op\<rparr>]"
    "list_all (\<lambda>s. \<not> is_vault_slot (ws_kind s)) ss" "takeWhile (\<lambda>s. ws_input s \<noteq> inp) (pl_slots plan) = ss"
proof -
  let ?s = "last (pl_slots plan)" and ?ss = "butlast (pl_slots plan)"
  have split: "pl_slots plan = ?ss @ [?s]" and nv: "list_all (\<lambda>s. \<not> is_vault_slot (ws_kind s)) ?ss"
    and dist: "distinct (map (unat \<circ> ws_input) (pl_slots plan))"
    using assms(1) by (simp_all add: plan_wf_def Let_def)
  from assms(2) have "find_vault [?s] = Some (inp, st)"
    using find_vault_append[OF nv, of "[?s]"] split by simp
  then obtain op where k: "ws_kind ?s = SlotVault st op" "ws_input ?s = inp"
    by (cases "ws_kind ?s") auto
  have s: "?s = \<lparr>ws_input = inp, ws_kind = SlotVault st op\<rparr>"
    by (rule witness_slot.equality) (simp_all add: k)
  have "\<forall>s \<in> set ?ss. ws_input s \<noteq> inp"
    using dist s by (subst (asm) split) (auto simp: image_iff)
  then have "takeWhile (\<lambda>s. ws_input s \<noteq> inp) (?ss @ [?s]) = ?ss"
    by (subst takeWhile_append2) (auto simp: s)
  with that[of ?ss op] split nv s show thesis by metis
qed

section \<open>Hexadecimal\<close>

lemma digit_of_hex_digit: "n < 16 \<Longrightarrow> digit_of (hex_digit n) = Some n"
  by (auto simp: digit_of_def hex_digit_def Let_def)

lemma hex_digit_ascii: "n < 16 \<Longrightarrow> of_char (hex_digit n) < (128 :: nat) \<and> hex_digit n \<noteq> CHR ''+''"
proof -
  assume "n < 16"
  then have "of_char (hex_digit n) < (128 :: nat) \<and> of_char (hex_digit n) \<noteq> (43 :: nat)"
    by (auto simp: hex_digit_def)
  moreover have "of_char (CHR ''+'') = (43 :: nat)" by simp
  ultimately show ?thesis by metis
qed

lemma from_str_radix16_hex: "from_str_radix16 (hex_digit (unat b div 16)) (hex_digit (unat b mod 16)) = Some (b :: u8)"
proof -
  have "unat b div 16 < 16" using unat_bound[of b] by simp
  moreover have "of_nat (unat b div 16 * 16 + unat b mod 16) = b" by simp
  ultimately show ?thesis
    by (simp add: from_str_radix16_def digit_of_hex_digit hex_digit_ascii)
qed

lemma decode_pairs_hex: "decode_pairs (hex_str bs) = Some bs"
  by (induction bs) (simp_all add: hex_str_def hex_byte_def from_str_radix16_hex)

lemma is_ascii_hex: "is_ascii (hex_str bs)"
proof -
  have "unat b div 16 < 16" "unat b mod 16 < 16" for b :: u8 using unat_bound[of b] by simp_all
  then show ?thesis
    by (induction bs) (simp_all add: is_ascii_def hex_str_def hex_byte_def hex_digit_ascii)
qed

lemma length_hex_str [simp]: "length (hex_str bs) = 2 * length bs"
  by (induction bs) (simp_all add: hex_str_def hex_byte_def)

section \<open>PSET emission\<close>

lemma validate_explicit_Inr: "validate_explicit tx = Inr u \<longleftrightarrow> list_all explicit_out (tx_output tx)"
  by (auto simp: validate_explicit_def position_None_iff list_all_iff explicit_out_def value_explicit_def
      asset_explicit_def split: option.splits dest!: position_Some)

lemma slot_leaf_some:
  assumes "library_ok L" "artifacts_wf L (cx_artifacts c)"
  shows "\<exists>cb. fst (slot_leaf L c k) = Some cb"
proof -
  have cb: "l \<in># leaves_of (si_tree info) \<Longrightarrow> \<exists>cb. lb_control_block L info l = Some cb" for l info
    using assms(1) unfolding library_ok_def by blast
  show ?thesis
    using assms(2)
    by (cases k)
      (auto simp: slot_leaf_def Let_def pot_control_block_def stability_control_block_def
        vault_control_block_def issuer_control_block_def control_block_def artifacts_wf_def spk_defs
        intro!: cb)
qed

lemma fill_slots_ok:
  assumes "library_ok L" "artifacts_wf L (cx_artifacts c)"
    "list_all (\<lambda>i. i < length ins) (map (unat \<circ> ws_input) slots)"
  shows "\<exists>ins'. fill_slots L c ins slots = Inr ins' \<and> length ins' = length ins \<and>
    (\<forall>i < length ins. pi_witness_utxo (ins' ! i) = pi_witness_utxo (ins ! i) \<and>
       pi_tap_key_sig (ins' ! i) = pi_tap_key_sig (ins ! i) \<and>
       pi_tap_internal_key (ins' ! i) =
         (if i \<in> set (map (unat \<circ> ws_input) slots) then Some nums_key else pi_tap_internal_key (ins ! i)))"
  using assms(3)
proof (induction slots arbitrary: ins)
  case (Cons slot slots)
  obtain cb where cb: "fst (slot_leaf L c (ws_kind slot)) = Some cb"
    using slot_leaf_some[OF assms(1,2)] by blast
  let ?i = "unat (ws_input slot)"
  let ?ins = "ins[?i := (ins ! ?i)\<lparr>pi_tap_internal_key := Some nums_key,
      pi_tap_scripts := (pi_tap_scripts (ins ! ?i))
        (cb \<mapsto> (cmr_script L (snd (slot_leaf L c (ws_kind slot))), lb_leaf_version L))\<rparr>]"
  have i: "?i < length ins" using Cons.prems by simp
  have step: "fill_slots L c ins (slot # slots) = fill_slots L c ?ins slots"
    by (simp add: cb cb_or_panic_def map_err_def bind_res_def refuse_if_def i Let_def)
  from Cons.IH[of ?ins] Cons.prems show ?case
    unfolding step by (auto simp: nth_list_update)
qed simp

section \<open>Every builder's plan becomes a PSET\<close>

lemma to_pset_wf:
  assumes "plan_wf plan" "library_ok L" "artifacts_wf L (cx_artifacts c)"
  shows "\<exists>px. to_pset L c plan = Inr px \<and> px_tx px = pl_tx plan \<and>
    length (px_inputs px) = length (tx_input (pl_tx plan)) \<and>
    (\<forall>i < length (tx_input (pl_tx plan)).
       pi_witness_utxo (px_inputs px ! i) = Some (utxo_out (pl_in_utxos plan ! i)) \<and>
       pi_tap_key_sig (px_inputs px ! i) = None \<and>
       pi_tap_internal_key (px_inputs px ! i) =
         (if i \<in> set (map (unat \<circ> ws_input) (pl_slots plan)) then Some nums_key else None))"
proof -
  let ?us = "pl_in_utxos plan" and ?n = "length (tx_input (pl_tx plan))"
  let ?ins = "map (\<lambda>i. if i < length ?us then pset_input_empty\<lparr>pi_witness_utxo := Some (utxo_out (?us ! i))\<rparr>
      else pset_input_empty) [0..<?n]"
  have wf: "list_all explicit_out (tx_output (pl_tx plan))" "length ?us = ?n"
    "list_all (\<lambda>i. i < length ?ins) (map (unat \<circ> ws_input) (pl_slots plan))"
    using assms(1) by (simp_all add: plan_wf_def Let_def)
  from fill_slots_ok[OF assms(2,3) wf(3)] obtain ins where
    ins: "fill_slots L c ?ins (pl_slots plan) = Inr ins" "length ins = ?n"
    "\<forall>i < ?n. pi_witness_utxo (ins ! i) = Some (utxo_out (?us ! i)) \<and> pi_tap_key_sig (ins ! i) = None \<and>
       pi_tap_internal_key (ins ! i) =
         (if i \<in> set (map (unat \<circ> ws_input) (pl_slots plan)) then Some nums_key else None)"
    using wf(2) by (auto simp: pset_input_empty_def)
  have "validate_explicit (pl_tx plan) = Inr ()" using wf(1) by (simp add: validate_explicit_Inr)
  then have "to_pset L c plan = Inr \<lparr>px_tx = pl_tx plan, px_inputs = ins\<rparr>"
    using ins(1) wf(2) by (simp add: to_pset_def bind_res_def refuse_if_def Let_def)
  with ins show ?thesis by auto
qed

context plan_builder
begin

text \<open>A builder's plan is emitted as a PSET without an error or a panic.\<close>

lemma emits_pset:
  assumes "build i = Inr b" "library_ok L" "artifacts_wf L (cx_artifacts c)"
  shows "\<exists>px. to_pset L c (bt_plan b) = Inr px \<and> px_tx px = pl_tx (bt_plan b)"
  using to_pset_wf[OF plan_ok[OF assms(1)] assms(2,3)] by blast

text \<open>Finalizing a builder's plan keeps the body it was built with.\<close>

lemma finalize_body:
  assumes "build i = Inr b" "finalize L S c (bt_plan b) = Inr tx"
  shows "strip tx = strip (pl_tx (bt_plan b))"
  using witness_slots_body[OF assms(2)[unfolded finalize_def]] by simp

end

section \<open>Signed inputs\<close>

lemma check_funding_sig_Inr:
  "check_funding_sig L S c plan i sg = Inr u \<longleftrightarrow>
     ss_hash_ty sg = SighashAll \<and> i < length (pl_in_utxos plan) \<and>
     (\<exists>key digest. length (eu_script_pubkey (pl_in_utxos plan ! i)) = 34 \<and>
        eu_script_pubkey (pl_in_utxos plan ! i) ! 0 = 0x51 \<and> eu_script_pubkey (pl_in_utxos plan ! i) ! 1 = 0x20 \<and>
        lb_xonly L (drop 2 (eu_script_pubkey (pl_in_utxos plan ! i))) = Some key \<and>
        funding_sighash S c plan i = Inr digest \<and> pv_verify S (ss_sig sg) digest key)"
  by (auto simp: check_funding_sig_def res_Inr Let_def split: option.splits)

text \<open>The signature the PSET carries for input \<open>j\<close>, when its inputs are numbered from \<open>n\<close>.\<close>

fun sig_at :: "nat \<Rightarrow> pset_input list \<Rightarrow> nat \<Rightarrow> schnorr_sig option" where
  "sig_at n [] j = None"
| "sig_at n (inp # ins) j = (if j = n then pi_tap_key_sig inp else sig_at (Suc n) ins j)"

lemma sig_at_before: "j < n \<Longrightarrow> sig_at n ins j = None"
  by (induction n ins j rule: sig_at.induct) auto

lemma sig_at_nth: "sig_at n ins (n + k) = (if k < length ins then pi_tap_key_sig (ins ! k) else None)"
proof (induction ins arbitrary: n k)
  case (Cons inp ins)
  show ?case
  proof (cases k)
    case (Suc m)
    with Cons.IH[of "Suc n" m] show ?thesis by simp
  qed simp
qed simp

lemma attach_sigs_spec:
  assumes "attach_sigs L S c plan tx n ins = Inr tx'"
  shows "strip tx' = strip tx \<and> length (tx_input tx') = length (tx_input tx) \<and>
    (\<forall>j. case sig_at n ins j of
       None \<Rightarrow> tx_input tx' ! j = tx_input tx ! j
     | Some sg \<Rightarrow> check_funding_sig L S c plan j sg = Inr () \<and>
         tiw_script_witness (ti_witness (tx_input tx' ! j)) = [pv_sig_to_vec S sg])"
  using assms
proof (induction ins arbitrary: tx n)
  case (Cons inp ins)
  show ?case
  proof (cases "pi_tap_key_sig inp")
    case None
    with Cons.prems have step: "attach_sigs L S c plan tx (Suc n) ins = Inr tx'" by simp
    note IH = Cons.IH[OF step]
    have "tx_input tx' ! n = tx_input tx ! n"
      using IH sig_at_before[of n "Suc n" ins] by (auto dest: spec[of _ n])
    with IH None show ?thesis by (auto split: option.splits)
  next
    case (Some sg)
    with Cons.prems obtain tx1 where chk: "check_funding_sig L S c plan n sg = Inr ()"
      and tx1: "set_witness tx n [pv_sig_to_vec S sg] = Inr tx1"
      and step: "attach_sigs L S c plan tx1 (Suc n) ins = Inr tx'"
      by (auto simp: bind_res_Inr)
    note IH = Cons.IH[OF step] and sw = set_witness_Inr[OF tx1]
    have "tx_input tx' ! n = tx_input tx1 ! n"
      using IH sig_at_before[of n "Suc n" ins] by (auto dest: spec[of _ n])
    then have "case sig_at n (inp # ins) j of
        None \<Rightarrow> tx_input tx' ! j = tx_input tx ! j
      | Some sg \<Rightarrow> check_funding_sig L S c plan j sg = Inr () \<and>
          tiw_script_witness (ti_witness (tx_input tx' ! j)) = [pv_sig_to_vec S sg]" for j
      using IH[THEN conjunct2, THEN conjunct2, THEN spec, of j] sw(4)[of j] sw(5) chk Some
      by (cases "j = n") (simp_all split: option.splits)
    with IH sw(1,3) show ?thesis by simp
  qed
qed simp

section \<open>A concrete plan\<close>

definition sample_prover :: "u8 prover" where
  "sample_prover =
     \<lparr>pv_satisfy = (\<lambda>prog wv env. Inr ([7], [8])), pv_env_sighash = (\<lambda>env. [en_control_block env ! 0]),
      pv_key_sighash = (\<lambda>tx outs i g. Inr [of_nat i]), pv_sign = (\<lambda>k d. replicate 64 0),
      pv_verify = (\<lambda>sg d k. True), pv_sig_ok = (\<lambda>sg. length sg = 64), 
      pv_tweak = Inr, pv_sig_to_vec = (\<lambda>sg. ss_sig sg @ [1])\<rparr>"

definition sample_ctx :: "u8 ctx" where
  "sample_ctx = \<lparr>cx_params = sample_params, cx_artifacts = sample_artifacts, cx_genesis = 0\<rparr>"

definition sample_vault :: vault_state where
  "sample_vault = \<lparr>vs_debt = Obol 100, vs_owner = 9, vs_last_height = BlockHeight 1\<rparr>"

definition sample_plan :: tx_plan where
  "sample_plan =
     \<lparr>pl_tx = \<lparr>tx_version = 2, tx_lock_time = 0, tx_input = [txin (OutPoint 1 0), txin (OutPoint 2 0)],
               tx_output = [fee_out (Sats 5) 12]\<rparr>,
      pl_in_utxos = [claimed 3 [] 12, claimed 2 ([0x51, 0x20] @ replicate 32 0) 12],
      pl_slots = [\<lparr>ws_input = 0, ws_kind = SlotVault sample_vault (VaultClose placeholder_sig)\<rparr>]\<rparr>"

definition sample_pset :: pset where
  "sample_pset =
     \<lparr>px_tx = pl_tx sample_plan,
      px_inputs = [pset_input_empty,
        pset_input_empty\<lparr>pi_tap_key_sig := Some \<lparr>ss_sig = replicate 64 0, ss_hash_ty = SighashAll\<rparr>\<rparr>]\<rparr>"

lemma sample_plan_wf: "plan_wf sample_plan" "find_vault (pl_slots sample_plan) = Some (0, sample_vault)"
  by (simp_all add: plan_wf_def sample_plan_def Let_def)

lemma sample_finalize: "\<exists>tx. finalize_pset sample_library sample_prover sample_ctx sample_plan sample_pset = Inr tx"
  by (simp add: finalize_pset_def finalize_def sample_plan_def slot_witness_def pruned_witness_def
      sample_ctx_def vault_control_block_def control_block_def sample_library_def cb_or_panic_def
      sample_prover_def Let_def stack_def bind_res_def map_err_def set_witness_def sample_pset_def
      pset_input_empty_def check_funding_sig_def refuse_if_def funding_sighash_def)

section \<open>Properties\<close>

text \<open>
  C30 (finalize_keeps_body): finalizing a plan with key-spend signatures returns the body of the
  plan unchanged except for script witnesses; every signature that ends up in the transaction was
  made with sighash type ALL and verifies against the output key of the input it signs; inputs
  that have neither a covenant slot nor a signature are untouched.
\<close>

theorem finalize_keeps_body:
  assumes "finalize_pset L S c plan px = Inr tx"
  shows "strip tx = strip (pl_tx plan) \<and>
    (\<forall>j < length (px_inputs px). \<forall>sg. pi_tap_key_sig (px_inputs px ! j) = Some sg \<longrightarrow>
       ss_hash_ty sg = SighashAll \<and> tiw_script_witness (ti_witness (tx_input tx ! j)) = [pv_sig_to_vec S sg] \<and>
       (\<exists>key digest. lb_xonly L (drop 2 (eu_script_pubkey (pl_in_utxos plan ! j))) = Some key \<and>
          funding_sighash S c plan j = Inr digest \<and> pv_verify S (ss_sig sg) digest key)) \<and>
    (\<forall>j < length (px_inputs px). pi_tap_key_sig (px_inputs px ! j) = None \<longrightarrow>
       j \<notin> set (map (unat \<circ> ws_input) (pl_slots plan)) \<longrightarrow> tx_input tx ! j = tx_input (pl_tx plan) ! j)"
proof -
  from assms obtain tx1 where fin: "finalize L S c plan = Inr tx1"
    and att: "attach_sigs L S c plan tx1 0 (px_inputs px) = Inr tx"
    by (auto simp: finalize_pset_def res_Inr)
  note body = witness_slots_body[OF fin[unfolded finalize_def]] and att_spec = attach_sigs_spec[OF att]
  have at: "sig_at 0 (px_inputs px) j = pi_tap_key_sig (px_inputs px ! j)" if "j < length (px_inputs px)" for j
    using that sig_at_nth[of 0 "px_inputs px" j] by simp
  have sig: "check_funding_sig L S c plan j sg = Inr () \<and>
      tiw_script_witness (ti_witness (tx_input tx ! j)) = [pv_sig_to_vec S sg]"
    if "j < length (px_inputs px)" "pi_tap_key_sig (px_inputs px ! j) = Some sg" for j sg
    using att_spec at[OF that(1)] that(2) by (auto dest: spec[of _ j])
  have keep: "tx_input tx ! j = tx_input tx1 ! j"
    if "j < length (px_inputs px)" "pi_tap_key_sig (px_inputs px ! j) = None" for j
    using att_spec at[OF that(1)] that(2) by (auto dest: spec[of _ j])
  show ?thesis
  proof (intro conjI allI impI)
    show "strip tx = strip (pl_tx plan)" using body att_spec by simp
    show "tx_input tx ! j = tx_input (pl_tx plan) ! j"
      if "j < length (px_inputs px)" "pi_tap_key_sig (px_inputs px ! j) = None"
        "j \<notin> set (map (unat \<circ> ws_input) (pl_slots plan))" for j
      using keep[OF that(1,2)] body that(3) by auto
  qed (use sig[unfolded check_funding_sig_Inr] in blast)+
qed

theorem finalize_keeps_body_witness:
  "\<exists>tx. finalize_pset sample_library sample_prover sample_ctx sample_plan sample_pset = Inr tx \<and>
     strip tx = strip (pl_tx sample_plan)"
  using sample_finalize finalize_keeps_body by blast

text \<open>The environment a vault slot is checked in, as the digest computation builds it.\<close>

definition vault_env ::
  "'p library \<Rightarrow> 'p prover \<Rightarrow> 'p ctx \<Rightarrow> tx_plan \<Rightarrow> u32 \<Rightarrow> vault_state \<Rightarrow> prune_error + spend_env" where
  "vault_env L S c plan inp st =
     bind_res (tx_before_slot L S c plan inp) (\<lambda>tx.
     bind_res (cb_or_panic (vault_control_block L (cx_artifacts c) st)) (\<lambda>cb.
     Inr \<lparr>en_tx = tx, en_utxos = pl_in_utxos plan, en_index = inp,
          en_cmr = lb_cmr L (ar_vault (cx_artifacts c)), en_control_block = cb, en_genesis = cx_genesis c\<rparr>))"

definition vault_witness_values :: "vault_state \<Rightarrow> vault_op \<Rightarrow> witness_values" where
  "vault_witness_values st op =
     [(''DEBT'', VU64 (obol_raw (vs_debt st))), (''OWNER'', VU256 (xonly_u256 (vs_owner st))),
      (''LAST_HEIGHT'', VU32 (height_raw (vs_last_height st))), (''OP'', vault_op_value op)]"

lemma vault_sighash_env:
  "find_vault (pl_slots plan) = Some (inp, st) \<Longrightarrow>
     vault_sighash L S c plan = bind_res (vault_env L S c plan inp st) (\<lambda>env. Inr (pv_env_sighash S env))"
  by (auto simp: vault_sighash_def vault_env_def bind_res_def split: sum.splits)

text \<open>
  C21 (owner_digest_stable): for a plan of the form every builder emits, with a vault input, the digest
  an owner signs does not depend on the signature slot it fills: installing any signature leaves the digest unchanged, and the finalization of the signed
  plan runs the vault covenant, on the witness values of the spent state with that signature, in
  exactly the environment whose digest was signed.
\<close>

theorem owner_digest_stable:
  assumes "plan_wf plan" "find_vault (pl_slots plan) = Some (inp, st)"
  shows "vault_sighash L S c (install_owner_sig plan sg) = vault_sighash L S c plan \<and>
    (\<forall>tx. finalize L S c (install_owner_sig plan sg) = Inr tx \<longrightarrow>
       (\<exists>env op out. vault_env L S c plan inp st = Inr env \<and>
          vault_sighash L S c plan = Inr (pv_env_sighash S env) \<and>
          \<lparr>ws_input = inp, ws_kind = SlotVault st op\<rparr> \<in> set (pl_slots plan) \<and>
          pv_satisfy S (ar_vault (cx_artifacts c)) (vault_witness_values st (with_owner_sig op sg)) (Some env) =
            Inr out))"
proof -
  obtain ss op where slots: "pl_slots plan = ss @ [\<lparr>ws_input = inp, ws_kind = SlotVault st op\<rparr>]"
    and nv: "list_all (\<lambda>s. \<not> is_vault_slot (ws_kind s)) ss"
    and tw: "takeWhile (\<lambda>s. ws_input s \<noteq> inp) (pl_slots plan) = ss"
    by (rule find_vault_last[OF assms])
  let ?plan = "install_owner_sig plan sg"
  let ?last = "\<lparr>ws_input = inp, ws_kind = SlotVault st (with_owner_sig op sg)\<rparr>"
  have slots': "pl_slots ?plan = ss @ [?last]" and same: "pl_tx ?plan = pl_tx plan" "pl_in_utxos ?plan = pl_in_utxos plan"
    by (simp_all add: install_owner_sig_def slots map_sign_slot[OF nv] sign_slot_def)
  have "find_vault (pl_slots ?plan) = Some (inp, st)"
    by (simp add: slots' find_vault_append[OF nv])
  moreover have "takeWhile (\<lambda>s. ws_input s \<noteq> inp) (pl_slots ?plan) = ss"
    using tw by (simp add: slots slots' takeWhile_tail)
  ultimately have "vault_sighash L S c ?plan = vault_sighash L S c plan"
    by (simp add: vault_sighash_def assms(2) tx_before_slot_def tw same)
  moreover have "\<exists>env out. vault_env L S c plan inp st = Inr env \<and>
      pv_satisfy S (ar_vault (cx_artifacts c)) (vault_witness_values st (with_owner_sig op sg)) (Some env) = Inr out"
    if "finalize L S c ?plan = Inr tx" for tx
    using that
    by (auto simp: finalize_def slots' witness_slots_append bind_res_Inr same slot_witness_def Let_def
        pruned_witness_def vault_env_def tx_before_slot_def tw vault_witness_values_def split: prod.splits)
  moreover have "\<lparr>ws_input = inp, ws_kind = SlotVault st op\<rparr> \<in> set (pl_slots plan)"
    by (simp add: slots)
  ultimately show ?thesis
    using vault_sighash_env[OF assms(2), of L S c] by (fastforce simp: bind_res_def)
qed

theorem owner_digest_stable_witness:
  "vault_sighash sample_library sample_prover sample_ctx (install_owner_sig sample_plan (replicate 64 1)) =
   vault_sighash sample_library sample_prover sample_ctx sample_plan"
  using owner_digest_stable[OF sample_plan_wf] by blast

text \<open>
  An external signature is accepted exactly when the plan has an owner
  operation, the text decodes to 64 bytes that are a signature, and the signature verifies over
  the exported digest against the vault's owner; the returned plan carries exactly these bytes.
  The lower-case hexadecimal text of a 64-byte signature always decodes to it.
\<close>

lemma apply_owner_sig_spec:
  "(apply_owner_sig L S c plan txt = Inr plan' \<longleftrightarrow>
      (\<exists>owner bytes digest. find_owner (pl_slots plan) = Some owner \<and> decode_64 txt = Inr bytes \<and>
         pv_sig_ok S bytes \<and> vault_sighash L S c plan = Inr digest \<and> pv_verify S bytes digest owner \<and>
         plan' = install_owner_sig plan bytes)) \<and>
   (length sg = 64) = (decode_64 (hex_str sg) = Inr sg)"
proof -
  have "apply_owner_sig L S c plan txt = Inr plan' \<longleftrightarrow>
      (\<exists>owner bytes digest. find_owner (pl_slots plan) = Some owner \<and> decode_64 txt = Inr bytes \<and>
         pv_sig_ok S bytes \<and> vault_sighash L S c plan = Inr digest \<and> pv_verify S bytes digest owner \<and>
         plan' = install_owner_sig plan bytes)"
    by (auto simp: apply_owner_sig_def res_Inr split: option.splits)
  moreover have "(length sg = 64) = (decode_64 (hex_str sg) = Inr sg)"
    by (auto simp: decode_64_def is_ascii_hex decode_pairs_hex)
  ultimately show ?thesis by simp
qed

end
