(* ===== verification/Styx_Quotes.thy ===== *)
theory Styx_Quotes
  imports Styx_Pset "HOL-Library.Finite_Map"
begin

text \<open>
  Oracle quotes as they travel (\<open>styx-watch/src/quotes.rs\<close>): the wire quote, the verified
  per-height book and the assembly of a tick from three agreeing slots. A Rust string is the list
  of its UTF-8 bytes; slicing it off a character boundary panics, which is the value
  \<open>QuotePanic\<close>. JSON (de)serialisation is left to serde.
\<close>

section \<open>The wire quote\<close>

record wire_quote =
  wq_slot :: u8
  wq_height :: u32
  wq_price :: u32
  wq_backing_k :: u32
  wq_sig :: string
  wq_name :: string

datatype quote_error =
    QuoteJson string
  | QuoteSlot u8
  | QuoteZeroPrice u8 u32
  | QuoteSigEncoding
  | QuoteBadSignature u8 u32
  | QuoteStale u32 u32 u32
  | QuoteFuture u32 u32

datatype quote_fault = QuoteErr quote_error | QuotePanic

definition wq_payload :: "wire_quote \<Rightarrow> tick_payload" where
  "wq_payload q =
     \<lparr>tp_height = BlockHeight (wq_height q), tp_price = Price (wq_price q), tp_backing_k = RatioK (wq_backing_k q)\<rparr>"

definition wq_sign ::
  "(bytes \<Rightarrow> bytes) \<Rightarrow> ('key \<Rightarrow> bytes \<Rightarrow> bytes) \<Rightarrow> 'key \<Rightarrow> oracle_slot \<Rightarrow> tick_payload \<Rightarrow> wire_quote" where
  "wq_sign sha256 sign kp slot payload =
     (let q = sign_quote sha256 sign kp payload
      in \<lparr>wq_slot = of_nat (slot_index slot), wq_height = height_raw (tp_height payload),
          wq_price = price_raw (tp_price payload), wq_backing_k = ratio_raw (tp_backing_k payload),
          wq_sig = hex_str (sq_sig q), wq_name = []\<rparr>)"

text \<open>A byte that continues a UTF-8 character: no character boundary stands before it.\<close>

definition utf8_continuation :: "char \<Rightarrow> bool" where
  "utf8_continuation ch \<longleftrightarrow> 128 \<le> (of_char ch :: nat) \<and> (of_char ch :: nat) < 192"

fun sig_pairs :: "string \<Rightarrow> quote_fault + bytes" where
  "sig_pairs (x # y # rest) =
     (if utf8_continuation x \<or> (case rest of [] \<Rightarrow> False | z # _ \<Rightarrow> utf8_continuation z) then Inl QuotePanic
      else case from_str_radix16 x y of
             None \<Rightarrow> Inl (QuoteErr QuoteSigEncoding)
           | Some b \<Rightarrow> bind_res (sig_pairs rest) (\<lambda>bs. Inr (b # bs)))"
| "sig_pairs _ = Inr []"

definition sig_bytes :: "wire_quote \<Rightarrow> quote_fault + bytes" where
  "sig_bytes q = (if length (wq_sig q) \<noteq> 128 then Inl (QuoteErr QuoteSigEncoding) else sig_pairs (wq_sig q))"

section \<open>The book\<close>

type_synonym book_entry = "ratio_k \<times> signed_quote"

record quote_book =
  qb_oracle_pks :: "xonly list"
  qb_horizon :: u32
  qb_drift :: u32
  qb_heights :: "(u32, book_entry option list) fmap"

definition DEFAULT_HORIZON :: u32 where "DEFAULT_HORIZON = 32"
definition DEFAULT_DRIFT :: u32 where "DEFAULT_DRIFT = 2"

definition book_with_window :: "xonly list \<Rightarrow> u32 \<Rightarrow> u32 \<Rightarrow> quote_book" where
  "book_with_window pks horizon drift =
     \<lparr>qb_oracle_pks = pks, qb_horizon = horizon, qb_drift = drift, qb_heights = fmempty\<rparr>"

definition book_new :: "xonly list \<Rightarrow> quote_book" where
  "book_new pks = book_with_window pks DEFAULT_HORIZON DEFAULT_DRIFT"

definition book_slots :: "quote_book \<Rightarrow> u32 \<Rightarrow> book_entry option list" where
  "book_slots B h = (case fmlookup (qb_heights B) h of None \<Rightarrow> replicate 5 None | Some slots \<Rightarrow> slots)"

definition book_insert ::
  "(bytes \<Rightarrow> bytes) \<Rightarrow> 'p prover \<Rightarrow> quote_book \<Rightarrow> wire_quote \<Rightarrow> block_height \<Rightarrow> quote_fault + quote_book" where
  "book_insert sha256 S B q tip =
     (case oracle_slot_new (wq_slot q) of
        Inl _ \<Rightarrow> Inl (QuoteErr (QuoteSlot (wq_slot q)))
      | Inr slot \<Rightarrow>
          refuse_if (wq_price q = 0) (QuoteErr (QuoteZeroPrice (wq_slot q) (wq_height q))) (
          let floor_h = sat_sub (height_raw tip) (qb_horizon B) in
          refuse_if (wq_height q < floor_h) (QuoteErr (QuoteStale (wq_height q) (height_raw tip) (qb_horizon B))) (
          refuse_if (wq_height q > sat_add (height_raw tip) (qb_drift B)) (QuoteErr (QuoteFuture (wq_height q) (height_raw tip))) (
          bind_res (sig_bytes q) (\<lambda>sig.
          refuse_if (\<not> pv_sig_ok S sig) (QuoteErr QuoteSigEncoding) (
          refuse_if (\<not> pv_verify S sig (tick_digest sha256 (wq_payload q)) (qb_oracle_pks B ! slot_index slot))
            (QuoteErr (QuoteBadSignature (wq_slot q) (wq_height q))) (
          let entry = (book_slots B (wq_height q))
                [slot_index slot := Some (RatioK (wq_backing_k q), \<lparr>sq_price = Price (wq_price q), sq_sig = sig\<rparr>)]
          in Inr (B\<lparr>qb_heights := fmfilter (\<lambda>h. floor_h \<le> h) (fmupd (wq_height q) entry (qb_heights B))\<rparr>))))))))"

definition book_count :: "quote_book \<Rightarrow> block_height \<Rightarrow> nat" where
  "book_count B h =
     (case fmlookup (qb_heights B) (height_raw h) of None \<Rightarrow> 0 | Some slots \<Rightarrow> length (somes slots))"

section \<open>Tick assembly\<close>

text \<open>The map from the backing ratio to the slots that quoted it, in key order.\<close>

fun entries_from :: "nat \<Rightarrow> book_entry option list \<Rightarrow> (nat \<times> book_entry) list" where
  "entries_from i [] = []"
| "entries_from i (None # slots) = entries_from (Suc i) slots"
| "entries_from i (Some e # slots) = (i, e) # entries_from (Suc i) slots"

definition slot_entries :: "book_entry option list \<Rightarrow> (nat \<times> book_entry) list" where
  "slot_entries slots = entries_from 0 slots"

definition support :: "book_entry option list \<Rightarrow> u32 \<Rightarrow> (nat \<times> signed_quote) list" where
  "support slots k = map (\<lambda>(i, _, q). (i, q)) (filter (\<lambda>(i, k', q). ratio_raw k' = k) (slot_entries slots))"

definition by_k :: "book_entry option list \<Rightarrow> (u32 \<times> (nat \<times> signed_quote) list) list" where
  "by_k slots = map (\<lambda>k. (k, support slots k)) (sort (remdups (map (\<lambda>(i, k, q). ratio_raw k) (slot_entries slots))))"

text \<open>\<open>max_by_key\<close>: the last of the greatest, under the key (support, smaller ratio first).\<close>

definition k_key_le :: "u32 \<times> (nat \<times> signed_quote) list \<Rightarrow> u32 \<times> (nat \<times> signed_quote) list \<Rightarrow> bool" where
  "k_key_le a b \<longleftrightarrow>
     length (snd a) < length (snd b) \<or> (length (snd a) = length (snd b) \<and> fst b \<le> fst a)"

fun max_by_key :: "(u32 \<times> (nat \<times> signed_quote) list) list \<Rightarrow> (u32 \<times> (nat \<times> signed_quote) list) option" where
  "max_by_key [] = None"
| "max_by_key (x # xs) = Some (foldl (\<lambda>best y. if k_key_le best y then y else best) x xs)"

definition assemble_tick :: "quote_book \<Rightarrow> block_height \<Rightarrow> oracle_tick option" where
  "assemble_tick B height =
     Option.bind (fmlookup (qb_heights B) (height_raw height)) (\<lambda>slots.
     Option.bind (max_by_key (filter (\<lambda>(k, v). 3 \<le> length v) (by_k slots))) (\<lambda>(k, quorum).
     case somes (map (\<lambda>(i, q). case oracle_slot_new (of_nat i) of Inl _ \<Rightarrow> None | Inr s \<Rightarrow> Some (s, q)) (take 3 quorum)) of
       [q1, q2, q3] \<Rightarrow>
         (case oracle_tick_new height (RatioK k) (q1, q2, q3) of Inl _ \<Rightarrow> None | Inr t \<Rightarrow> Some t)
     | _ \<Rightarrow> None))"

section \<open>Hex signatures\<close>

lemma hex_ascii: "n < 16 \<Longrightarrow> \<not> utf8_continuation (hex_digit n)"
  by (auto simp: utf8_continuation_def hex_digit_def)

lemma sig_pairs_hex: "sig_pairs (hex_str bs) = Inr bs"
proof (induction bs)
  case (Cons b bs)
  have n: "unat b div 16 < 16" using unat_lt_u8[of b] by simp
  have "\<not> (case hex_str bs of [] \<Rightarrow> False | z # _ \<Rightarrow> utf8_continuation z)"
  proof (cases bs)
    case (Cons b' bs')
    have "unat b' div 16 < 16" using unat_lt_u8[of b'] by simp
    then show ?thesis by (simp add: Cons hex_str_def hex_byte_def hex_ascii)
  qed (simp add: hex_str_def)
  with n Cons.IH show ?case
    by (simp add: hex_str_def hex_byte_def hex_ascii from_str_radix16_hex bind_res_def)
qed (simp add: hex_str_def)

lemma hex_str_length: "length (hex_str bs) = 2 * length bs"
  by (induction bs) (simp_all add: hex_str_def hex_byte_def)

section \<open>The book invariant\<close>

definition quote_valid :: "(bytes \<Rightarrow> bytes) \<Rightarrow> 'p prover \<Rightarrow> xonly list \<Rightarrow> u32 \<Rightarrow> nat \<Rightarrow> ratio_k \<Rightarrow> signed_quote \<Rightarrow> bool" where
  "quote_valid sha256 S pks h i k q \<longleftrightarrow> price_raw (sq_price q) \<noteq> 0 \<and>
     pv_verify S (sq_sig q)
       (tick_digest sha256 \<lparr>tp_height = BlockHeight h, tp_price = sq_price q, tp_backing_k = k\<rparr>) (pks ! i)"

definition slots_ok :: "(bytes \<Rightarrow> bytes) \<Rightarrow> 'p prover \<Rightarrow> xonly list \<Rightarrow> u32 \<Rightarrow> book_entry option list \<Rightarrow> bool" where
  "slots_ok sha256 S pks h slots \<longleftrightarrow> length slots = 5 \<and>
     (\<forall>i < 5. \<forall>k q. slots ! i = Some (k, q) \<longrightarrow> quote_valid sha256 S pks h i k q)"

definition book_ok :: "(bytes \<Rightarrow> bytes) \<Rightarrow> 'p prover \<Rightarrow> quote_book \<Rightarrow> bool" where
  "book_ok sha256 S B \<longleftrightarrow>
     (\<forall>h slots. fmlookup (qb_heights B) h = Some slots \<longrightarrow> slots_ok sha256 S (qb_oracle_pks B) h slots)"

lemma book_okD: "\<lbrakk>book_ok sha256 S B; fmlookup (qb_heights B) h = Some slots\<rbrakk> \<Longrightarrow> slots_ok sha256 S (qb_oracle_pks B) h slots"
  by (simp add: book_ok_def)

lemma book_slots_Some: "fmlookup (qb_heights B) h = Some slots \<Longrightarrow> book_slots B h = slots"
  by (simp add: book_slots_def)

lemma book_new_ok: "book_ok sha256 S (book_with_window pks hz dr)"
  by (simp add: book_ok_def book_with_window_def)

lemma book_slots_ok: "book_ok sha256 S B \<Longrightarrow> slots_ok sha256 S (qb_oracle_pks B) h (book_slots B h)"
  by (auto simp: book_slots_def slots_ok_def dest: book_okD split: option.splits)

lemma book_insert_Inr_iff:
  "book_insert sha256 S B q tip = Inr B' \<longleftrightarrow>
     (\<exists>slot sig. oracle_slot_new (wq_slot q) = Inr slot \<and> wq_price q \<noteq> 0 \<and>
        sat_sub (height_raw tip) (qb_horizon B) \<le> wq_height q \<and> wq_height q \<le> sat_add (height_raw tip) (qb_drift B) \<and>
        sig_bytes q = Inr sig \<and> pv_sig_ok S sig \<and>
        pv_verify S sig (tick_digest sha256 (wq_payload q)) (qb_oracle_pks B ! slot_index slot) \<and>
        B' = B\<lparr>qb_heights := fmfilter (\<lambda>h. sat_sub (height_raw tip) (qb_horizon B) \<le> h)
          (fmupd (wq_height q) ((book_slots B (wq_height q))
            [slot_index slot := Some (RatioK (wq_backing_k q), \<lparr>sq_price = Price (wq_price q), sq_sig = sig\<rparr>)]) (qb_heights B))\<rparr>)"
  by (auto simp: book_insert_def Let_def res_Inr not_less split: sum.splits)

lemma book_insert_ok:
  assumes "book_insert sha256 S B q tip = Inr B'" "book_ok sha256 S B"
  shows "book_ok sha256 S B'"
proof -
  obtain slot sig where ins: "oracle_slot_new (wq_slot q) = Inr slot" "wq_price q \<noteq> 0"
    "pv_verify S sig (tick_digest sha256 (wq_payload q)) (qb_oracle_pks B ! slot_index slot)"
    and B': "B' = B\<lparr>qb_heights := fmfilter (\<lambda>h. sat_sub (height_raw tip) (qb_horizon B) \<le> h)
          (fmupd (wq_height q) ((book_slots B (wq_height q))
            [slot_index slot := Some (RatioK (wq_backing_k q), \<lparr>sq_price = Price (wq_price q), sq_sig = sig\<rparr>)]) (qb_heights B))\<rparr>"
    using assms(1) unfolding book_insert_Inr_iff by blast
  have new: "slots_ok sha256 S (qb_oracle_pks B) (wq_height q) ((book_slots B (wq_height q))
            [slot_index slot := Some (RatioK (wq_backing_k q), \<lparr>sq_price = Price (wq_price q), sq_sig = sig\<rparr>)])"
    using book_slots_ok[OF assms(2), of "wq_height q"] ins(2,3) slot_ok_new[OF ins(1)]
    by (auto simp: slot_ok_def slots_ok_def nth_list_update quote_valid_def wq_payload_def split: if_splits)
  show ?thesis
    using new assms(2) by (auto simp: book_ok_def B' split: if_splits)
qed

section \<open>Support for a backing ratio\<close>

lemma entries_from_set:
  "(j, e) \<in> set (entries_from i slots) \<longleftrightarrow> i \<le> j \<and> j - i < length slots \<and> slots ! (j - i) = Some e"
proof (induction i slots rule: entries_from.induct)
  case (2 i slots)
  then show ?case by (cases "i = j") (auto simp: nth_Cons' Suc_le_eq)
next
  case (3 i e' slots)
  then show ?case by (cases "i = j") (auto simp: nth_Cons' Suc_le_eq)
qed auto

lemma slot_entries_set: "(i, e) \<in> set (slot_entries slots) \<longleftrightarrow> i < length slots \<and> slots ! i = Some e"
  by (simp add: slot_entries_def entries_from_set)

lemma slot_entries_distinct: "distinct (map fst (slot_entries slots))"
proof -
  have "distinct (map fst (entries_from i slots))" for i
    by (induction i slots rule: entries_from.induct) (auto simp: entries_from_set)
  then show ?thesis by (simp add: slot_entries_def)
qed

lemma support_set: "(i, q) \<in> set (support slots k) \<longleftrightarrow> i < length slots \<and> slots ! i = Some (RatioK k, q)"
proof -
  have "ratio_raw k' = k \<longleftrightarrow> k' = RatioK k" for k' by (cases k') simp
  then show ?thesis by (force simp: support_def slot_entries_set)
qed

lemma support_distinct: "distinct (map fst (support slots k))"
proof -
  have "distinct (map fst (filter P (slot_entries slots)))" for P
    by (rule distinct_map_filter[OF slot_entries_distinct])
  then show ?thesis by (simp add: support_def case_prod_unfold comp_def)
qed

lemma support_index: "fst ` set (support slots k) = {i. i < length slots \<and> (\<exists>q. slots ! i = Some (RatioK k, q))}"
proof (intro set_eqI iffI)
  fix i assume "i \<in> {i. i < length slots \<and> (\<exists>q. slots ! i = Some (RatioK k, q))}"
  then obtain q where "(i, q) \<in> set (support slots k)" by (auto simp: support_set)
  then show "i \<in> fst ` set (support slots k)" by (force intro: image_eqI[where x = "(i, q)"])
qed (auto simp: support_set)

lemma support_length: "length (support slots k) = card {i. i < length slots \<and> (\<exists>q. slots ! i = Some (RatioK k, q))}"
  using distinct_card[OF support_distinct[of slots k]] by (simp add: support_index)

lemma quorum_same:
  assumes "length slots = 5" "3 \<le> length (support slots k)" "3 \<le> length (support slots k')"
  shows "k = k'"
proof (rule ccontr)
  assume ne: "k \<noteq> k'"
  let ?A = "\<lambda>k. {i. i < length slots \<and> (\<exists>q. slots ! i = Some (RatioK k, q))}"
  have "?A k \<inter> ?A k' = {}" using ne by auto
  then have "card (?A k) + card (?A k') = card (?A k \<union> ?A k')" by (intro card_Un_disjoint[symmetric]) auto
  also have "\<dots> \<le> card {0..<5 :: nat}" using assms(1) by (intro card_mono) auto
  finally show False using assms(2,3) by (simp add: support_length)
qed

lemma filter_one: "\<lbrakk>distinct xs; k \<in> set xs; \<And>x. x \<in> set xs \<Longrightarrow> P x \<longleftrightarrow> x = k\<rbrakk> \<Longrightarrow> filter P xs = [k]"
  by (induction xs) (auto simp: filter_empty_conv)

lemma by_k_quorum:
  assumes "length slots = 5" "3 \<le> length (support slots k)"
  shows "filter (\<lambda>(k, v). 3 \<le> length v) (by_k slots) = [(k, support slots k)]"
proof -
  let ?ks = "sort (remdups (map (\<lambda>(i, k, q). ratio_raw k) (slot_entries slots)))"
  obtain i q where "(i, q) \<in> set (support slots k)" using assms(2) by (cases "support slots k") auto
  then have "(i, RatioK k, q) \<in> set (slot_entries slots)" by (simp add: support_set slot_entries_set)
  then have "k \<in> set ?ks" by force
  then have "filter (\<lambda>k. 3 \<le> length (support slots k)) ?ks = [k]"
    using assms quorum_same by (intro filter_one) auto
  then show ?thesis by (simp add: by_k_def filter_map comp_def)
qed

lemma by_k_none: "filter (\<lambda>(k, v). 3 \<le> length v) (by_k slots) \<noteq> [] \<Longrightarrow> \<exists>k. 3 \<le> length (support slots k)"
  by (auto simp: by_k_def filter_empty_conv)

section \<open>The tick of a quorum\<close>

lemma place_quotes_origin:
  "\<lbrakk>place_quotes slots qs = Inr slots'; slots' ! i = Some q; i < length slots\<rbrakk> \<Longrightarrow>
     slots ! i = Some q \<or> (\<exists>s. (s, q) \<in> set qs \<and> slot_index s = i)"
proof (induction slots qs rule: place_quotes.induct)
  case (2 slots s' q' rest)
  then have "slots[slot_index s' := Some q'] ! i = Some q \<or> (\<exists>s. (s, q) \<in> set rest \<and> slot_index s = i)"
    by (auto split: if_splits)
  then show ?case using "2.prems"(3) by (cases "slot_index s' = i") auto
qed simp

lemma tick_new_Inr:
  assumes "oracle_tick_new h k (a, b, c) = Inr t" "slot_ok (fst a)" "slot_ok (fst b)" "slot_ok (fst c)"
  shows "tick_wf t \<and> ot_height t = h \<and> ot_backing_k t = k \<and> set (active_quotes t) = {snd a, snd b, snd c} \<and>
    (\<forall>i < 5. \<forall>q. ot_slots t ! i = Some q \<longrightarrow> (\<exists>s. (s, q) \<in> {a, b, c} \<and> slot_index s = i))"
proof -
  from assms(1) have pl: "place_quotes (replicate 5 None) [a, b, c] = Inr (ot_slots t)"
    and t: "ot_height t = h" "ot_backing_k t = k" "height_raw h < LOCK_TIME_HEIGHT_THRESHOLD"
    by (auto simp: oracle_tick_new_def split: sum.splits if_splits)
  have ix: "\<forall>(s, q) \<in> set [a, b, c]. slot_index s < length (replicate 5 (None :: signed_quote option))"
    using assms(2-4) by (auto simp: slot_ok_def split: prod.splits)
  note act = place_quotes_active[OF pl ix] and len = place_quotes_length[OF pl]
  from place_quotes_origin[OF pl]
  have "\<exists>s. (s, q) \<in> {a, b, c} \<and> slot_index s = i" if "i < 5" "ot_slots t ! i = Some q" for i q
    using that by fastforce
  with act len t show ?thesis by (auto simp: tick_wf_def active_quotes_def)
qed

lemma tick_new_ok:
  assumes "height_raw h < LOCK_TIME_HEIGHT_THRESHOLD" "slot_ok (fst a)" "slot_ok (fst b)" "slot_ok (fst c)"
    "distinct [fst a, fst b, fst c]"
  shows "\<exists>t. oracle_tick_new h k (a, b, c) = Inr t"
proof -
  have "\<exists>slots'. place_quotes (replicate 5 None) [a, b, c] = Inr slots'"
    using assms(2-5) by (intro place_quotes_distinct) (auto simp: slot_ok_def split: prod.splits)
  then obtain slots' where "place_quotes (replicate 5 None) [a, b, c] = Inr slots'" ..
  with assms(1) show ?thesis by (simp only: oracle_tick_new_def prod.case not_le[symmetric] if_not_P sum.case) auto
qed

lemma slot_new_lt:
  "i < 5 \<Longrightarrow> oracle_slot_new (of_nat i) = Inr (OracleSlot (of_nat i)) \<and> slot_index (OracleSlot (of_nat i)) = i"
proof -
  assume "i < 5"
  then have "unat (of_nat i :: u8) = i" by (simp add: unat_of_nat)
  with \<open>i < 5\<close> show ?thesis by (simp add: oracle_slot_new_def slot_index_def word_less_nat_alt)
qed

lemma assemble_quorum:
  assumes "fmlookup (qb_heights B) (height_raw h) = Some slots" "length slots = 5" "3 \<le> length (support slots k)"
  obtains i1 q1 i2 q2 i3 q3 where "(i1, q1) \<in> set (support slots k)" "(i2, q2) \<in> set (support slots k)"
    "(i3, q3) \<in> set (support slots k)" "distinct [i1, i2, i3]"
    "assemble_tick B h = (case oracle_tick_new h (RatioK k)
       ((OracleSlot (of_nat i1), q1), (OracleSlot (of_nat i2), q2), (OracleSlot (of_nat i3), q3)) of Inl _ \<Rightarrow> None | Inr t \<Rightarrow> Some t)"
proof -
  obtain i1 q1 i2 q2 i3 q3 rest where sup: "support slots k = (i1, q1) # (i2, q2) # (i3, q3) # rest"
    using assms(3) by (metis One_nat_def Suc_le_length_iff numeral_3_eq_3 surj_pair)
  then have mem: "(i1, q1) \<in> set (support slots k)" "(i2, q2) \<in> set (support slots k)" "(i3, q3) \<in> set (support slots k)"
    by simp_all
  then have lt: "i1 < 5" "i2 < 5" "i3 < 5" using assms(2) by (simp_all add: support_set)
  have "distinct [i1, i2, i3]" using support_distinct[of slots k] by (auto simp: sup)
  moreover have "assemble_tick B h = (case oracle_tick_new h (RatioK k)
       ((OracleSlot (of_nat i1), q1), (OracleSlot (of_nat i2), q2), (OracleSlot (of_nat i3), q3)) of Inl _ \<Rightarrow> None | Inr t \<Rightarrow> Some t)"
    by (simp add: assemble_tick_def assms(1) by_k_quorum[OF assms(2,3)] slot_new_lt lt sup)
  ultimately show thesis using that mem by blast
qed

lemma max_by_key_Some: "max_by_key xs = Some x \<Longrightarrow> xs \<noteq> []"
  by auto

lemma assemble_needs_quorum:
  assumes "assemble_tick B h = Some t"
  shows "\<exists>slots k. fmlookup (qb_heights B) (height_raw h) = Some slots \<and> 3 \<le> length (support slots k)"
proof -
  from assms obtain slots where s: "fmlookup (qb_heights B) (height_raw h) = Some slots"
    and f: "filter (\<lambda>(k, v). 3 \<le> length v) (by_k slots) \<noteq> []"
    by (auto simp: assemble_tick_def bind_eq_Some_conv dest: max_by_key_Some)
  with by_k_none[OF f] show ?thesis by blast
qed

section \<open>Reachable books\<close>

inductive book_run :: "(bytes \<Rightarrow> bytes) \<Rightarrow> 'p prover \<Rightarrow> quote_book \<Rightarrow> bool" for sha256 S where
  book_start: "book_run sha256 S (book_with_window pks horizon drift)"
| book_step: "\<lbrakk>book_run sha256 S B; book_insert sha256 S B q tip = Inr B'\<rbrakk> \<Longrightarrow> book_run sha256 S B'"

lemma book_run_ok: "book_run sha256 S B \<Longrightarrow> book_ok sha256 S B"
  by (induction rule: book_run.induct) (auto intro: book_new_ok book_insert_ok)

lemma assemble_some:
  assumes "book_run sha256 S B" "fmlookup (qb_heights B) (height_raw h) = Some slots"
    "3 \<le> card {i. i < 5 \<and> (\<exists>q. slots ! i = Some (k, q))}" "height_raw h < LOCK_TIME_HEIGHT_THRESHOLD"
  shows "\<exists>t. assemble_tick B h = Some t \<and> ot_backing_k t = k"
proof -
  have len: "length slots = 5" using book_okD[OF book_run_ok[OF assms(1)] assms(2)] by (simp add: slots_ok_def)
  have sup: "3 \<le> length (support slots (ratio_raw k))" using assms(3) len by (simp add: support_length)
  obtain i1 q1 i2 q2 i3 q3 where mem: "(i1, q1) \<in> set (support slots (ratio_raw k))" "(i2, q2) \<in> set (support slots (ratio_raw k))"
    "(i3, q3) \<in> set (support slots (ratio_raw k))" and dist: "distinct [i1, i2, i3]"
    and asm: "assemble_tick B h = (case oracle_tick_new h (RatioK (ratio_raw k))
       ((OracleSlot (of_nat i1), q1), (OracleSlot (of_nat i2), q2), (OracleSlot (of_nat i3), q3)) of Inl _ \<Rightarrow> None | Inr t \<Rightarrow> Some t)"
    using assemble_quorum[OF assms(2) len sup] by metis
  have lt: "i1 < 5" "i2 < 5" "i3 < 5" using mem len by (simp_all add: support_set)
  note ix = slot_new_lt[OF lt(1)] slot_new_lt[OF lt(2)] slot_new_lt[OF lt(3)]
  have ds: "distinct [OracleSlot (of_nat i1), OracleSlot (of_nat i2), OracleSlot (of_nat i3)]"
    using dist ix by (metis distinct_length_2_or_more distinct_singleton)
  obtain t where new: "oracle_tick_new h (RatioK (ratio_raw k))
       ((OracleSlot (of_nat i1), q1), (OracleSlot (of_nat i2), q2), (OracleSlot (of_nat i3), q3)) = Inr t"
    using tick_new_ok[OF assms(4), of "(OracleSlot (of_nat i1), q1)" "(OracleSlot (of_nat i2), q2)" "(OracleSlot (of_nat i3), q3)"]
      ix lt ds by (auto simp: slot_ok_def)
  moreover have "ot_backing_k t = k" using tick_new_Inr[OF new] ix lt by (simp add: slot_ok_def)
  ultimately show ?thesis using asm by simp
qed

section \<open>A signed quote is accepted\<close>

lemma wq_sign_accepted:
  assumes "slot_ok slot" "tp_price p \<noteq> Price 0"
    "pv_verify S (sign kp (tick_digest sha256 p)) (tick_digest sha256 p) (qb_oracle_pks B ! slot_index slot)"
    "pv_sig_ok S (sign kp (tick_digest sha256 p))" "length (sign kp (tick_digest sha256 p)) = 64"
    "sat_sub (height_raw tip) (qb_horizon B) \<le> height_raw (tp_height p)"
    "height_raw (tp_height p) \<le> sat_add (height_raw tip) (qb_drift B)" "book_ok sha256 S B"
  shows "\<exists>B'. book_insert sha256 S B (wq_sign sha256 sign kp slot p) tip = Inr B' \<and>
    book_slots B' (height_raw (tp_height p)) ! slot_index slot = Some (tp_backing_k p, sign_quote sha256 sign kp p) \<and>
    book_ok sha256 S B'"
proof -
  let ?q = "wq_sign sha256 sign kp slot p"
  have lt: "slot_index slot < 5" using assms(1) by (simp add: slot_ok_def)
  have slot: "oracle_slot_new (wq_slot ?q) = Inr slot"
  proof -
    have "OracleSlot (of_nat (slot_index slot)) = slot" by (cases slot) (simp add: slot_index_def)
    then show ?thesis using slot_new_lt[OF lt] by (simp add: wq_sign_def Let_def)
  qed
  have pay: "wq_payload ?q = p" by (simp add: wq_payload_def wq_sign_def Let_def)
  have sig: "sig_bytes ?q = Inr (sign kp (tick_digest sha256 p))"
    by (simp add: sig_bytes_def wq_sign_def Let_def sign_quote_def hex_str_length assms(5) sig_pairs_hex)
  have fields: "wq_height ?q = height_raw (tp_height p)" "Price (wq_price ?q) = tp_price p" "RatioK (wq_backing_k ?q) = tp_backing_k p"
    by (simp_all add: wq_sign_def Let_def)
  have np: "wq_price ?q \<noteq> 0" using assms(2) fields(2) by auto
  have quote: "\<lparr>sq_price = Price (wq_price ?q), sq_sig = sign kp (tick_digest sha256 p)\<rparr> = sign_quote sha256 sign kp p"
    by (simp add: fields sign_quote_def)
  let ?B' = "B\<lparr>qb_heights := fmfilter (\<lambda>h. sat_sub (height_raw tip) (qb_horizon B) \<le> h)
          (fmupd (wq_height ?q) ((book_slots B (wq_height ?q))
            [slot_index slot := Some (RatioK (wq_backing_k ?q), \<lparr>sq_price = Price (wq_price ?q),
               sq_sig = sign kp (tick_digest sha256 p)\<rparr>)]) (qb_heights B))\<rparr>"
  have ins: "book_insert sha256 S B ?q tip = Inr ?B'"
    unfolding book_insert_Inr_iff using slot np sig assms(3,4,6,7) by (intro exI[of _ slot] exI[of _ "sign kp (tick_digest sha256 p)"]) (simp add: fields pay)
  have "length (book_slots B (height_raw (tp_height p))) = 5"
    using book_slots_ok[OF assms(8)] by (simp add: slots_ok_def)
  moreover have "fmlookup (qb_heights ?B') (height_raw (tp_height p)) = Some ((book_slots B (height_raw (tp_height p)))
      [slot_index slot := Some (tp_backing_k p, sign_quote sha256 sign kp p)])"
    using assms(6) by (simp add: fields(1,3) quote)
  note book_slots_Some[OF this]
  ultimately have "book_slots ?B' (height_raw (tp_height p)) ! slot_index slot = Some (tp_backing_k p, sign_quote sha256 sign kp p)"
    using lt by simp
  with ins book_insert_ok[OF ins assms(8)] show ?thesis by blast
qed

section \<open>Samples\<close>

definition sample_wire :: "u8 \<Rightarrow> wire_quote" where
  "sample_wire i = wq_sign (\<lambda>bs. bs) (\<lambda>k d. replicate 64 0) () (OracleSlot i)
     \<lparr>tp_height = BlockHeight 100, tp_price = Price 7, tp_backing_k = K_PAR\<rparr>"

lemma sample_sig: "sig_bytes (sample_wire i) = Inr (replicate 64 0)"
  by (simp add: sig_bytes_def sample_wire_def wq_sign_def sign_quote_def hex_str_length sig_pairs_hex Let_def)

definition sample_add :: "nat \<Rightarrow> quote_book \<Rightarrow> quote_book" where
  "sample_add i B = B\<lparr>qb_heights := fmfilter (\<lambda>h. 68 \<le> h)
     (fmupd 100 ((book_slots B 100)[i := Some (K_PAR, sample_quote 7)]) (qb_heights B))\<rparr>"

definition sample_book :: "quote_book" where
  "sample_book = sample_add 2 (sample_add 1 (sample_add 0 (book_new [1, 2, 3, 4, 5])))"

lemma sample_add_sel [simp]:
  "qb_horizon (sample_add i B) = qb_horizon B" "qb_drift (sample_add i B) = qb_drift B"
  "qb_oracle_pks (sample_add i B) = qb_oracle_pks B"
  "fmlookup (qb_heights (sample_add i B)) 100 = Some ((book_slots B 100)[i := Some (K_PAR, sample_quote 7)])"
  "book_slots (sample_add i B) 100 = (book_slots B 100)[i := Some (K_PAR, sample_quote 7)]"
  by (simp_all add: sample_add_def book_slots_def)

lemma sample_book_lookup:
  "fmlookup (qb_heights sample_book) 100 =
     Some [Some (K_PAR, sample_quote 7), Some (K_PAR, sample_quote 7), Some (K_PAR, sample_quote 7), None, None]"
  by (simp add: sample_book_def book_slots_def book_new_def book_with_window_def eval_nat_numeral)

lemma sample_insert:
  assumes "i < 5" "qb_horizon B = 32" "qb_drift B = 2"
  shows "book_insert (\<lambda>bs. bs) sample_prover B (sample_wire (of_nat i)) (BlockHeight 100) =
    Inr (sample_add i B)"
proof -
  have "slot_index (OracleSlot (of_nat i)) = i" "oracle_slot_new (of_nat i) = Inr (OracleSlot (of_nat i))"
    using slot_new_lt[OF assms(1)] by auto
  moreover have "RatioK (ratio_raw K_PAR) = K_PAR" by simp
  ultimately show ?thesis
    unfolding book_insert_Inr_iff using sample_sig[of "of_nat i"]
    by (auto simp: sample_wire_def wq_sign_def sign_quote_def Let_def assms sat_sub_def sat_add_def sample_prover_def sample_quote_def sample_add_def)
qed

lemma sample_book_run: "book_run (\<lambda>bs. bs) sample_prover sample_book"
proof -
  let ?B0 = "book_new [1, 2, 3, 4, 5]"
  have w: "qb_horizon ?B0 = 32" "qb_drift ?B0 = 2"
    by (simp_all add: book_new_def book_with_window_def DEFAULT_HORIZON_def DEFAULT_DRIFT_def)
  have r0: "book_run (\<lambda>bs. bs) sample_prover ?B0" unfolding book_new_def by (rule book_start)
  note r1 = book_step[OF r0 sample_insert[of 0 ?B0]]
  note r2 = book_step[OF r1 sample_insert[of 1 "sample_add 0 ?B0"]]
  note r3 = book_step[OF r2 sample_insert[of 2 "sample_add 1 (sample_add 0 ?B0)"]]
  show ?thesis unfolding sample_book_def by (rule r3) (simp_all add: w)
qed

section \<open>What an assembled tick holds\<close>

lemma assemble_authentic:
  assumes run: "book_run sha256 S B" and t: "assemble_tick B h = Some t"
  shows "tick_wf t \<and> ot_height t = h \<and> check_zero_price t = Inr () \<and>
    (\<forall>i < 5. \<forall>q. ot_slots t ! i = Some q \<longrightarrow>
       quote_valid sha256 S (qb_oracle_pks B) (height_raw h) i (ot_backing_k t) q)"
proof -
  obtain slots k where look: "fmlookup (qb_heights B) (height_raw h) = Some slots" and sup: "3 \<le> length (support slots k)"
    using assemble_needs_quorum[OF t] by blast
  have ok: "slots_ok sha256 S (qb_oracle_pks B) (height_raw h) slots"
    by (rule book_okD[OF book_run_ok[OF run] look])
  then have len: "length slots = 5" by (simp add: slots_ok_def)
  obtain i1 q1 i2 q2 i3 q3 where mem: "(i1, q1) \<in> set (support slots k)" "(i2, q2) \<in> set (support slots k)"
    "(i3, q3) \<in> set (support slots k)"
    and asm: "assemble_tick B h = (case oracle_tick_new h (RatioK k)
       ((OracleSlot (of_nat i1), q1), (OracleSlot (of_nat i2), q2), (OracleSlot (of_nat i3), q3)) of Inl _ \<Rightarrow> None | Inr t \<Rightarrow> Some t)"
    using assemble_quorum[OF look len sup] by metis
  have lt: "i1 < 5" "i2 < 5" "i3 < 5" using mem len by (simp_all add: support_set)
  note ix = slot_new_lt[OF lt(1)] slot_new_lt[OF lt(2)] slot_new_lt[OF lt(3)]
  have valid: "quote_valid sha256 S (qb_oracle_pks B) (height_raw h) i (RatioK k) q" if "(i, q) \<in> set (support slots k)" for i q
    using that ok len by (auto simp: support_set slots_ok_def)
  from asm t have new: "oracle_tick_new h (RatioK k)
       ((OracleSlot (of_nat i1), q1), (OracleSlot (of_nat i2), q2), (OracleSlot (of_nat i3), q3)) = Inr t"
    by (auto split: sum.splits)
  have T: "tick_wf t \<and> ot_height t = h \<and> ot_backing_k t = RatioK k \<and> set (active_quotes t) = {q1, q2, q3} \<and>
    (\<forall>i < 5. \<forall>q. ot_slots t ! i = Some q \<longrightarrow> (\<exists>s. (s, q) \<in> {(OracleSlot (of_nat i1), q1),
       (OracleSlot (of_nat i2), q2), (OracleSlot (of_nat i3), q3)} \<and> slot_index s = i))"
    using tick_new_Inr[OF new] ix lt by (simp add: slot_ok_def)
  have "tick_lo t \<in> sq_price ` {q1, q2, q3}"
    using T tick_wf_active[of t] by (metis Min_in finite_imageI finite_set fst_conv image_is_empty price_range_Min_Max set_empty)
  then have "price_raw (tick_lo t) \<noteq> 0" using valid mem by (auto simp: quote_valid_def)
  then have "check_zero_price t = Inr ()" by (simp add: check_zero_price_def refuse_if_def)
  moreover have "quote_valid sha256 S (qb_oracle_pks B) (height_raw h) i (ot_backing_k t) q"
    if iq: "i < 5" "ot_slots t ! i = Some q" for i q
  proof -
    from T iq obtain s where "(s, q) \<in> {(OracleSlot (of_nat i1), q1), (OracleSlot (of_nat i2), q2), (OracleSlot (of_nat i3), q3)}"
      "slot_index s = i" by blast
    then have "(i, q) \<in> {(i1, q1), (i2, q2), (i3, q3)}" using ix by auto
    then have "(i, q) \<in> set (support slots k)" using mem by blast
    from valid[OF this] show ?thesis using T by simp
  qed
  ultimately show ?thesis using T by blast
qed

section \<open>Properties\<close>

text \<open>
  C6 (tick_authentic): whatever sequence of quotes was offered to the book, every tick it assembles
  has exactly three active slots, each holding a non-zero price whose BIP340 signature verifies,
  under the covenant key of that very slot, over this height, this price and the tick's one backing
  ratio; so the builders' zero-price check never refuses an assembled tick.
\<close>

theorem tick_authentic:
  assumes run: "book_run sha256 S B" and t: "assemble_tick B h = Some t"
  shows "tick_wf t \<and> ot_height t = h \<and> check_zero_price t = Inr () \<and>
    (\<forall>i < 5. \<forall>q. ot_slots t ! i = Some q \<longrightarrow>
       quote_valid sha256 S (qb_oracle_pks B) (height_raw h) i (ot_backing_k t) q)"
  by (rule assemble_authentic[OF run t])

theorem tick_authentic_witness:
  "book_run (\<lambda>bs. bs) sample_prover sample_book \<and>
   (\<exists>t. assemble_tick sample_book (BlockHeight 100) = Some t \<and> tick_wf t \<and> check_zero_price t = Inr ())"
proof -
  let ?slots = "[Some (K_PAR, sample_quote 7), Some (K_PAR, sample_quote 7), Some (K_PAR, sample_quote 7), None, None]"
  have "{0, 1, 2} \<subseteq> {i. i < 5 \<and> (\<exists>q. ?slots ! i = Some (K_PAR, q))}" by auto
  from card_mono[OF _ this] have "3 \<le> card {i. i < 5 \<and> (\<exists>q. ?slots ! i = Some (K_PAR, q))}" by simp
  from assemble_some[OF sample_book_run _ this, of "BlockHeight 100"]
  obtain t where "assemble_tick sample_book (BlockHeight 100) = Some t"
    by (auto simp: sample_book_lookup LOCK_TIME_HEIGHT_THRESHOLD_def)
  with sample_book_run tick_authentic[OF sample_book_run this] show ?thesis by blast
qed

text \<open>
  A quote signed by an oracle for its own slot and offered inside the window is
  accepted and stored under its height and slot with exactly the signed price, ratio and signature.
  The hypotheses on the signature scheme are those of BIP340: what a key signs verifies under its
  public key and serialises to 64 bytes.
\<close>

lemma quote_roundtrip:
  assumes "slot_ok slot" "tp_price p \<noteq> Price 0"
    "\<And>d. pv_verify S (sign kp d) d (qb_oracle_pks B ! slot_index slot)" "\<And>d. pv_sig_ok S (sign kp d)" "\<And>d. length (sign kp d) = 64"
    "sat_sub (height_raw tip) (qb_horizon B) \<le> height_raw (tp_height p)"
    "height_raw (tp_height p) \<le> sat_add (height_raw tip) (qb_drift B)" "book_ok sha256 S B"
  shows "\<exists>B'. book_insert sha256 S B (wq_sign sha256 sign kp slot p) tip = Inr B' \<and>
    book_slots B' (height_raw (tp_height p)) ! slot_index slot = Some (tp_backing_k p, sign_quote sha256 sign kp p) \<and>
    book_ok sha256 S B'"
  by (rule wq_sign_accepted[where S = S and sign = sign and kp = kp]) (use assms in auto)

text \<open>
  One malformed quote stops the consumer. A wire quote whose 128-byte signature
  string holds a two-byte UTF-8 character across the first slice passes every check before the
  signature is decoded and makes the decoder slice off a character boundary, which panics; the
  book's promise that a bad quote is merely rejected does not cover it. This holds for every key
  set and every signature scheme, so no valid signature is needed.
\<close>

lemma quote_panics:
  "book_insert sha256 S (book_new pks)
     \<lparr>wq_slot = 0, wq_height = 100, wq_price = 7, wq_backing_k = 200000000,
      wq_sig = CHR ''0'' # char_of (0xC3 :: nat) # char_of (0xA9 :: nat) # replicate 125 (CHR ''0''), wq_name = []\<rparr>
     (BlockHeight 100) = Inl QuotePanic"
  by (simp add: book_insert_def oracle_slot_new_def refuse_if_def Let_def book_new_def book_with_window_def DEFAULT_HORIZON_def
      DEFAULT_DRIFT_def sat_sub_def sat_add_def sig_bytes_def bind_res_def utf8_continuation_def)

end
