(* ===== verification/Styx_Index.thy ===== *)
theory Styx_Index
  imports Styx_Plan "HOL-Library.Finite_Map"
begin

text \<open>
  The chain indexer (\<open>styx-watch/src/index.rs\<close>): protocol state inferred from the layout of
  transactions. \<open>apply_tx\<close> consumes one transaction; the mutable \<open>Notices\<close> accumulator of the
  source is the list of events each function returns beside the new state, stamped at the end.
  Heights are scanned downwards exactly as the source does, on \<open>u32\<close> values.
\<close>

section \<open>State and events\<close>

record tracked_vault =
  tv_debt :: obol
  tv_last_height :: block_height
  tv_value :: sats
  tv_owner :: "xonly option"
  tv_spk :: script

definition tv_known :: "tracked_vault \<Rightarrow> outpoint \<Rightarrow> vault_utxo option" where
  "tv_known v op =
     (case tv_owner v of
        None \<Rightarrow> None
      | Some owner \<Rightarrow>
          Some \<lparr>oc_state = \<lparr>vs_debt = tv_debt v, vs_owner = owner, vs_last_height = tv_last_height v\<rparr>,
                oc_outpoint = op, oc_value = tv_value v\<rparr>)"

record lost =
  lo_txid :: txid
  lo_reason :: string

datatype event =
    PotBorn outpoint obol
  | ReserveBorn outpoint sats
  | IssuerBorn outpoint block_height
  | Poked block_height
  | Opened outpoint obol sats block_height "xonly option"
  | Repaid outpoint outpoint obol
  | Drawn outpoint outpoint obol
  | Refreshed outpoint outpoint block_height
  | Deleveraged outpoint outpoint obol
  | Closed outpoint
  | FullyLiquidated outpoint
  | BadDebtClosed outpoint
  | VaultLost outpoint string
  | PotGrew obol
  | ReserveGrew sats
  | Fragment string
  | Anomaly string

record notice =
  no_height :: u32
  no_txid :: txid
  no_event :: event

record index_state =
  ix_height :: u32
  ix_tip :: block_hash
  ix_pot :: "pot_utxo option"
  ix_reserve :: "reserve_utxo option"
  ix_issuer :: "issuer_utxo option"
  ix_vaults :: "(outpoint, tracked_vault) fmap"
  ix_lost :: "(outpoint, lost) fmap"

definition at_height :: "u32 \<Rightarrow> block_hash \<Rightarrow> index_state" where
  "at_height h tip =
     \<lparr>ix_height = h, ix_tip = tip, ix_pot = None, ix_reserve = None, ix_issuer = None,
      ix_vaults = fmempty, ix_lost = fmempty\<rparr>"

definition genesis :: "block_hash \<Rightarrow> index_state" where
  "genesis tip = at_height 0 tip"

definition ix_protocol :: "index_state \<Rightarrow> protocol_state option" where
  "ix_protocol st =
     (case (ix_pot st, ix_reserve st, ix_issuer st) of
        (Some p, Some r, Some i) \<Rightarrow> Some \<lparr>ps_pot = p, ps_reserve = r, ps_issuer = i\<rparr>
      | _ \<Rightarrow> None)"

definition seal :: "u32 \<Rightarrow> block_hash \<Rightarrow> index_state \<Rightarrow> index_state" where
  "seal h hash st = st\<lparr>ix_height := h, ix_tip := hash\<rparr>"

section \<open>Layout helpers\<close>

definition input_index :: "transaction \<Rightarrow> outpoint \<Rightarrow> nat option" where
  "input_index tx op = position (\<lambda>i. ti_previous_output i = op) (tx_input tx)"

definition explicit :: "tx_out \<Rightarrow> asset_id \<Rightarrow> u64 option" where
  "explicit o' a =
     (case (to_asset o', to_value o') of
        (AExplicit b, VExplicit v) \<Rightarrow> if b = a then Some v else None | _ \<Rightarrow> None)"

definition hits :: "transaction \<Rightarrow> script \<Rightarrow> asset_id \<Rightarrow> (u32 \<times> u64) list" where
  "hits tx spk a =
     somes (map (\<lambda>(vout, o'). if to_script_pubkey o' = spk
                              then map_option (\<lambda>v. (of_nat vout, v)) (explicit o' a) else None)
              (enumerate 0 (tx_output tx)))"

definition locate_counted :: "transaction \<Rightarrow> script \<Rightarrow> asset_id \<Rightarrow> (u32 \<times> u64 \<times> bool) option" where
  "locate_counted tx spk a =
     (case hits tx spk a of
        [] \<Rightarrow> None | (vout, value) # rest \<Rightarrow> Some (vout, value, rest \<noteq> []))"

definition locate :: "transaction \<Rightarrow> script \<Rightarrow> asset_id \<Rightarrow> (u32 \<times> u64) option" where
  "locate tx spk a = map_option (\<lambda>(vout, value, _). (vout, value)) (locate_counted tx spk a)"

definition spk_at_output0 :: "transaction \<Rightarrow> script \<Rightarrow> asset_id \<Rightarrow> bool" where
  "spk_at_output0 tx spk a =
     (case first_elem (tx_output tx) of
        None \<Rightarrow> False | Some o' \<Rightarrow> to_script_pubkey o' = spk \<and> explicit o' a \<noteq> None)"

text \<open>The descending scan: the greatest height in \<open>lo..h\<close> at which \<open>f\<close> answers.\<close>

fun scan_down :: "(nat \<Rightarrow> 'a option) \<Rightarrow> nat \<Rightarrow> nat \<Rightarrow> 'a option" where
  "scan_down f lo 0 = (if lo = 0 then f 0 else None)"
| "scan_down f lo (Suc h) =
     (if Suc h < lo then None
      else case f (Suc h) of Some r \<Rightarrow> Some r | None \<Rightarrow> scan_down f lo h)"

definition OWNER_SCAN_MAX_ELEMENT :: nat where
  "OWNER_SCAN_MAX_ELEMENT = 4096"

definition bit_window :: "bytes \<Rightarrow> nat \<Rightarrow> bytes" where
  "bit_window e b =
     map (\<lambda>i. or (push_bit (b mod 8) (e ! (b div 8 + i)))
              (if b mod 8 = 0 then 0
               else drop_bit (8 - b mod 8) (if b div 8 + i + 1 < length e then e ! (b div 8 + i + 1) else 0)))
       [0..<32]"

fun first_some :: "('a \<Rightarrow> 'b option) \<Rightarrow> 'a list \<Rightarrow> 'b option" where
  "first_some f [] = None"
| "first_some f (x # xs) = (case f x of Some r \<Rightarrow> Some r | None \<Rightarrow> first_some f xs)"

definition scan_element :: "'p library \<Rightarrow> (xonly \<Rightarrow> bool) \<Rightarrow> bytes \<Rightarrow> xonly option" where
  "scan_element L matches e =
     first_some (\<lambda>b. case lb_xonly L (bit_window e b) of
                      Some pk \<Rightarrow> if matches pk then Some pk else None | None \<Rightarrow> None)
       [0..<length e * 8 - 256 + 1]"

definition scan_witness_for_owner ::
  "'p library \<Rightarrow> transaction \<Rightarrow> nat \<Rightarrow> (xonly \<Rightarrow> bool) \<Rightarrow> xonly option" where
  "scan_witness_for_owner L tx input matches =
     (if input < length (tx_input tx)
      then first_some (scan_element L matches)
             (filter (\<lambda>e. 32 \<le> length e \<and> length e \<le> OWNER_SCAN_MAX_ELEMENT)
               (tiw_script_witness (ti_witness (tx_input tx ! input))))
      else None)"

section \<open>Following the singletons\<close>

definition follow_pot ::
  "'p library \<Rightarrow> 'p ctx \<Rightarrow> txid \<Rightarrow> transaction \<Rightarrow> index_state \<Rightarrow> index_state \<times> event list \<times> obol option" where
  "follow_pot L c txid tx st =
     (case locate_counted tx (pot_spk L (cx_artifacts c)) (pr_obol (cx_params c)) of
        Some (vout, value, extra) \<Rightarrow>
          (st\<lparr>ix_pot := Some \<lparr>oc_state = PotState, oc_outpoint = OutPoint txid vout, oc_value = Obol value\<rparr>\<rparr>,
           (if extra then [Fragment ''pot''] else []), Some (Obol value))
      | None \<Rightarrow> (st\<lparr>ix_pot := None\<rparr>, [Anomaly ''pot spent without a successor at its spk''], None))"

definition follow_reserve ::
  "'p library \<Rightarrow> 'p ctx \<Rightarrow> txid \<Rightarrow> transaction \<Rightarrow> index_state \<Rightarrow> index_state \<times> event list \<times> sats option" where
  "follow_reserve L c txid tx st =
     (case locate_counted tx (stability_spk L (cx_artifacts c)) (pr_policy (cx_params c)) of
        Some (vout, value, extra) \<Rightarrow>
          (st\<lparr>ix_reserve := Some \<lparr>oc_state = ReserveState, oc_outpoint = OutPoint txid vout, oc_value = Sats value\<rparr>\<rparr>,
           (if extra then [Fragment ''reserve''] else []), Some (Sats value))
      | None \<Rightarrow>
          (st\<lparr>ix_reserve := None\<rparr>, [Anomaly ''reserve spent without a successor at its spk''], None))"

definition follow_singletons ::
  "'p library \<Rightarrow> 'p ctx \<Rightarrow> txid \<Rightarrow> nat option \<Rightarrow> nat option \<Rightarrow> transaction \<Rightarrow> index_state \<Rightarrow> index_state \<times> event list" where
  "follow_singletons L c txid pot_in reserve_in tx st =
     (let (st1, e1) = (if pot_in \<noteq> None then let (s, e, _) = follow_pot L c txid tx st in (s, e) else (st, []));
          (st2, e2) = (if reserve_in \<noteq> None then let (s, e, _) = follow_reserve L c txid tx st1 in (s, e) else (st1, []))
      in (st2, e1 @ e2))"

definition pot_delta_shrink ::
  "'p library \<Rightarrow> 'p ctx \<Rightarrow> txid \<Rightarrow> transaction \<Rightarrow> index_state \<Rightarrow> index_state \<times> event list \<times> obol option" where
  "pot_delta_shrink L c txid tx st =
     (case ix_pot st of
        None \<Rightarrow> (st, [], None)
      | Some p \<Rightarrow>
          (case follow_pot L c txid tx st of
             (st', e, None) \<Rightarrow> (st', e, None)
           | (st', e, Some new) \<Rightarrow>
               (case obol_checked_sub (oc_value p) new of
                  Inr d \<Rightarrow> if d > obol_ZERO then (st', e, Some d)
                           else (st', e @ [Anomaly ''mint op without a pot shrink''], None)
                | Inl _ \<Rightarrow> (st', e @ [Anomaly ''mint op without a pot shrink''], None))))"

definition pot_delta_grow ::
  "'p library \<Rightarrow> 'p ctx \<Rightarrow> txid \<Rightarrow> transaction \<Rightarrow> index_state \<Rightarrow> index_state \<times> event list \<times> obol option" where
  "pot_delta_grow L c txid tx st =
     (case ix_pot st of
        None \<Rightarrow> (st, [], None)
      | Some p \<Rightarrow>
          (case follow_pot L c txid tx st of
             (st', e, None) \<Rightarrow> (st', e, None)
           | (st', e, Some new) \<Rightarrow>
               (case obol_checked_sub new (oc_value p) of
                  Inr d \<Rightarrow> if d > obol_ZERO then (st', e, Some d)
                           else (st', e @ [Anomaly ''repayment op without a pot grow''], None)
                | Inl _ \<Rightarrow> (st', e @ [Anomaly ''repayment op without a pot grow''], None))))"

section \<open>Vault births, successors and losses\<close>

definition mark_lost :: "outpoint \<Rightarrow> txid \<Rightarrow> string \<Rightarrow> index_state \<Rightarrow> index_state \<times> event list" where
  "mark_lost vop txid reason st =
     (st\<lparr>ix_vaults := fmdrop vop (ix_vaults st),
         ix_lost := fmupd vop \<lparr>lo_txid = txid, lo_reason = reason\<rparr> (ix_lost st)\<rparr>,
      [VaultLost vop reason])"

definition vault_successor ::
  "'p library \<Rightarrow> 'p ctx \<Rightarrow> txid \<Rightarrow> outpoint \<Rightarrow> tracked_vault \<Rightarrow> transaction \<Rightarrow> (outpoint \<Rightarrow> event) \<Rightarrow>
     index_state \<Rightarrow> index_state \<times> event list" where
  "vault_successor L c txid vop nxt tx event st =
     (case first_elem (tx_output tx) of
        None \<Rightarrow> mark_lost vop txid ''vault transition without outputs'' st
      | Some out0 \<Rightarrow>
          (case explicit out0 (pr_policy (cx_params c)) of
             None \<Rightarrow> mark_lost vop txid ''vault successor not explicit policy'' st
           | Some value \<Rightarrow>
               if (case tv_owner nxt of
                     None \<Rightarrow> False
                   | Some owner \<Rightarrow>
                       vault_spk L (cx_artifacts c)
                         \<lparr>vs_debt = tv_debt nxt, vs_owner = owner, vs_last_height = tv_last_height nxt\<rparr>
                       \<noteq> to_script_pubkey out0)
               then mark_lost vop txid ''successor spk mismatch'' st
               else (st\<lparr>ix_vaults := fmupd (OutPoint txid 0)
                          (nxt\<lparr>tv_value := Sats value, tv_spk := to_script_pubkey out0\<rparr>) (ix_vaults st)\<rparr>,
                     [event (OutPoint txid 0)])))"

definition vault_born ::
  "'p library \<Rightarrow> 'p ctx \<Rightarrow> xonly list \<Rightarrow> txid \<Rightarrow> nat \<Rightarrow> obol \<Rightarrow> block_height \<Rightarrow> transaction \<Rightarrow>
     index_state \<Rightarrow> index_state \<times> event list" where
  "vault_born L c owners txid issuer_input debt last_height tx st =
     (case first_elem (tx_output tx) of
        None \<Rightarrow> (st, [Anomaly ''OPEN without outputs''])
      | Some out0 \<Rightarrow>
          (case explicit out0 (pr_policy (cx_params c)) of
             None \<Rightarrow> (st, [Anomaly ''OPEN vault output not explicit policy''])
           | Some value \<Rightarrow>
               let matches = (\<lambda>cand. vault_spk L (cx_artifacts c)
                     \<lparr>vs_debt = debt, vs_owner = cand, vs_last_height = last_height\<rparr> = to_script_pubkey out0);
                   owner = (case find matches owners of
                              Some o' \<Rightarrow> Some o' | None \<Rightarrow> scan_witness_for_owner L tx issuer_input matches);
                   vault = OutPoint txid 0
               in (st\<lparr>ix_vaults := fmupd vault
                        \<lparr>tv_debt = debt, tv_last_height = last_height, tv_value = Sats value,
                         tv_owner = owner, tv_spk = to_script_pubkey out0\<rparr> (ix_vaults st)\<rparr>,
                   [Opened vault debt (Sats value) last_height owner])))"

section \<open>Issuer-gated operations\<close>

definition resolve_anchor ::
  "'p library \<Rightarrow> 'p ctx \<Rightarrow> u32 \<Rightarrow> issuer_utxo \<Rightarrow> transaction \<Rightarrow> (block_height \<times> u32) option" where
  "resolve_anchor L c height prev tx =
     scan_down (\<lambda>h. case locate tx (issuer_spk L (cx_artifacts c) \<lparr>is_last_mint_height = BlockHeight (of_nat h)\<rparr>)
                             (pr_issuer_token (cx_params c)) of
                      Some (vout, value) \<Rightarrow> if value = 1 then Some (BlockHeight (of_nat h), vout) else None
                    | None \<Rightarrow> None)
       (unat (height_raw (is_last_mint_height (oc_state prev)))) (unat (min (tx_lock_time tx) height))"

definition issuer_op ::
  "'p library \<Rightarrow> 'p ctx \<Rightarrow> xonly list \<Rightarrow> u32 \<Rightarrow> txid \<Rightarrow> nat \<Rightarrow> nat option \<Rightarrow> nat option \<Rightarrow>
     (nat \<times> outpoint) list \<Rightarrow> transaction \<Rightarrow> index_state \<Rightarrow> index_state \<times> event list" where
  "issuer_op L c owners height txid idx pot_in reserve_in vault_in tx st =
     (case ix_issuer st of
        None \<Rightarrow> (st, [])
      | Some prev \<Rightarrow>
     (case resolve_anchor L c height prev tx of
        None \<Rightarrow> (st\<lparr>ix_issuer := None\<rparr>, [Anomaly ''issuer successor not found at any candidate anchor''])
      | Some (anchor, vout) \<Rightarrow>
     let st1 = st\<lparr>ix_issuer := Some \<lparr>oc_state = \<lparr>is_last_mint_height = anchor\<rparr>,
                                     oc_outpoint = OutPoint txid vout, oc_value = 1\<rparr>\<rparr>;
         follow = (\<lambda>what. let (s, e) = follow_singletons L c txid pot_in reserve_in tx st1 in (s, Anomaly what # e))
     in if vout = 0 then
          (if idx \<noteq> 0 then follow ''POKE-shaped issuer spend off input 0'' else (st1, [Poked anchor]))
        else if vout = 4 then
          (if idx = 0 \<or> pot_in \<noteq> Some (idx - 1) \<or> reserve_in \<noteq> Some 3
           then follow ''OPEN-shaped issuer spend without pot/reserve pins''
           else case pot_delta_shrink L c txid tx st1 of
                  (st2, e2, None) \<Rightarrow> (st2, e2)
                | (st2, e2, Some minted) \<Rightarrow>
                    (case follow_reserve L c txid tx st2 of (st3, e3, _) \<Rightarrow>
                     case vault_born L c owners txid idx minted anchor tx st3 of (st4, e4) \<Rightarrow>
                       (st4, e2 @ e3 @ e4)))
        else if vout = 3 \<and> reserve_in = None then
          (if map_option fst (first_elem vault_in) \<noteq> Some 0 \<or> idx = 0 \<or> pot_in \<noteq> Some (idx - 1)
           then follow ''DRAW-shaped issuer spend without vault/pot pins''
           else case pot_delta_shrink L c txid tx st1 of
                  (st2, e2, None) \<Rightarrow> (st2, e2)
                | (st2, e2, Some amt) \<Rightarrow>
                    let vop = snd (hd vault_in) in
                    (case fmlookup (ix_vaults st2) vop of
                       None \<Rightarrow> (st2, e2)
                     | Some v \<Rightarrow>
                         (case vault_successor L c txid vop
                                 (v\<lparr>tv_debt := Obol (sat_add (obol_raw (tv_debt v)) (obol_raw amt)),
                                    tv_last_height := anchor\<rparr>) tx (\<lambda>succ. Drawn vop succ amt)
                                 (st2\<lparr>ix_vaults := fmdrop vop (ix_vaults st2)\<rparr>) of
                            (st3, e3) \<Rightarrow> (st3, e2 @ e3))))
        else if vout = 3 then
          (if idx \<noteq> 4 \<or> map_option fst (first_elem vault_in) \<noteq> Some 0 \<or> pot_in \<noteq> Some 1 \<or> reserve_in \<noteq> Some 3
           then follow ''ATTEST-shaped issuer spend without pins''
           else let vop = snd (hd vault_in) in
                (case follow_pot L c txid tx st1 of (st2, e2, _) \<Rightarrow>
                 case follow_reserve L c txid tx st2 of (st3, e3, _) \<Rightarrow>
                   (st3\<lparr>ix_vaults := fmdrop vop (ix_vaults st3)\<rparr>, e2 @ e3 @ [BadDebtClosed vop])))
        else follow ''issuer token at an unpinned successor output''))"

section \<open>Vault operations without the issuer\<close>

definition refresh_height ::
  "'p library \<Rightarrow> 'p ctx \<Rightarrow> tracked_vault \<Rightarrow> u32 \<Rightarrow> transaction \<Rightarrow> block_height option" where
  "refresh_height L c v cap tx =
     (case (tv_owner v, first_elem (tx_output tx)) of
        (Some owner, Some out0) \<Rightarrow>
          scan_down (\<lambda>h. if vault_spk L (cx_artifacts c)
                             \<lparr>vs_debt = tv_debt v, vs_owner = owner, vs_last_height = BlockHeight (of_nat h)\<rparr>
                           = to_script_pubkey out0
                         then Some (BlockHeight (of_nat h)) else None)
            (unat (sat_add (height_raw (tv_last_height v)) 1)) (unat cap)
      | _ \<Rightarrow> Some (BlockHeight cap))"

definition vault_op ::
  "'p library \<Rightarrow> 'p ctx \<Rightarrow> u32 \<Rightarrow> txid \<Rightarrow> outpoint \<Rightarrow> nat option \<Rightarrow> nat option \<Rightarrow> transaction \<Rightarrow>
     index_state \<Rightarrow> index_state \<times> event list" where
  "vault_op L c height txid vop pot_in reserve_in tx st =
     (case fmlookup (ix_vaults st) vop of
        None \<Rightarrow> (st, [])
      | Some v \<Rightarrow>
     let drop_v = (\<lambda>s. s\<lparr>ix_vaults := fmdrop vop (ix_vaults s)\<rparr>) in
     if length (tx_input tx) = 2 \<and> pot_in = None \<and> reserve_in = None then
       (case refresh_height L c v (min (tx_lock_time tx) height) tx of
          None \<Rightarrow> mark_lost vop txid ''successor spk mismatch'' (drop_v st)
        | Some lh \<Rightarrow>
            vault_successor L c txid vop (v\<lparr>tv_last_height := lh\<rparr>) tx (\<lambda>succ. Refreshed vop succ lh) (drop_v st))
     else if length (tx_input tx) = 3 \<and> pot_in = Some 1 \<and> reserve_in = None then
       (case follow_pot L c txid tx st of (st1, e1, _) \<Rightarrow> (drop_v st1, e1 @ [Closed vop]))
     else if length (tx_input tx) = 4 \<and> pot_in = Some 1 \<and> reserve_in = None then
       (case pot_delta_grow L c txid tx st of
          (st1, e1, None) \<Rightarrow>
            (case mark_lost vop txid ''REPAY-shaped spend without a pot successor'' st1 of (st2, e2) \<Rightarrow> (st2, e1 @ e2))
        | (st1, e1, Some amt) \<Rightarrow>
            (case vault_successor L c txid vop
                    (v\<lparr>tv_debt := Obol (sat_sub (obol_raw (tv_debt v)) (obol_raw amt))\<rparr>) tx
                    (\<lambda>succ. Repaid vop succ amt) (drop_v st1) of
               (st2, e2) \<Rightarrow> (st2, e1 @ e2)))
     else if length (tx_input tx) = 4 \<and> pot_in = Some 1 \<and> reserve_in = Some 3 then
       (case pot_delta_grow L c txid tx st of
          (st1, e1, None) \<Rightarrow>
            (case mark_lost vop txid ''liq-shaped spend without a pot successor'' st1 of (st2, e2) \<Rightarrow> (st2, e1 @ e2))
        | (st1, e1, Some amt) \<Rightarrow>
            (case follow_reserve L c txid tx st1 of (st2, e2, _) \<Rightarrow>
             let st3 = drop_v st2;
                 debt = Obol (sat_sub (obol_raw (tv_debt v)) (obol_raw amt));
                 removed = (case tv_owner v of
                     Some owner \<Rightarrow> \<not> spk_at_output0 tx (vault_spk L (cx_artifacts c)
                         \<lparr>vs_debt = debt, vs_owner = owner, vs_last_height = tv_last_height v\<rparr>) (pr_policy (cx_params c))
                   | None \<Rightarrow> amt = tv_debt v)
             in case (if removed
                      then if amt \<noteq> tv_debt v
                           then mark_lost vop txid ''liq-family spend with no successor and a surviving debt'' st3
                           else (st3, [FullyLiquidated vop])
                      else vault_successor L c txid vop (v\<lparr>tv_debt := debt\<rparr>) tx
                             (\<lambda>succ. Deleveraged vop succ amt) st3) of
                  (st4, e4) \<Rightarrow> (st4, e1 @ e2 @ e4)))
     else
       (case mark_lost vop txid ''vault spent outside any covenant layout'' st of (st1, e1) \<Rightarrow>
        case follow_singletons L c txid pot_in reserve_in tx st1 of (st2, e2) \<Rightarrow> (st2, e1 @ e2)))"

section \<open>Transactions that spend no protocol output\<close>

fun issuer_birth ::
  "'p library \<Rightarrow> 'p ctx \<Rightarrow> u32 \<Rightarrow> txid \<Rightarrow> nat \<Rightarrow> tx_out list \<Rightarrow> index_state \<Rightarrow> index_state \<times> event list" where
  "issuer_birth L c height txid vout [] st = (st, [])"
| "issuer_birth L c height txid vout (o' # os) st =
     (if explicit o' (pr_issuer_token (cx_params c)) \<noteq> Some 1 then issuer_birth L c height txid (Suc vout) os st
      else case scan_down (\<lambda>h. if issuer_spk L (cx_artifacts c) \<lparr>is_last_mint_height = BlockHeight (of_nat h)\<rparr>
                                  = to_script_pubkey o' then Some h else None) 0 (unat height) of
             Some h \<Rightarrow>
               (st\<lparr>ix_issuer := Some \<lparr>oc_state = \<lparr>is_last_mint_height = BlockHeight (of_nat h)\<rparr>,
                                      oc_outpoint = OutPoint txid (of_nat vout), oc_value = 1\<rparr>\<rparr>,
                [IssuerBorn (OutPoint txid (of_nat vout)) (BlockHeight (of_nat h))])
           | None \<Rightarrow>
               (case issuer_birth L c height txid (Suc vout) os st of
                  (st', e) \<Rightarrow> (st', Anomaly ''issuer token issued at an underivable spk'' # e)))"

definition non_protocol_tx ::
  "'p library \<Rightarrow> 'p ctx \<Rightarrow> u32 \<Rightarrow> txid \<Rightarrow> transaction \<Rightarrow> index_state \<Rightarrow> index_state \<times> event list" where
  "non_protocol_tx L c height txid tx st =
     (let a = cx_artifacts c; p = cx_params c;
          (st1, e1) =
            (case (ix_pot st, locate tx (pot_spk L a) (pr_obol p)) of
               (None, Some (vout, value)) \<Rightarrow>
                 (st\<lparr>ix_pot := Some \<lparr>oc_state = PotState, oc_outpoint = OutPoint txid vout, oc_value = Obol value\<rparr>\<rparr>,
                  [PotBorn (OutPoint txid vout) (Obol value)])
             | (Some _, Some _) \<Rightarrow> (st, [Fragment ''pot''])
             | _ \<Rightarrow> (st, []));
          (st2, e2) =
            (case (ix_reserve st1, locate tx (stability_spk L a) (pr_policy p)) of
               (None, Some (vout, value)) \<Rightarrow>
                 (st1\<lparr>ix_reserve := Some \<lparr>oc_state = ReserveState, oc_outpoint = OutPoint txid vout, oc_value = Sats value\<rparr>\<rparr>,
                  [ReserveBorn (OutPoint txid vout) (Sats value)])
             | (Some _, Some _) \<Rightarrow> (st1, [Fragment ''reserve''])
             | _ \<Rightarrow> (st1, []));
          (st3, e3) =
            (case ix_issuer st2 of
               Some iu \<Rightarrow>
                 (st2, if locate tx (issuer_spk L a (oc_state iu)) (pr_issuer_token p) \<noteq> None
                       then [Fragment ''issuer''] else [])
             | None \<Rightarrow> issuer_birth L c height txid 0 (tx_output tx) st2)
      in (st3, e1 @ e2 @ e3))"

section \<open>One transaction\<close>

fun mark_all_lost :: "outpoint list \<Rightarrow> txid \<Rightarrow> string \<Rightarrow> index_state \<Rightarrow> index_state \<times> event list" where
  "mark_all_lost [] txid reason st = (st, [])"
| "mark_all_lost (op # ops) txid reason st =
     (case mark_lost op txid reason st of (st1, e1) \<Rightarrow>
      case mark_all_lost ops txid reason st1 of (st2, e2) \<Rightarrow> (st2, e1 @ e2))"

definition vault_inputs :: "index_state \<Rightarrow> transaction \<Rightarrow> (nat \<times> outpoint) list" where
  "vault_inputs st tx =
     map (\<lambda>(n, i). (n, ti_previous_output i))
       (filter (\<lambda>(n, i). fmlookup (ix_vaults st) (ti_previous_output i) \<noteq> None) (enumerate 0 (tx_input tx)))"

definition apply_events ::
  "'p library \<Rightarrow> 'p ctx \<Rightarrow> xonly list \<Rightarrow> u32 \<Rightarrow> transaction \<Rightarrow> index_state \<Rightarrow> index_state \<times> event list" where
  "apply_events L c owners height tx st =
     (let txid = lb_txid L tx;
          issuer_in = Option.bind (ix_issuer st) (\<lambda>u. input_index tx (oc_outpoint u));
          pot_in = Option.bind (ix_pot st) (\<lambda>u. input_index tx (oc_outpoint u));
          reserve_in = Option.bind (ix_reserve st) (\<lambda>u. input_index tx (oc_outpoint u));
          vault_in = vault_inputs st tx
      in if issuer_in = None \<and> pot_in = None \<and> reserve_in = None \<and> vault_in = []
         then non_protocol_tx L c height txid tx st
         else case issuer_in of
           Some idx \<Rightarrow> issuer_op L c owners height txid idx pot_in reserve_in vault_in tx st
         | None \<Rightarrow>
             (case vault_in of
                (vidx, vop) # rest \<Rightarrow>
                  if rest \<noteq> [] \<or> vidx \<noteq> 0
                  then (case mark_all_lost (map snd vault_in) txid ''vault spent outside any covenant layout'' st of
                          (st1, e1) \<Rightarrow>
                        case follow_singletons L c txid pot_in reserve_in tx st1 of (st2, e2) \<Rightarrow> (st2, e1 @ e2))
                  else vault_op L c height txid vop pot_in reserve_in tx st
              | [] \<Rightarrow>
                  (let (st1, e1) = (if pot_in \<noteq> None
                         then (case follow_pot L c txid tx st of
                                 (s, e, Some v) \<Rightarrow> (s, e @ [PotGrew v]) | (s, e, None) \<Rightarrow> (s, e))
                         else (st, []));
                       (st2, e2) = (if reserve_in \<noteq> None
                         then (case follow_reserve L c txid tx st1 of
                                 (s, e, Some v) \<Rightarrow> (s, e @ [ReserveGrew v]) | (s, e, None) \<Rightarrow> (s, e))
                         else (st1, []))
                   in (st2, e1 @ e2))))"

definition apply_tx ::
  "'p library \<Rightarrow> 'p ctx \<Rightarrow> xonly list \<Rightarrow> u32 \<Rightarrow> transaction \<Rightarrow> index_state \<Rightarrow> index_state \<times> notice list" where
  "apply_tx L c owners height tx st =
     (case apply_events L c owners height tx st of
        (st', evs) \<Rightarrow> (st', map (\<lambda>e. \<lparr>no_height = height, no_txid = lb_txid L tx, no_event = e\<rparr>) evs))"

end
