(* ===== verification/Styx_Snapshot.thy ===== *)
theory Styx_Snapshot
  imports Styx_Index
begin

text \<open>
  The snapshot file of the indexer (\<open>styx-watch/src/snapshot.rs\<close>): the document an indexed state is
  written as, how it is read back, and the two file-system effects of an atomic save. Text codecs
  (hash and key display, hex, JSON) are library code and a parameter; the type variable is the
  text of a file. Every write and rename may be refused by the operating system (\<open>io_answer\<close>), a refused
  write leaving anything in its file; the save then stops with \<open>SnapIo\<close>.
\<close>

section \<open>Documents\<close>

record outpoint_doc =
  do_txid :: string
  do_vout :: u32

record singleton_doc =
  ds_outpoint :: outpoint_doc
  ds_value :: u64

record issuer_doc =
  di_outpoint :: outpoint_doc
  di_anchor :: u32

record vault_doc =
  dv_outpoint :: outpoint_doc
  dv_debt :: u64
  dv_last_height :: u32
  dv_value :: u64
  dv_owner :: "string option"
  dv_spk :: string

record lost_doc =
  dl_vault :: outpoint_doc
  dl_txid :: string
  dl_reason :: string

record doc =
  dc_version :: u32
  dc_height :: u32
  dc_tip :: string
  dc_pot :: "singleton_doc option"
  dc_reserve :: "singleton_doc option"
  dc_issuer :: "issuer_doc option"
  dc_vaults :: "vault_doc list"
  dc_lost :: "lost_doc list"

datatype snapshot_error = SnapIo | SnapJson string | SnapField string string | SnapVersion u32

definition SNAPSHOT_VERSION :: u32 where "SNAPSHOT_VERSION = 1"

record 'f codec =
  cd_txid_str :: "txid \<Rightarrow> string"
  cd_txid_of :: "string \<Rightarrow> txid option"
  cd_hash_str :: "block_hash \<Rightarrow> string"
  cd_hash_of :: "string \<Rightarrow> block_hash option"
  cd_xonly_str :: "xonly \<Rightarrow> string"
  cd_xonly_of :: "string \<Rightarrow> xonly option"
  cd_to_hex :: "bytes \<Rightarrow> string"
  cd_from_hex :: "string \<Rightarrow> bytes option"
  cd_to_json :: "doc \<Rightarrow> string + 'f"
  cd_from_json :: "'f \<Rightarrow> string + doc"

definition field_or :: "'a option \<Rightarrow> string \<Rightarrow> string \<Rightarrow> snapshot_error + 'a" where
  "field_or x field value = (case x of None \<Rightarrow> Inl (SnapField field value) | Some a \<Rightarrow> Inr a)"

definition op_doc :: "'f codec \<Rightarrow> outpoint \<Rightarrow> outpoint_doc" where
  "op_doc C op = \<lparr>do_txid = cd_txid_str C (op_txid op), do_vout = op_vout op\<rparr>"

definition op_parse :: "'f codec \<Rightarrow> outpoint_doc \<Rightarrow> snapshot_error + outpoint" where
  "op_parse C d =
     bind_res (field_or (cd_txid_of C (do_txid d)) ''txid'' (do_txid d)) (\<lambda>txid. Inr (OutPoint txid (do_vout d)))"

definition vault_doc_of :: "'f codec \<Rightarrow> outpoint \<times> tracked_vault \<Rightarrow> vault_doc" where
  "vault_doc_of C ov = (case ov of (op, v) \<Rightarrow>
     \<lparr>dv_outpoint = op_doc C op, dv_debt = obol_raw (tv_debt v), dv_last_height = height_raw (tv_last_height v),
      dv_value = sats_raw (tv_value v), dv_owner = map_option (cd_xonly_str C) (tv_owner v),
      dv_spk = cd_to_hex C (tv_spk v)\<rparr>)"

definition lost_doc_of :: "'f codec \<Rightarrow> outpoint \<times> lost \<Rightarrow> lost_doc" where
  "lost_doc_of C ol = (case ol of (op, l) \<Rightarrow>
     \<lparr>dl_vault = op_doc C op, dl_txid = cd_txid_str C (lo_txid l), dl_reason = lo_reason l\<rparr>)"

definition doc_of :: "'f codec \<Rightarrow> index_state \<Rightarrow> doc" where
  "doc_of C st =
     \<lparr>dc_version = SNAPSHOT_VERSION, dc_height = ix_height st, dc_tip = cd_hash_str C (ix_tip st),
      dc_pot = map_option (\<lambda>p. \<lparr>ds_outpoint = op_doc C (oc_outpoint p), ds_value = obol_raw (oc_value p)\<rparr>) (ix_pot st),
      dc_reserve = map_option (\<lambda>r. \<lparr>ds_outpoint = op_doc C (oc_outpoint r), ds_value = sats_raw (oc_value r)\<rparr>) (ix_reserve st),
      dc_issuer = map_option (\<lambda>i. \<lparr>di_outpoint = op_doc C (oc_outpoint i),
                                   di_anchor = height_raw (is_last_mint_height (oc_state i))\<rparr>) (ix_issuer st),
      dc_vaults = map (vault_doc_of C) (sorted_list_of_fmap (ix_vaults st)),
      dc_lost = map (lost_doc_of C) (sorted_list_of_fmap (ix_lost st))\<rparr>"

definition opt_res :: "('a \<Rightarrow> 'e + 'b) \<Rightarrow> 'a option \<Rightarrow> 'e + 'b option" where
  "opt_res f x = (case x of None \<Rightarrow> Inr None | Some a \<Rightarrow> bind_res (f a) (\<lambda>b. Inr (Some b)))"

definition vault_of_doc :: "'f codec \<Rightarrow> vault_doc \<Rightarrow> snapshot_error + outpoint \<times> tracked_vault" where
  "vault_of_doc C v =
     bind_res (opt_res (\<lambda>s. field_or (cd_xonly_of C s) ''owner'' s) (dv_owner v)) (\<lambda>owner.
     bind_res (field_or (cd_from_hex C (dv_spk v)) ''spk'' (dv_spk v)) (\<lambda>spk.
     bind_res (op_parse C (dv_outpoint v)) (\<lambda>op.
     Inr (op, \<lparr>tv_debt = Obol (dv_debt v), tv_last_height = BlockHeight (dv_last_height v), tv_value = Sats (dv_value v),
               tv_owner = owner, tv_spk = spk\<rparr>))))"

definition lost_of_doc :: "'f codec \<Rightarrow> lost_doc \<Rightarrow> snapshot_error + outpoint \<times> lost" where
  "lost_of_doc C l =
     bind_res (field_or (cd_txid_of C (dl_txid l)) ''lost txid'' (dl_txid l)) (\<lambda>txid.
     bind_res (op_parse C (dl_vault l)) (\<lambda>op. Inr (op, \<lparr>lo_txid = txid, lo_reason = dl_reason l\<rparr>)))"

text \<open>The two insertion loops.\<close>

fun insert_all :: "('d \<Rightarrow> snapshot_error + 'k \<times> 'v) \<Rightarrow> 'd list \<Rightarrow> ('k, 'v) fmap \<Rightarrow> snapshot_error + ('k, 'v) fmap" where
  "insert_all f [] m = Inr m"
| "insert_all f (d # ds) m = bind_res (f d) (\<lambda>(k, v). insert_all f ds (fmupd k v m))"

definition state_of :: "'f codec \<Rightarrow> doc \<Rightarrow> snapshot_error + index_state" where
  "state_of C d =
     refuse_if (dc_version d \<noteq> SNAPSHOT_VERSION) (SnapVersion (dc_version d)) (
     bind_res (field_or (cd_hash_of C (dc_tip d)) ''tip'' (dc_tip d)) (\<lambda>tip.
     bind_res (opt_res (\<lambda>p. bind_res (op_parse C (ds_outpoint p)) (\<lambda>op.
         Inr \<lparr>oc_state = PotState, oc_outpoint = op, oc_value = Obol (ds_value p)\<rparr>)) (dc_pot d)) (\<lambda>pot.
     bind_res (opt_res (\<lambda>r. bind_res (op_parse C (ds_outpoint r)) (\<lambda>op.
         Inr \<lparr>oc_state = ReserveState, oc_outpoint = op, oc_value = Sats (ds_value r)\<rparr>)) (dc_reserve d)) (\<lambda>reserve.
     bind_res (opt_res (\<lambda>i. bind_res (op_parse C (di_outpoint i)) (\<lambda>op.
         Inr \<lparr>oc_state = \<lparr>is_last_mint_height = BlockHeight (di_anchor i)\<rparr>, oc_outpoint = op, oc_value = 1\<rparr>)) (dc_issuer d)) (\<lambda>issuer.
     bind_res (insert_all (vault_of_doc C) (dc_vaults d) fmempty) (\<lambda>vaults.
     bind_res (insert_all (lost_of_doc C) (dc_lost d) fmempty) (\<lambda>losts.
     Inr ((genesis tip)\<lparr>ix_height := dc_height d, ix_pot := pot, ix_reserve := reserve, ix_issuer := issuer,
            ix_vaults := vaults, ix_lost := losts\<rparr>))))))))"

section \<open>Files\<close>

text \<open>
  A file system maps paths to texts. The save writes a temporary file beside the target and renames
  it over the target; a crash may hit between the effects, or while the first one has left any
  content at all in the temporary file.
\<close>

datatype 'f effect = WriteFile string 'f | Rename string string

fun run_effect :: "'f effect \<Rightarrow> (string \<Rightarrow> 'f option) \<Rightarrow> (string \<Rightarrow> 'f option)" where
  "run_effect (WriteFile p t) fs = fs(p := Some t)"
| "run_effect (Rename p q) fs = fs(q := fs p, p := None)"

definition save_effects :: "'f codec \<Rightarrow> (string \<Rightarrow> string) \<Rightarrow> index_state \<Rightarrow> string \<Rightarrow> snapshot_error + 'f effect list" where
  "save_effects C with_tmp st path =
     (case cd_to_json C (doc_of C st) of
        Inl e \<Rightarrow> Inl (SnapJson e)
      | Inr json \<Rightarrow> Inr [WriteFile (with_tmp path) json, Rename (with_tmp path) path])"

text \<open>What the operating system answers to an effect: done, or refused with what a refused write leaves in its file.\<close>

datatype 'f io_answer = IoDone | IoFail "'f option"

fun run_effects :: "(nat \<Rightarrow> 'f io_answer) \<Rightarrow> nat \<Rightarrow> 'f effect list \<Rightarrow> (string \<Rightarrow> 'f option) \<Rightarrow> (snapshot_error + unit) \<times> (string \<Rightarrow> 'f option)" where
  "run_effects io n [] fs = (Inr (), fs)"
| "run_effects io n (e # es) fs =
     (case io n of
        IoDone \<Rightarrow> run_effects io (Suc n) es (run_effect e fs)
      | IoFail torn \<Rightarrow> (Inl SnapIo, case e of WriteFile p _ \<Rightarrow> fs(p := torn) | Rename _ _ \<Rightarrow> fs))"

definition save_snapshot ::
  "'f codec \<Rightarrow> (string \<Rightarrow> string) \<Rightarrow> (nat \<Rightarrow> 'f io_answer) \<Rightarrow> index_state \<Rightarrow> string \<Rightarrow> (string \<Rightarrow> 'f option) \<Rightarrow>
     (snapshot_error + unit) \<times> (string \<Rightarrow> 'f option)" where
  "save_snapshot C with_tmp io st path fs =
     (case save_effects C with_tmp st path of Inl e \<Rightarrow> (Inl e, fs) | Inr es \<Rightarrow> run_effects io 0 es fs)"

definition load :: "'f codec \<Rightarrow> string \<Rightarrow> (string \<Rightarrow> 'f option) \<Rightarrow> snapshot_error + index_state" where
  "load C path fs =
     (case fs path of
        None \<Rightarrow> Inl SnapIo
      | Some text \<Rightarrow> bind_res (map_err SnapJson (cd_from_json C text)) (state_of C))"

inductive crashed :: "'f effect list \<Rightarrow> (string \<Rightarrow> 'f option) \<Rightarrow> (string \<Rightarrow> 'f option) \<Rightarrow> bool" where
  crash_now: "crashed es fs fs"
| crash_torn: "crashed (WriteFile p t # es) fs (fs(p := torn))"
| crash_later: "crashed es (run_effect e fs) fs' \<Longrightarrow> crashed (e # es) fs fs'"

inductive_cases crashed_NilE: "crashed [] fs fs'"
inductive_cases crashed_WriteE: "crashed (WriteFile p t # es) fs fs'"
inductive_cases crashed_RenameE: "crashed (Rename p q # es) fs fs'"

section \<open>Round trips\<close>

text \<open>What the codecs promise: parsing what was printed gives it back.\<close>

definition codec_ok :: "'f codec \<Rightarrow> bool" where
  "codec_ok C \<longleftrightarrow>
     (\<forall>t. cd_txid_of C (cd_txid_str C t) = Some t) \<and> (\<forall>h. cd_hash_of C (cd_hash_str C h) = Some h) \<and>
     (\<forall>k. cd_xonly_of C (cd_xonly_str C k) = Some k) \<and> (\<forall>b. cd_from_hex C (cd_to_hex C b) = Some b) \<and>
     (\<forall>d text. cd_to_json C d = Inr text \<longrightarrow> cd_from_json C text = Inr d)"

text \<open>The indexer only ever records the issuer singleton with the token amount one.\<close>

definition issuer_unit :: "index_state \<Rightarrow> bool" where
  "issuer_unit st \<longleftrightarrow> (\<forall>i. ix_issuer st = Some i \<longrightarrow> oc_value i = 1)"

lemma on_chain_unit [simp]:
  "\<lparr>oc_state = PotState, oc_outpoint = oc_outpoint p, oc_value = oc_value p\<rparr> = (p :: pot_utxo)"
  "\<lparr>oc_state = ReserveState, oc_outpoint = oc_outpoint r, oc_value = oc_value r\<rparr> = (r :: reserve_utxo)"
  by (cases p; cases "oc_state p"; simp) (cases r; cases "oc_state r"; simp)

lemma issuer_unit_eq:
  "oc_value i = 1 \<Longrightarrow> \<lparr>oc_state = \<lparr>is_last_mint_height = is_last_mint_height (oc_state i)\<rparr>, oc_outpoint = oc_outpoint i, oc_value = 1\<rparr> =
     (i :: issuer_utxo)"
  by (cases i; cases "oc_state i") simp

lemma op_roundtrip: "codec_ok C \<Longrightarrow> op_parse C (op_doc C op) = Inr op"
  by (cases op) (simp add: op_parse_def op_doc_def codec_ok_def field_or_def bind_res_def)

lemma vault_roundtrip: "codec_ok C \<Longrightarrow> vault_of_doc C (vault_doc_of C ov) = Inr ov"
  by (cases ov; cases "tv_owner (snd ov)")
    (simp_all add: vault_of_doc_def vault_doc_of_def op_roundtrip codec_ok_def field_or_def opt_res_def bind_res_def)

lemma lost_roundtrip: "codec_ok C \<Longrightarrow> lost_of_doc C (lost_doc_of C ol) = Inr ol"
  by (cases ol) (simp add: lost_of_doc_def lost_doc_of_def op_roundtrip codec_ok_def field_or_def bind_res_def)

lemma insert_all_map:
  assumes "\<And>x. f (g x) = Inr x"
  shows "insert_all f (map g xs) m = Inr (fold (\<lambda>(k, v). fmupd k v) xs m)"
  using assms by (induction xs arbitrary: m) (auto simp: bind_res_def)

lemma fold_upd_lookup:
  "distinct (map fst xs) \<Longrightarrow> fmlookup (fold (\<lambda>(k, v). fmupd k v) xs m) k =
     (case map_of xs k of None \<Rightarrow> fmlookup m k | Some v \<Rightarrow> Some v)"
proof (induction xs arbitrary: m)
  case (Cons x xs)
  obtain k' v' where x: "x = (k', v')" by force
  with Cons.prems have "map_of xs k' = None" "distinct (map fst xs)" by (auto simp: map_of_eq_None_iff)
  with Cons.IH[of "fmupd k' v' m"] show ?case by (auto simp: x split: option.splits)
qed simp

lemma fold_sorted: "fold (\<lambda>(k, v). fmupd k v) (sorted_list_of_fmap m) fmempty = m"
proof (rule fmap_ext)
  fix k
  have "distinct (map fst (sorted_list_of_fmap m))"
    by (simp add: sorted_list_of_fmap_def comp_def sorted_list_of_fset.rep_eq)
  then show "fmlookup (fold (\<lambda>(k, v). fmupd k v) (sorted_list_of_fmap m) fmempty) k = fmlookup m k"
    by (simp add: fold_upd_lookup split: option.splits)
qed

lemma state_roundtrip:
  assumes C: "codec_ok C" and i: "issuer_unit st"
  shows "state_of C (doc_of C st) = Inr st"
proof -
  have pot: "opt_res (\<lambda>p. bind_res (op_parse C (ds_outpoint p)) (\<lambda>op.
         Inr \<lparr>oc_state = PotState, oc_outpoint = op, oc_value = Obol (ds_value p)\<rparr>)) (dc_pot (doc_of C st)) = Inr (ix_pot st)"
    using op_roundtrip[OF C] by (cases "ix_pot st") (auto simp: doc_of_def opt_res_def bind_res_def)
  have res: "opt_res (\<lambda>r. bind_res (op_parse C (ds_outpoint r)) (\<lambda>op.
         Inr \<lparr>oc_state = ReserveState, oc_outpoint = op, oc_value = Sats (ds_value r)\<rparr>)) (dc_reserve (doc_of C st)) = Inr (ix_reserve st)"
    using op_roundtrip[OF C] by (cases "ix_reserve st") (auto simp: doc_of_def opt_res_def bind_res_def)
  have iss: "opt_res (\<lambda>i. bind_res (op_parse C (di_outpoint i)) (\<lambda>op.
         Inr \<lparr>oc_state = \<lparr>is_last_mint_height = BlockHeight (di_anchor i)\<rparr>, oc_outpoint = op, oc_value = 1\<rparr>))
         (dc_issuer (doc_of C st)) = Inr (ix_issuer st)"
    using op_roundtrip[OF C] i by (cases "ix_issuer st") (auto simp: doc_of_def opt_res_def bind_res_def issuer_unit_def issuer_unit_eq)
  have "insert_all (vault_of_doc C) (dc_vaults (doc_of C st)) fmempty = Inr (ix_vaults st)"
    "insert_all (lost_of_doc C) (dc_lost (doc_of C st)) fmempty = Inr (ix_lost st)"
    by (simp_all add: doc_of_def insert_all_map vault_roundtrip[OF C] lost_roundtrip[OF C] fold_sorted)
  moreover have "cd_hash_of C (dc_tip (doc_of C st)) = Some (ix_tip st)" using C by (simp add: doc_of_def codec_ok_def)
  ultimately show ?thesis
    unfolding state_of_def pot res iss
    by (simp add: bind_res_def field_or_def refuse_if_def genesis_def at_height_def) (simp add: doc_of_def)
qed

text \<open>An effect the operating system refuses is a crash for the files.\<close>

lemma run_effects_crashed:
  "case run_effects io n es fs of
     (Inr _, fs') \<Rightarrow> fs' = fold run_effect es fs | (Inl e, fs') \<Rightarrow> e = SnapIo \<and> crashed es fs fs'"
proof (induction es arbitrary: n fs)
  case (Cons e es)
  show ?case
  proof (cases "io n")
    case IoDone
    with Cons.IH[where n = "Suc n" and fs = "run_effect e fs"] show ?thesis
      by (auto split: prod.splits sum.splits intro: crash_later)
  next
    case (IoFail torn)
    then show ?thesis by (cases e) (auto intro: crash_torn crash_now)
  qed
qed simp

section \<open>Properties\<close>

definition sample_codec :: "doc codec" where
  "sample_codec =
     \<lparr>cd_txid_str = (\<lambda>t. replicate (unat t) (CHR ''0'')), cd_txid_of = (\<lambda>s. Some (of_nat (length s))),
      cd_hash_str = (\<lambda>t. replicate (unat t) (CHR ''0'')), cd_hash_of = (\<lambda>s. Some (of_nat (length s))),
      cd_xonly_str = (\<lambda>t. replicate (unat t) (CHR ''0'')), cd_xonly_of = (\<lambda>s. Some (of_nat (length s))),
      cd_to_hex = map (\<lambda>b. char_of (unat b)), cd_from_hex = (\<lambda>s. Some (map (\<lambda>ch. of_nat (of_char ch)) s)),
      cd_to_json = Inr, cd_from_json = Inr\<rparr>"

lemma sample_codec_ok: "codec_ok sample_codec"
proof -
  have "unat (b :: u8) mod 256 = unat b" for b using unat_lt_u8[of b] by simp
  then show ?thesis by (simp add: codec_ok_def sample_codec_def comp_def)
qed

text \<open>
  Reading back the document of an indexed state gives exactly that state,
  maps and all, whatever is tracked or lost in it, as long as the issuer singleton is recorded with
  its one token (which is all the indexer ever records).
\<close>

lemma snapshot_roundtrip:
  assumes "codec_ok C" "issuer_unit st"
  shows "state_of C (doc_of C st) = Inr st"
  by (rule state_roundtrip[OF assms])

lemma snapshot_roundtrip_sample:
  "state_of sample_codec (doc_of sample_codec ((genesis 3)\<lparr>ix_height := 8,
     ix_lost := fmupd (OutPoint 2 1) \<lparr>lo_txid = 4, lo_reason = ''gone''\<rparr> fmempty\<rparr>)) =
   Inr ((genesis 3)\<lparr>ix_height := 8, ix_lost := fmupd (OutPoint 2 1) \<lparr>lo_txid = 4, lo_reason = ''gone''\<rparr> fmempty\<rparr>)"
  by (rule snapshot_roundtrip[OF sample_codec_ok]) (simp add: issuer_unit_def genesis_def at_height_def)

text \<open>
  C26 (snapshot_crash_safe): a crash at any point of a save, a torn write of the temporary file
  included, leaves a target file that loads either exactly as before the save or as the state that
  was being saved; the same holds when the operating system refuses a write or the rename and the
  save returns an error; and the completed save, and only it, reports success and loads as that
  state.
\<close>

theorem snapshot_crash_safe:
  assumes "codec_ok C" "issuer_unit st" "with_tmp path \<noteq> path" "save_effects C with_tmp st path = Inr es"
  shows "(\<forall>fs'. crashed es fs fs' \<longrightarrow> load C path fs' = load C path fs \<or> load C path fs' = Inr st) \<and>
    load C path (fold run_effect es fs) = Inr st \<and>
    (\<forall>io. case save_snapshot C with_tmp io st path fs of
       (Inr _, fs') \<Rightarrow> fs' = fold run_effect es fs \<and> load C path fs' = Inr st
     | (Inl e, fs') \<Rightarrow> e = SnapIo \<and> (load C path fs' = load C path fs \<or> load C path fs' = Inr st))"
proof -
  obtain json where json: "cd_to_json C (doc_of C st) = Inr json"
    and es: "es = [WriteFile (with_tmp path) json, Rename (with_tmp path) path]"
    using assms(4) by (auto simp: save_effects_def split: sum.splits)
  have "cd_from_json C json = Inr (doc_of C st)" using assms(1) json by (simp add: codec_ok_def)
  then have new: "load C path fs' = Inr st" if "fs' path = Some json" for fs'
    using that state_roundtrip[OF assms(1,2)] by (simp add: load_def map_err_def bind_res_def)
  have old: "load C path fs' = load C path fs \<or> load C path fs' = Inr st" if "crashed es fs fs'" for fs'
  proof -
    from that[unfolded es] consider "fs' path = fs path" | "fs' path = Some json"
      using assms(3) by (auto elim!: crashed_WriteE crashed_RenameE crashed_NilE)
    then show ?thesis
    proof cases
      case 1
      then show ?thesis by (simp add: load_def)
    next
      case 2
      then show ?thesis using new by blast
    qed
  qed
  have full: "load C path (fold run_effect es fs) = Inr st"
    by (rule new) (use assms(3) in \<open>simp add: es\<close>)
  have "case save_snapshot C with_tmp io st path fs of
       (Inr _, fs') \<Rightarrow> fs' = fold run_effect es fs \<and> load C path fs' = Inr st
     | (Inl e, fs') \<Rightarrow> e = SnapIo \<and> (load C path fs' = load C path fs \<or> load C path fs' = Inr st)" for io
    using run_effects_crashed[where io = io and n = 0 and es = es and fs = fs] full old assms(4) by (auto simp: save_snapshot_def split: prod.splits sum.splits)
  with old full show ?thesis by blast
qed

theorem snapshot_crash_safe_witness:
  "\<exists>es. save_effects sample_codec (\<lambda>p. p @ ''.tmp'') (genesis 3) ''snap'' = Inr es \<and>
     load sample_codec ''snap'' (fold run_effect es (\<lambda>_. None)) = Inr (genesis 3)"
proof -
  obtain es where es: "save_effects sample_codec (\<lambda>p. p @ ''.tmp'') (genesis 3) ''snap'' = Inr es"
    by (simp add: save_effects_def sample_codec_def)
  have "issuer_unit (genesis 3)" by (simp add: issuer_unit_def genesis_def at_height_def)
  from snapshot_crash_safe[OF sample_codec_ok this _ es, of "\<lambda>_. None"] es show ?thesis by simp
qed

end
