(* ===== verification/Styx_Json.thy ===== *)
theory Styx_Json
  imports Complex_Main Styx_Prelude "HOL-Library.Log_Nat"
begin

text \<open>
  What the code reads out of JSON (the \<open>serde_json\<close> values of \<open>styx-oracle/src/feed.rs\<close>,
  \<open>styx-node/src/client.rs\<close> and \<open>scan.rs\<close>) and the double-precision arithmetic it does on the
  numbers: indexing with a missing key or index gives \<open>null\<close>, and a product is rounded to 53 bits,
  ties to even. The text parser itself is library code.
\<close>

section \<open>Doubles\<close>

text \<open>
  A double is not-a-number, infinite, or a rational number. \<open>f64_round\<close> is the rounding of an exact
  result to a double of unbounded exponent: the amounts and prices below stay far from the overflow
  and underflow thresholds, and a value beyond them converts to the same saturated integer.
\<close>

datatype f64 = NaN | Infinite bool | Finite rat

definition round_even :: "rat \<Rightarrow> int" where
  "round_even x =
     (let f = \<lfloor>x\<rfloor>; d = x - of_int f
      in if d < 1 / 2 then f else if 1 / 2 < d then f + 1 else if even f then f else f + 1)"

text \<open>The binary exponent of a positive rational number: the \<open>e\<close> with \<open>2 ^ e \<le> x < 2 ^ (e + 1)\<close>.\<close>

definition exponent :: "rat \<Rightarrow> int" where
  "exponent x =
     (case quotient_of x of (p, q) \<Rightarrow> let e = bitlen p - bitlen q in if 2 powi e \<le> x then e else e - 1)"

definition f64_round :: "rat \<Rightarrow> rat" where
  "f64_round x =
     (if x = 0 then 0
      else let u = 2 powi (exponent \<bar>x\<bar> - 52) in of_int (round_even (x / u)) * u)"

fun f64_mul :: "f64 \<Rightarrow> rat \<Rightarrow> f64" where
  "f64_mul (Finite x) y = Finite (f64_round (x * y))"
| "f64_mul v y = v"

text \<open>\<open>f64::round\<close> (half away from zero) followed by the saturating cast \<open>as u64\<close> or \<open>as u32\<close>.\<close>

definition round_away :: "rat \<Rightarrow> int" where
  "round_away x = (if 0 \<le> x then \<lfloor>x + 1 / 2\<rfloor> else - \<lfloor>1 / 2 - x\<rfloor>)"

fun round_as_word :: "f64 \<Rightarrow> 'a::len word" where
  "round_as_word NaN = 0"
| "round_as_word (Infinite neg) = (if neg then 0 else - 1)"
| "round_as_word (Finite x) =
     (let i = round_away x in if i < 0 then 0 else if 2 ^ LENGTH('a) \<le> i then - 1 else word_of_int i)"

section \<open>Values\<close>

datatype json_num = PosInt u64 | NegInt int | Float f64

text \<open>The entries of an object stand in the order its iterator gives them.\<close>

datatype json =
    JNull
  | JBool bool
  | JNumber json_num
  | JString string
  | JArray "json list"
  | JObject "(string \<times> json) list"

fun json_key :: "json \<Rightarrow> string \<Rightarrow> json" where
  "json_key (JObject kvs) k = (case map_of kvs k of None \<Rightarrow> JNull | Some v \<Rightarrow> v)"
| "json_key _ k = JNull"

fun json_at :: "json \<Rightarrow> nat \<Rightarrow> json" where
  "json_at (JArray vs) i = (if i < length vs then vs ! i else JNull)"
| "json_at _ i = JNull"

fun as_str :: "json \<Rightarrow> string option" where
  "as_str (JString s) = Some s"
| "as_str _ = None"

fun as_u64 :: "json \<Rightarrow> u64 option" where
  "as_u64 (JNumber (PosInt n)) = Some n"
| "as_u64 _ = None"

fun as_f64 :: "json \<Rightarrow> f64 option" where
  "as_f64 (JNumber (PosInt n)) = Some (Finite (f64_round (of_nat (unat n))))"
| "as_f64 (JNumber (NegInt i)) = Some (Finite (f64_round (of_int i)))"
| "as_f64 (JNumber (Float x)) = Some x"
| "as_f64 _ = None"

fun as_array :: "json \<Rightarrow> json list option" where
  "as_array (JArray vs) = Some vs"
| "as_array _ = None"

section \<open>Rounding errors\<close>

lemma round_even_error: "\<bar>of_int (round_even x) - x\<bar> \<le> 1 / 2"
proof -
  define f d where "f = \<lfloor>x\<rfloor>" and "d = x - of_int f"
  have "0 \<le> d" "d < 1" using floor_correct[of x] by (simp_all add: d_def f_def)
  moreover have "x = of_int f + d" by (simp add: d_def)
  ultimately show ?thesis by (auto simp: round_even_def Let_def f_def[symmetric] d_def[symmetric])
qed

lemma exponent_le:
  assumes "0 < x"
  shows "2 powi exponent x \<le> x"
proof -
  obtain p q where pq: "quotient_of x = (p, q)" by force
  then have q: "0 < q" and x: "x = of_int p / of_int q"
    by (simp_all add: quotient_of_denom_pos quotient_of_div)
  with assms have p: "0 < p" by (simp add: zero_less_divide_iff)
  let ?e = "bitlen p - bitlen q"
  have "2 ^ nat (bitlen p - 1) \<le> p" "q < 2 ^ nat (bitlen q)" using bitlen_bounds[OF p] bitlen_bounds[OF q] by auto
  then have "(2 :: rat) ^ nat (bitlen p - 1) \<le> of_int p" "of_int q < (2 :: rat) ^ nat (bitlen q)"
    by (metis of_int_le_iff of_int_numeral of_int_power) (metis \<open>q < 2 ^ nat (bitlen q)\<close> of_int_less_iff of_int_numeral of_int_power)
  moreover have "1 \<le> bitlen p" "1 \<le> bitlen q" using p q by (simp_all add: bitlen_def floorlog_def)
  ultimately have "(2 :: rat) powi (bitlen p - 1) \<le> of_int p" "of_int q \<le> (2 :: rat) powi (bitlen q)"
    by (simp_all add: power_int_def)
  then have "(2 :: rat) powi (bitlen p - 1) / 2 powi bitlen q \<le> of_int p / of_int q"
    using q p by (intro frac_le) simp_all
  moreover have "(2 :: rat) powi (?e - 1) = 2 powi (bitlen p - 1) / 2 powi bitlen q"
    by (simp add: power_int_diff)
  ultimately have "2 powi (?e - 1) \<le> x" by (simp add: x)
  then show ?thesis by (simp add: exponent_def pq Let_def)
qed

lemma f64_round_error:
  assumes "0 \<le> x"
  shows "\<bar>f64_round x - x\<bar> \<le> x / 2 ^ 53"
proof (cases "x = 0")
  case False
  with assms have x: "0 < x" by simp
  define u :: rat where "u = 2 powi (exponent x - 52)"
  have u: "0 < u" by (simp add: u_def)
  have ex: "u * 2 ^ 52 \<le> x" using exponent_le[OF x] by (simp add: u_def power_int_diff)
  have "\<bar>of_int (round_even (x / u)) * u - x\<bar> = \<bar>of_int (round_even (x / u)) - x / u\<bar> * u"
  proof -
    have "of_int (round_even (x / u)) * u - x = (of_int (round_even (x / u)) - x / u) * u"
      using u by (simp add: left_diff_distrib)
    then show ?thesis using u by (simp add: abs_mult)
  qed
  also have "\<dots> \<le> 1 / 2 * u" using u round_even_error by (intro mult_right_mono) simp_all
  also have "\<dots> \<le> x / 2 ^ 53" using ex by simp
  finally show ?thesis using x by (simp add: f64_round_def u_def Let_def)
qed (simp add: f64_round_def)

lemma round_away_near:
  assumes "0 \<le> x" "\<bar>x - of_int n\<bar> < 1 / 2"
  shows "round_away x = n"
proof -
  have "of_int n \<le> x + 1 / 2" "x + 1 / 2 < of_int n + 1" using assms(2) by linarith+
  then show ?thesis using assms(1) by (simp add: round_away_def floor_eq_iff)
qed

end
