(* ===== verification/Styx_Build_Owner.thy ===== *)
theory Styx_Build_Owner
  imports Styx_Plan
begin

text \<open>
  The builders of the owner side: OPEN, DRAW, REPAY, CLOSE and the two permissionless ratchets
  POKE and REFRESH (\<open>styx-pset/src/build/\<close>). Each has a checked entry point and an unchecked
  constructor, as in the source. The lemmas \<open>X_Inr_iff\<close> state exactly which inputs a builder
  accepts and that it then returns the unchecked plan.
\<close>

section \<open>OPEN\<close>

record open_delta =
  od_vault :: vault_utxo
  od_pot :: pot_utxo
  od_reserve :: reserve_utxo
  od_issuer :: issuer_utxo

definition open_unchecked ::
  "'p library \<Rightarrow> 'p ctx \<Rightarrow> protocol_state \<Rightarrow> open_intent \<Rightarrow> sats \<Rightarrow> open_delta built" where
  "open_unchecked L c ps i borrow_fee =
     (let a = cx_artifacts c; p = cx_params c;
          vault = \<lparr>vs_debt = op_principal i, vs_owner = op_owner i, vs_last_height = ot_height (op_tick i)\<rparr>;
          issuer_succ = \<lparr>is_last_mint_height = ot_height (op_tick i)\<rparr>;
          pot_out = sat_sub (obol_raw (oc_value (ps_pot ps))) (obol_raw (op_principal i));
          reserve_out = sat_add (sats_raw (oc_value (ps_reserve ps))) (sats_raw borrow_fee);
          tx = \<lparr>tx_version = 2, tx_lock_time = height_raw (ot_height (op_tick i)),
                tx_input = [txin (oc_outpoint (ps_pot ps)), txin (oc_outpoint (ps_issuer ps)),
                            txin (fc_outpoint (op_funding i)), txin (oc_outpoint (ps_reserve ps))],
                tx_output = [txout (sats_raw (op_collateral i)) (vault_spk L a vault) (pr_policy p),
                             txout pot_out (pot_spk L a) (pr_obol p),
                             txout (obol_raw (op_principal i)) (op_borrower_spk i) (pr_obol p),
                             txout reserve_out (stability_spk L a) (pr_policy p),
                             txout 1 (issuer_spk L a issuer_succ) (pr_issuer_token p),
                             fee_out (op_fee i) (pr_policy p)]\<rparr>;
          in_utxos = [claimed (obol_raw (oc_value (ps_pot ps))) (pot_spk L a) (pr_obol p),
                      claimed 1 (issuer_spk L a (oc_state (ps_issuer ps))) (pr_issuer_token p),
                      claimed (sats_raw (fc_value (op_funding i))) (fc_spk (op_funding i)) (pr_policy p),
                      claimed (sats_raw (oc_value (ps_reserve ps))) (stability_spk L a) (pr_policy p)];
          slots = [\<lparr>ws_input = 0, ws_kind = PotOutflow\<rparr>,
                   \<lparr>ws_input = 3, ws_kind = SlotStability StabilityAccumulate\<rparr>,
                   \<lparr>ws_input = 1, ws_kind = SlotIssuer (oc_state (ps_issuer ps))
                      (IssuerOpen (op_principal i) (xonly_u256 (op_owner i)) (op_tick i))\<rparr>];
          plan = \<lparr>pl_tx = tx, pl_in_utxos = in_utxos, pl_slots = slots\<rparr>;
          txid = plan_txid L plan
      in \<lparr>bt_plan = plan,
          bt_expected =
            \<lparr>od_vault = \<lparr>oc_state = vault, oc_outpoint = OutPoint txid 0, oc_value = op_collateral i\<rparr>,
             od_pot = \<lparr>oc_state = PotState, oc_outpoint = OutPoint txid 1, oc_value = Obol pot_out\<rparr>,
             od_reserve = \<lparr>oc_state = ReserveState, oc_outpoint = OutPoint txid 3, oc_value = Sats reserve_out\<rparr>,
             od_issuer = \<lparr>oc_state = issuer_succ, oc_outpoint = OutPoint txid 4, oc_value = 1\<rparr>\<rparr>\<rparr>)"

definition open_vault ::
  "'p library \<Rightarrow> 'p ctx \<Rightarrow> protocol_state \<Rightarrow> open_intent \<Rightarrow> build_error + open_delta built" where
  "open_vault L c ps i =
     bind_res (check_tick (op_tick i) (is_last_mint_height (oc_state (ps_issuer ps)))) (\<lambda>_.
     refuse_if (op_principal i = obol_ZERO) ZeroAmount (
     let lo = fst (price_range (op_tick i)) in
     bind_res (map_err Math (covenant_cents (op_principal i))) (\<lambda>debt_cents.
     let need_coll = coll_at_cr debt_cents lo K_OPEN_MIN in
     refuse_if (op_collateral i < need_coll) (Undercollateralized need_coll (op_collateral i)) (
     refuse_if (op_principal i > oc_value (ps_pot ps))
       (InsufficientPot (op_principal i) (oc_value (ps_pot ps))) (
     let borrow_fee = coll_at_cr debt_cents lo K_FEE_HALF_PERCENT in
     bind_res (map_err Math (sats_checked_add (op_collateral i) borrow_fee)) (\<lambda>s.
     bind_res (map_err Math (sats_checked_add s (op_fee i))) (\<lambda>need_funding.
     refuse_if (fc_value (op_funding i) \<noteq> need_funding)
       (FundingMismatch need_funding (fc_value (op_funding i))) (
     Inr (open_unchecked L c ps i borrow_fee)))))))))"

section \<open>DRAW\<close>

record draw_delta =
  dd_vault :: vault_utxo
  dd_pot :: pot_utxo
  dd_issuer :: issuer_utxo

definition draw_unchecked ::
  "'p library \<Rightarrow> 'p ctx \<Rightarrow> protocol_state \<Rightarrow> vault_utxo \<Rightarrow> draw_intent \<Rightarrow> draw_delta built" where
  "draw_unchecked L c ps v i =
     (let a = cx_artifacts c; p = cx_params c;
          d = obol_raw (dr_amount i); h = ot_height (dr_tick i);
          successor = \<lparr>vs_debt = Obol (sat_add (obol_raw (vs_debt (oc_state v))) d),
                       vs_owner = vs_owner (oc_state v), vs_last_height = h\<rparr>;
          issuer_succ = \<lparr>is_last_mint_height = h\<rparr>;
          tx = \<lparr>tx_version = 2, tx_lock_time = height_raw h,
                tx_input = [txin (oc_outpoint v), txin (oc_outpoint (ps_pot ps)), txin (oc_outpoint (ps_issuer ps))],
                tx_output = [txout (sat_sub (sats_raw (oc_value v)) (sats_raw (dr_fee i))) (vault_spk L a successor) (pr_policy p),
                             txout (sat_sub (obol_raw (oc_value (ps_pot ps))) d) (pot_spk L a) (pr_obol p),
                             txout d (dr_borrower_spk i) (pr_obol p),
                             txout 1 (issuer_spk L a issuer_succ) (pr_issuer_token p),
                             fee_out (dr_fee i) (pr_policy p)]\<rparr>;
          in_utxos = [claimed (sats_raw (oc_value v)) (vault_spk L a (oc_state v)) (pr_policy p),
                      claimed (obol_raw (oc_value (ps_pot ps))) (pot_spk L a) (pr_obol p),
                      claimed 1 (issuer_spk L a (oc_state (ps_issuer ps))) (pr_issuer_token p)];
          slots = [\<lparr>ws_input = 1, ws_kind = PotOutflow\<rparr>,
                   \<lparr>ws_input = 2, ws_kind = SlotIssuer (oc_state (ps_issuer ps))
                      (IssuerDraw (vs_debt (oc_state v)) (xonly_u256 (vs_owner (oc_state v)))
                         (vs_last_height (oc_state v)) (vs_debt successor) h)\<rparr>,
                   \<lparr>ws_input = 0, ws_kind = SlotVault (oc_state v)
                      (VaultDraw placeholder_sig (dr_amount i) (dr_tick i))\<rparr>];
          plan = \<lparr>pl_tx = tx, pl_in_utxos = in_utxos, pl_slots = slots\<rparr>;
          txid = plan_txid L plan
      in \<lparr>bt_plan = plan,
          bt_expected =
            \<lparr>dd_vault = \<lparr>oc_state = successor, oc_outpoint = OutPoint txid 0,
                         oc_value = Sats (sat_sub (sats_raw (oc_value v)) (sats_raw (dr_fee i)))\<rparr>,
             dd_pot = \<lparr>oc_state = PotState, oc_outpoint = OutPoint txid 1,
                       oc_value = Obol (sat_sub (obol_raw (oc_value (ps_pot ps))) d)\<rparr>,
             dd_issuer = \<lparr>oc_state = issuer_succ, oc_outpoint = OutPoint txid 3, oc_value = 1\<rparr>\<rparr>\<rparr>)"

definition draw ::
  "'p library \<Rightarrow> 'p ctx \<Rightarrow> protocol_state \<Rightarrow> vault_utxo \<Rightarrow> draw_intent \<Rightarrow> build_error + draw_delta built" where
  "draw L c ps v i =
     bind_res (check_tick (dr_tick i) (is_last_mint_height (oc_state (ps_issuer ps)))) (\<lambda>_.
     bind_res (check_vault_ratchet (dr_tick i) (vs_last_height (oc_state v))) (\<lambda>_.
     refuse_if (dr_amount i = obol_ZERO) ZeroAmount (
     refuse_if (oc_value v \<le> dr_fee i) (InsufficientFunding (dr_fee i) (oc_value v)) (
     refuse_if (dr_amount i > oc_value (ps_pot ps))
       (InsufficientPot (dr_amount i) (oc_value (ps_pot ps))) (
     bind_res (map_err Math (obol_checked_add (vs_debt (oc_state v)) (dr_amount i))) (\<lambda>new_debt.
     let lo = fst (price_range (dr_tick i)) in
     bind_res (map_err Math (covenant_cents new_debt)) (\<lambda>cents.
     let need = coll_at_cr cents lo K_OPEN_MIN;
         post = Sats (sat_sub (sats_raw (oc_value v)) (sats_raw (dr_fee i))) in
     refuse_if (post < need) (Undercollateralized need post) (
     Inr (draw_unchecked L c ps v i)))))))))"

section \<open>REPAY\<close>

record repay_delta =
  rd_vault :: vault_utxo
  rd_pot :: pot_utxo

definition repay_unchecked ::
  "'p library \<Rightarrow> 'p ctx \<Rightarrow> pot_utxo \<Rightarrow> vault_utxo \<Rightarrow> repay_intent \<Rightarrow> repay_delta built" where
  "repay_unchecked L c pot v i =
     (let a = cx_artifacts c; p = cx_params c;
          r = obol_raw (rp_amount i);
          successor = (oc_state v)\<lparr>vs_debt := Obol (sat_sub (obol_raw (vs_debt (oc_state v))) r)\<rparr>;
          outs = [txout (sats_raw (oc_value v)) (vault_spk L a successor) (pr_policy p),
                  txout (sat_add (obol_raw (oc_value pot)) r) (pot_spk L a) (pr_obol p)] @
                 (if obol_raw (oc_coin_value (rp_payer i)) > r
                  then [txout (obol_raw (oc_coin_value (rp_payer i)) - r) (rp_payer_change_spk i) (pr_obol p)]
                  else []) @
                 [txout (sat_sub (sats_raw (fc_value (rp_fee_coin i))) (sats_raw (rp_fee i))) (rp_change_spk i) (pr_policy p),
                  fee_out (rp_fee i) (pr_policy p)];
          tx = \<lparr>tx_version = 2, tx_lock_time = 0,
                tx_input = [txin (oc_outpoint v), txin (oc_outpoint pot),
                            txin (oc_coin_outpoint (rp_payer i)), txin (fc_outpoint (rp_fee_coin i))],
                tx_output = outs\<rparr>;
          in_utxos = [claimed (sats_raw (oc_value v)) (vault_spk L a (oc_state v)) (pr_policy p),
                      claimed (obol_raw (oc_value pot)) (pot_spk L a) (pr_obol p),
                      claimed (obol_raw (oc_coin_value (rp_payer i))) (oc_coin_spk (rp_payer i)) (pr_obol p),
                      claimed (sats_raw (fc_value (rp_fee_coin i))) (fc_spk (rp_fee_coin i)) (pr_policy p)];
          slots = [\<lparr>ws_input = 1, ws_kind = PotInflow\<rparr>,
                   \<lparr>ws_input = 0, ws_kind = SlotVault (oc_state v) (VaultRepay placeholder_sig (rp_amount i))\<rparr>];
          plan = \<lparr>pl_tx = tx, pl_in_utxos = in_utxos, pl_slots = slots\<rparr>;
          txid = plan_txid L plan
      in \<lparr>bt_plan = plan,
          bt_expected =
            \<lparr>rd_vault = \<lparr>oc_state = successor, oc_outpoint = OutPoint txid 0, oc_value = oc_value v\<rparr>,
             rd_pot = \<lparr>oc_state = PotState, oc_outpoint = OutPoint txid 1,
                       oc_value = Obol (obol_raw (oc_value pot) + r)\<rparr>\<rparr>\<rparr>)"

definition repay ::
  "'p library \<Rightarrow> 'p ctx \<Rightarrow> pot_utxo \<Rightarrow> vault_utxo \<Rightarrow> repay_intent \<Rightarrow> build_error + repay_delta built" where
  "repay L c pot v i =
     refuse_if (rp_amount i > vs_debt (oc_state v)) (AmountExceedsDebt (rp_amount i) (vs_debt (oc_state v))) (
     refuse_if (oc_coin_value (rp_payer i) < rp_amount i)
       (InsufficientPayer (rp_amount i) (oc_coin_value (rp_payer i))) (
     refuse_if (fc_value (rp_fee_coin i) \<le> rp_fee i)
       (InsufficientFunding (rp_fee i) (fc_value (rp_fee_coin i))) (
     Inr (repay_unchecked L c pot v i))))"

section \<open>CLOSE\<close>

record close_delta =
  cd_pot :: pot_utxo
  cd_freed :: outpoint

definition close_unchecked ::
  "'p library \<Rightarrow> 'p ctx \<Rightarrow> pot_utxo \<Rightarrow> vault_utxo \<Rightarrow> close_intent \<Rightarrow> close_delta built" where
  "close_unchecked L c pot v i =
     (let a = cx_artifacts c; p = cx_params c;
          debt = obol_raw (vs_debt (oc_state v));
          outs = [txout (sat_sub (sats_raw (oc_value v)) (sats_raw (cl_fee i))) (cl_recipient_spk i) (pr_policy p),
                  txout (sat_add (obol_raw (oc_value pot)) debt) (pot_spk L a) (pr_obol p)] @
                 (if obol_raw (oc_coin_value (cl_payer i)) > debt
                  then [txout (obol_raw (oc_coin_value (cl_payer i)) - debt) (cl_payer_change_spk i) (pr_obol p)]
                  else []) @
                 [fee_out (cl_fee i) (pr_policy p)];
          tx = \<lparr>tx_version = 2, tx_lock_time = 0,
                tx_input = [txin (oc_outpoint v), txin (oc_outpoint pot), txin (oc_coin_outpoint (cl_payer i))],
                tx_output = outs\<rparr>;
          in_utxos = [claimed (sats_raw (oc_value v)) (vault_spk L a (oc_state v)) (pr_policy p),
                      claimed (obol_raw (oc_value pot)) (pot_spk L a) (pr_obol p),
                      claimed (obol_raw (oc_coin_value (cl_payer i))) (oc_coin_spk (cl_payer i)) (pr_obol p)];
          slots = [\<lparr>ws_input = 1, ws_kind = PotInflow\<rparr>,
                   \<lparr>ws_input = 0, ws_kind = SlotVault (oc_state v) (VaultClose placeholder_sig)\<rparr>];
          plan = \<lparr>pl_tx = tx, pl_in_utxos = in_utxos, pl_slots = slots\<rparr>;
          txid = plan_txid L plan
      in \<lparr>bt_plan = plan,
          bt_expected =
            \<lparr>cd_pot = \<lparr>oc_state = PotState, oc_outpoint = OutPoint txid 1,
                       oc_value = Obol (obol_raw (oc_value pot) + debt)\<rparr>,
             cd_freed = OutPoint txid 0\<rparr>\<rparr>)"

definition close ::
  "'p library \<Rightarrow> 'p ctx \<Rightarrow> pot_utxo \<Rightarrow> vault_utxo \<Rightarrow> close_intent \<Rightarrow> build_error + close_delta built" where
  "close L c pot v i =
     refuse_if (oc_coin_value (cl_payer i) < vs_debt (oc_state v))
       (InsufficientPayer (vs_debt (oc_state v)) (oc_coin_value (cl_payer i))) (
     refuse_if (oc_value v \<le> cl_fee i) (InsufficientFunding (cl_fee i) (oc_value v)) (
     Inr (close_unchecked L c pot v i)))"

section \<open>REFRESH\<close>

record refresh_delta =
  fd_vault :: vault_utxo

definition refresh_unchecked ::
  "'p library \<Rightarrow> 'p ctx \<Rightarrow> vault_utxo \<Rightarrow> refresh_intent \<Rightarrow> refresh_delta built" where
  "refresh_unchecked L c v i =
     (let a = cx_artifacts c; p = cx_params c;
          successor = (oc_state v)\<lparr>vs_last_height := ot_height (rf_tick i)\<rparr>;
          tx = \<lparr>tx_version = 2, tx_lock_time = height_raw (ot_height (rf_tick i)),
                tx_input = [txin (oc_outpoint v), txin (fc_outpoint (rf_fee_coin i))],
                tx_output = [txout (sats_raw (oc_value v)) (vault_spk L a successor) (pr_policy p),
                             txout (sat_sub (sats_raw (fc_value (rf_fee_coin i))) (sats_raw (rf_fee i))) (rf_change_spk i) (pr_policy p),
                             fee_out (rf_fee i) (pr_policy p)]\<rparr>;
          in_utxos = [claimed (sats_raw (oc_value v)) (vault_spk L a (oc_state v)) (pr_policy p),
                      claimed (sats_raw (fc_value (rf_fee_coin i))) (fc_spk (rf_fee_coin i)) (pr_policy p)];
          slots = [\<lparr>ws_input = 0, ws_kind = SlotVault (oc_state v) (VaultRefresh (rf_tick i))\<rparr>];
          plan = \<lparr>pl_tx = tx, pl_in_utxos = in_utxos, pl_slots = slots\<rparr>;
          txid = plan_txid L plan
      in \<lparr>bt_plan = plan,
          bt_expected =
            \<lparr>fd_vault = \<lparr>oc_state = successor, oc_outpoint = OutPoint txid 0, oc_value = oc_value v\<rparr>\<rparr>\<rparr>)"

definition refresh ::
  "'p library \<Rightarrow> 'p ctx \<Rightarrow> vault_utxo \<Rightarrow> refresh_intent \<Rightarrow> build_error + refresh_delta built" where
  "refresh L c v i =
     bind_res (check_zero_price (rf_tick i)) (\<lambda>_.
     bind_res (check_vault_ratchet (rf_tick i) (vs_last_height (oc_state v))) (\<lambda>_.
     let hi = snd (price_range (rf_tick i)) in
     bind_res (map_err Math (covenant_cents (vs_debt (oc_state v)))) (\<lambda>cents.
     let need = coll_at_cr cents hi K_HEALTH_GATE in
     refuse_if (oc_value v < need) (Undercollateralized need (oc_value v)) (
     refuse_if (fc_value (rf_fee_coin i) \<le> rf_fee i)
       (InsufficientFunding (rf_fee i) (fc_value (rf_fee_coin i))) (
     Inr (refresh_unchecked L c v i))))))"

section \<open>POKE\<close>

record poke_delta =
  pd_issuer :: issuer_utxo

definition poke_unchecked ::
  "'p library \<Rightarrow> 'p ctx \<Rightarrow> issuer_utxo \<Rightarrow> poke_intent \<Rightarrow> poke_delta built" where
  "poke_unchecked L c iu i =
     (let a = cx_artifacts c; p = cx_params c;
          successor = \<lparr>is_last_mint_height = ot_height (pk_tick i)\<rparr>;
          change = Sats (sat_sub (sats_raw (fc_value (pk_funding i))) (sats_raw (pk_fee i)));
          tx = \<lparr>tx_version = 2, tx_lock_time = height_raw (ot_height (pk_tick i)),
                tx_input = [txin (oc_outpoint iu), txin (fc_outpoint (pk_funding i))],
                tx_output = [txout 1 (issuer_spk L a successor) (pr_issuer_token p),
                             txout (sats_raw change) (pk_change_spk i) (pr_policy p),
                             fee_out (pk_fee i) (pr_policy p)]\<rparr>;
          in_utxos = [claimed 1 (issuer_spk L a (oc_state iu)) (pr_issuer_token p),
                      claimed (sats_raw (fc_value (pk_funding i))) (fc_spk (pk_funding i)) (pr_policy p)];
          slots = [\<lparr>ws_input = 0, ws_kind = SlotIssuer (oc_state iu) (IssuerPoke (pk_tick i))\<rparr>];
          plan = \<lparr>pl_tx = tx, pl_in_utxos = in_utxos, pl_slots = slots\<rparr>
      in \<lparr>bt_plan = plan,
          bt_expected =
            \<lparr>pd_issuer = \<lparr>oc_state = successor, oc_outpoint = OutPoint (plan_txid L plan) 0, oc_value = 1\<rparr>\<rparr>\<rparr>)"

definition poke ::
  "'p library \<Rightarrow> 'p ctx \<Rightarrow> issuer_utxo \<Rightarrow> poke_intent \<Rightarrow> build_error + poke_delta built" where
  "poke L c iu i =
     bind_res (check_tick (pk_tick i) (is_last_mint_height (oc_state iu))) (\<lambda>_.
     refuse_if (fc_value (pk_funding i) \<le> pk_fee i)
       (InsufficientFunding (pk_fee i) (fc_value (pk_funding i))) (
     Inr (poke_unchecked L c iu i)))"

section \<open>What the builders accept\<close>

lemma open_Inr_iff:
  "open_vault L c ps i = Inr b \<longleftrightarrow>
     (\<exists>cents. covenant_cents (op_principal i) = Inr cents \<and> price_raw (tick_lo (op_tick i)) \<noteq> 0 \<and>
        is_last_mint_height (oc_state (ps_issuer ps)) \<le> ot_height (op_tick i) \<and>
        op_principal i \<noteq> obol_ZERO \<and>
        coll_at_cr cents (tick_lo (op_tick i)) K_OPEN_MIN \<le> op_collateral i \<and>
        op_principal i \<le> oc_value (ps_pot ps) \<and>
        unat (sats_raw (fc_value (op_funding i))) = unat (sats_raw (op_collateral i)) +
          unat (sats_raw (coll_at_cr cents (tick_lo (op_tick i)) K_FEE_HALF_PERCENT)) +
          unat (sats_raw (op_fee i)) \<and>
        b = open_unchecked L c ps i (coll_at_cr cents (tick_lo (op_tick i)) K_FEE_HALF_PERCENT))"
  (is "?l \<longleftrightarrow> (\<exists>cents. ?r cents)")
proof
  assume ?l
  then show "\<exists>cents. ?r cents"
    by (auto simp: open_vault_def res_Inr Let_def sats_amt.cadd_Inr_iff not_less)
next
  assume "\<exists>cents. ?r cents"
  then obtain cents where r: "?r cents" ..
  let ?bf = "coll_at_cr cents (tick_lo (op_tick i)) K_FEE_HALF_PERCENT"
  have lt: "unat (sats_raw (fc_value (op_funding i))) < 2 ^ 64"
    using unat_lt_u64[of "sats_raw (fc_value (op_funding i))"] by simp
  define s where "s = Sats (sats_raw (op_collateral i) + sats_raw ?bf)"
  have s: "sats_checked_add (op_collateral i) ?bf = Inr s"
    using r lt unfolding sats_amt.cadd_Inr_iff s_def by (simp add: unat_plus_exact)
  have "sats_checked_add s (op_fee i) = Inr (fc_value (op_funding i))"
    using s r lt by (simp add: sats_amt.cadd_Inr_iff)
  with r s show ?l
    by (auto simp: open_vault_def res_Inr Let_def not_less)
qed

lemma draw_Inr_iff:
  "draw L c ps v i = Inr b \<longleftrightarrow>
     (\<exists>debt cents. obol_checked_add (vs_debt (oc_state v)) (dr_amount i) = Inr debt \<and>
        covenant_cents debt = Inr cents \<and> price_raw (tick_lo (dr_tick i)) \<noteq> 0 \<and>
        is_last_mint_height (oc_state (ps_issuer ps)) \<le> ot_height (dr_tick i) \<and>
        vs_last_height (oc_state v) < ot_height (dr_tick i) \<and> dr_amount i \<noteq> obol_ZERO \<and>
        dr_fee i < oc_value v \<and> dr_amount i \<le> oc_value (ps_pot ps) \<and>
        coll_at_cr cents (tick_lo (dr_tick i)) K_OPEN_MIN \<le>
          Sats (sat_sub (sats_raw (oc_value v)) (sats_raw (dr_fee i))) \<and>
        b = draw_unchecked L c ps v i)"
  by (auto simp: draw_def res_Inr Let_def not_less not_le)

lemma repay_Inr_iff:
  "repay L c pot v i = Inr b \<longleftrightarrow>
     rp_amount i \<le> vs_debt (oc_state v) \<and> rp_amount i \<le> oc_coin_value (rp_payer i) \<and>
     rp_fee i < fc_value (rp_fee_coin i) \<and> b = repay_unchecked L c pot v i"
  by (auto simp: repay_def res_Inr not_less not_le)

lemma close_Inr_iff:
  "close L c pot v i = Inr b \<longleftrightarrow>
     vs_debt (oc_state v) \<le> oc_coin_value (cl_payer i) \<and> cl_fee i < oc_value v \<and>
     b = close_unchecked L c pot v i"
  by (auto simp: close_def res_Inr not_less not_le)

lemma refresh_Inr_iff:
  "refresh L c v i = Inr b \<longleftrightarrow>
     (\<exists>cents. covenant_cents (vs_debt (oc_state v)) = Inr cents \<and> price_raw (tick_lo (rf_tick i)) \<noteq> 0 \<and>
        vs_last_height (oc_state v) < ot_height (rf_tick i) \<and>
        coll_at_cr cents (tick_hi (rf_tick i)) K_HEALTH_GATE \<le> oc_value v \<and>
        rf_fee i < fc_value (rf_fee_coin i) \<and> b = refresh_unchecked L c v i)"
  by (auto simp: refresh_def res_Inr Let_def not_less not_le)

lemma poke_Inr_iff:
  "poke L c iu i = Inr b \<longleftrightarrow>
     price_raw (tick_lo (pk_tick i)) \<noteq> 0 \<and> is_last_mint_height (oc_state iu) \<le> ot_height (pk_tick i) \<and>
     pk_fee i < fc_value (pk_funding i) \<and> b = poke_unchecked L c iu i"
  by (auto simp: poke_def res_Inr not_less not_le)

section \<open>Plans are well formed\<close>

lemma open_wf: "plan_wf (bt_plan (open_unchecked L c ps i f))"
  by (simp add: plan_wf_def open_unchecked_def Let_def)

lemma draw_wf: "plan_wf (bt_plan (draw_unchecked L c ps v i))"
  by (simp add: plan_wf_def draw_unchecked_def Let_def)

lemma repay_wf: "plan_wf (bt_plan (repay_unchecked L c pot v i))"
  by (simp add: plan_wf_def repay_unchecked_def Let_def)

lemma close_wf: "plan_wf (bt_plan (close_unchecked L c pot v i))"
  by (simp add: plan_wf_def close_unchecked_def Let_def)

lemma refresh_wf: "plan_wf (bt_plan (refresh_unchecked L c v i))"
  by (simp add: plan_wf_def refresh_unchecked_def Let_def)

lemma poke_wf: "plan_wf (bt_plan (poke_unchecked L c iu i))"
  by (simp add: plan_wf_def poke_unchecked_def Let_def)

section \<open>Conservation\<close>

lemma open_conserves:
  assumes "open_vault L c ps i = Inr b" "assets_ok (cx_params c)"
    "sane_amounts [sats_raw (oc_value (ps_reserve ps))]"
  shows "conserves (bt_plan b)"
proof (rule conservesI)
  from assms(1) obtain cents where acc: "op_principal i \<le> oc_value (ps_pot ps)"
    "unat (sats_raw (fc_value (op_funding i))) = unat (sats_raw (op_collateral i)) +
       unat (sats_raw (coll_at_cr cents (tick_lo (op_tick i)) K_FEE_HALF_PERCENT)) + unat (sats_raw (op_fee i))"
    and b: "b = open_unchecked L c ps i (coll_at_cr cents (tick_lo (op_tick i)) K_FEE_HALF_PERCENT)"
    by (auto simp: open_Inr_iff)
  let ?bf = "sats_raw (coll_at_cr cents (tick_lo (op_tick i)) K_FEE_HALF_PERCENT)"
  have "unat ?bf < 2 ^ 60" by (rule u32_price_le) simp
  with assms(3) have add: "unat (sat_add (sats_raw (oc_value (ps_reserve ps))) ?bf) =
      unat (sats_raw (oc_value (ps_reserve ps))) + unat ?bf"
    by (intro sat_add_sane) simp
  note ne = assets_ok_ne[OF assms(2)]
  show "uses_assets {pr_obol (cx_params c), pr_issuer_token (cx_params c), pr_policy (cx_params c)} (bt_plan b)"
    by (simp add: b open_unchecked_def Let_def uses_assets_def)
  show "utxos_total a (pl_in_utxos (bt_plan b)) = outs_total a (tx_output (pl_tx (bt_plan b)))"
    if "a \<in> {pr_obol (cx_params c), pr_issuer_token (cx_params c), pr_policy (cx_params c)}" for a
    using that ne acc add by (auto simp: b open_unchecked_def Let_def to_nat)
qed

lemma draw_conserves:
  assumes "draw L c ps v i = Inr b" "assets_ok (cx_params c)"
  shows "conserves (bt_plan b)"
proof (rule conservesI)
  have b: "b = draw_unchecked L c ps v i" and acc: "dr_fee i < oc_value v" "dr_amount i \<le> oc_value (ps_pot ps)"
    using assms(1) by (auto simp: draw_Inr_iff)
  note ne = assets_ok_ne[OF assms(2)]
  show "uses_assets {pr_obol (cx_params c), pr_issuer_token (cx_params c), pr_policy (cx_params c)} (bt_plan b)"
    by (simp add: b draw_unchecked_def Let_def uses_assets_def)
  show "utxos_total a (pl_in_utxos (bt_plan b)) = outs_total a (tx_output (pl_tx (bt_plan b)))"
    if "a \<in> {pr_obol (cx_params c), pr_issuer_token (cx_params c), pr_policy (cx_params c)}" for a
    using that ne acc by (auto simp: b draw_unchecked_def Let_def to_nat unat_diff_gt)
qed

lemma repay_conserves:
  assumes "repay L c pot v i = Inr b" "assets_ok (cx_params c)"
    "sane_amounts [obol_raw (oc_value pot), obol_raw (rp_amount i)]"
  shows "conserves (bt_plan b)"
proof (rule conservesI)
  have b: "b = repay_unchecked L c pot v i" and acc: "rp_amount i \<le> oc_coin_value (rp_payer i)" "rp_fee i < fc_value (rp_fee_coin i)"
    using assms(1) by (auto simp: repay_Inr_iff)
  have add: "unat (sat_add (obol_raw (oc_value pot)) (obol_raw (rp_amount i))) = unat (obol_raw (oc_value pot)) + unat (obol_raw (rp_amount i))"
    by (rule sat_add_sane) (use assms(3) in simp)
  note ne = assets_ok_ne[OF assms(2)]
  show "uses_assets {pr_obol (cx_params c), pr_issuer_token (cx_params c), pr_policy (cx_params c)} (bt_plan b)"
    by (simp add: b repay_unchecked_def Let_def uses_assets_def)
  show "utxos_total a (pl_in_utxos (bt_plan b)) = outs_total a (tx_output (pl_tx (bt_plan b)))"
    if "a \<in> {pr_obol (cx_params c), pr_issuer_token (cx_params c), pr_policy (cx_params c)}" for a
    using that ne acc add by (auto simp: b repay_unchecked_def Let_def to_nat unat_diff_gt)
qed

lemma close_conserves:
  assumes "close L c pot v i = Inr b" "assets_ok (cx_params c)"
    "sane_amounts [obol_raw (oc_value pot), obol_raw (vs_debt (oc_state v))]"
  shows "conserves (bt_plan b)"
proof (rule conservesI)
  have b: "b = close_unchecked L c pot v i" and acc: "vs_debt (oc_state v) \<le> oc_coin_value (cl_payer i)" "cl_fee i < oc_value v"
    using assms(1) by (auto simp: close_Inr_iff)
  have add: "unat (sat_add (obol_raw (oc_value pot)) (obol_raw (vs_debt (oc_state v)))) = unat (obol_raw (oc_value pot)) + unat (obol_raw (vs_debt (oc_state v)))"
    by (rule sat_add_sane) (use assms(3) in simp)
  note ne = assets_ok_ne[OF assms(2)]
  show "uses_assets {pr_obol (cx_params c), pr_issuer_token (cx_params c), pr_policy (cx_params c)} (bt_plan b)"
    by (simp add: b close_unchecked_def Let_def uses_assets_def)
  show "utxos_total a (pl_in_utxos (bt_plan b)) = outs_total a (tx_output (pl_tx (bt_plan b)))"
    if "a \<in> {pr_obol (cx_params c), pr_issuer_token (cx_params c), pr_policy (cx_params c)}" for a
    using that ne acc add by (auto simp: b close_unchecked_def Let_def to_nat unat_diff_gt)
qed

lemma refresh_conserves:
  assumes "refresh L c v i = Inr b" "assets_ok (cx_params c)"
  shows "conserves (bt_plan b)"
proof (rule conservesI)
  have b: "b = refresh_unchecked L c v i" and acc: "rf_fee i < fc_value (rf_fee_coin i)"
    using assms(1) by (auto simp: refresh_Inr_iff)
  note ne = assets_ok_ne[OF assms(2)]
  show "uses_assets {pr_obol (cx_params c), pr_issuer_token (cx_params c), pr_policy (cx_params c)} (bt_plan b)"
    by (simp add: b refresh_unchecked_def Let_def uses_assets_def)
  show "utxos_total a (pl_in_utxos (bt_plan b)) = outs_total a (tx_output (pl_tx (bt_plan b)))"
    if "a \<in> {pr_obol (cx_params c), pr_issuer_token (cx_params c), pr_policy (cx_params c)}" for a
    using that ne acc by (auto simp: b refresh_unchecked_def Let_def to_nat unat_diff_gt)
qed

lemma poke_conserves:
  assumes "poke L c iu i = Inr b" "assets_ok (cx_params c)"
  shows "conserves (bt_plan b)"
proof (rule conservesI)
  have b: "b = poke_unchecked L c iu i" and acc: "pk_fee i < fc_value (pk_funding i)"
    using assms(1) by (auto simp: poke_Inr_iff)
  note ne = assets_ok_ne[OF assms(2)]
  show "uses_assets {pr_obol (cx_params c), pr_issuer_token (cx_params c), pr_policy (cx_params c)} (bt_plan b)"
    by (simp add: b poke_unchecked_def Let_def uses_assets_def)
  show "utxos_total a (pl_in_utxos (bt_plan b)) = outs_total a (tx_output (pl_tx (bt_plan b)))"
    if "a \<in> {pr_obol (cx_params c), pr_issuer_token (cx_params c), pr_policy (cx_params c)}" for a
    using that ne acc by (auto simp: b poke_unchecked_def Let_def to_nat unat_diff_gt)
qed

section \<open>The builders keep the plan contract\<close>

interpretation open_b: plan_builder "\<lambda>(L, c, ps, i). open_vault L c ps i"
  "\<lambda>(L, c, ps, i). assets_ok (cx_params c) \<and> sane_amounts [sats_raw (oc_value (ps_reserve ps))]"
  by unfold_locales (auto simp: open_wf intro: open_conserves dest: open_Inr_iff[THEN iffD1])

interpretation draw_b: plan_builder "\<lambda>(L, c, ps, v, i). draw L c ps v i"
  "\<lambda>(L, c, ps, v, i). assets_ok (cx_params c)"
  by unfold_locales (auto simp: draw_wf intro: draw_conserves dest: draw_Inr_iff[THEN iffD1])

interpretation repay_b: plan_builder "\<lambda>(L, c, pot, v, i). repay L c pot v i"
  "\<lambda>(L, c, pot, v, i). assets_ok (cx_params c) \<and> sane_amounts [obol_raw (oc_value pot), obol_raw (rp_amount i)]"
  by unfold_locales (auto simp: repay_wf intro: repay_conserves dest: repay_Inr_iff[THEN iffD1])

interpretation close_b: plan_builder "\<lambda>(L, c, pot, v, i). close L c pot v i"
  "\<lambda>(L, c, pot, v, i).
     assets_ok (cx_params c) \<and> sane_amounts [obol_raw (oc_value pot), obol_raw (vs_debt (oc_state v))]"
  by unfold_locales (auto simp: close_wf intro: close_conserves dest: close_Inr_iff[THEN iffD1])

interpretation refresh_b: plan_builder "\<lambda>(L, c, v, i). refresh L c v i" "\<lambda>(L, c, v, i). assets_ok (cx_params c)"
  by unfold_locales (auto simp: refresh_wf intro: refresh_conserves dest: refresh_Inr_iff[THEN iffD1])

interpretation poke_b: plan_builder "\<lambda>(L, c, iu, i). poke L c iu i" "\<lambda>(L, c, iu, i). assets_ok (cx_params c)"
  by unfold_locales (auto simp: poke_wf intro: poke_conserves dest: poke_Inr_iff[THEN iffD1])

end
