(* ===== verification/Styx_Build_Keeper.thy ===== *)
theory Styx_Build_Keeper
  imports Styx_Plan
begin

text \<open>
  The permissionless builders of the liquidation ladder and the peg floor: LIQUIDATE, FULL-LIQ,
  BAD-DEBT and REDEEM (\<open>styx-pset/src/build/\<close>), with the exact acceptance conditions and the
  conservation of every asset. FULL-LIQ is the one builder whose acceptance does not imply that
  the fee is covered; its conservation lemma carries that hypothesis.
\<close>

section \<open>LIQUIDATE\<close>

record liquidate_delta =
  ld_vault :: vault_utxo
  ld_pot :: pot_utxo
  ld_reserve :: reserve_utxo

definition liquidate_unchecked ::
  "'p library \<Rightarrow> 'p ctx \<Rightarrow> protocol_state \<Rightarrow> vault_utxo \<Rightarrow> liquidate_intent \<Rightarrow> liquidate_delta built" where
  "liquidate_unchecked L c ps v i =
     (let a = cx_artifacts c; p = cx_params c;
          hi = snd (price_range (lq_tick i));
          dd = obol_raw (lq_dd i);
          share = sats_raw (coll_at_cr (cents_or_max (lq_dd i)) hi K_RESERVE_SHARE);
          keeper_coll = sat_sub (sat_sub (sat_sub (sats_raw (oc_value v)) (sats_raw (lq_residual i))) share)
                          (sats_raw (lq_fee i));
          successor = (oc_state v)\<lparr>vs_debt := Obol (sat_sub (obol_raw (vs_debt (oc_state v))) dd)\<rparr>;
          pot_out = sat_add (obol_raw (oc_value (ps_pot ps))) dd;
          reserve_out = sat_add (sats_raw (oc_value (ps_reserve ps))) share;
          outs = [txout (sats_raw (lq_residual i)) (vault_spk L a successor) (pr_policy p),
                  txout pot_out (pot_spk L a) (pr_obol p),
                  txout keeper_coll (lq_keeper_spk i) (pr_policy p),
                  txout reserve_out (stability_spk L a) (pr_policy p)] @
                 (if obol_raw (oc_coin_value (lq_keeper i)) > dd
                  then [txout (obol_raw (oc_coin_value (lq_keeper i)) - dd) (lq_obol_change_spk i) (pr_obol p)]
                  else []) @
                 [fee_out (lq_fee i) (pr_policy p)];
          tx = \<lparr>tx_version = 2, tx_lock_time = height_raw (ot_height (lq_tick i)),
                tx_input = [txin (oc_outpoint v), txin (oc_outpoint (ps_pot ps)),
                            txin (oc_coin_outpoint (lq_keeper i)), txin (oc_outpoint (ps_reserve ps))],
                tx_output = outs\<rparr>;
          in_utxos = [claimed (sats_raw (oc_value v)) (vault_spk L a (oc_state v)) (pr_policy p),
                      claimed (obol_raw (oc_value (ps_pot ps))) (pot_spk L a) (pr_obol p),
                      claimed (obol_raw (oc_coin_value (lq_keeper i))) (oc_coin_spk (lq_keeper i)) (pr_obol p),
                      claimed (sats_raw (oc_value (ps_reserve ps))) (stability_spk L a) (pr_policy p)];
          slots = [\<lparr>ws_input = 1, ws_kind = PotInflow\<rparr>,
                   \<lparr>ws_input = 3, ws_kind = SlotStability StabilityAccumulate\<rparr>,
                   \<lparr>ws_input = 0, ws_kind = SlotVault (oc_state v) (VaultLiquidate (lq_dd i) (lq_tick i))\<rparr>];
          plan = \<lparr>pl_tx = tx, pl_in_utxos = in_utxos, pl_slots = slots\<rparr>;
          txid = plan_txid L plan
      in \<lparr>bt_plan = plan,
          bt_expected =
            \<lparr>ld_vault = \<lparr>oc_state = successor, oc_outpoint = OutPoint txid 0, oc_value = lq_residual i\<rparr>,
             ld_pot = \<lparr>oc_state = PotState, oc_outpoint = OutPoint txid 1, oc_value = Obol pot_out\<rparr>,
             ld_reserve = \<lparr>oc_state = ReserveState, oc_outpoint = OutPoint txid 3, oc_value = Sats reserve_out\<rparr>\<rparr>\<rparr>)"

definition liquidate ::
  "'p library \<Rightarrow> 'p ctx \<Rightarrow> protocol_state \<Rightarrow> vault_utxo \<Rightarrow> liquidate_intent \<Rightarrow> build_error + liquidate_delta built" where
  "liquidate L c ps v i =
     bind_res (check_zero_price (lq_tick i)) (\<lambda>_.
     bind_res (check_vault_ratchet (lq_tick i) (vs_last_height (oc_state v))) (\<lambda>_.
     let hi = snd (price_range (lq_tick i)) in
     bind_res (map_err Math (covenant_cents (vs_debt (oc_state v)))) (\<lambda>debt_cents.
     let gate = coll_at_cr debt_cents hi K_HEALTH_GATE in
     refuse_if (oc_value v \<ge> gate) (VaultTooHealthy gate (oc_value v)) (
     refuse_if (lq_dd i = obol_ZERO) ZeroAmount (
     refuse_if (lq_dd i \<ge> vs_debt (oc_state v)) (NotPartial (lq_dd i) (vs_debt (oc_state v))) (
     bind_res (map_err Math (obol_checked_sub (vs_debt (oc_state v)) (lq_dd i))) (\<lambda>rest.
     bind_res (map_err Math (covenant_cents rest)) (\<lambda>rd.
     let lo_band = coll_at_cr rd hi K_HEAL_LO; hi_band = coll_at_cr rd hi K_HEAL_HI in
     refuse_if (lq_residual i < lo_band \<or> lq_residual i > hi_band)
       (HealOutOfBand (lq_residual i) lo_band hi_band) (
     bind_res (map_err Math (sats_checked_sub (oc_value v) (lq_residual i))) (\<lambda>extraction.
     bind_res (map_err Math (covenant_cents (lq_dd i))) (\<lambda>dd_cents.
     let cap = coll_at_cr dd_cents hi K_FULL_LIQ_CAP in
     refuse_if (extraction > cap) (ExtractionExceedsCap extraction cap) (
     refuse_if (oc_coin_value (lq_keeper i) < lq_dd i)
       (InsufficientPayer (lq_dd i) (oc_coin_value (lq_keeper i))) (
     let share = coll_at_cr dd_cents hi K_RESERVE_SHARE in
     bind_res (map_err Math (sats_checked_add share (lq_fee i))) (\<lambda>need.
     refuse_if (extraction \<le> need) (InsufficientFunding need extraction) (
     Inr (liquidate_unchecked L c ps v i))))))))))))))))"

section \<open>FULL-LIQ\<close>

record full_liq_delta =
  ud_pot :: pot_utxo
  ud_reserve :: reserve_utxo
  ud_seized :: outpoint

definition full_liq_unchecked ::
  "'p library \<Rightarrow> 'p ctx \<Rightarrow> protocol_state \<Rightarrow> vault_utxo \<Rightarrow> full_liq_intent \<Rightarrow> full_liq_delta built" where
  "full_liq_unchecked L c ps v i =
     (let a = cx_artifacts c; p = cx_params c;
          hi = snd (price_range (fl_tick i));
          debt = obol_raw (vs_debt (oc_state v));
          debt_sats = coll_at_cr (cents_or_max (vs_debt (oc_state v))) hi K_PAR;
          reserve_fee = sat_sub (sats_raw (oc_value v)) (sats_raw debt_sats) div 3;
          pot_out = sat_add (obol_raw (oc_value (ps_pot ps))) debt;
          reserve_out = sat_add (sats_raw (oc_value (ps_reserve ps))) reserve_fee;
          tx = \<lparr>tx_version = 2, tx_lock_time = height_raw (ot_height (fl_tick i)),
                tx_input = [txin (oc_outpoint v), txin (oc_outpoint (ps_pot ps)),
                            txin (oc_coin_outpoint (fl_keeper i)), txin (oc_outpoint (ps_reserve ps))],
                tx_output = [txout (sat_sub (sat_sub (sats_raw (oc_value v)) reserve_fee) (sats_raw (fl_fee i)))
                               (fl_keeper_spk i) (pr_policy p),
                             txout pot_out (pot_spk L a) (pr_obol p),
                             txout (sat_sub (obol_raw (oc_coin_value (fl_keeper i))) debt) (fl_obol_change_spk i) (pr_obol p),
                             txout reserve_out (stability_spk L a) (pr_policy p),
                             fee_out (fl_fee i) (pr_policy p)]\<rparr>;
          in_utxos = [claimed (sats_raw (oc_value v)) (vault_spk L a (oc_state v)) (pr_policy p),
                      claimed (obol_raw (oc_value (ps_pot ps))) (pot_spk L a) (pr_obol p),
                      claimed (obol_raw (oc_coin_value (fl_keeper i))) (oc_coin_spk (fl_keeper i)) (pr_obol p),
                      claimed (sats_raw (oc_value (ps_reserve ps))) (stability_spk L a) (pr_policy p)];
          slots = [\<lparr>ws_input = 1, ws_kind = PotInflow\<rparr>,
                   \<lparr>ws_input = 3, ws_kind = SlotStability StabilityAccumulate\<rparr>,
                   \<lparr>ws_input = 0, ws_kind = SlotVault (oc_state v) (VaultFullLiq (fl_tick i))\<rparr>];
          plan = \<lparr>pl_tx = tx, pl_in_utxos = in_utxos, pl_slots = slots\<rparr>;
          txid = plan_txid L plan
      in \<lparr>bt_plan = plan,
          bt_expected =
            \<lparr>ud_pot = \<lparr>oc_state = PotState, oc_outpoint = OutPoint txid 1, oc_value = Obol pot_out\<rparr>,
             ud_reserve = \<lparr>oc_state = ReserveState, oc_outpoint = OutPoint txid 3, oc_value = Sats reserve_out\<rparr>,
             ud_seized = OutPoint txid 0\<rparr>\<rparr>)"

definition full_liq ::
  "'p library \<Rightarrow> 'p ctx \<Rightarrow> protocol_state \<Rightarrow> vault_utxo \<Rightarrow> full_liq_intent \<Rightarrow> build_error + full_liq_delta built" where
  "full_liq L c ps v i =
     bind_res (check_zero_price (fl_tick i)) (\<lambda>_.
     bind_res (check_vault_ratchet (fl_tick i) (vs_last_height (oc_state v))) (\<lambda>_.
     let hi = snd (price_range (fl_tick i)) in
     bind_res (map_err Math (covenant_cents (vs_debt (oc_state v)))) (\<lambda>debt_cents.
     let floor = coll_at_cr debt_cents hi K_PAR; cap = coll_at_cr debt_cents hi K_FULL_LIQ_CAP in
     refuse_if (oc_value v < floor \<or> oc_value v > cap) (CrOutOfBand (oc_value v) floor cap) (
     if oc_coin_value (fl_keeper i) \<le> vs_debt (oc_state v)
     then bind_res (map_err Math (obol_checked_add (vs_debt (oc_state v)) (Obol 1))) (\<lambda>need.
            Inl (InsufficientPayer need (oc_coin_value (fl_keeper i))))
     else Inr (full_liq_unchecked L c ps v i)))))"

section \<open>BAD-DEBT\<close>

record bad_debt_delta =
  bdd_pot :: pot_utxo
  bdd_reserve :: reserve_utxo
  bdd_issuer :: issuer_utxo
  bdd_seized :: outpoint

definition bad_debt_unchecked ::
  "'p library \<Rightarrow> 'p ctx \<Rightarrow> protocol_state \<Rightarrow> vault_utxo \<Rightarrow> bad_debt_intent \<Rightarrow> bad_debt_delta built" where
  "bad_debt_unchecked L c ps v i =
     (let a = cx_artifacts c; p = cx_params c;
          hi = snd (price_range (bd_tick i));
          debt = obol_raw (vs_debt (oc_state v));
          reserve_pay = sats_raw (bad_debt_reserve_pay (cents_or_max (vs_debt (oc_state v))) hi
                          (oc_value v) (oc_value (ps_reserve ps)));
          issuer_succ = \<lparr>is_last_mint_height = ot_height (bd_tick i)\<rparr>;
          pot_out = sat_add (obol_raw (oc_value (ps_pot ps))) debt;
          reserve_out = sat_sub (sats_raw (oc_value (ps_reserve ps))) reserve_pay;
          outs = [txout (sat_add (sats_raw (oc_value v)) reserve_pay) (bd_keeper_spk i) (pr_policy p),
                  txout pot_out (pot_spk L a) (pr_obol p),
                  txout reserve_out (stability_spk L a) (pr_policy p),
                  txout 1 (issuer_spk L a issuer_succ) (pr_issuer_token p)] @
                 (if obol_raw (oc_coin_value (bd_keeper i)) > debt
                  then [txout (obol_raw (oc_coin_value (bd_keeper i)) - debt) (bd_obol_change_spk i) (pr_obol p)]
                  else []) @
                 [txout (sat_sub (sats_raw (fc_value (bd_fee_coin i))) (sats_raw (bd_fee i))) (bd_change_spk i) (pr_policy p),
                  fee_out (bd_fee i) (pr_policy p)];
          tx = \<lparr>tx_version = 2, tx_lock_time = height_raw (ot_height (bd_tick i)),
                tx_input = [txin (oc_outpoint v), txin (oc_outpoint (ps_pot ps)),
                            txin (oc_coin_outpoint (bd_keeper i)), txin (oc_outpoint (ps_reserve ps)),
                            txin (oc_outpoint (ps_issuer ps)), txin (fc_outpoint (bd_fee_coin i))],
                tx_output = outs\<rparr>;
          in_utxos = [claimed (sats_raw (oc_value v)) (vault_spk L a (oc_state v)) (pr_policy p),
                      claimed (obol_raw (oc_value (ps_pot ps))) (pot_spk L a) (pr_obol p),
                      claimed (obol_raw (oc_coin_value (bd_keeper i))) (oc_coin_spk (bd_keeper i)) (pr_obol p),
                      claimed (sats_raw (oc_value (ps_reserve ps))) (stability_spk L a) (pr_policy p),
                      claimed 1 (issuer_spk L a (oc_state (ps_issuer ps))) (pr_issuer_token p),
                      claimed (sats_raw (fc_value (bd_fee_coin i))) (fc_spk (bd_fee_coin i)) (pr_policy p)];
          slots = [\<lparr>ws_input = 1, ws_kind = PotInflow\<rparr>,
                   \<lparr>ws_input = 3, ws_kind = SlotStability StabilityBadDebt\<rparr>,
                   \<lparr>ws_input = 4, ws_kind = SlotIssuer (oc_state (ps_issuer ps))
                      (IssuerAttest (vs_debt (oc_state v)) (xonly_u256 (vs_owner (oc_state v)))
                         (vs_last_height (oc_state v)) (bd_tick i))\<rparr>,
                   \<lparr>ws_input = 0, ws_kind = SlotVault (oc_state v) (VaultBadDebt (bd_tick i))\<rparr>];
          plan = \<lparr>pl_tx = tx, pl_in_utxos = in_utxos, pl_slots = slots\<rparr>;
          txid = plan_txid L plan
      in \<lparr>bt_plan = plan,
          bt_expected =
            \<lparr>bdd_pot = \<lparr>oc_state = PotState, oc_outpoint = OutPoint txid 1, oc_value = Obol pot_out\<rparr>,
             bdd_reserve = \<lparr>oc_state = ReserveState, oc_outpoint = OutPoint txid 2, oc_value = Sats reserve_out\<rparr>,
             bdd_issuer = \<lparr>oc_state = issuer_succ, oc_outpoint = OutPoint txid 3, oc_value = 1\<rparr>,
             bdd_seized = OutPoint txid 0\<rparr>\<rparr>)"

definition bad_debt ::
  "'p library \<Rightarrow> 'p ctx \<Rightarrow> protocol_state \<Rightarrow> vault_utxo \<Rightarrow> bad_debt_intent \<Rightarrow> build_error + bad_debt_delta built" where
  "bad_debt L c ps v i =
     bind_res (check_tick (bd_tick i) (is_last_mint_height (oc_state (ps_issuer ps)))) (\<lambda>_.
     bind_res (check_vault_ratchet (bd_tick i) (vs_last_height (oc_state v))) (\<lambda>_.
     let hi = snd (price_range (bd_tick i)) in
     bind_res (map_err Math (covenant_cents (vs_debt (oc_state v)))) (\<lambda>debt_cents.
     let debt_sats = coll_at_cr debt_cents hi K_PAR in
     refuse_if (oc_value v \<ge> debt_sats) (NotUnderwater debt_sats (oc_value v)) (
     refuse_if (oc_coin_value (bd_keeper i) < vs_debt (oc_state v))
       (InsufficientPayer (vs_debt (oc_state v)) (oc_coin_value (bd_keeper i))) (
     refuse_if (fc_value (bd_fee_coin i) \<le> bd_fee i)
       (InsufficientFunding (bd_fee i) (fc_value (bd_fee_coin i))) (
     Inr (bad_debt_unchecked L c ps v i)))))))"

section \<open>REDEEM\<close>

record redeem_delta =
  xd_vault :: vault_utxo
  xd_pot :: pot_utxo
  xd_reserve :: reserve_utxo
  xd_redeemed :: outpoint

definition redeem_unchecked ::
  "'p library \<Rightarrow> 'p ctx \<Rightarrow> protocol_state \<Rightarrow> vault_utxo \<Rightarrow> redeem_intent \<Rightarrow> redeem_delta built" where
  "redeem_unchecked L c ps v i =
     (let a = cx_artifacts c; p = cx_params c;
          hi = snd (price_range (rd_tick i));
          x = obol_raw (rd_x i);
          x_cents = cents_or_max (rd_x i);
          floor_k = min (ot_backing_k (rd_tick i)) K_PAR;
          x_worth = sats_raw (coll_at_cr x_cents hi floor_k);
          fee_share = sats_raw (coll_at_cr x_cents hi K_FEE_HALF_PERCENT);
          successor = (oc_state v)\<lparr>vs_debt := Obol (sat_sub (obol_raw (vs_debt (oc_state v))) x)\<rparr>;
          residual = sat_sub (sats_raw (oc_value v)) x_worth;
          pot_out = sat_add (obol_raw (oc_value (ps_pot ps))) x;
          reserve_out = sat_add (sats_raw (oc_value (ps_reserve ps))) fee_share;
          outs = [txout residual (vault_spk L a successor) (pr_policy p),
                  txout pot_out (pot_spk L a) (pr_obol p),
                  txout (sat_sub (sat_sub x_worth fee_share) (sats_raw (rd_fee i))) (rd_redeemer_spk i) (pr_policy p),
                  txout reserve_out (stability_spk L a) (pr_policy p)] @
                 (if obol_raw (oc_coin_value (rd_redeemer i)) > x
                  then [txout (obol_raw (oc_coin_value (rd_redeemer i)) - x) (rd_obol_change_spk i) (pr_obol p)]
                  else []) @
                 [fee_out (rd_fee i) (pr_policy p)];
          tx = \<lparr>tx_version = 2, tx_lock_time = height_raw (ot_height (rd_tick i)),
                tx_input = [txin (oc_outpoint v), txin (oc_outpoint (ps_pot ps)),
                            txin (oc_coin_outpoint (rd_redeemer i)), txin (oc_outpoint (ps_reserve ps))],
                tx_output = outs\<rparr>;
          in_utxos = [claimed (sats_raw (oc_value v)) (vault_spk L a (oc_state v)) (pr_policy p),
                      claimed (obol_raw (oc_value (ps_pot ps))) (pot_spk L a) (pr_obol p),
                      claimed (obol_raw (oc_coin_value (rd_redeemer i))) (oc_coin_spk (rd_redeemer i)) (pr_obol p),
                      claimed (sats_raw (oc_value (ps_reserve ps))) (stability_spk L a) (pr_policy p)];
          slots = [\<lparr>ws_input = 1, ws_kind = PotInflow\<rparr>,
                   \<lparr>ws_input = 3, ws_kind = SlotStability StabilityAccumulate\<rparr>,
                   \<lparr>ws_input = 0, ws_kind = SlotVault (oc_state v) (VaultRedeem (rd_x i) (rd_tick i))\<rparr>];
          plan = \<lparr>pl_tx = tx, pl_in_utxos = in_utxos, pl_slots = slots\<rparr>;
          txid = plan_txid L plan
      in \<lparr>bt_plan = plan,
          bt_expected =
            \<lparr>xd_vault = \<lparr>oc_state = successor, oc_outpoint = OutPoint txid 0, oc_value = Sats residual\<rparr>,
             xd_pot = \<lparr>oc_state = PotState, oc_outpoint = OutPoint txid 1, oc_value = Obol pot_out\<rparr>,
             xd_reserve = \<lparr>oc_state = ReserveState, oc_outpoint = OutPoint txid 3, oc_value = Sats reserve_out\<rparr>,
             xd_redeemed = OutPoint txid 2\<rparr>\<rparr>)"

definition redeem ::
  "'p library \<Rightarrow> 'p ctx \<Rightarrow> protocol_state \<Rightarrow> vault_utxo \<Rightarrow> redeem_intent \<Rightarrow> build_error + redeem_delta built" where
  "redeem L c ps v i =
     bind_res (check_zero_price (rd_tick i)) (\<lambda>_.
     bind_res (check_vault_ratchet (rd_tick i) (vs_last_height (oc_state v))) (\<lambda>_.
     refuse_if (rd_x i = obol_ZERO) ZeroAmount (
     refuse_if (rd_x i > vs_debt (oc_state v)) (AmountExceedsDebt (rd_x i) (vs_debt (oc_state v))) (
     refuse_if (oc_coin_value (rd_redeemer i) < rd_x i)
       (InsufficientPayer (rd_x i) (oc_coin_value (rd_redeemer i))) (
     let hi = snd (price_range (rd_tick i)) in
     bind_res (map_err Math (covenant_cents (rd_x i))) (\<lambda>x_cents.
     let floor_k = min (ot_backing_k (rd_tick i)) K_PAR;
         x_worth = coll_at_cr x_cents hi floor_k in
     refuse_if (oc_value v < x_worth) (InsufficientFunding x_worth (oc_value v)) (
     let fee_share = coll_at_cr x_cents hi K_FEE_HALF_PERCENT in
     bind_res (map_err Math (sats_checked_add fee_share (rd_fee i))) (\<lambda>need.
     refuse_if (x_worth \<le> need) (InsufficientFunding need x_worth) (
     Inr (redeem_unchecked L c ps v i))))))))))"

section \<open>What the builders accept\<close>

lemma liquidate_Inr_iff:
  "liquidate L c ps v i = Inr b \<longleftrightarrow>
     (\<exists>cents rd ddc. covenant_cents (vs_debt (oc_state v)) = Inr cents \<and> covenant_cents (lq_dd i) = Inr ddc \<and>
        unat rd + unat ddc = unat cents \<and> price_raw (tick_lo (lq_tick i)) \<noteq> 0 \<and>
        vs_last_height (oc_state v) < ot_height (lq_tick i) \<and>
        oc_value v < coll_at_cr cents (tick_hi (lq_tick i)) K_HEALTH_GATE \<and>
        lq_dd i \<noteq> obol_ZERO \<and> lq_dd i < vs_debt (oc_state v) \<and>
        coll_at_cr rd (tick_hi (lq_tick i)) K_HEAL_LO \<le> lq_residual i \<and>
        lq_residual i \<le> coll_at_cr rd (tick_hi (lq_tick i)) K_HEAL_HI \<and>
        lq_residual i \<le> oc_value v \<and>
        unat (sats_raw (oc_value v)) - unat (sats_raw (lq_residual i)) \<le>
          unat (sats_raw (coll_at_cr ddc (tick_hi (lq_tick i)) K_FULL_LIQ_CAP)) \<and>
        lq_dd i \<le> oc_coin_value (lq_keeper i) \<and>
        unat (sats_raw (coll_at_cr ddc (tick_hi (lq_tick i)) K_RESERVE_SHARE)) + unat (sats_raw (lq_fee i)) <
          unat (sats_raw (oc_value v)) - unat (sats_raw (lq_residual i)) \<and>
        b = liquidate_unchecked L c ps v i)"
  (is "?l \<longleftrightarrow> (\<exists>cents rd ddc. ?r cents rd ddc)")
proof
  assume ?l
  then obtain cents rest rd ddc extr need where
    "covenant_cents (vs_debt (oc_state v)) = Inr cents" "obol_checked_sub (vs_debt (oc_state v)) (lq_dd i) = Inr rest"
    "covenant_cents rest = Inr rd" "covenant_cents (lq_dd i) = Inr ddc"
    "sats_checked_sub (oc_value v) (lq_residual i) = Inr extr"
    "sats_checked_add (coll_at_cr ddc (tick_hi (lq_tick i)) K_RESERVE_SHARE) (lq_fee i) = Inr need"
    "price_raw (tick_lo (lq_tick i)) \<noteq> 0" "vs_last_height (oc_state v) < ot_height (lq_tick i)"
    "oc_value v < coll_at_cr cents (tick_hi (lq_tick i)) K_HEALTH_GATE"
    "lq_dd i \<noteq> obol_ZERO" "lq_dd i < vs_debt (oc_state v)"
    "coll_at_cr rd (tick_hi (lq_tick i)) K_HEAL_LO \<le> lq_residual i"
    "lq_residual i \<le> coll_at_cr rd (tick_hi (lq_tick i)) K_HEAL_HI"
    "extr \<le> coll_at_cr ddc (tick_hi (lq_tick i)) K_FULL_LIQ_CAP" "lq_dd i \<le> oc_coin_value (lq_keeper i)"
    "need < extr" "b = liquidate_unchecked L c ps v i"
    by (auto simp: liquidate_def res_Inr Let_def not_less not_le)
  then have "?r cents rd ddc"
    by (simp add: covenant_cents_Inr_iff sats_amt.cadd_Inr_iff sats_amt.csub_Inr_iff obol_amt.csub_Inr_iff
        less_eq_sats_def less_sats_def less_obol_def word_le_nat_alt word_less_nat_alt)
  then show "\<exists>cents rd ddc. ?r cents rd ddc" by blast
next
  assume "\<exists>cents rd ddc. ?r cents rd ddc"
  then obtain cents rd ddc where r: "?r cents rd ddc" by blast
  let ?share = "coll_at_cr ddc (tick_hi (lq_tick i)) K_RESERVE_SHARE"
  have rest: "obol_checked_sub (vs_debt (oc_state v)) (lq_dd i) = Inr (Obol (ucast rd))"
    using r by (auto simp: obol_amt.csub_Inr_iff covenant_cents_Inr_iff less_obol_def word_less_nat_alt)
  have rd: "covenant_cents (Obol (ucast rd)) = Inr rd"
    using unat_lt_u32[of rd] by (simp add: covenant_cents_Inr_iff)
  have extr: "sats_checked_sub (oc_value v) (lq_residual i) =
      Inr (Sats (sats_raw (oc_value v) - sats_raw (lq_residual i)))"
    using r by (simp add: sats_amt.csub_Inr_iff less_eq_sats_def word_le_nat_alt unat_sub)
  have lt: "unat (sats_raw ?share) + unat (sats_raw (lq_fee i)) < 2 ^ 64"
    using r unat_lt_u64[of "sats_raw (oc_value v)"] by (elim conjE) simp
  then have need: "sats_checked_add ?share (lq_fee i) = Inr (Sats (sats_raw ?share + sats_raw (lq_fee i)))"
    by (simp add: sats_amt.cadd_Inr_iff unat_plus_exact)
  have cmp: "Sats (sats_raw ?share + sats_raw (lq_fee i)) <
      Sats (sats_raw (oc_value v) - sats_raw (lq_residual i))"
    "Sats (sats_raw (oc_value v) - sats_raw (lq_residual i)) \<le>
      coll_at_cr ddc (tick_hi (lq_tick i)) K_FULL_LIQ_CAP"
    using r lt by (simp_all add: less_sats_def less_eq_sats_def word_less_nat_alt word_le_nat_alt
        unat_sub unat_plus_exact)
  show ?l
    using r rest rd extr need cmp by (auto simp: liquidate_def res_Inr Let_def not_less not_le)
qed

lemma full_liq_Inr_iff:
  "full_liq L c ps v i = Inr b \<longleftrightarrow>
     (\<exists>cents. covenant_cents (vs_debt (oc_state v)) = Inr cents \<and> price_raw (tick_lo (fl_tick i)) \<noteq> 0 \<and>
        vs_last_height (oc_state v) < ot_height (fl_tick i) \<and>
        coll_at_cr cents (tick_hi (fl_tick i)) K_PAR \<le> oc_value v \<and>
        oc_value v \<le> coll_at_cr cents (tick_hi (fl_tick i)) K_FULL_LIQ_CAP \<and>
        vs_debt (oc_state v) < oc_coin_value (fl_keeper i) \<and> b = full_liq_unchecked L c ps v i)"
  by (auto simp: full_liq_def res_Inr Let_def not_less not_le split: if_splits)

lemma bad_debt_Inr_iff:
  "bad_debt L c ps v i = Inr b \<longleftrightarrow>
     (\<exists>cents. covenant_cents (vs_debt (oc_state v)) = Inr cents \<and> price_raw (tick_lo (bd_tick i)) \<noteq> 0 \<and>
        is_last_mint_height (oc_state (ps_issuer ps)) \<le> ot_height (bd_tick i) \<and>
        vs_last_height (oc_state v) < ot_height (bd_tick i) \<and>
        oc_value v < coll_at_cr cents (tick_hi (bd_tick i)) K_PAR \<and>
        vs_debt (oc_state v) \<le> oc_coin_value (bd_keeper i) \<and> bd_fee i < fc_value (bd_fee_coin i) \<and>
        b = bad_debt_unchecked L c ps v i)"
  by (auto simp: bad_debt_def res_Inr Let_def not_less not_le)

lemma redeem_Inr_iff:
  "redeem L c ps v i = Inr b \<longleftrightarrow>
     (\<exists>xc. covenant_cents (rd_x i) = Inr xc \<and> price_raw (tick_lo (rd_tick i)) \<noteq> 0 \<and>
        vs_last_height (oc_state v) < ot_height (rd_tick i) \<and> rd_x i \<noteq> obol_ZERO \<and>
        rd_x i \<le> vs_debt (oc_state v) \<and> rd_x i \<le> oc_coin_value (rd_redeemer i) \<and>
        coll_at_cr xc (tick_hi (rd_tick i)) (min (ot_backing_k (rd_tick i)) K_PAR) \<le> oc_value v \<and>
        unat (sats_raw (coll_at_cr xc (tick_hi (rd_tick i)) K_FEE_HALF_PERCENT)) + unat (sats_raw (rd_fee i)) <
          unat (sats_raw (coll_at_cr xc (tick_hi (rd_tick i)) (min (ot_backing_k (rd_tick i)) K_PAR))) \<and>
        b = redeem_unchecked L c ps v i)"
  (is "?l \<longleftrightarrow> (\<exists>xc. ?r xc)")
proof
  assume ?l
  then show "\<exists>xc. ?r xc"
    by (auto simp: redeem_def res_Inr Let_def not_less not_le sats_amt.cadd_Inr_iff
        less_sats_def less_eq_sats_def word_less_nat_alt word_le_nat_alt)
next
  assume "\<exists>xc. ?r xc"
  then obtain xc where r: "?r xc" ..
  let ?share = "coll_at_cr xc (tick_hi (rd_tick i)) K_FEE_HALF_PERCENT"
  let ?worth = "coll_at_cr xc (tick_hi (rd_tick i)) (min (ot_backing_k (rd_tick i)) K_PAR)"
  have lt: "unat (sats_raw ?share) + unat (sats_raw (rd_fee i)) < 2 ^ 64"
    using r unat_lt_u64[of "sats_raw ?worth"] by simp
  then have "sats_checked_add ?share (rd_fee i) = Inr (Sats (sats_raw ?share + sats_raw (rd_fee i)))"
    by (simp add: sats_amt.cadd_Inr_iff unat_plus_exact)
  moreover have "Sats (sats_raw ?share + sats_raw (rd_fee i)) < ?worth"
    using r lt by (simp add: less_sats_def word_less_nat_alt unat_plus_exact)
  ultimately show ?l
    using r by (auto simp: redeem_def res_Inr Let_def not_less not_le)
qed

section \<open>Plans are well formed\<close>

lemma liquidate_wf: "plan_wf (bt_plan (liquidate_unchecked L c ps v i))"
  by (simp add: plan_wf_def liquidate_unchecked_def Let_def)

lemma full_liq_wf: "plan_wf (bt_plan (full_liq_unchecked L c ps v i))"
  by (simp add: plan_wf_def full_liq_unchecked_def Let_def)

lemma bad_debt_wf: "plan_wf (bt_plan (bad_debt_unchecked L c ps v i))"
  by (simp add: plan_wf_def bad_debt_unchecked_def Let_def)

lemma redeem_wf: "plan_wf (bt_plan (redeem_unchecked L c ps v i))"
  by (simp add: plan_wf_def redeem_unchecked_def Let_def)

section \<open>Conservation\<close>

lemma cents_sane: "covenant_cents d = Inr c \<Longrightarrow> unat (obol_raw d) < 2 ^ 63"
  by (simp add: covenant_cents_Inr_iff)

lemma coll_sane: "unat (ratio_raw k) \<le> 300000000 \<Longrightarrow> unat (sats_raw (coll_at_cr d p k)) < 2 ^ 63"
  using u32_price_le[of k d p] by simp

lemma liquidate_conserves:
  assumes "liquidate L c ps v i = Inr b" "assets_ok (cx_params c)"
    "sane_amounts [obol_raw (oc_value (ps_pot ps)), sats_raw (oc_value (ps_reserve ps))]"
  shows "conserves (bt_plan b)"
proof (rule conservesI)
  obtain ddc where cents: "covenant_cents (lq_dd i) = Inr ddc"
    and acc: "lq_residual i \<le> oc_value v" "lq_dd i \<le> oc_coin_value (lq_keeper i)"
      "unat (sats_raw (coll_at_cr ddc (tick_hi (lq_tick i)) K_RESERVE_SHARE)) + unat (sats_raw (lq_fee i)) <
         unat (sats_raw (oc_value v)) - unat (sats_raw (lq_residual i))"
    and b: "b = liquidate_unchecked L c ps v i"
    using assms(1) by (auto simp: liquidate_Inr_iff)
  have add: "unat (sat_add (obol_raw (oc_value (ps_pot ps))) (obol_raw (lq_dd i))) =
      unat (obol_raw (oc_value (ps_pot ps))) + unat (obol_raw (lq_dd i))"
    "unat (sat_add (sats_raw (oc_value (ps_reserve ps))) (sats_raw (coll_at_cr ddc (tick_hi (lq_tick i)) K_RESERVE_SHARE))) =
      unat (sats_raw (oc_value (ps_reserve ps))) + unat (sats_raw (coll_at_cr ddc (tick_hi (lq_tick i)) K_RESERVE_SHARE))"
    by (rule sat_add_sane, use assms(3) cents_sane[OF cents] coll_sane[of K_RESERVE_SHARE] in simp)+
  note ne = assets_ok_ne[OF assms(2)]
  show "uses_assets {pr_obol (cx_params c), pr_issuer_token (cx_params c), pr_policy (cx_params c)} (bt_plan b)"
    by (simp add: b liquidate_unchecked_def Let_def uses_assets_def)
  show "utxos_total a (pl_in_utxos (bt_plan b)) = outs_total a (tx_output (pl_tx (bt_plan b)))"
    if "a \<in> {pr_obol (cx_params c), pr_issuer_token (cx_params c), pr_policy (cx_params c)}" for a
    using that ne acc cents add
    by (auto simp: b liquidate_unchecked_def Let_def unat_diff_gt less_sats_def less_eq_sats_def less_obol_def
        less_eq_obol_def word_less_nat_alt word_le_nat_alt unat_div)
qed

text \<open>The reserve's third of the excess, as FULL-LIQ computes it.\<close>

definition full_liq_reserve_fee :: "vault_utxo \<Rightarrow> full_liq_intent \<Rightarrow> u64" where
  "full_liq_reserve_fee v i =
     sat_sub (sats_raw (oc_value v))
       (sats_raw (coll_at_cr (cents_or_max (vs_debt (oc_state v))) (tick_hi (fl_tick i)) K_PAR)) div 3"

lemma full_liq_conserves:
  assumes "full_liq L c ps v i = Inr b" "assets_ok (cx_params c)"
    "sane_amounts [obol_raw (oc_value (ps_pot ps)), sats_raw (oc_value (ps_reserve ps))]"
    "unat (full_liq_reserve_fee v i) + unat (sats_raw (fl_fee i)) \<le> unat (sats_raw (oc_value v))"
  shows "conserves (bt_plan b)"
proof (rule conservesI)
  obtain cents where cents: "covenant_cents (vs_debt (oc_state v)) = Inr cents"
    and acc: "coll_at_cr cents (tick_hi (fl_tick i)) K_PAR \<le> oc_value v"
      "oc_value v \<le> coll_at_cr cents (tick_hi (fl_tick i)) K_FULL_LIQ_CAP"
      "vs_debt (oc_state v) < oc_coin_value (fl_keeper i)"
    and b: "b = full_liq_unchecked L c ps v i"
    using assms(1) by (auto simp: full_liq_Inr_iff)
  let ?fee = "sat_sub (sats_raw (oc_value v)) (sats_raw (coll_at_cr cents (tick_hi (fl_tick i)) K_PAR)) div 3"
  have fee: "unat ?fee = unat (full_liq_reserve_fee v i)"
    by (simp add: full_liq_reserve_fee_def cents)
  have "unat (sats_raw (coll_at_cr cents (tick_hi (fl_tick i)) K_FULL_LIQ_CAP)) < 2 ^ 63"
    by (rule coll_sane) simp
  then have small: "unat ?fee < 2 ^ 63"
    using acc(2) by (simp add: unat_div less_eq_sats_def word_le_nat_alt)
  have add: "unat (sat_add (obol_raw (oc_value (ps_pot ps))) (obol_raw (vs_debt (oc_state v)))) =
      unat (obol_raw (oc_value (ps_pot ps))) + unat (obol_raw (vs_debt (oc_state v)))"
    "unat (sat_add (sats_raw (oc_value (ps_reserve ps))) ?fee) =
      unat (sats_raw (oc_value (ps_reserve ps))) + unat ?fee"
    by (rule sat_add_sane, use assms(3) cents_sane[OF cents] small in simp)+
  note ne = assets_ok_ne[OF assms(2)]
  show "uses_assets {pr_obol (cx_params c), pr_issuer_token (cx_params c), pr_policy (cx_params c)} (bt_plan b)"
    by (simp add: b full_liq_unchecked_def Let_def uses_assets_def)
  show "utxos_total a (pl_in_utxos (bt_plan b)) = outs_total a (tx_output (pl_tx (bt_plan b)))"
    if "a \<in> {pr_obol (cx_params c), pr_issuer_token (cx_params c), pr_policy (cx_params c)}" for a
    using that ne acc cents add assms(4)[folded fee]
    by (auto simp: b full_liq_unchecked_def Let_def unat_diff_gt less_sats_def less_eq_sats_def less_obol_def
        less_eq_obol_def word_less_nat_alt word_le_nat_alt unat_div)
qed

lemma bad_debt_conserves:
  assumes "bad_debt L c ps v i = Inr b" "assets_ok (cx_params c)"
    "sane_amounts [obol_raw (oc_value (ps_pot ps)), sats_raw (oc_value (ps_reserve ps))]"
  shows "conserves (bt_plan b)"
proof (rule conservesI)
  obtain cents where cents: "covenant_cents (vs_debt (oc_state v)) = Inr cents"
    and acc: "oc_value v < coll_at_cr cents (tick_hi (bd_tick i)) K_PAR"
      "vs_debt (oc_state v) \<le> oc_coin_value (bd_keeper i)" "bd_fee i < fc_value (bd_fee_coin i)"
    and b: "b = bad_debt_unchecked L c ps v i"
    using assms(1) by (auto simp: bad_debt_Inr_iff)
  let ?pay = "sats_raw (bad_debt_reserve_pay cents (tick_hi (bd_tick i)) (oc_value v) (oc_value (ps_reserve ps)))"
  have small: "unat (sats_raw (oc_value v)) < 2 ^ 63"
    using acc(1) coll_sane[of K_PAR cents "tick_hi (bd_tick i)"] by (simp add: less_sats_def word_less_nat_alt)
  have pay: "unat ?pay \<le> unat (sats_raw (oc_value (ps_reserve ps)))"
    by (simp add: unat_reserve_pay)
  have add: "unat (sat_add (obol_raw (oc_value (ps_pot ps))) (obol_raw (vs_debt (oc_state v)))) =
      unat (obol_raw (oc_value (ps_pot ps))) + unat (obol_raw (vs_debt (oc_state v)))"
    "unat (sat_add (sats_raw (oc_value v)) ?pay) = unat (sats_raw (oc_value v)) + unat ?pay"
    by (rule sat_add_sane, use assms(3) cents_sane[OF cents] small pay in simp)+
  note ne = assets_ok_ne[OF assms(2)]
  show "uses_assets {pr_obol (cx_params c), pr_issuer_token (cx_params c), pr_policy (cx_params c)} (bt_plan b)"
    by (simp add: b bad_debt_unchecked_def Let_def uses_assets_def)
  show "utxos_total a (pl_in_utxos (bt_plan b)) = outs_total a (tx_output (pl_tx (bt_plan b)))"
    if "a \<in> {pr_obol (cx_params c), pr_issuer_token (cx_params c), pr_policy (cx_params c)}" for a
    using that ne acc cents add pay
    by (auto simp: b bad_debt_unchecked_def Let_def unat_diff_gt less_sats_def less_eq_sats_def less_obol_def
        less_eq_obol_def word_less_nat_alt word_le_nat_alt unat_div)
qed

lemma redeem_conserves:
  assumes "redeem L c ps v i = Inr b" "assets_ok (cx_params c)"
    "sane_amounts [obol_raw (oc_value (ps_pot ps)), sats_raw (oc_value (ps_reserve ps))]"
  shows "conserves (bt_plan b)"
proof (rule conservesI)
  obtain xc where cents: "covenant_cents (rd_x i) = Inr xc"
    and acc: "coll_at_cr xc (tick_hi (rd_tick i)) (min (ot_backing_k (rd_tick i)) K_PAR) \<le> oc_value v"
      "rd_x i \<le> oc_coin_value (rd_redeemer i)"
      "unat (sats_raw (coll_at_cr xc (tick_hi (rd_tick i)) K_FEE_HALF_PERCENT)) + unat (sats_raw (rd_fee i)) <
         unat (sats_raw (coll_at_cr xc (tick_hi (rd_tick i)) (min (ot_backing_k (rd_tick i)) K_PAR)))"
    and b: "b = redeem_unchecked L c ps v i"
    using assms(1) by (auto simp: redeem_Inr_iff)
  have add: "unat (sat_add (obol_raw (oc_value (ps_pot ps))) (obol_raw (rd_x i))) =
      unat (obol_raw (oc_value (ps_pot ps))) + unat (obol_raw (rd_x i))"
    "unat (sat_add (sats_raw (oc_value (ps_reserve ps))) (sats_raw (coll_at_cr xc (tick_hi (rd_tick i)) K_FEE_HALF_PERCENT))) =
      unat (sats_raw (oc_value (ps_reserve ps))) + unat (sats_raw (coll_at_cr xc (tick_hi (rd_tick i)) K_FEE_HALF_PERCENT))"
    by (rule sat_add_sane, use assms(3) cents_sane[OF cents] coll_sane[of K_FEE_HALF_PERCENT] in simp)+
  note ne = assets_ok_ne[OF assms(2)]
  show "uses_assets {pr_obol (cx_params c), pr_issuer_token (cx_params c), pr_policy (cx_params c)} (bt_plan b)"
    by (simp add: b redeem_unchecked_def Let_def uses_assets_def)
  show "utxos_total a (pl_in_utxos (bt_plan b)) = outs_total a (tx_output (pl_tx (bt_plan b)))"
    if "a \<in> {pr_obol (cx_params c), pr_issuer_token (cx_params c), pr_policy (cx_params c)}" for a
    using that ne acc cents add
    by (auto simp: b redeem_unchecked_def Let_def unat_diff_gt less_sats_def less_eq_sats_def less_obol_def
        less_eq_obol_def word_less_nat_alt word_le_nat_alt unat_div)
qed

section \<open>The builders keep the plan contract\<close>

abbreviation singletons_sane :: "protocol_state \<Rightarrow> bool" where
  "singletons_sane ps \<equiv> sane_amounts [obol_raw (oc_value (ps_pot ps)), sats_raw (oc_value (ps_reserve ps))]"

interpretation liquidate_b: plan_builder "\<lambda>(L, c, ps, v, i). liquidate L c ps v i"
  "\<lambda>(L, c, ps, v, i). assets_ok (cx_params c) \<and> singletons_sane ps"
  by unfold_locales (auto simp: liquidate_wf intro: liquidate_conserves dest: liquidate_Inr_iff[THEN iffD1])

interpretation full_liq_b: plan_builder "\<lambda>(L, c, ps, v, i). full_liq L c ps v i"
  "\<lambda>(L, c, ps, v, i). assets_ok (cx_params c) \<and> singletons_sane ps \<and>
     unat (full_liq_reserve_fee v i) + unat (sats_raw (fl_fee i)) \<le> unat (sats_raw (oc_value v))"
  by unfold_locales (auto simp: full_liq_wf intro: full_liq_conserves dest: full_liq_Inr_iff[THEN iffD1])

interpretation bad_debt_b: plan_builder "\<lambda>(L, c, ps, v, i). bad_debt L c ps v i"
  "\<lambda>(L, c, ps, v, i). assets_ok (cx_params c) \<and> singletons_sane ps"
  by unfold_locales (auto simp: bad_debt_wf intro: bad_debt_conserves dest: bad_debt_Inr_iff[THEN iffD1])

interpretation redeem_b: plan_builder "\<lambda>(L, c, ps, v, i). redeem L c ps v i"
  "\<lambda>(L, c, ps, v, i). assets_ok (cx_params c) \<and> singletons_sane ps"
  by unfold_locales (auto simp: redeem_wf intro: redeem_conserves dest: redeem_Inr_iff[THEN iffD1])

end
