(* ===== verification/Styx_Index_Sim.thy ===== *)
theory Styx_Index_Sim
  imports Styx_Index Styx_Build_Owner Styx_Build_Keeper
begin

text \<open>
  The indexer follows the builders: when the transaction of a builder's plan confirms, \<open>apply_tx\<close>
  moves the indexed state to exactly the successor the builder predicted. The lemmas are about any
  transaction with the body of the plan (\<open>confirms\<close>), so they hold for the finalized, witnessed
  transaction as well as for the bare body.
\<close>

section \<open>Scanning heights\<close>

lemma scan_down_None: "(\<And>k. \<lbrakk>lo \<le> k; k \<le> h\<rbrakk> \<Longrightarrow> f k = None) \<Longrightarrow> scan_down f lo h = None"
  by (induction f lo h rule: scan_down.induct) (auto split: option.splits)

lemma scan_down_Some:
  "\<lbrakk>lo \<le> k; k \<le> h; f k = Some r; \<And>j. \<lbrakk>k < j; j \<le> h\<rbrakk> \<Longrightarrow> f j = None\<rbrakk> \<Longrightarrow> scan_down f lo h = Some r"
proof (induction f lo h rule: scan_down.induct)
  case (2 f lo h)
  show ?case
  proof (cases "k = Suc h")
    case False
    with 2 show ?thesis by simp
  qed (use 2 in simp)
qed simp

lemma scan_down_sound: "scan_down f lo h = Some r \<Longrightarrow> \<exists>k. lo \<le> k \<and> k \<le> h \<and> f k = Some r"
proof (induction f lo h rule: scan_down.induct)
  case (2 f lo h)
  show ?case
  proof (cases "f (Suc h)")
    case None
    with 2 show ?thesis by (auto split: if_splits)
  next
    case (Some q)
    with 2 show ?thesis by (auto split: if_splits intro!: exI[of _ "Suc h"])
  qed
qed (auto split: if_splits)

section \<open>Locating outputs\<close>

fun hits_from :: "nat \<Rightarrow> tx_out list \<Rightarrow> script \<Rightarrow> asset_id \<Rightarrow> (u32 \<times> u64) list" where
  "hits_from n [] spk a = []"
| "hits_from n (o' # os) spk a =
     (if to_script_pubkey o' = spk then (case explicit o' a of Some v \<Rightarrow> [(of_nat n, v)] | None \<Rightarrow> []) else []) @
     hits_from (Suc n) os spk a"

lemma hits_hits_from: "hits tx spk a = hits_from 0 (tx_output tx) spk a"
proof -
  have "somes (map (\<lambda>(vout, o'). if to_script_pubkey o' = spk
      then map_option (\<lambda>v. (of_nat vout, v)) (explicit o' a) else None) (enumerate n os)) = hits_from n os spk a" for n os
    by (induction os arbitrary: n) (auto split: option.splits)
  then show ?thesis by (simp add: hits_def)
qed

lemma explicit_txout [simp]:
  "explicit (txout v spk a) b = (if a = b then Some v else None)"
  "explicit (fee_out f a) b = (if a = b then Some (sats_raw f) else None)"
  by (simp_all add: explicit_def fee_out_def)

lemmas locate_defs = locate_def locate_counted_def hits_hits_from

section \<open>Inputs\<close>

lemma position_map: "position P (map f xs) = position (\<lambda>x. P (f x)) xs"
  by (induction xs) auto

lemma input_index_prev: "input_index tx op = position (\<lambda>o'. o' = op) (map ti_previous_output (tx_input tx))"
  by (simp add: input_index_def position_map)

lemma vault_inputs_prev:
  "vault_inputs st tx =
     filter (\<lambda>(n, op). fmlookup (ix_vaults st) op \<noteq> None) (enumerate 0 (map ti_previous_output (tx_input tx)))"
proof -
  have "map (\<lambda>(n, i). (n, ti_previous_output i)) (filter (\<lambda>(n, i). fmlookup (ix_vaults st) (ti_previous_output i) \<noteq> None)
      (enumerate k is)) = filter (\<lambda>(n, op). fmlookup (ix_vaults st) op \<noteq> None) (enumerate k (map ti_previous_output is))" for k "is"
    by (induction "is" arbitrary: k) auto
  then show ?thesis by (simp add: vault_inputs_def)
qed

text \<open>A confirmed form of a plan: the same body and the same id, whatever the witnesses.\<close>

definition confirms :: "'p library \<Rightarrow> tx_plan \<Rightarrow> transaction \<Rightarrow> bool" where
  "confirms L plan tx \<longleftrightarrow>
     tx_output tx = tx_output (pl_tx plan) \<and> tx_lock_time tx = tx_lock_time (pl_tx plan) \<and>
     map ti_previous_output (tx_input tx) = map ti_previous_output (tx_input (pl_tx plan)) \<and>
     lb_txid L tx = plan_txid L plan"

lemma confirms_refl: "confirms L plan (pl_tx plan)"
  by (simp add: confirms_def plan_txid_def)

lemma confirms_length: "confirms L plan tx \<Longrightarrow> length (tx_input tx) = length (tx_input (pl_tx plan))"
  unfolding confirms_def by (metis length_map)

text \<open>An outpoint the indexer does not track as protocol state.\<close>

definition untracked :: "index_state \<Rightarrow> outpoint \<Rightarrow> bool" where
  "untracked st op \<longleftrightarrow> fmlookup (ix_vaults st) op = None \<and>
     (case ix_pot st of None \<Rightarrow> True | Some u \<Rightarrow> oc_outpoint u \<noteq> op) \<and>
     (case ix_reserve st of None \<Rightarrow> True | Some u \<Rightarrow> oc_outpoint u \<noteq> op) \<and>
     (case ix_issuer st of None \<Rightarrow> True | Some u \<Rightarrow> oc_outpoint u \<noteq> op)"

text \<open>The indexed state agrees with a protocol snapshot; the tracked outpoints are all different.\<close>

definition tracks :: "index_state \<Rightarrow> protocol_state \<Rightarrow> bool" where
  "tracks st ps \<longleftrightarrow> ix_protocol st = Some ps \<and>
     distinct [oc_outpoint (ps_pot ps), oc_outpoint (ps_reserve ps), oc_outpoint (ps_issuer ps)] \<and>
     fmlookup (ix_vaults st) (oc_outpoint (ps_pot ps)) = None \<and>
     fmlookup (ix_vaults st) (oc_outpoint (ps_reserve ps)) = None \<and>
     fmlookup (ix_vaults st) (oc_outpoint (ps_issuer ps)) = None"

lemma tracksD:
  assumes "tracks st ps"
  shows "ix_pot st = Some (ps_pot ps)" "ix_reserve st = Some (ps_reserve ps)" "ix_issuer st = Some (ps_issuer ps)"
    "oc_outpoint (ps_pot ps) \<noteq> oc_outpoint (ps_reserve ps)" "oc_outpoint (ps_reserve ps) \<noteq> oc_outpoint (ps_pot ps)"
    "oc_outpoint (ps_pot ps) \<noteq> oc_outpoint (ps_issuer ps)" "oc_outpoint (ps_issuer ps) \<noteq> oc_outpoint (ps_pot ps)"
    "oc_outpoint (ps_reserve ps) \<noteq> oc_outpoint (ps_issuer ps)" "oc_outpoint (ps_issuer ps) \<noteq> oc_outpoint (ps_reserve ps)"
    "fmlookup (ix_vaults st) (oc_outpoint (ps_pot ps)) = None"
    "fmlookup (ix_vaults st) (oc_outpoint (ps_reserve ps)) = None"
    "fmlookup (ix_vaults st) (oc_outpoint (ps_issuer ps)) = None"
  using assms by (auto simp: tracks_def ix_protocol_def split: option.splits)

lemma untrackedD:
  assumes "untracked st op" "tracks st ps"
  shows "fmlookup (ix_vaults st) op = None" "oc_outpoint (ps_pot ps) \<noteq> op" "oc_outpoint (ps_reserve ps) \<noteq> op"
    "oc_outpoint (ps_issuer ps) \<noteq> op" "op \<noteq> oc_outpoint (ps_pot ps)" "op \<noteq> oc_outpoint (ps_reserve ps)"
    "op \<noteq> oc_outpoint (ps_issuer ps)"
  using assms(1) tracksD(1-3)[OF assms(2)] by (auto simp: untracked_def)

text \<open>A tracked vault with a resolved owner, as the builders consume it.\<close>

definition tracks_vault :: "index_state \<Rightarrow> vault_utxo \<Rightarrow> tracked_vault \<Rightarrow> bool" where
  "tracks_vault st v tv \<longleftrightarrow> fmlookup (ix_vaults st) (oc_outpoint v) = Some tv \<and> tv_known tv (oc_outpoint v) = Some v"

lemma tracks_vaultD:
  assumes "tracks_vault st v tv"
  shows "fmlookup (ix_vaults st) (oc_outpoint v) = Some tv" "tv_owner tv = Some (vs_owner (oc_state v))"
    "tv_debt tv = vs_debt (oc_state v)" "tv_last_height tv = vs_last_height (oc_state v)" "tv_value tv = oc_value v"
proof -
  show "fmlookup (ix_vaults st) (oc_outpoint v) = Some tv" using assms by (simp add: tracks_vault_def)
  from assms obtain owner where o: "tv_owner tv = Some owner"
    and v: "v = \<lparr>oc_state = \<lparr>vs_debt = tv_debt tv, vs_owner = owner, vs_last_height = tv_last_height tv\<rparr>,
                 oc_outpoint = oc_outpoint v, oc_value = tv_value tv\<rparr>"
    by (auto simp: tracks_vault_def tv_known_def split: option.splits)
  show "tv_owner tv = Some (vs_owner (oc_state v))" by (subst v) (simp add: o)
  show "tv_debt tv = vs_debt (oc_state v)" "tv_last_height tv = vs_last_height (oc_state v)" "tv_value tv = oc_value v"
    by (subst v, simp)+
qed

lemma vault_ne_tracked:
  assumes "tracks_vault st v tv" "tracks st ps"
  shows "oc_outpoint v \<noteq> oc_outpoint (ps_pot ps)" "oc_outpoint (ps_pot ps) \<noteq> oc_outpoint v"
    "oc_outpoint v \<noteq> oc_outpoint (ps_reserve ps)" "oc_outpoint (ps_reserve ps) \<noteq> oc_outpoint v"
    "oc_outpoint v \<noteq> oc_outpoint (ps_issuer ps)" "oc_outpoint (ps_issuer ps) \<noteq> oc_outpoint v"
  using tracks_vaultD(1)[OF assms(1)] tracksD(10-12)[OF assms(2)] by auto

text \<open>The deployment facts every step below uses.\<close>

definition deployed :: "'p library \<Rightarrow> 'p ctx \<Rightarrow> bool" where
  "deployed L c \<longleftrightarrow> library_ok L \<and> artifacts_wf L (cx_artifacts c) \<and> assets_ok (cx_params c)"

lemma deployed_spk:
  assumes "deployed L c"
  shows "vault_spk L (cx_artifacts c) st \<noteq> pot_spk L (cx_artifacts c)"
    "pot_spk L (cx_artifacts c) \<noteq> vault_spk L (cx_artifacts c) st"
    "issuer_spk L (cx_artifacts c) ist \<noteq> pot_spk L (cx_artifacts c)"
    "pot_spk L (cx_artifacts c) \<noteq> issuer_spk L (cx_artifacts c) ist"
    "vault_spk L (cx_artifacts c) st \<noteq> stability_spk L (cx_artifacts c)"
    "stability_spk L (cx_artifacts c) \<noteq> vault_spk L (cx_artifacts c) st"
    "issuer_spk L (cx_artifacts c) ist \<noteq> stability_spk L (cx_artifacts c)"
    "stability_spk L (cx_artifacts c) \<noteq> issuer_spk L (cx_artifacts c) ist"
    "pot_spk L (cx_artifacts c) \<noteq> stability_spk L (cx_artifacts c)"
    "stability_spk L (cx_artifacts c) \<noteq> pot_spk L (cx_artifacts c)"
    "vault_spk L (cx_artifacts c) st \<noteq> issuer_spk L (cx_artifacts c) ist"
    "issuer_spk L (cx_artifacts c) ist \<noteq> vault_spk L (cx_artifacts c) st"
proof -
  have ok: "library_ok L" "artifacts_wf L (cx_artifacts c)" using assms by (simp_all add: deployed_def)
  note ne = spk_ne[OF ok] vault_ne_issuer_spk[OF ok(1), of "cx_artifacts c"]
  show "vault_spk L (cx_artifacts c) st \<noteq> pot_spk L (cx_artifacts c)"
    "issuer_spk L (cx_artifacts c) ist \<noteq> pot_spk L (cx_artifacts c)"
    "vault_spk L (cx_artifacts c) st \<noteq> stability_spk L (cx_artifacts c)"
    "issuer_spk L (cx_artifacts c) ist \<noteq> stability_spk L (cx_artifacts c)"
    "pot_spk L (cx_artifacts c) \<noteq> stability_spk L (cx_artifacts c)"
    "vault_spk L (cx_artifacts c) st \<noteq> issuer_spk L (cx_artifacts c) ist"
    by (rule ne)+
  show "pot_spk L (cx_artifacts c) \<noteq> vault_spk L (cx_artifacts c) st"
    "pot_spk L (cx_artifacts c) \<noteq> issuer_spk L (cx_artifacts c) ist"
    "stability_spk L (cx_artifacts c) \<noteq> vault_spk L (cx_artifacts c) st"
    "stability_spk L (cx_artifacts c) \<noteq> issuer_spk L (cx_artifacts c) ist"
    "stability_spk L (cx_artifacts c) \<noteq> pot_spk L (cx_artifacts c)"
    "issuer_spk L (cx_artifacts c) ist \<noteq> vault_spk L (cx_artifacts c) st"
    by (rule ne[THEN not_sym])+
qed

lemma deployed_inject:
  assumes "deployed L c"
  shows "vault_spk L (cx_artifacts c) st = vault_spk L (cx_artifacts c) st' \<longleftrightarrow> st = st'"
    "issuer_spk L (cx_artifacts c) ist = issuer_spk L (cx_artifacts c) ist' \<longleftrightarrow> ist = (ist' :: issuer_state)"
  using assms by (simp_all add: deployed_def vault_spk_inject issuer_spk_inject)

lemma deployed_nonempty:
  assumes "deployed L c"
  shows "vault_spk L (cx_artifacts c) st \<noteq> []" "issuer_spk L (cx_artifacts c) ist \<noteq> []"
    "pot_spk L (cx_artifacts c) \<noteq> []" "stability_spk L (cx_artifacts c) \<noteq> []"
    "[] \<noteq> vault_spk L (cx_artifacts c) st" "[] \<noteq> issuer_spk L (cx_artifacts c) ist"
    "[] \<noteq> pot_spk L (cx_artifacts c)" "[] \<noteq> stability_spk L (cx_artifacts c)"
proof -
  have ok: "library_ok L" using assms by (simp add: deployed_def)
  note ne = spk_nonempty[OF ok]
  show "vault_spk L (cx_artifacts c) st \<noteq> []" "issuer_spk L (cx_artifacts c) ist \<noteq> []"
    "pot_spk L (cx_artifacts c) \<noteq> []" "stability_spk L (cx_artifacts c) \<noteq> []"
    by (rule ne)+
  show "[] \<noteq> vault_spk L (cx_artifacts c) st" "[] \<noteq> issuer_spk L (cx_artifacts c) ist"
    "[] \<noteq> pot_spk L (cx_artifacts c)" "[] \<noteq> stability_spk L (cx_artifacts c)"
    by (rule ne[THEN not_sym])+
qed

lemma deployed_assets:
  assumes "deployed L c"
  shows "pr_obol (cx_params c) \<noteq> pr_issuer_token (cx_params c)" "pr_issuer_token (cx_params c) \<noteq> pr_obol (cx_params c)"
    "pr_obol (cx_params c) \<noteq> pr_policy (cx_params c)" "pr_policy (cx_params c) \<noteq> pr_obol (cx_params c)"
    "pr_issuer_token (cx_params c) \<noteq> pr_policy (cx_params c)" "pr_policy (cx_params c) \<noteq> pr_issuer_token (cx_params c)"
  using assms by (auto simp: deployed_def dest: assets_ok_ne)

lemmas deployed_simps = deployed_spk deployed_inject deployed_nonempty deployed_assets

section \<open>Resolving the anchor\<close>

lemma resolve_anchor_tick:
  assumes dep: "deployed L c"
    and unique: "\<And>h. hits tx (issuer_spk L (cx_artifacts c) \<lparr>is_last_mint_height = h\<rparr>) (pr_issuer_token (cx_params c)) =
      (if h = BlockHeight t then [(vout, 1)] else [])"
    and lock: "tx_lock_time tx = t" "t \<le> height" "is_last_mint_height (oc_state prev) \<le> BlockHeight t"
  shows "resolve_anchor L c height prev tx = Some (BlockHeight t, vout)"
proof -
  have min: "min (tx_lock_time tx) height = t" using lock by (simp add: min_def)
  have le: "unat (height_raw (is_last_mint_height (oc_state prev))) \<le> unat t"
    using lock(3) by (simp add: less_eq_block_height_def word_le_nat_alt)
  show ?thesis
    unfolding resolve_anchor_def min
    by (rule scan_down_Some[OF le order_refl])
      (auto simp: locate_def locate_counted_def unique)
qed

section \<open>Following outputs\<close>

text \<open>The record the indexer keeps for a vault whose owner it knows.\<close>

definition tv_of :: "'p library \<Rightarrow> 'p ctx \<Rightarrow> vault_utxo \<Rightarrow> tracked_vault" where
  "tv_of L c v =
     \<lparr>tv_debt = vs_debt (oc_state v), tv_last_height = vs_last_height (oc_state v), tv_value = oc_value v,
      tv_owner = Some (vs_owner (oc_state v)), tv_spk = vault_spk L (cx_artifacts c) (oc_state v)\<rparr>"

lemma tv_of_known: "tv_known (tv_of L c v) (oc_outpoint v) = Some v"
  by (simp add: tv_of_def tv_known_def)

lemma vault_state_eta [simp]:
  "\<lparr>vs_debt = vs_debt s, vs_owner = vs_owner s, vs_last_height = vs_last_height s\<rparr> = (s :: vault_state)"
  by (cases s) simp

lemma vault_successor_ok:
  assumes "first_elem (tx_output tx) =
      Some (txout (sats_raw (oc_value v')) (vault_spk L (cx_artifacts c) (oc_state v')) (pr_policy (cx_params c)))"
    and "tv_owner nxt = Some (vs_owner (oc_state v'))" "tv_debt nxt = vs_debt (oc_state v')"
      "tv_last_height nxt = vs_last_height (oc_state v')" and "oc_outpoint v' = OutPoint txid 0"
  shows "vault_successor L c txid vop nxt tx ev st =
    (st\<lparr>ix_vaults := fmupd (oc_outpoint v') (tv_of L c v') (ix_vaults st)\<rparr>, [ev (oc_outpoint v')])"
proof -
  have "nxt\<lparr>tv_value := oc_value v', tv_spk := vault_spk L (cx_artifacts c) (oc_state v')\<rparr> = tv_of L c v'"
    using assms(2-4) by (cases nxt) (simp add: tv_of_def)
  then show ?thesis
    by (simp add: vault_successor_def assms)
qed

lemma follow_pot_ok:
  assumes "hits tx (pot_spk L (cx_artifacts c)) (pr_obol (cx_params c)) = [(vout, val)]"
  shows "follow_pot L c txid tx st =
    (st\<lparr>ix_pot := Some \<lparr>oc_state = PotState, oc_outpoint = OutPoint txid vout, oc_value = Obol val\<rparr>\<rparr>, [], Some (Obol val))"
  by (simp add: follow_pot_def locate_counted_def assms)

lemma follow_reserve_ok:
  assumes "hits tx (stability_spk L (cx_artifacts c)) (pr_policy (cx_params c)) = [(vout, val)]"
  shows "follow_reserve L c txid tx st =
    (st\<lparr>ix_reserve := Some \<lparr>oc_state = ReserveState, oc_outpoint = OutPoint txid vout, oc_value = Sats val\<rparr>\<rparr>,
     [], Some (Sats val))"
  by (simp add: follow_reserve_def locate_counted_def assms)

lemma obol_pos: "x \<noteq> obol_ZERO \<Longrightarrow> x > obol_ZERO"
  by (cases x) (simp add: less_obol_def obol_ZERO_def word_neq_0_conv)

lemma pot_delta_shrink_ok:
  assumes "ix_pot st = Some p"
    "hits tx (pot_spk L (cx_artifacts c)) (pr_obol (cx_params c)) = [(vout, sat_sub (obol_raw (oc_value p)) (obol_raw x))]"
    "x \<le> oc_value p" "x \<noteq> obol_ZERO"
  shows "pot_delta_shrink L c txid tx st =
    (st\<lparr>ix_pot := Some \<lparr>oc_state = PotState, oc_outpoint = OutPoint txid vout,
                       oc_value = Obol (sat_sub (obol_raw (oc_value p)) (obol_raw x))\<rparr>\<rparr>, [], Some x)"
proof -
  have "obol_checked_sub (oc_value p) (Obol (sat_sub (obol_raw (oc_value p)) (obol_raw x))) = Inr x"
    using assms(3) by (simp add: obol_amt.csub_Inr_iff less_eq_obol_def word_le_nat_alt)
  then show ?thesis
    by (simp add: pot_delta_shrink_def assms(1) follow_pot_ok[OF assms(2)] obol_pos[OF assms(4)])
qed

lemma pot_delta_grow_ok:
  assumes "ix_pot st = Some p"
    "hits tx (pot_spk L (cx_artifacts c)) (pr_obol (cx_params c)) = [(vout, sat_add (obol_raw (oc_value p)) (obol_raw x))]"
    "sane_amounts [obol_raw (oc_value p), obol_raw x]" "x \<noteq> obol_ZERO"
  shows "pot_delta_grow L c txid tx st =
    (st\<lparr>ix_pot := Some \<lparr>oc_state = PotState, oc_outpoint = OutPoint txid vout,
                       oc_value = Obol (sat_add (obol_raw (oc_value p)) (obol_raw x))\<rparr>\<rparr>, [], Some x)"
proof -
  have "obol_checked_sub (Obol (sat_add (obol_raw (oc_value p)) (obol_raw x))) (oc_value p) = Inr x"
    by (simp add: obol_amt.csub_Inr_iff sat_add_sane[OF assms(3)])
  then show ?thesis
    by (simp add: pot_delta_grow_def assms(1) follow_pot_ok[OF assms(2)] obol_pos[OF assms(4)])
qed

text \<open>A script of a wallet: not one of the two constant protocol addresses.\<close>

definition wallet_spk :: "'p library \<Rightarrow> 'p ctx \<Rightarrow> script \<Rightarrow> bool" where
  "wallet_spk L c spk \<longleftrightarrow> spk \<noteq> pot_spk L (cx_artifacts c) \<and> spk \<noteq> stability_spk L (cx_artifacts c)"

lemma refresh_height_ok:
  assumes dep: "deployed L c"
    and out: "first_elem (tx_output tx) = Some (txout val (vault_spk L (cx_artifacts c) s) (pr_policy (cx_params c)))"
    and tv: "tv_owner tv = Some (vs_owner s)" "tv_debt tv = vs_debt s" "tv_last_height tv < vs_last_height s"
    and cap: "cap = height_raw (vs_last_height s)"
  shows "refresh_height L c tv cap tx = Some (vs_last_height s)"
proof -
  have le: "unat (sat_add (height_raw (tv_last_height tv)) 1) \<le> unat cap"
    using tv(3) unat_lt_u32[of cap]
    by (simp add: cap less_block_height_def word_less_nat_alt unat_sat_add min_def)
  show ?thesis
    unfolding refresh_height_def
    by (simp add: out tv)
      (rule scan_down_Some[OF le order_refl], cases s, auto simp: deployed_inject[OF dep] cap)
qed

section \<open>One lemma per operation\<close>

lemmas confirm_simps = confirms_def input_index_prev vault_inputs_prev locate_defs apply_events_def

lemma index_poke:
  assumes dep: "deployed L c" and tr: "tracks st ps" and b: "poke L c (ps_issuer ps) i = Inr b"
    and tx: "confirms L (bt_plan b) tx" and h: "ot_height (pk_tick i) \<le> BlockHeight height"
    and coins: "untracked st (fc_outpoint (pk_funding i))"
  shows "apply_events L c owners height tx st =
    (st\<lparr>ix_issuer := Some (pd_issuer (bt_expected b))\<rparr>, [Poked (ot_height (pk_tick i))])"
proof -
  from b have be: "b = poke_unchecked L c (ps_issuer ps) i"
    and anchor: "is_last_mint_height (oc_state (ps_issuer ps)) \<le> ot_height (pk_tick i)"
    by (simp_all add: poke_Inr_iff)
  note D = tracksD[OF tr] untrackedD[OF coins tr] deployed_simps[OF dep]
  have body: "tx_output tx = tx_output (pl_tx (bt_plan b))" "tx_lock_time tx = height_raw (ot_height (pk_tick i))"
    "map ti_previous_output (tx_input tx) = [oc_outpoint (ps_issuer ps), fc_outpoint (pk_funding i)]"
    "lb_txid L tx = plan_txid L (bt_plan b)"
    using tx by (simp_all add: confirms_def be poke_unchecked_def Let_def)
  have anchor: "resolve_anchor L c height (ps_issuer ps) tx = Some (ot_height (pk_tick i), 0)"
    using resolve_anchor_tick[OF dep, of tx "height_raw (ot_height (pk_tick i))" 0 height "ps_issuer ps"] h anchor
    by (simp add: D hits_hits_from body be poke_unchecked_def Let_def less_eq_block_height_def)
  show ?thesis
    by (simp add: D apply_events_def input_index_prev vault_inputs_prev body issuer_op_def anchor Let_def)
      (simp add: be poke_unchecked_def Let_def)
qed

lemma index_refresh:
  assumes dep: "deployed L c" and tr: "tracks st ps" and v: "tracks_vault st v tv"
    and b: "refresh L c v i = Inr b" and tx: "confirms L (bt_plan b) tx"
    and h: "ot_height (rf_tick i) \<le> BlockHeight height"
    and coins: "untracked st (fc_outpoint (rf_fee_coin i))"
  shows "apply_events L c owners height tx st =
    (st\<lparr>ix_vaults := fmupd (oc_outpoint (fd_vault (bt_expected b))) (tv_of L c (fd_vault (bt_expected b)))
                      (fmdrop (oc_outpoint v) (ix_vaults st))\<rparr>,
     [Refreshed (oc_outpoint v) (oc_outpoint (fd_vault (bt_expected b))) (ot_height (rf_tick i))])"
proof -
  from b have be: "b = refresh_unchecked L c v i" and newer: "vs_last_height (oc_state v) < ot_height (rf_tick i)"
    by (auto simp: refresh_Inr_iff)
  note D = tracksD[OF tr] untrackedD[OF coins tr] vault_ne_tracked[OF v tr] tracks_vaultD[OF v]
  let ?v = "fd_vault (bt_expected b)"
  have body: "tx_lock_time tx = height_raw (ot_height (rf_tick i))"
    "map ti_previous_output (tx_input tx) = [oc_outpoint v, fc_outpoint (rf_fee_coin i)]"
    "lb_txid L tx = plan_txid L (bt_plan b)" "length (tx_input tx) = 2"
    and out: "first_elem (tx_output tx) = Some (txout (sats_raw (oc_value ?v))
      (vault_spk L (cx_artifacts c) (oc_state ?v)) (pr_policy (cx_params c)))"
    using tx confirms_length[OF tx] by (simp_all add: confirms_def be refresh_unchecked_def Let_def)
  have ex: "oc_state ?v = (oc_state v)\<lparr>vs_last_height := ot_height (rf_tick i)\<rparr>" "oc_outpoint ?v = OutPoint (plan_txid L (bt_plan b)) 0"
    by (simp_all add: be refresh_unchecked_def Let_def)
  have min: "min (height_raw (ot_height (rf_tick i))) height = height_raw (ot_height (rf_tick i))"
    using h by (simp add: less_eq_block_height_def min_def)
  have rh: "refresh_height L c tv (height_raw (ot_height (rf_tick i))) tx = Some (ot_height (rf_tick i))"
    using refresh_height_ok[OF dep out, of tv "height_raw (ot_height (rf_tick i))"] newer by (simp add: D ex)
  note vs = vault_successor_ok[OF out, of "tv\<lparr>tv_last_height := ot_height (rf_tick i)\<rparr>" "plan_txid L (bt_plan b)"]
  show ?thesis
    by (simp add: D apply_events_def input_index_prev vault_inputs_prev body vault_op_def rh min Let_def)
      (simp add: vs D ex)
qed

lemma first_some_sound: "first_some f xs = Some r \<Longrightarrow> \<exists>x \<in> set xs. f x = Some r"
  by (induction xs) (auto split: option.splits)

lemma scan_witness_matches: "scan_witness_for_owner L tx n matches = Some pk \<Longrightarrow> matches pk"
  by (auto simp: scan_witness_for_owner_def scan_element_def split: if_splits option.splits dest!: first_some_sound)

text \<open>
  An OPEN tells the indexer its owner when the owner is in the indexer's list, or when the key can be
  read off the witness of the issuer input (input 1), at any bit offset of a stack element of a
  length the scan looks at.
\<close>

definition witness_shows :: "'p library \<Rightarrow> transaction \<Rightarrow> nat \<Rightarrow> xonly \<Rightarrow> bool" where
  "witness_shows L tx n own \<longleftrightarrow> n < length (tx_input tx) \<and>
     (\<exists>e \<in> set (tiw_script_witness (ti_witness (tx_input tx ! n))). 32 \<le> length e \<and> length e \<le> OWNER_SCAN_MAX_ELEMENT \<and>
        (\<exists>b \<le> length e * 8 - 256. lb_xonly L (bit_window e b) = Some own))"

definition owner_visible :: "'p library \<Rightarrow> xonly list \<Rightarrow> xonly \<Rightarrow> transaction \<Rightarrow> bool" where
  "owner_visible L owners own tx \<longleftrightarrow> own \<in> set owners \<or> witness_shows L tx 1 own"

lemma first_some_complete: "\<lbrakk>x \<in> set xs; f x \<noteq> None\<rbrakk> \<Longrightarrow> first_some f xs \<noteq> None"
  by (induction xs) (auto split: option.splits)

lemma scan_witness_complete:
  assumes "witness_shows L tx n own" "matches own"
  shows "scan_witness_for_owner L tx n matches \<noteq> None"
proof -
  from assms(1) obtain e b where e: "e \<in> set (tiw_script_witness (ti_witness (tx_input tx ! n)))" "32 \<le> length e"
      "length e \<le> OWNER_SCAN_MAX_ELEMENT"
    and b: "b \<le> length e * 8 - 256" "lb_xonly L (bit_window e b) = Some own" and n: "n < length (tx_input tx)"
    by (auto simp: witness_shows_def)
  have "scan_element L matches e \<noteq> None"
    unfolding scan_element_def by (rule first_some_complete[of b]) (use b assms(2) in auto)
  then show ?thesis
    using n e first_some_complete[of e _ "scan_element L matches"] by (simp add: scan_witness_for_owner_def)
qed

lemma find_owner_candidate:
  assumes "\<And>k. matches k \<longleftrightarrow> k = own"
  shows "find matches owners = (if own \<in> set owners then Some own else None)"
  using assms by (induction owners) auto

lemma index_open:
  assumes dep: "deployed L c" and tr: "tracks st ps" and b: "open_vault L c ps i = Inr b"
    and tx: "confirms L (bt_plan b) tx" and h: "ot_height (op_tick i) \<le> BlockHeight height"
    and coins: "untracked st (fc_outpoint (op_funding i))" and spks: "wallet_spk L c (op_borrower_spk i)"
  shows "\<exists>owner. apply_events L c owners height tx st =
    (st\<lparr>ix_issuer := Some (od_issuer (bt_expected b)), ix_pot := Some (od_pot (bt_expected b)),
        ix_reserve := Some (od_reserve (bt_expected b)),
        ix_vaults := fmupd (oc_outpoint (od_vault (bt_expected b)))
          ((tv_of L c (od_vault (bt_expected b)))\<lparr>tv_owner := owner\<rparr>) (ix_vaults st)\<rparr>,
     [Opened (oc_outpoint (od_vault (bt_expected b))) (op_principal i) (op_collateral i) (ot_height (op_tick i)) owner]) \<and>
    owner \<in> {None, Some (op_owner i)} \<and> (owner_visible L owners (op_owner i) tx \<longrightarrow> owner = Some (op_owner i))"
proof -
  from b obtain cents where be: "b = open_unchecked L c ps i (coll_at_cr cents (tick_lo (op_tick i)) K_FEE_HALF_PERCENT)"
    and acc: "is_last_mint_height (oc_state (ps_issuer ps)) \<le> ot_height (op_tick i)"
      "op_principal i \<noteq> obol_ZERO" "op_principal i \<le> oc_value (ps_pot ps)"
    by (auto simp: open_Inr_iff)
  note D = tracksD[OF tr] untrackedD[OF coins tr] deployed_simps[OF dep]
  let ?e = "bt_expected b" and ?t = "ot_height (op_tick i)" and ?id = "plan_txid L (bt_plan b)"
  let ?r = "sat_add (sats_raw (oc_value (ps_reserve ps)))
      (sats_raw (coll_at_cr cents (tick_lo (op_tick i)) K_FEE_HALF_PERCENT))"
  have body: "tx_output tx = tx_output (pl_tx (bt_plan b))" "tx_lock_time tx = height_raw ?t"
    "map ti_previous_output (tx_input tx) = [oc_outpoint (ps_pot ps), oc_outpoint (ps_issuer ps),
       fc_outpoint (op_funding i), oc_outpoint (ps_reserve ps)]"
    "lb_txid L tx = ?id"
    using tx by (simp_all add: confirms_def be open_unchecked_def Let_def)
  have hits: "hits tx (issuer_spk L (cx_artifacts c) \<lparr>is_last_mint_height = k\<rparr>) (pr_issuer_token (cx_params c)) =
      (if k = ?t then [(4, 1)] else [])"
    "hits tx (pot_spk L (cx_artifacts c)) (pr_obol (cx_params c)) =
      [(1, sat_sub (obol_raw (oc_value (ps_pot ps))) (obol_raw (op_principal i)))]"
    "hits tx (stability_spk L (cx_artifacts c)) (pr_policy (cx_params c)) = [(3, ?r)]" for k
    using spks by (simp_all add: D hits_hits_from body be open_unchecked_def Let_def wallet_spk_def)
  have anchor: "resolve_anchor L c height (ps_issuer ps) tx = Some (?t, 4)"
    using resolve_anchor_tick[OF dep, of tx "height_raw ?t" 4 height "ps_issuer ps"] h acc(1)
    by (simp add: hits body less_eq_block_height_def)
  define matches where "matches = (\<lambda>cand. vault_spk L (cx_artifacts c)
      \<lparr>vs_debt = op_principal i, vs_owner = cand, vs_last_height = ?t\<rparr> = vault_spk L (cx_artifacts c) (oc_state (od_vault ?e)))"
  have m: "matches k \<longleftrightarrow> k = op_owner i" for k
    by (simp add: matches_def D be open_unchecked_def Let_def)
  define owner where "owner = (case find matches owners of
      Some o' \<Rightarrow> Some o' | None \<Rightarrow> scan_witness_for_owner L tx (Suc 0) matches)"
  have out: "first_elem (tx_output tx) = Some (txout (sats_raw (op_collateral i))
      (vault_spk L (cx_artifacts c) (oc_state (od_vault ?e))) (pr_policy (cx_params c)))"
    by (simp add: body be open_unchecked_def Let_def)
  have ex: "od_vault ?e = \<lparr>oc_state = \<lparr>vs_debt = op_principal i, vs_owner = op_owner i, vs_last_height = ?t\<rparr>,
        oc_outpoint = OutPoint ?id 0, oc_value = op_collateral i\<rparr>"
    "od_pot ?e = \<lparr>oc_state = PotState, oc_outpoint = OutPoint ?id 1,
        oc_value = Obol (sat_sub (obol_raw (oc_value (ps_pot ps))) (obol_raw (op_principal i)))\<rparr>"
    "od_issuer ?e = \<lparr>oc_state = \<lparr>is_last_mint_height = ?t\<rparr>, oc_outpoint = OutPoint ?id 4, oc_value = 1\<rparr>"
    "od_reserve ?e = \<lparr>oc_state = ReserveState, oc_outpoint = OutPoint ?id 3, oc_value = Sats ?r\<rparr>"
    by (simp_all add: be open_unchecked_def Let_def)
  have born: "vault_born L c owners ?id (Suc 0) (op_principal i) ?t tx s =
      (s\<lparr>ix_vaults := fmupd (oc_outpoint (od_vault ?e)) ((tv_of L c (od_vault ?e))\<lparr>tv_owner := owner\<rparr>) (ix_vaults s)\<rparr>,
       [Opened (oc_outpoint (od_vault ?e)) (op_principal i) (op_collateral i) ?t owner])" for s
    unfolding vault_born_def out option.case explicit_txout txout_sel Let_def owner_def matches_def
    by (simp add: ex tv_of_def)
  have "apply_events L c owners height tx st =
    (st\<lparr>ix_issuer := Some (od_issuer ?e), ix_pot := Some (od_pot ?e), ix_reserve := Some (od_reserve ?e),
        ix_vaults := fmupd (oc_outpoint (od_vault ?e)) ((tv_of L c (od_vault ?e))\<lparr>tv_owner := owner\<rparr>) (ix_vaults st)\<rparr>,
     [Opened (oc_outpoint (od_vault ?e)) (op_principal i) (op_collateral i) ?t owner])"
    using acc
    by (simp add: D apply_events_def input_index_prev vault_inputs_prev body issuer_op_def anchor Let_def
        pot_delta_shrink_ok[where p = "ps_pot ps", OF _ hits(2)] follow_reserve_ok[OF hits(3)] born)
      (simp add: ex)
  moreover have "owner \<in> {None, Some (op_owner i)} \<and> (owner_visible L owners (op_owner i) tx \<longrightarrow> owner = Some (op_owner i))"
    using scan_witness_matches[of L tx "Suc 0" matches] scan_witness_complete[of L tx "Suc 0" "op_owner i" matches] m
    by (cases "scan_witness_for_owner L tx (Suc 0) matches") (auto simp: owner_def owner_visible_def find_owner_candidate[OF m] split: if_splits)
  ultimately show ?thesis by blast
qed

lemma index_draw:
  assumes dep: "deployed L c" and tr: "tracks st ps" and v: "tracks_vault st v tv"
    and b: "draw L c ps v i = Inr b" and tx: "confirms L (bt_plan b) tx"
    and h: "ot_height (dr_tick i) \<le> BlockHeight height" and spks: "wallet_spk L c (dr_borrower_spk i)"
  shows "apply_events L c owners height tx st =
    (st\<lparr>ix_issuer := Some (dd_issuer (bt_expected b)), ix_pot := Some (dd_pot (bt_expected b)),
        ix_vaults := fmupd (oc_outpoint (dd_vault (bt_expected b))) (tv_of L c (dd_vault (bt_expected b)))
          (fmdrop (oc_outpoint v) (ix_vaults st))\<rparr>,
     [Drawn (oc_outpoint v) (oc_outpoint (dd_vault (bt_expected b))) (dr_amount i)])"
proof -
  from b have be: "b = draw_unchecked L c ps v i"
    and acc: "is_last_mint_height (oc_state (ps_issuer ps)) \<le> ot_height (dr_tick i)"
      "dr_amount i \<noteq> obol_ZERO" "dr_amount i \<le> oc_value (ps_pot ps)"
    by (auto simp: draw_Inr_iff)
  note D = tracksD[OF tr] vault_ne_tracked[OF v tr] tracks_vaultD[OF v] deployed_simps[OF dep]
  let ?e = "bt_expected b" and ?t = "ot_height (dr_tick i)" and ?id = "plan_txid L (bt_plan b)"
  have body: "tx_output tx = tx_output (pl_tx (bt_plan b))" "tx_lock_time tx = height_raw ?t"
    "map ti_previous_output (tx_input tx) = [oc_outpoint v, oc_outpoint (ps_pot ps), oc_outpoint (ps_issuer ps)]"
    "lb_txid L tx = ?id"
    using tx by (simp_all add: confirms_def be draw_unchecked_def Let_def)
  have hits: "hits tx (issuer_spk L (cx_artifacts c) \<lparr>is_last_mint_height = k\<rparr>) (pr_issuer_token (cx_params c)) =
      (if k = ?t then [(3, 1)] else [])"
    "hits tx (pot_spk L (cx_artifacts c)) (pr_obol (cx_params c)) =
      [(1, sat_sub (obol_raw (oc_value (ps_pot ps))) (obol_raw (dr_amount i)))]" for k
    using spks by (simp_all add: D hits_hits_from body be draw_unchecked_def Let_def wallet_spk_def)
  have anchor: "resolve_anchor L c height (ps_issuer ps) tx = Some (?t, 3)"
    using resolve_anchor_tick[OF dep, of tx "height_raw ?t" 3 height "ps_issuer ps"] h acc(1)
    by (simp add: hits body less_eq_block_height_def)
  have out: "first_elem (tx_output tx) = Some (txout (sats_raw (oc_value (dd_vault ?e)))
      (vault_spk L (cx_artifacts c) (oc_state (dd_vault ?e))) (pr_policy (cx_params c)))"
    by (simp add: body be draw_unchecked_def Let_def)
  have ex: "oc_state (dd_vault ?e) = \<lparr>vs_debt = Obol (sat_add (obol_raw (vs_debt (oc_state v))) (obol_raw (dr_amount i))),
        vs_owner = vs_owner (oc_state v), vs_last_height = ?t\<rparr>" "oc_outpoint (dd_vault ?e) = OutPoint ?id 0"
    "dd_pot ?e = \<lparr>oc_state = PotState, oc_outpoint = OutPoint ?id 1,
        oc_value = Obol (sat_sub (obol_raw (oc_value (ps_pot ps))) (obol_raw (dr_amount i)))\<rparr>"
    "dd_issuer ?e = \<lparr>oc_state = \<lparr>is_last_mint_height = ?t\<rparr>, oc_outpoint = OutPoint ?id 3, oc_value = 1\<rparr>"
    by (simp_all add: be draw_unchecked_def Let_def)
  show ?thesis
    using acc
    by (simp add: D apply_events_def input_index_prev vault_inputs_prev body issuer_op_def anchor Let_def
        pot_delta_shrink_ok[where p = "ps_pot ps", OF _ hits(2)] vault_successor_ok[OF out] ex)
qed

lemma index_repay:
  assumes dep: "deployed L c" and tr: "tracks st ps" and v: "tracks_vault st v tv"
    and b: "repay L c (ps_pot ps) v i = Inr b" and tx: "confirms L (bt_plan b) tx"
    and coins: "untracked st (oc_coin_outpoint (rp_payer i))" "untracked st (fc_outpoint (rp_fee_coin i))"
    and spks: "wallet_spk L c (rp_payer_change_spk i)" and pos: "rp_amount i \<noteq> obol_ZERO"
    and sane: "sane_amounts [obol_raw (oc_value (ps_pot ps)), obol_raw (rp_amount i)]"
  shows "apply_events L c owners height tx st =
    (st\<lparr>ix_pot := Some (rd_pot (bt_expected b)),
        ix_vaults := fmupd (oc_outpoint (rd_vault (bt_expected b))) (tv_of L c (rd_vault (bt_expected b)))
          (fmdrop (oc_outpoint v) (ix_vaults st))\<rparr>,
     [Repaid (oc_outpoint v) (oc_outpoint (rd_vault (bt_expected b))) (rp_amount i)])"
proof -
  from b have be: "b = repay_unchecked L c (ps_pot ps) v i"
    by (auto simp: repay_Inr_iff)
  note D = tracksD[OF tr] vault_ne_tracked[OF v tr] tracks_vaultD[OF v] deployed_simps[OF dep]
    untrackedD[OF coins(1) tr] untrackedD[OF coins(2) tr]
  let ?e = "bt_expected b" and ?id = "plan_txid L (bt_plan b)"
  have body: "tx_output tx = tx_output (pl_tx (bt_plan b))" "length (tx_input tx) = 4"
    "map ti_previous_output (tx_input tx) = [oc_outpoint v, oc_outpoint (ps_pot ps),
       oc_coin_outpoint (rp_payer i), fc_outpoint (rp_fee_coin i)]"
    "lb_txid L tx = ?id"
    using tx confirms_length[OF tx] by (simp_all add: confirms_def be repay_unchecked_def Let_def)
  have hits: "hits tx (pot_spk L (cx_artifacts c)) (pr_obol (cx_params c)) =
      [(1, sat_add (obol_raw (oc_value (ps_pot ps))) (obol_raw (rp_amount i)))]"
    using spks by (simp add: D hits_hits_from body be repay_unchecked_def Let_def wallet_spk_def)
  have out: "first_elem (tx_output tx) = Some (txout (sats_raw (oc_value (rd_vault ?e)))
      (vault_spk L (cx_artifacts c) (oc_state (rd_vault ?e))) (pr_policy (cx_params c)))"
    by (simp add: body be repay_unchecked_def Let_def)
  have sum: "obol_raw (oc_value (ps_pot ps)) + obol_raw (rp_amount i) =
      sat_add (obol_raw (oc_value (ps_pot ps))) (obol_raw (rp_amount i))"
    using sane by (simp add: sat_add_def)
  have ex: "oc_state (rd_vault ?e) = (oc_state v)\<lparr>vs_debt := Obol (sat_sub (obol_raw (vs_debt (oc_state v))) (obol_raw (rp_amount i)))\<rparr>"
    "oc_outpoint (rd_vault ?e) = OutPoint ?id 0"
    "rd_pot ?e = \<lparr>oc_state = PotState, oc_outpoint = OutPoint ?id 1,
        oc_value = Obol (sat_add (obol_raw (oc_value (ps_pot ps))) (obol_raw (rp_amount i)))\<rparr>"
    by (simp_all add: be repay_unchecked_def Let_def sum)
  show ?thesis
    using pos sane
    by (simp add: D apply_events_def input_index_prev vault_inputs_prev body vault_op_def Let_def
        pot_delta_grow_ok[where p = "ps_pot ps", OF _ hits] vault_successor_ok[OF out] ex)
qed

lemma index_close:
  assumes dep: "deployed L c" and tr: "tracks st ps" and v: "tracks_vault st v tv"
    and b: "close L c (ps_pot ps) v i = Inr b" and tx: "confirms L (bt_plan b) tx"
    and coins: "untracked st (oc_coin_outpoint (cl_payer i))" and spks: "wallet_spk L c (cl_payer_change_spk i)"
    and sane: "sane_amounts [obol_raw (oc_value (ps_pot ps)), obol_raw (vs_debt (oc_state v))]"
  shows "apply_events L c owners height tx st =
    (st\<lparr>ix_pot := Some (cd_pot (bt_expected b)), ix_vaults := fmdrop (oc_outpoint v) (ix_vaults st)\<rparr>,
     [Closed (oc_outpoint v)])"
proof -
  from b have be: "b = close_unchecked L c (ps_pot ps) v i"
    by (auto simp: close_Inr_iff)
  note D = tracksD[OF tr] vault_ne_tracked[OF v tr] tracks_vaultD[OF v] deployed_simps[OF dep]
    untrackedD[OF coins tr]
  let ?e = "bt_expected b" and ?id = "plan_txid L (bt_plan b)"
  let ?sum = "sat_add (obol_raw (oc_value (ps_pot ps))) (obol_raw (vs_debt (oc_state v)))"
  have body: "tx_output tx = tx_output (pl_tx (bt_plan b))" "length (tx_input tx) = 3"
    "map ti_previous_output (tx_input tx) = [oc_outpoint v, oc_outpoint (ps_pot ps), oc_coin_outpoint (cl_payer i)]"
    "lb_txid L tx = ?id"
    using tx confirms_length[OF tx] by (simp_all add: confirms_def be close_unchecked_def Let_def)
  have hits: "hits tx (pot_spk L (cx_artifacts c)) (pr_obol (cx_params c)) = [(1, ?sum)]"
    using spks by (simp add: D hits_hits_from body be close_unchecked_def Let_def wallet_spk_def)
  have sum: "obol_raw (oc_value (ps_pot ps)) + obol_raw (vs_debt (oc_state v)) = ?sum"
    using sane by (simp add: sat_add_def)
  have ex: "cd_pot ?e = \<lparr>oc_state = PotState, oc_outpoint = OutPoint ?id 1, oc_value = Obol ?sum\<rparr>"
    by (simp add: be close_unchecked_def Let_def sum)
  show ?thesis
    by (simp add: D apply_events_def input_index_prev vault_inputs_prev body vault_op_def Let_def
        follow_pot_ok[OF hits] ex)
qed

lemma index_liquidate:
  assumes dep: "deployed L c" and tr: "tracks st ps" and v: "tracks_vault st v tv"
    and b: "liquidate L c ps v i = Inr b" and tx: "confirms L (bt_plan b) tx"
    and coins: "untracked st (oc_coin_outpoint (lq_keeper i))"
    and spks: "wallet_spk L c (lq_keeper_spk i)" "wallet_spk L c (lq_obol_change_spk i)"
    and sane: "sane_amounts [obol_raw (oc_value (ps_pot ps))]"
  shows "apply_events L c owners height tx st =
    (st\<lparr>ix_pot := Some (ld_pot (bt_expected b)), ix_reserve := Some (ld_reserve (bt_expected b)),
        ix_vaults := fmupd (oc_outpoint (ld_vault (bt_expected b))) (tv_of L c (ld_vault (bt_expected b)))
          (fmdrop (oc_outpoint v) (ix_vaults st))\<rparr>,
     [Deleveraged (oc_outpoint v) (oc_outpoint (ld_vault (bt_expected b))) (lq_dd i)])"
proof -
  from b obtain cents where be: "b = liquidate_unchecked L c ps v i" and cents: "covenant_cents (lq_dd i) = Inr cents"
    and pos: "lq_dd i \<noteq> obol_ZERO"
    by (auto simp: liquidate_Inr_iff)
  note D = tracksD[OF tr] vault_ne_tracked[OF v tr] tracks_vaultD[OF v] deployed_simps[OF dep]
    untrackedD[OF coins tr]
  let ?e = "bt_expected b" and ?id = "plan_txid L (bt_plan b)"
  let ?pot = "sat_add (obol_raw (oc_value (ps_pot ps))) (obol_raw (lq_dd i))"
  have body: "tx_output tx = tx_output (pl_tx (bt_plan b))" "length (tx_input tx) = 4"
    "map ti_previous_output (tx_input tx) = [oc_outpoint v, oc_outpoint (ps_pot ps),
       oc_coin_outpoint (lq_keeper i), oc_outpoint (ps_reserve ps)]"
    "lb_txid L tx = ?id"
    using tx confirms_length[OF tx] by (simp_all add: confirms_def be liquidate_unchecked_def Let_def)
  have hits: "hits tx (pot_spk L (cx_artifacts c)) (pr_obol (cx_params c)) = [(1, ?pot)]"
    "hits tx (stability_spk L (cx_artifacts c)) (pr_policy (cx_params c)) = [(3, sats_raw (oc_value (ld_reserve ?e)))]"
    using spks by (simp_all add: D hits_hits_from body be liquidate_unchecked_def Let_def wallet_spk_def)
  have out: "first_elem (tx_output tx) = Some (txout (sats_raw (oc_value (ld_vault ?e)))
      (vault_spk L (cx_artifacts c) (oc_state (ld_vault ?e))) (pr_policy (cx_params c)))"
    by (simp add: body be liquidate_unchecked_def Let_def)
  have ex: "oc_state (ld_vault ?e) = (oc_state v)\<lparr>vs_debt := Obol (sat_sub (obol_raw (vs_debt (oc_state v))) (obol_raw (lq_dd i)))\<rparr>"
    "oc_outpoint (ld_vault ?e) = OutPoint ?id 0"
    "ld_pot ?e = \<lparr>oc_state = PotState, oc_outpoint = OutPoint ?id 1, oc_value = Obol ?pot\<rparr>"
    and exr: "\<lparr>oc_state = ReserveState, oc_outpoint = OutPoint ?id 3, oc_value = oc_value (ld_reserve ?e)\<rparr> = ld_reserve ?e"
    by (simp_all add: be liquidate_unchecked_def Let_def)
  have there: "spk_at_output0 tx (vault_spk L (cx_artifacts c) (oc_state (ld_vault ?e))) (pr_policy (cx_params c))"
    by (simp add: spk_at_output0_def out)
  have st: "\<lparr>vs_debt = Obol (sat_sub (obol_raw (vs_debt (oc_state v))) (obol_raw (lq_dd i))), vs_owner = vs_owner (oc_state v),
      vs_last_height = vs_last_height (oc_state v)\<rparr> = oc_state (ld_vault ?e)"
    by (simp add: ex)
  show ?thesis
    using pos sane cents_sane[OF cents]
    by (simp add: D apply_events_def input_index_prev vault_inputs_prev body vault_op_def Let_def st there
        pot_delta_grow_ok[where p = "ps_pot ps", OF _ hits(1)] follow_reserve_ok[OF hits(2)]
        exr)
      (simp add: ex D vault_successor_ok[OF out])
qed

lemma index_redeem:
  assumes dep: "deployed L c" and tr: "tracks st ps" and v: "tracks_vault st v tv"
    and b: "redeem L c ps v i = Inr b" and tx: "confirms L (bt_plan b) tx"
    and coins: "untracked st (oc_coin_outpoint (rd_redeemer i))"
    and spks: "wallet_spk L c (rd_redeemer_spk i)" "wallet_spk L c (rd_obol_change_spk i)"
    and sane: "sane_amounts [obol_raw (oc_value (ps_pot ps))]"
  shows "apply_events L c owners height tx st =
    (st\<lparr>ix_pot := Some (xd_pot (bt_expected b)), ix_reserve := Some (xd_reserve (bt_expected b)),
        ix_vaults := fmupd (oc_outpoint (xd_vault (bt_expected b))) (tv_of L c (xd_vault (bt_expected b)))
          (fmdrop (oc_outpoint v) (ix_vaults st))\<rparr>,
     [Deleveraged (oc_outpoint v) (oc_outpoint (xd_vault (bt_expected b))) (rd_x i)])"
proof -
  from b obtain cents where be: "b = redeem_unchecked L c ps v i" and cents: "covenant_cents (rd_x i) = Inr cents"
    and pos: "rd_x i \<noteq> obol_ZERO"
    by (auto simp: redeem_Inr_iff)
  note D = tracksD[OF tr] vault_ne_tracked[OF v tr] tracks_vaultD[OF v] deployed_simps[OF dep]
    untrackedD[OF coins tr]
  let ?e = "bt_expected b" and ?id = "plan_txid L (bt_plan b)"
  let ?pot = "sat_add (obol_raw (oc_value (ps_pot ps))) (obol_raw (rd_x i))"
  have body: "tx_output tx = tx_output (pl_tx (bt_plan b))" "length (tx_input tx) = 4"
    "map ti_previous_output (tx_input tx) = [oc_outpoint v, oc_outpoint (ps_pot ps),
       oc_coin_outpoint (rd_redeemer i), oc_outpoint (ps_reserve ps)]"
    "lb_txid L tx = ?id"
    using tx confirms_length[OF tx] by (simp_all add: confirms_def be redeem_unchecked_def Let_def)
  have hits: "hits tx (pot_spk L (cx_artifacts c)) (pr_obol (cx_params c)) = [(1, ?pot)]"
    "hits tx (stability_spk L (cx_artifacts c)) (pr_policy (cx_params c)) = [(3, sats_raw (oc_value (xd_reserve ?e)))]"
    using spks by (simp_all add: D hits_hits_from body be redeem_unchecked_def Let_def wallet_spk_def)
  have out: "first_elem (tx_output tx) = Some (txout (sats_raw (oc_value (xd_vault ?e)))
      (vault_spk L (cx_artifacts c) (oc_state (xd_vault ?e))) (pr_policy (cx_params c)))"
    by (simp add: body be redeem_unchecked_def Let_def)
  have ex: "oc_state (xd_vault ?e) = (oc_state v)\<lparr>vs_debt := Obol (sat_sub (obol_raw (vs_debt (oc_state v))) (obol_raw (rd_x i)))\<rparr>"
    "oc_outpoint (xd_vault ?e) = OutPoint ?id 0"
    "xd_pot ?e = \<lparr>oc_state = PotState, oc_outpoint = OutPoint ?id 1, oc_value = Obol ?pot\<rparr>"
    and exr: "\<lparr>oc_state = ReserveState, oc_outpoint = OutPoint ?id 3, oc_value = oc_value (xd_reserve ?e)\<rparr> = xd_reserve ?e"
    by (simp_all add: be redeem_unchecked_def Let_def)
  have there: "spk_at_output0 tx (vault_spk L (cx_artifacts c) (oc_state (xd_vault ?e))) (pr_policy (cx_params c))"
    by (simp add: spk_at_output0_def out)
  have st: "\<lparr>vs_debt = Obol (sat_sub (obol_raw (vs_debt (oc_state v))) (obol_raw (rd_x i))), vs_owner = vs_owner (oc_state v),
      vs_last_height = vs_last_height (oc_state v)\<rparr> = oc_state (xd_vault ?e)"
    by (simp add: ex)
  show ?thesis
    using pos sane cents_sane[OF cents]
    by (simp add: D apply_events_def input_index_prev vault_inputs_prev body vault_op_def Let_def st there
        pot_delta_grow_ok[where p = "ps_pot ps", OF _ hits(1)] follow_reserve_ok[OF hits(2)]
        exr)
      (simp add: ex D vault_successor_ok[OF out])
qed

lemma index_full_liq:
  assumes dep: "deployed L c" and tr: "tracks st ps" and v: "tracks_vault st v tv"
    and b: "full_liq L c ps v i = Inr b" and tx: "confirms L (bt_plan b) tx"
    and coins: "untracked st (oc_coin_outpoint (fl_keeper i))"
    and spks: "wallet_spk L c (fl_keeper_spk i)" "wallet_spk L c (fl_obol_change_spk i)"
      "\<And>s. fl_keeper_spk i \<noteq> vault_spk L (cx_artifacts c) s"
    and pos: "vs_debt (oc_state v) \<noteq> obol_ZERO"
    and sane: "sane_amounts [obol_raw (oc_value (ps_pot ps))]"
  shows "apply_events L c owners height tx st =
    (st\<lparr>ix_pot := Some (ud_pot (bt_expected b)), ix_reserve := Some (ud_reserve (bt_expected b)),
        ix_vaults := fmdrop (oc_outpoint v) (ix_vaults st)\<rparr>,
     [FullyLiquidated (oc_outpoint v)])"
proof -
  from b obtain cents where be: "b = full_liq_unchecked L c ps v i" and cents: "covenant_cents (vs_debt (oc_state v)) = Inr cents"
    by (auto simp: full_liq_Inr_iff)
  note D = tracksD[OF tr] vault_ne_tracked[OF v tr] tracks_vaultD[OF v] deployed_simps[OF dep]
    untrackedD[OF coins tr]
  let ?e = "bt_expected b" and ?id = "plan_txid L (bt_plan b)"
  let ?pot = "sat_add (obol_raw (oc_value (ps_pot ps))) (obol_raw (vs_debt (oc_state v)))"
  have body: "tx_output tx = tx_output (pl_tx (bt_plan b))" "length (tx_input tx) = 4"
    "map ti_previous_output (tx_input tx) = [oc_outpoint v, oc_outpoint (ps_pot ps),
       oc_coin_outpoint (fl_keeper i), oc_outpoint (ps_reserve ps)]"
    "lb_txid L tx = ?id"
    using tx confirms_length[OF tx] by (simp_all add: confirms_def be full_liq_unchecked_def Let_def)
  have hits: "hits tx (pot_spk L (cx_artifacts c)) (pr_obol (cx_params c)) = [(1, ?pot)]"
    "hits tx (stability_spk L (cx_artifacts c)) (pr_policy (cx_params c)) = [(3, sats_raw (oc_value (ud_reserve ?e)))]"
    using spks by (simp_all add: D hits_hits_from body be full_liq_unchecked_def Let_def wallet_spk_def)
  have gone: "\<not> spk_at_output0 tx (vault_spk L (cx_artifacts c) s) (pr_policy (cx_params c))" for s
    using spks(3) by (simp add: spk_at_output0_def body be full_liq_unchecked_def Let_def)
  have ex: "ud_pot ?e = \<lparr>oc_state = PotState, oc_outpoint = OutPoint ?id 1, oc_value = Obol ?pot\<rparr>"
    and exr: "\<lparr>oc_state = ReserveState, oc_outpoint = OutPoint ?id 3, oc_value = oc_value (ud_reserve ?e)\<rparr> = ud_reserve ?e"
    by (simp_all add: be full_liq_unchecked_def Let_def)
  show ?thesis
    using pos sane cents_sane[OF cents]
    by (simp add: D apply_events_def input_index_prev vault_inputs_prev body vault_op_def Let_def gone
        pot_delta_grow_ok[where p = "ps_pot ps", OF _ hits(1)] follow_reserve_ok[OF hits(2)] exr)
      (simp add: ex)
qed

lemma index_bad_debt:
  assumes dep: "deployed L c" and tr: "tracks st ps" and v: "tracks_vault st v tv"
    and b: "bad_debt L c ps v i = Inr b" and tx: "confirms L (bt_plan b) tx"
    and h: "ot_height (bd_tick i) \<le> BlockHeight height"
    and coins: "untracked st (oc_coin_outpoint (bd_keeper i))" "untracked st (fc_outpoint (bd_fee_coin i))"
    and spks: "wallet_spk L c (bd_keeper_spk i)" "wallet_spk L c (bd_obol_change_spk i)" "wallet_spk L c (bd_change_spk i)"
  shows "apply_events L c owners height tx st =
    (st\<lparr>ix_issuer := Some (bdd_issuer (bt_expected b)), ix_pot := Some (bdd_pot (bt_expected b)),
        ix_reserve := Some (bdd_reserve (bt_expected b)), ix_vaults := fmdrop (oc_outpoint v) (ix_vaults st)\<rparr>,
     [BadDebtClosed (oc_outpoint v)])"
proof -
  from b have be: "b = bad_debt_unchecked L c ps v i"
    and acc: "is_last_mint_height (oc_state (ps_issuer ps)) \<le> ot_height (bd_tick i)"
    by (auto simp: bad_debt_Inr_iff)
  note D = tracksD[OF tr] vault_ne_tracked[OF v tr] tracks_vaultD[OF v] deployed_simps[OF dep]
    untrackedD[OF coins(1) tr] untrackedD[OF coins(2) tr]
  let ?e = "bt_expected b" and ?t = "ot_height (bd_tick i)" and ?id = "plan_txid L (bt_plan b)"
  have body: "tx_output tx = tx_output (pl_tx (bt_plan b))" "tx_lock_time tx = height_raw ?t"
    "map ti_previous_output (tx_input tx) = [oc_outpoint v, oc_outpoint (ps_pot ps),
       oc_coin_outpoint (bd_keeper i), oc_outpoint (ps_reserve ps), oc_outpoint (ps_issuer ps), fc_outpoint (bd_fee_coin i)]"
    "lb_txid L tx = ?id"
    using tx by (simp_all add: confirms_def be bad_debt_unchecked_def Let_def)
  have hits: "hits tx (issuer_spk L (cx_artifacts c) \<lparr>is_last_mint_height = k\<rparr>) (pr_issuer_token (cx_params c)) =
      (if k = ?t then [(3, 1)] else [])"
    "hits tx (pot_spk L (cx_artifacts c)) (pr_obol (cx_params c)) = [(1, obol_raw (oc_value (bdd_pot ?e)))]"
    "hits tx (stability_spk L (cx_artifacts c)) (pr_policy (cx_params c)) = [(2, sats_raw (oc_value (bdd_reserve ?e)))]" for k
    using spks by (simp_all add: D hits_hits_from body be bad_debt_unchecked_def Let_def wallet_spk_def)
  have anchor: "resolve_anchor L c height (ps_issuer ps) tx = Some (?t, 3)"
    using resolve_anchor_tick[OF dep, of tx "height_raw ?t" 3 height "ps_issuer ps"] h acc
    by (simp add: hits body less_eq_block_height_def)
  have ex: "\<lparr>oc_state = PotState, oc_outpoint = OutPoint ?id 1, oc_value = oc_value (bdd_pot ?e)\<rparr> = bdd_pot ?e"
    "\<lparr>oc_state = ReserveState, oc_outpoint = OutPoint ?id 2, oc_value = oc_value (bdd_reserve ?e)\<rparr> = bdd_reserve ?e"
    "\<lparr>oc_state = \<lparr>is_last_mint_height = ?t\<rparr>, oc_outpoint = OutPoint ?id 3, oc_value = 1\<rparr> = bdd_issuer ?e"
    by (simp_all add: be bad_debt_unchecked_def Let_def)
  show ?thesis
    by (simp add: D apply_events_def input_index_prev vault_inputs_prev body issuer_op_def anchor Let_def
        follow_pot_ok[OF hits(2)] follow_reserve_ok[OF hits(3)] ex)
qed

lemma index_zero_repay:
  assumes tr: "tracks st ps" and v: "tracks_vault st v tv" and dep: "deployed L c"
    and b: "repay L c (ps_pot ps) v i = Inr b" and tx: "confirms L (bt_plan b) tx"
    and coins: "untracked st (oc_coin_outpoint (rp_payer i))" "untracked st (fc_outpoint (rp_fee_coin i))"
    and spks: "wallet_spk L c (rp_payer_change_spk i)" and zero: "rp_amount i = obol_ZERO"
  shows "fmlookup (ix_vaults (fst (apply_events L c owners height tx st))) (oc_outpoint v) = None \<and>
    fmlookup (ix_vaults (fst (apply_events L c owners height tx st))) (oc_outpoint (rd_vault (bt_expected b))) =
      fmlookup (fmdrop (oc_outpoint v) (ix_vaults st)) (oc_outpoint (rd_vault (bt_expected b))) \<and>
    snd (apply_events L c owners height tx st) =
      [Anomaly ''repayment op without a pot grow'',
       VaultLost (oc_outpoint v) ''REPAY-shaped spend without a pot successor'']"
proof -
  from b have be: "b = repay_unchecked L c (ps_pot ps) v i"
    by (auto simp: repay_Inr_iff)
  note D = tracksD[OF tr] vault_ne_tracked[OF v tr] tracks_vaultD[OF v] deployed_simps[OF dep]
    untrackedD[OF coins(1) tr] untrackedD[OF coins(2) tr]
  have body: "tx_output tx = tx_output (pl_tx (bt_plan b))" "length (tx_input tx) = 4"
    "map ti_previous_output (tx_input tx) = [oc_outpoint v, oc_outpoint (ps_pot ps),
       oc_coin_outpoint (rp_payer i), fc_outpoint (rp_fee_coin i)]"
    using tx confirms_length[OF tx] by (simp_all add: confirms_def be repay_unchecked_def Let_def)
  have same: "sat_add x 0 = x" for x :: u64
    using unat_lt_u64[of x] by (simp add: sat_add_def)
  have hits: "hits tx (pot_spk L (cx_artifacts c)) (pr_obol (cx_params c)) = [(1, obol_raw (oc_value (ps_pot ps)))]"
    using spks by (simp add: D hits_hits_from body be repay_unchecked_def Let_def wallet_spk_def zero obol_ZERO_def same)
  have "obol_checked_sub x x = Inr obol_ZERO" for x
    by (simp add: obol_amt.csub_Inr_iff obol_ZERO_def)
  then have grow: "pot_delta_grow L c txid tx st =
      (st\<lparr>ix_pot := Some \<lparr>oc_state = PotState, oc_outpoint = OutPoint txid 1, oc_value = oc_value (ps_pot ps)\<rparr>\<rparr>,
       [Anomaly ''repayment op without a pot grow''], None)" for txid
    by (simp add: pot_delta_grow_def D follow_pot_ok[OF hits] less_obol_def obol_ZERO_def)
  show ?thesis
    by (simp add: D apply_events_def input_index_prev vault_inputs_prev body vault_op_def Let_def grow mark_lost_def)
qed

end
