(* ===== verification/Styx_System.thy ===== *)
theory Styx_System
  imports Styx_Index_Sim Styx_Pset
begin

text \<open>
  The protocol as a state machine: a ledger of the three singletons and the open vaults, and one
  step per builder. The abstract specification of the whole system is stated over it: the OBOL
  obol_supply is conserved (what is not in the pot is owed by a vault), the mint anchor never moves
  back, and the indexer is a refinement of the ledger, step by step.
\<close>

section \<open>The ledger\<close>

record ledger =
  lg_ps :: protocol_state
  lg_vaults :: "(outpoint, vault_utxo) fmap"

definition lg_idle :: "ledger \<Rightarrow> outpoint \<Rightarrow> bool" where
  "lg_idle s op \<longleftrightarrow> fmlookup (lg_vaults s) op = None \<and>
     op \<notin> {oc_outpoint (ps_pot (lg_ps s)), oc_outpoint (ps_reserve (lg_ps s)), oc_outpoint (ps_issuer (lg_ps s))}"

text \<open>A transaction id is fresh when no outpoint of the ledger belongs to that transaction.\<close>

definition lg_fresh :: "ledger \<Rightarrow> txid \<Rightarrow> bool" where
  "lg_fresh s t \<longleftrightarrow> (\<forall>n. lg_idle s (OutPoint t n))"

definition lg_wf :: "ledger \<Rightarrow> bool" where
  "lg_wf s \<longleftrightarrow>
     distinct [oc_outpoint (ps_pot (lg_ps s)), oc_outpoint (ps_reserve (lg_ps s)), oc_outpoint (ps_issuer (lg_ps s))] \<and>
     fmlookup (lg_vaults s) (oc_outpoint (ps_pot (lg_ps s))) = None \<and>
     fmlookup (lg_vaults s) (oc_outpoint (ps_reserve (lg_ps s))) = None \<and>
     fmlookup (lg_vaults s) (oc_outpoint (ps_issuer (lg_ps s))) = None \<and>
     (\<forall>op v. fmlookup (lg_vaults s) op = Some v \<longrightarrow> oc_outpoint v = op)"

definition put_vault :: "vault_utxo \<Rightarrow> (outpoint, vault_utxo) fmap \<Rightarrow> (outpoint, vault_utxo) fmap" where
  "put_vault v m = fmupd (oc_outpoint v) v m"

text \<open>
  The operations as labels; OPEN carries the owner of the new vault, REPAY its amount and FULL-LIQ
  the debt it covers: what the side condition of the indexer (\<open>followed\<close> below) looks at.
\<close>

datatype op_kind = KOpen xonly | KDraw | KRepay obol | KClose | KRefresh | KPoke | KLiquidate | KRedeem | KFullLiq obol | KBadDebt

text \<open>
  One step of the ledger per builder: whatever intent the builder accepts, on the protocol state and
  on a vault of the ledger. The premises beside the builder's acceptance are those of the chain and
  of an honest wallet: the transaction's id is new, the tick is not from above the block that
  confirms it, the wallet's coins are not outputs of the protocol, and its payout and change scripts
  are not covenant addresses (FULL-LIQ: not a vault address either). There is no condition on
  amounts or on owners here: a REPAY of zero and a FULL-LIQ of a vault without debt are steps.
\<close>

inductive step :: "'p library \<Rightarrow> 'p ctx \<Rightarrow> u32 \<Rightarrow> op_kind \<Rightarrow> ledger \<Rightarrow> tx_plan \<Rightarrow> ledger \<Rightarrow> bool"
  for L c height where
  step_open:
    "\<lbrakk>open_vault L c (lg_ps s) i = Inr b; ot_height (op_tick i) \<le> BlockHeight height;
      lg_idle s (fc_outpoint (op_funding i)); wallet_spk L c (op_borrower_spk i); lg_fresh s (plan_txid L (bt_plan b))\<rbrakk>
     \<Longrightarrow> step L c height (KOpen (op_owner i)) s (bt_plan b)
           (s\<lparr>lg_ps := \<lparr>ps_pot = od_pot (bt_expected b), ps_reserve = od_reserve (bt_expected b),
                       ps_issuer = od_issuer (bt_expected b)\<rparr>,
              lg_vaults := put_vault (od_vault (bt_expected b)) (lg_vaults s)\<rparr>)"
| step_draw:
    "\<lbrakk>draw L c (lg_ps s) v i = Inr b; fmlookup (lg_vaults s) (oc_outpoint v) = Some v;
      ot_height (dr_tick i) \<le> BlockHeight height; wallet_spk L c (dr_borrower_spk i); lg_fresh s (plan_txid L (bt_plan b))\<rbrakk>
     \<Longrightarrow> step L c height KDraw s (bt_plan b)
           (s\<lparr>lg_ps := (lg_ps s)\<lparr>ps_pot := dd_pot (bt_expected b), ps_issuer := dd_issuer (bt_expected b)\<rparr>,
              lg_vaults := put_vault (dd_vault (bt_expected b)) (fmdrop (oc_outpoint v) (lg_vaults s))\<rparr>)"
| step_repay:
    "\<lbrakk>repay L c (ps_pot (lg_ps s)) v i = Inr b; fmlookup (lg_vaults s) (oc_outpoint v) = Some v;
      lg_idle s (oc_coin_outpoint (rp_payer i)); lg_idle s (fc_outpoint (rp_fee_coin i));
      wallet_spk L c (rp_payer_change_spk i); lg_fresh s (plan_txid L (bt_plan b))\<rbrakk>
     \<Longrightarrow> step L c height (KRepay (rp_amount i)) s (bt_plan b)
           (s\<lparr>lg_ps := (lg_ps s)\<lparr>ps_pot := rd_pot (bt_expected b)\<rparr>,
              lg_vaults := put_vault (rd_vault (bt_expected b)) (fmdrop (oc_outpoint v) (lg_vaults s))\<rparr>)"
| step_close:
    "\<lbrakk>close L c (ps_pot (lg_ps s)) v i = Inr b; fmlookup (lg_vaults s) (oc_outpoint v) = Some v;
      lg_idle s (oc_coin_outpoint (cl_payer i)); wallet_spk L c (cl_payer_change_spk i);
      lg_fresh s (plan_txid L (bt_plan b))\<rbrakk>
     \<Longrightarrow> step L c height KClose s (bt_plan b)
           (s\<lparr>lg_ps := (lg_ps s)\<lparr>ps_pot := cd_pot (bt_expected b)\<rparr>,
              lg_vaults := fmdrop (oc_outpoint v) (lg_vaults s)\<rparr>)"
| step_refresh:
    "\<lbrakk>refresh L c v i = Inr b; fmlookup (lg_vaults s) (oc_outpoint v) = Some v;
      ot_height (rf_tick i) \<le> BlockHeight height; lg_idle s (fc_outpoint (rf_fee_coin i));
      lg_fresh s (plan_txid L (bt_plan b))\<rbrakk>
     \<Longrightarrow> step L c height KRefresh s (bt_plan b)
           (s\<lparr>lg_vaults := put_vault (fd_vault (bt_expected b)) (fmdrop (oc_outpoint v) (lg_vaults s))\<rparr>)"
| step_poke:
    "\<lbrakk>poke L c (ps_issuer (lg_ps s)) i = Inr b; ot_height (pk_tick i) \<le> BlockHeight height;
      lg_idle s (fc_outpoint (pk_funding i)); lg_fresh s (plan_txid L (bt_plan b))\<rbrakk>
     \<Longrightarrow> step L c height KPoke s (bt_plan b) (s\<lparr>lg_ps := (lg_ps s)\<lparr>ps_issuer := pd_issuer (bt_expected b)\<rparr>\<rparr>)"
| step_liquidate:
    "\<lbrakk>liquidate L c (lg_ps s) v i = Inr b; fmlookup (lg_vaults s) (oc_outpoint v) = Some v;
      lg_idle s (oc_coin_outpoint (lq_keeper i)); wallet_spk L c (lq_keeper_spk i);
      wallet_spk L c (lq_obol_change_spk i); lg_fresh s (plan_txid L (bt_plan b))\<rbrakk>
     \<Longrightarrow> step L c height KLiquidate s (bt_plan b)
           (s\<lparr>lg_ps := (lg_ps s)\<lparr>ps_pot := ld_pot (bt_expected b), ps_reserve := ld_reserve (bt_expected b)\<rparr>,
              lg_vaults := put_vault (ld_vault (bt_expected b)) (fmdrop (oc_outpoint v) (lg_vaults s))\<rparr>)"
| step_redeem:
    "\<lbrakk>redeem L c (lg_ps s) v i = Inr b; fmlookup (lg_vaults s) (oc_outpoint v) = Some v;
      lg_idle s (oc_coin_outpoint (rd_redeemer i)); wallet_spk L c (rd_redeemer_spk i);
      wallet_spk L c (rd_obol_change_spk i); lg_fresh s (plan_txid L (bt_plan b))\<rbrakk>
     \<Longrightarrow> step L c height KRedeem s (bt_plan b)
           (s\<lparr>lg_ps := (lg_ps s)\<lparr>ps_pot := xd_pot (bt_expected b), ps_reserve := xd_reserve (bt_expected b)\<rparr>,
              lg_vaults := put_vault (xd_vault (bt_expected b)) (fmdrop (oc_outpoint v) (lg_vaults s))\<rparr>)"
| step_full_liq:
    "\<lbrakk>full_liq L c (lg_ps s) v i = Inr b; fmlookup (lg_vaults s) (oc_outpoint v) = Some v;
      lg_idle s (oc_coin_outpoint (fl_keeper i)); wallet_spk L c (fl_keeper_spk i);
      wallet_spk L c (fl_obol_change_spk i); \<forall>st. fl_keeper_spk i \<noteq> vault_spk L (cx_artifacts c) st;
      lg_fresh s (plan_txid L (bt_plan b))\<rbrakk>
     \<Longrightarrow> step L c height (KFullLiq (vs_debt (oc_state v))) s (bt_plan b)
           (s\<lparr>lg_ps := (lg_ps s)\<lparr>ps_pot := ud_pot (bt_expected b), ps_reserve := ud_reserve (bt_expected b)\<rparr>,
              lg_vaults := fmdrop (oc_outpoint v) (lg_vaults s)\<rparr>)"
| step_bad_debt:
    "\<lbrakk>bad_debt L c (lg_ps s) v i = Inr b; fmlookup (lg_vaults s) (oc_outpoint v) = Some v;
      ot_height (bd_tick i) \<le> BlockHeight height; lg_idle s (oc_coin_outpoint (bd_keeper i));
      lg_idle s (fc_outpoint (bd_fee_coin i)); wallet_spk L c (bd_keeper_spk i);
      wallet_spk L c (bd_obol_change_spk i); wallet_spk L c (bd_change_spk i); lg_fresh s (plan_txid L (bt_plan b))\<rbrakk>
     \<Longrightarrow> step L c height KBadDebt s (bt_plan b)
           (s\<lparr>lg_ps := \<lparr>ps_pot = bdd_pot (bt_expected b), ps_reserve = bdd_reserve (bt_expected b),
                       ps_issuer = bdd_issuer (bt_expected b)\<rparr>,
              lg_vaults := fmdrop (oc_outpoint v) (lg_vaults s)\<rparr>)"

section \<open>Supply\<close>

definition debt_nat :: "vault_utxo \<Rightarrow> nat" where
  "debt_nat v = unat (obol_raw (vs_debt (oc_state v)))"

definition total_debt :: "(outpoint, vault_utxo) fmap \<Rightarrow> nat" where
  "total_debt m = (\<Sum>op \<in> fset (fmdom m). debt_nat (the (fmlookup m op)))"

definition obol_supply :: "ledger \<Rightarrow> nat" where
  "obol_supply s = unat (obol_raw (oc_value (ps_pot (lg_ps s)))) + total_debt (lg_vaults s)"

lemma total_debt_drop:
  assumes "fmlookup m op = Some v"
  shows "total_debt m = debt_nat v + total_debt (fmdrop op m)"
proof -
  have mem: "op \<in> fset (fmdom m)" using assms by (simp add: fmdomI)
  have "total_debt m = debt_nat (the (fmlookup m op)) + (\<Sum>o' \<in> fset (fmdom m) - {op}. debt_nat (the (fmlookup m o')))"
    unfolding total_debt_def by (rule sum.remove[OF _ mem]) simp
  also have "(\<Sum>o' \<in> fset (fmdom m) - {op}. debt_nat (the (fmlookup m o'))) = total_debt (fmdrop op m)"
    unfolding total_debt_def by (rule sum.cong) auto
  finally show ?thesis using assms by simp
qed

lemma total_debt_put:
  assumes "fmlookup m (oc_outpoint v) = None"
  shows "total_debt (put_vault v m) = debt_nat v + total_debt m"
proof -
  have "total_debt (put_vault v m) = debt_nat v + total_debt (fmdrop (oc_outpoint v) (put_vault v m))"
    by (rule total_debt_drop) (simp add: put_vault_def)
  also have "fmdrop (oc_outpoint v) (put_vault v m) = m"
    using assms by (intro fmap_ext) (simp add: put_vault_def)
  finally show ?thesis .
qed

lemma total_debt_swap:
  assumes "fmlookup m (oc_outpoint v) = Some v" "fmlookup m (oc_outpoint v') = None"
  shows "total_debt (put_vault v' (fmdrop (oc_outpoint v) m)) + debt_nat v = total_debt m + debt_nat v'"
  using total_debt_drop[OF assms(1)] total_debt_put[of "fmdrop (oc_outpoint v) m" v'] assms(2) by simp

lemma debt_le_supply:
  assumes "fmlookup (lg_vaults s) op = Some v"
  shows "debt_nat v + unat (obol_raw (oc_value (ps_pot (lg_ps s)))) \<le> obol_supply s"
  using total_debt_drop[OF assms] by (simp add: obol_supply_def)

section \<open>What each step does to the pot and to the debt\<close>

definition pot_nat :: "ledger \<Rightarrow> nat" where
  "pot_nat s = unat (obol_raw (oc_value (ps_pot (lg_ps s))))"

lemma supply_eq: "obol_supply s = pot_nat s + total_debt (lg_vaults s)"
  by (simp add: obol_supply_def pot_nat_def)

lemma fresh_lookup: "lg_fresh s t \<Longrightarrow> fmlookup (lg_vaults s) (OutPoint t n) = None"
  by (simp add: lg_fresh_def lg_idle_def)

lemma supply_swap:
  assumes "fmlookup (lg_vaults s) (oc_outpoint v) = Some v" "lg_fresh s t" "oc_outpoint v' = OutPoint t n"
    "pot_nat s' + debt_nat v' = pot_nat s + debt_nat v"
    "lg_vaults s' = put_vault v' (fmdrop (oc_outpoint v) (lg_vaults s))"
  shows "obol_supply s' = obol_supply s"
  using total_debt_swap[OF assms(1), of v'] fresh_lookup[OF assms(2), of n] assms(3-5) by (simp add: supply_eq)

lemma supply_drop:
  assumes "fmlookup (lg_vaults s) (oc_outpoint v) = Some v" "pot_nat s' = pot_nat s + debt_nat v"
    "lg_vaults s' = fmdrop (oc_outpoint v) (lg_vaults s)"
  shows "obol_supply s' = obol_supply s"
  using total_debt_drop[OF assms(1)] assms(2,3) by (simp add: supply_eq)

lemma grow_exact:
  assumes "fmlookup (lg_vaults s) (oc_outpoint v) = Some v" "obol_supply s < 2 ^ 63" "unat x \<le> debt_nat v"
  shows "unat (sat_add (obol_raw (oc_value (ps_pot (lg_ps s)))) x) = pot_nat s + unat x"
proof -
  have "debt_nat v + unat (obol_raw (oc_value (ps_pot (lg_ps s)))) < 2 ^ 63"
    using debt_le_supply[OF assms(1)] assms(2) by simp
  then have "unat (obol_raw (oc_value (ps_pot (lg_ps s)))) + unat x < 2 ^ LENGTH(64)"
    using assms(3) by simp
  then show ?thesis by (simp add: pot_nat_def unat_sat_add_exact)
qed

lemma plus_sat_add: "unat (a :: u64) + unat b < 2 ^ 64 \<Longrightarrow> a + b = sat_add a b"
  by (simp add: sat_add_def)

lemma step_supply:
  assumes "step L c h k s p s'" "obol_supply s < 2 ^ 63"
  shows "obol_supply s' = obol_supply s"
  using assms
proof cases
  case (step_open i b)
  then obtain cents where be: "b = open_unchecked L c (lg_ps s) i (coll_at_cr cents (tick_lo (op_tick i)) K_FEE_HALF_PERCENT)"
    and le: "op_principal i \<le> oc_value (ps_pot (lg_ps s))"
    by (auto simp: open_Inr_iff)
  have "total_debt (put_vault (od_vault (bt_expected b)) (lg_vaults s)) =
      debt_nat (od_vault (bt_expected b)) + total_debt (lg_vaults s)"
    using fresh_lookup[OF \<open>lg_fresh s _\<close>, of 0] by (intro total_debt_put) (simp add: be open_unchecked_def Let_def)
  moreover have "debt_nat (od_vault (bt_expected b)) = unat (obol_raw (op_principal i))"
    by (simp add: be open_unchecked_def Let_def debt_nat_def)
  moreover have "pot_nat s' = pot_nat s - unat (obol_raw (op_principal i))"
    by (simp add: \<open>s' = _\<close> pot_nat_def be open_unchecked_def Let_def)
  moreover have "unat (obol_raw (op_principal i)) \<le> pot_nat s"
    using le by (simp add: pot_nat_def less_eq_obol_def word_le_nat_alt)
  ultimately show ?thesis by (simp add: supply_eq \<open>s' = _\<close>)
next
  case (step_draw v i b)
  then obtain debt where be: "b = draw_unchecked L c (lg_ps s) v i"
    and add: "obol_checked_add (vs_debt (oc_state v)) (dr_amount i) = Inr debt"
    and le: "dr_amount i \<le> oc_value (ps_pot (lg_ps s))"
    by (auto simp: draw_Inr_iff)
  have "unat (sat_add (obol_raw (vs_debt (oc_state v))) (obol_raw (dr_amount i))) = debt_nat v + unat (obol_raw (dr_amount i))"
    using add by (simp add: obol_amt.cadd_Inr_iff debt_nat_def unat_sat_add_exact)
  then have eq: "pot_nat s' + debt_nat (dd_vault (bt_expected b)) = pot_nat s + debt_nat v"
    using le by (simp add: \<open>s' = _\<close> pot_nat_def debt_nat_def be draw_unchecked_def Let_def less_eq_obol_def word_le_nat_alt)
  have at: "oc_outpoint (dd_vault (bt_expected b)) = OutPoint (plan_txid L (bt_plan b)) 0"
    by (simp add: be draw_unchecked_def Let_def)
  show ?thesis
    by (rule supply_swap[OF \<open>fmlookup _ _ = Some v\<close> \<open>lg_fresh s _\<close> at eq]) (simp add: \<open>s' = _\<close>)
next
  case (step_repay v i b)
  then have be: "b = repay_unchecked L c (ps_pot (lg_ps s)) v i" and le: "rp_amount i \<le> vs_debt (oc_state v)"
    by (auto simp: repay_Inr_iff)
  have le': "unat (obol_raw (rp_amount i)) \<le> debt_nat v"
    using le by (simp add: debt_nat_def less_eq_obol_def word_le_nat_alt)
  have "unat (obol_raw (oc_value (ps_pot (lg_ps s)))) + unat (obol_raw (rp_amount i)) < 2 ^ 64"
    using debt_le_supply[OF \<open>fmlookup _ _ = Some v\<close>] assms(2) le' by simp
  then have eq: "pot_nat s' + debt_nat (rd_vault (bt_expected b)) = pot_nat s + debt_nat v"
    using le' by (simp add: \<open>s' = _\<close> pot_nat_def debt_nat_def be repay_unchecked_def Let_def unat_plus_exact)
  have at: "oc_outpoint (rd_vault (bt_expected b)) = OutPoint (plan_txid L (bt_plan b)) 0"
    by (simp add: be repay_unchecked_def Let_def)
  show ?thesis
    by (rule supply_swap[OF \<open>fmlookup _ _ = Some v\<close> \<open>lg_fresh s _\<close> at eq]) (simp add: \<open>s' = _\<close>)
next
  case (step_close v i b)
  then have be: "b = close_unchecked L c (ps_pot (lg_ps s)) v i" by (auto simp: close_Inr_iff)
  have "unat (obol_raw (oc_value (ps_pot (lg_ps s)))) + unat (obol_raw (vs_debt (oc_state v))) < 2 ^ 64"
    using debt_le_supply[OF \<open>fmlookup _ _ = Some v\<close>] assms(2) by (simp add: debt_nat_def)
  then have eq: "pot_nat s' = pot_nat s + debt_nat v"
    by (simp add: \<open>s' = _\<close> pot_nat_def debt_nat_def be close_unchecked_def Let_def unat_plus_exact)
  show ?thesis
    by (rule supply_drop[OF \<open>fmlookup _ _ = Some v\<close> eq]) (simp add: \<open>s' = _\<close>)
next
  case (step_refresh v i b)
  then have be: "b = refresh_unchecked L c v i" by (auto simp: refresh_Inr_iff)
  have eq: "pot_nat s' + debt_nat (fd_vault (bt_expected b)) = pot_nat s + debt_nat v"
    by (simp add: \<open>s' = _\<close> pot_nat_def debt_nat_def be refresh_unchecked_def Let_def)
  have at: "oc_outpoint (fd_vault (bt_expected b)) = OutPoint (plan_txid L (bt_plan b)) 0"
    by (simp add: be refresh_unchecked_def Let_def)
  show ?thesis
    by (rule supply_swap[OF \<open>fmlookup _ _ = Some v\<close> \<open>lg_fresh s _\<close> at eq]) (simp add: \<open>s' = _\<close>)
next
  case (step_poke i b)
  then show ?thesis by (simp add: obol_supply_def)
next
  case (step_liquidate v i b)
  then have be: "b = liquidate_unchecked L c (lg_ps s) v i" and le: "lq_dd i < vs_debt (oc_state v)"
    by (auto simp: liquidate_Inr_iff)
  have le': "unat (obol_raw (lq_dd i)) \<le> debt_nat v"
    using le by (simp add: debt_nat_def less_obol_def word_less_nat_alt)
  have eq: "pot_nat s' + debt_nat (ld_vault (bt_expected b)) = pot_nat s + debt_nat v"
    using grow_exact[OF \<open>fmlookup _ _ = Some v\<close> assms(2) le'] le'
    by (simp add: \<open>s' = _\<close> pot_nat_def debt_nat_def be liquidate_unchecked_def Let_def)
  have at: "oc_outpoint (ld_vault (bt_expected b)) = OutPoint (plan_txid L (bt_plan b)) 0"
    by (simp add: be liquidate_unchecked_def Let_def)
  show ?thesis
    by (rule supply_swap[OF \<open>fmlookup _ _ = Some v\<close> \<open>lg_fresh s _\<close> at eq]) (simp add: \<open>s' = _\<close>)
next
  case (step_redeem v i b)
  then have be: "b = redeem_unchecked L c (lg_ps s) v i" and le: "rd_x i \<le> vs_debt (oc_state v)"
    by (auto simp: redeem_Inr_iff)
  have le': "unat (obol_raw (rd_x i)) \<le> debt_nat v"
    using le by (simp add: debt_nat_def less_eq_obol_def word_le_nat_alt)
  have eq: "pot_nat s' + debt_nat (xd_vault (bt_expected b)) = pot_nat s + debt_nat v"
    using grow_exact[OF \<open>fmlookup _ _ = Some v\<close> assms(2) le'] le'
    by (simp add: \<open>s' = _\<close> pot_nat_def debt_nat_def be redeem_unchecked_def Let_def)
  have at: "oc_outpoint (xd_vault (bt_expected b)) = OutPoint (plan_txid L (bt_plan b)) 0"
    by (simp add: be redeem_unchecked_def Let_def)
  show ?thesis
    by (rule supply_swap[OF \<open>fmlookup _ _ = Some v\<close> \<open>lg_fresh s _\<close> at eq]) (simp add: \<open>s' = _\<close>)
next
  case (step_full_liq v i b)
  then have be: "b = full_liq_unchecked L c (lg_ps s) v i" by (auto simp: full_liq_Inr_iff)
  have eq: "pot_nat s' = pot_nat s + debt_nat v"
    using grow_exact[OF \<open>fmlookup _ _ = Some v\<close> assms(2), of "obol_raw (vs_debt (oc_state v))"]
    by (simp add: \<open>s' = _\<close> pot_nat_def debt_nat_def be full_liq_unchecked_def Let_def)
  show ?thesis
    by (rule supply_drop[OF \<open>fmlookup _ _ = Some v\<close> eq]) (simp add: \<open>s' = _\<close>)
next
  case (step_bad_debt v i b)
  then have be: "b = bad_debt_unchecked L c (lg_ps s) v i" by (auto simp: bad_debt_Inr_iff)
  have eq: "pot_nat s' = pot_nat s + debt_nat v"
    using grow_exact[OF \<open>fmlookup _ _ = Some v\<close> assms(2), of "obol_raw (vs_debt (oc_state v))"]
    by (simp add: \<open>s' = _\<close> pot_nat_def debt_nat_def be bad_debt_unchecked_def Let_def)
  show ?thesis
    by (rule supply_drop[OF \<open>fmlookup _ _ = Some v\<close> eq]) (simp add: \<open>s' = _\<close>)
qed

section \<open>Outpoints of the successors\<close>

abbreviation out_of :: "'p library \<Rightarrow> 'd built \<Rightarrow> u32 \<Rightarrow> outpoint" where
  "out_of L b n \<equiv> OutPoint (plan_txid L (bt_plan b)) n"

lemma open_outs:
  "open_vault L c ps i = Inr b \<Longrightarrow>
     oc_outpoint (od_vault (bt_expected b)) = out_of L b 0 \<and> oc_outpoint (od_pot (bt_expected b)) = out_of L b 1 \<and>
     oc_outpoint (od_reserve (bt_expected b)) = out_of L b 3 \<and> oc_outpoint (od_issuer (bt_expected b)) = out_of L b 4 \<and>
     is_last_mint_height (oc_state (ps_issuer ps)) \<le> is_last_mint_height (oc_state (od_issuer (bt_expected b)))"
  by (auto simp: open_Inr_iff open_unchecked_def Let_def)

lemma draw_outs:
  "draw L c ps v i = Inr b \<Longrightarrow>
     oc_outpoint (dd_vault (bt_expected b)) = out_of L b 0 \<and> oc_outpoint (dd_pot (bt_expected b)) = out_of L b 1 \<and>
     oc_outpoint (dd_issuer (bt_expected b)) = out_of L b 3 \<and>
     is_last_mint_height (oc_state (ps_issuer ps)) \<le> is_last_mint_height (oc_state (dd_issuer (bt_expected b)))"
  by (auto simp: draw_Inr_iff draw_unchecked_def Let_def)

lemma repay_outs:
  "repay L c pot v i = Inr b \<Longrightarrow>
     oc_outpoint (rd_vault (bt_expected b)) = out_of L b 0 \<and> oc_outpoint (rd_pot (bt_expected b)) = out_of L b 1"
  by (auto simp: repay_Inr_iff repay_unchecked_def Let_def)

lemma close_outs: "close L c pot v i = Inr b \<Longrightarrow> oc_outpoint (cd_pot (bt_expected b)) = out_of L b 1"
  by (auto simp: close_Inr_iff close_unchecked_def Let_def)

lemma refresh_outs: "refresh L c v i = Inr b \<Longrightarrow> oc_outpoint (fd_vault (bt_expected b)) = out_of L b 0"
  by (auto simp: refresh_Inr_iff refresh_unchecked_def Let_def)

lemma poke_outs:
  "poke L c iu i = Inr b \<Longrightarrow> oc_outpoint (pd_issuer (bt_expected b)) = out_of L b 0 \<and>
     is_last_mint_height (oc_state iu) \<le> is_last_mint_height (oc_state (pd_issuer (bt_expected b)))"
  by (auto simp: poke_Inr_iff poke_unchecked_def Let_def)

lemma liquidate_outs:
  "liquidate L c ps v i = Inr b \<Longrightarrow>
     oc_outpoint (ld_vault (bt_expected b)) = out_of L b 0 \<and> oc_outpoint (ld_pot (bt_expected b)) = out_of L b 1 \<and>
     oc_outpoint (ld_reserve (bt_expected b)) = out_of L b 3"
  by (auto simp: liquidate_Inr_iff liquidate_unchecked_def Let_def)

lemma redeem_outs:
  "redeem L c ps v i = Inr b \<Longrightarrow>
     oc_outpoint (xd_vault (bt_expected b)) = out_of L b 0 \<and> oc_outpoint (xd_pot (bt_expected b)) = out_of L b 1 \<and>
     oc_outpoint (xd_reserve (bt_expected b)) = out_of L b 3"
  by (auto simp: redeem_Inr_iff redeem_unchecked_def Let_def)

lemma full_liq_outs:
  "full_liq L c ps v i = Inr b \<Longrightarrow>
     oc_outpoint (ud_pot (bt_expected b)) = out_of L b 1 \<and> oc_outpoint (ud_reserve (bt_expected b)) = out_of L b 3"
  by (auto simp: full_liq_Inr_iff full_liq_unchecked_def Let_def)

lemma bad_debt_outs:
  "bad_debt L c ps v i = Inr b \<Longrightarrow>
     oc_outpoint (bdd_pot (bt_expected b)) = out_of L b 1 \<and> oc_outpoint (bdd_reserve (bt_expected b)) = out_of L b 2 \<and>
     oc_outpoint (bdd_issuer (bt_expected b)) = out_of L b 3 \<and>
     is_last_mint_height (oc_state (ps_issuer ps)) \<le> is_last_mint_height (oc_state (bdd_issuer (bt_expected b)))"
  by (auto simp: bad_debt_Inr_iff bad_debt_unchecked_def Let_def)

lemmas outs = open_outs draw_outs repay_outs close_outs refresh_outs poke_outs liquidate_outs redeem_outs
  full_liq_outs bad_debt_outs

section \<open>Steps keep the ledger well formed and the anchor monotone\<close>

lemma lg_freshD:
  assumes "lg_fresh s t"
  shows "fmlookup (lg_vaults s) (OutPoint t n) = None" "OutPoint t n \<noteq> oc_outpoint (ps_pot (lg_ps s))"
    "OutPoint t n \<noteq> oc_outpoint (ps_reserve (lg_ps s))" "OutPoint t n \<noteq> oc_outpoint (ps_issuer (lg_ps s))"
    "oc_outpoint (ps_pot (lg_ps s)) \<noteq> OutPoint t n" "oc_outpoint (ps_reserve (lg_ps s)) \<noteq> OutPoint t n"
    "oc_outpoint (ps_issuer (lg_ps s)) \<noteq> OutPoint t n"
proof -
  have "lg_idle s (OutPoint t n)" using assms by (simp add: lg_fresh_def)
  then show "fmlookup (lg_vaults s) (OutPoint t n) = None" "OutPoint t n \<noteq> oc_outpoint (ps_pot (lg_ps s))"
    "OutPoint t n \<noteq> oc_outpoint (ps_reserve (lg_ps s))" "OutPoint t n \<noteq> oc_outpoint (ps_issuer (lg_ps s))"
    "oc_outpoint (ps_pot (lg_ps s)) \<noteq> OutPoint t n" "oc_outpoint (ps_reserve (lg_ps s)) \<noteq> OutPoint t n"
    "oc_outpoint (ps_issuer (lg_ps s)) \<noteq> OutPoint t n"
    by (auto simp: lg_idle_def)
qed

lemma step_wf:
  assumes "step L c h k s p s'" and wf: "lg_wf s"
  shows "lg_wf s'"
  using assms(1)
proof cases
  case (step_open i b)
  show ?thesis using wf open_outs[OF step_open(4)]
    by (auto simp: \<open>s' = _\<close> lg_wf_def put_vault_def lg_freshD[OF \<open>lg_fresh s _\<close>])
next
  case (step_draw v i b)
  show ?thesis using wf draw_outs[OF step_draw(4)]
    by (auto simp: \<open>s' = _\<close> lg_wf_def put_vault_def lg_freshD[OF \<open>lg_fresh s _\<close>])
next
  case (step_repay v i b)
  show ?thesis using wf repay_outs[OF step_repay(4)]
    by (auto simp: \<open>s' = _\<close> lg_wf_def put_vault_def lg_freshD[OF \<open>lg_fresh s _\<close>])
next
  case (step_close v i b)
  show ?thesis using wf close_outs[OF step_close(4)]
    by (auto simp: \<open>s' = _\<close> lg_wf_def put_vault_def lg_freshD[OF \<open>lg_fresh s _\<close>])
next
  case (step_refresh v i b)
  show ?thesis using wf refresh_outs[OF step_refresh(4)]
    by (auto simp: \<open>s' = _\<close> lg_wf_def put_vault_def lg_freshD[OF \<open>lg_fresh s _\<close>])
next
  case (step_poke i b)
  show ?thesis using wf poke_outs[OF step_poke(4)]
    by (auto simp: \<open>s' = _\<close> lg_wf_def put_vault_def lg_freshD[OF \<open>lg_fresh s _\<close>])
next
  case (step_liquidate v i b)
  show ?thesis using wf liquidate_outs[OF step_liquidate(4)]
    by (auto simp: \<open>s' = _\<close> lg_wf_def put_vault_def lg_freshD[OF \<open>lg_fresh s _\<close>])
next
  case (step_redeem v i b)
  show ?thesis using wf redeem_outs[OF step_redeem(4)]
    by (auto simp: \<open>s' = _\<close> lg_wf_def put_vault_def lg_freshD[OF \<open>lg_fresh s _\<close>])
next
  case (step_full_liq v i b)
  show ?thesis using wf full_liq_outs[OF step_full_liq(4)]
    by (auto simp: \<open>s' = _\<close> lg_wf_def put_vault_def lg_freshD[OF \<open>lg_fresh s _\<close>])
next
  case (step_bad_debt v i b)
  show ?thesis using wf bad_debt_outs[OF step_bad_debt(4)]
    by (auto simp: \<open>s' = _\<close> lg_wf_def put_vault_def lg_freshD[OF \<open>lg_fresh s _\<close>])
qed

definition anchor_of :: "ledger \<Rightarrow> block_height" where
  "anchor_of s = is_last_mint_height (oc_state (ps_issuer (lg_ps s)))"

lemma step_anchor: "step L c h k s p s' \<Longrightarrow> anchor_of s \<le> anchor_of s'"
  by (erule step.cases) (auto simp: anchor_of_def dest: outs)

section \<open>The indexer refines the ledger\<close>

definition corr :: "'p library \<Rightarrow> 'p ctx \<Rightarrow> index_state \<Rightarrow> ledger \<Rightarrow> bool" where
  "corr L c st s \<longleftrightarrow> ix_protocol st = Some (lg_ps s) \<and> ix_vaults st = fmmap (tv_of L c) (lg_vaults s)"

text \<open>
  The side condition under which an indexer with the given list of owners follows an operation. It
  is a real restriction and not a property of the chain. An OPEN must show its owner: the key is in
  the list (a wallet passes its own key, the explorer an empty list) or can be read off the witness
  of the issuer input, which the indexer scans; otherwise the vault is tracked without an owner and
  the index does not know its address. A REPAY must not be of amount zero (the builder accepts one,
  and the indexer then loses a live vault, shown below), and a FULL-LIQ must not be of a vault
  without debt.
\<close>

fun followed :: "'p library \<Rightarrow> xonly list \<Rightarrow> op_kind \<Rightarrow> transaction \<Rightarrow> bool" where
  "followed L owners (KOpen own) tx = owner_visible L owners own tx"
| "followed L owners (KRepay x) tx = (x \<noteq> obol_ZERO)"
| "followed L owners (KFullLiq x) tx = (x \<noteq> obol_ZERO)"
| "followed L owners _ tx = True"

fun clean :: "event \<Rightarrow> bool" where
  "clean (VaultLost _ _) = False"
| "clean (Anomaly _) = False"
| "clean _ = True"

lemma corr_tracks: "\<lbrakk>corr L c st s; lg_wf s\<rbrakk> \<Longrightarrow> tracks st (lg_ps s)"
  by (auto simp: corr_def tracks_def lg_wf_def)

lemma corr_vault:
  "\<lbrakk>corr L c st s; fmlookup (lg_vaults s) (oc_outpoint v) = Some v\<rbrakk> \<Longrightarrow> tracks_vault st v (tv_of L c v)"
  by (simp add: corr_def tracks_vault_def tv_of_known)

lemma ix_protocol_Some_iff:
  "ix_protocol st = Some ps \<longleftrightarrow>
     ix_pot st = Some (ps_pot ps) \<and> ix_reserve st = Some (ps_reserve ps) \<and> ix_issuer st = Some (ps_issuer ps)"
  by (cases ps) (auto simp: ix_protocol_def split: option.splits)

lemma corr_iff:
  "corr L c st s \<longleftrightarrow> ix_pot st = Some (ps_pot (lg_ps s)) \<and> ix_reserve st = Some (ps_reserve (lg_ps s)) \<and>
     ix_issuer st = Some (ps_issuer (lg_ps s)) \<and> ix_vaults st = fmmap (tv_of L c) (lg_vaults s)"
  by (simp add: corr_def ix_protocol_Some_iff)

lemma corr_idle: "\<lbrakk>corr L c st s; lg_idle s op\<rbrakk> \<Longrightarrow> untracked st op"
  by (auto simp: corr_iff untracked_def lg_idle_def)

lemma fmmap_put: "fmmap (tv_of L c) (put_vault v m) = fmupd (oc_outpoint v) (tv_of L c v) (fmmap (tv_of L c) m)"
  by (intro fmap_ext) (simp add: put_vault_def)

lemma corr_simps:
  assumes "corr L c st s"
  shows "ix_vaults st = fmmap (tv_of L c) (lg_vaults s)" "ix_pot st = Some (ps_pot (lg_ps s))"
    "ix_reserve st = Some (ps_reserve (lg_ps s))" "ix_issuer st = Some (ps_issuer (lg_ps s))"
  using assms by (simp_all add: corr_iff)

lemma pot_sane: "obol_supply s < 2 ^ 63 \<Longrightarrow> sane_amounts [obol_raw (oc_value (ps_pot (lg_ps s)))]"
  by (simp add: obol_supply_def)

lemma debt_sane:
  "\<lbrakk>fmlookup (lg_vaults s) op = Some v; obol_supply s < 2 ^ 63; unat x \<le> debt_nat v\<rbrakk>
     \<Longrightarrow> sane_amounts [obol_raw (oc_value (ps_pot (lg_ps s))), x]"
  using debt_le_supply[of s op v] by simp

lemma step_index:
  assumes step: "step L c h k s p s'" and dep: "deployed L c" and wf: "lg_wf s" and co: "corr L c st s"
    and sup: "obol_supply s < 2 ^ 63" and fol: "followed L owners k tx" and tx: "confirms L p tx"
  shows "corr L c (fst (apply_events L c owners h tx st)) s' \<and> list_all clean (snd (apply_events L c owners h tx st))"
  using step
proof cases
  case (step_open i b)
  note tr = corr_tracks[OF co wf]
  have own': "owner_visible L owners (op_owner i) tx" using fol by (simp add: \<open>k = _\<close>)
  have same: "(tv_of L c (od_vault (bt_expected b)))\<lparr>tv_owner := Some (op_owner i)\<rparr> = tv_of L c (od_vault (bt_expected b))"
    using step_open(4) by (auto simp: open_Inr_iff open_unchecked_def Let_def tv_of_def)
  obtain owner where eq: "apply_events L c owners h tx st =
      (st\<lparr>ix_issuer := Some (od_issuer (bt_expected b)), ix_pot := Some (od_pot (bt_expected b)),
          ix_reserve := Some (od_reserve (bt_expected b)),
          ix_vaults := fmupd (oc_outpoint (od_vault (bt_expected b)))
            ((tv_of L c (od_vault (bt_expected b)))\<lparr>tv_owner := owner\<rparr>) (ix_vaults st)\<rparr>,
       [Opened (oc_outpoint (od_vault (bt_expected b))) (op_principal i) (op_collateral i) (ot_height (op_tick i)) owner])"
    and ow: "owner = Some (op_owner i)"
    using index_open[OF dep tr step_open(4) tx[unfolded \<open>p = _\<close>] \<open>ot_height _ \<le> _\<close> corr_idle[OF co \<open>lg_idle s _\<close>]
      \<open>wallet_spk L c _\<close>, of owners] own' by blast
  show ?thesis
    by (simp add: eq ow same corr_iff \<open>s' = _\<close> corr_simps[OF co] fmmap_put)
next
  case (step_draw v i b)
  note tr = corr_tracks[OF co wf] and cv = corr_vault[OF co \<open>fmlookup _ _ = Some v\<close>]
  note eq = index_draw[OF dep tr cv step_draw(4) tx[unfolded \<open>p = _\<close>] \<open>ot_height _ \<le> _\<close> \<open>wallet_spk L c _\<close>]
  show ?thesis by (simp add: eq corr_iff \<open>s' = _\<close> corr_simps[OF co] fmmap_put)
next
  case (step_repay v i b)
  note tr = corr_tracks[OF co wf] and cv = corr_vault[OF co \<open>fmlookup _ _ = Some v\<close>]
  have "rp_amount i \<noteq> obol_ZERO" using fol by (simp add: \<open>k = _\<close>)
  have le: "unat (obol_raw (rp_amount i)) \<le> debt_nat v"
    using step_repay(4) by (simp add: repay_Inr_iff debt_nat_def less_eq_obol_def word_le_nat_alt)
  note eq = index_repay[OF dep tr cv step_repay(4) tx[unfolded \<open>p = _\<close>] corr_idle[OF co step_repay(6)]
      corr_idle[OF co step_repay(7)] \<open>wallet_spk L c _\<close> \<open>rp_amount i \<noteq> _\<close> debt_sane[OF \<open>fmlookup _ _ = Some v\<close> sup le]]
  show ?thesis by (simp add: eq corr_iff \<open>s' = _\<close> corr_simps[OF co] fmmap_put)
next
  case (step_close v i b)
  note tr = corr_tracks[OF co wf] and cv = corr_vault[OF co \<open>fmlookup _ _ = Some v\<close>]
  have le: "unat (obol_raw (vs_debt (oc_state v))) \<le> debt_nat v" by (simp add: debt_nat_def)
  note eq = index_close[OF dep tr cv step_close(4) tx[unfolded \<open>p = _\<close>] corr_idle[OF co \<open>lg_idle s _\<close>]
      \<open>wallet_spk L c _\<close> debt_sane[OF \<open>fmlookup _ _ = Some v\<close> sup le]]
  show ?thesis by (simp add: eq corr_iff \<open>s' = _\<close> corr_simps[OF co])
next
  case (step_refresh v i b)
  note tr = corr_tracks[OF co wf] and cv = corr_vault[OF co \<open>fmlookup _ _ = Some v\<close>]
  note eq = index_refresh[OF dep tr cv step_refresh(4) tx[unfolded \<open>p = _\<close>] \<open>ot_height _ \<le> _\<close> corr_idle[OF co \<open>lg_idle s _\<close>]]
  show ?thesis by (simp add: eq corr_iff \<open>s' = _\<close> corr_simps[OF co] fmmap_put)
next
  case (step_poke i b)
  note tr = corr_tracks[OF co wf]
  note eq = index_poke[OF dep tr step_poke(4) tx[unfolded \<open>p = _\<close>] \<open>ot_height _ \<le> _\<close> corr_idle[OF co \<open>lg_idle s _\<close>]]
  show ?thesis by (simp add: eq corr_iff \<open>s' = _\<close> corr_simps[OF co])
next
  case (step_liquidate v i b)
  note tr = corr_tracks[OF co wf] and cv = corr_vault[OF co \<open>fmlookup _ _ = Some v\<close>]
  note eq = index_liquidate[OF dep tr cv step_liquidate(4) tx[unfolded \<open>p = _\<close>] corr_idle[OF co \<open>lg_idle s _\<close>]
      step_liquidate(7,8) pot_sane[OF sup]]
  show ?thesis by (simp add: eq corr_iff \<open>s' = _\<close> corr_simps[OF co] fmmap_put)
next
  case (step_redeem v i b)
  note tr = corr_tracks[OF co wf] and cv = corr_vault[OF co \<open>fmlookup _ _ = Some v\<close>]
  note eq = index_redeem[OF dep tr cv step_redeem(4) tx[unfolded \<open>p = _\<close>] corr_idle[OF co \<open>lg_idle s _\<close>]
      step_redeem(7,8) pot_sane[OF sup]]
  show ?thesis by (simp add: eq corr_iff \<open>s' = _\<close> corr_simps[OF co] fmmap_put)
next
  case (step_full_liq v i b)
  note tr = corr_tracks[OF co wf] and cv = corr_vault[OF co \<open>fmlookup _ _ = Some v\<close>]
  have "vs_debt (oc_state v) \<noteq> obol_ZERO" using fol by (simp add: \<open>k = _\<close>)
  note eq = index_full_liq[OF dep tr cv step_full_liq(4) tx[unfolded \<open>p = _\<close>] corr_idle[OF co \<open>lg_idle s _\<close>]
      step_full_liq(7,8) spec[OF step_full_liq(9)] \<open>vs_debt _ \<noteq> _\<close> pot_sane[OF sup]]
  show ?thesis by (simp add: eq corr_iff \<open>s' = _\<close> corr_simps[OF co])
next
  case (step_bad_debt v i b)
  note tr = corr_tracks[OF co wf] and cv = corr_vault[OF co \<open>fmlookup _ _ = Some v\<close>]
  note eq = index_bad_debt[OF dep tr cv step_bad_debt(4) tx[unfolded \<open>p = _\<close>] \<open>ot_height _ \<le> _\<close>
      corr_idle[OF co step_bad_debt(7)] corr_idle[OF co step_bad_debt(8)] step_bad_debt(9-11)]
  show ?thesis by (simp add: eq corr_iff \<open>s' = _\<close> corr_simps[OF co])
qed

section \<open>Runs\<close>

text \<open>
  A run of the chain: transactions confirm one after the other, each either the confirmed form of a
  builder's plan (a step of the ledger that satisfies the side condition \<open>Q\<close>, a parameter) or one
  that spends nothing of the protocol. The second kind may still pay to a covenant address: the
  ledger does not change and the indexer must not be confused by it. The safety of the ledger is
  proved for every \<open>Q\<close>, so with no side condition at all; the indexer's refinement for
  \<open>followed L owners\<close>.
\<close>

inductive run :: "'p library \<Rightarrow> 'p ctx \<Rightarrow> (op_kind \<Rightarrow> transaction \<Rightarrow> bool) \<Rightarrow> ledger \<Rightarrow> (u32 \<times> transaction) list \<Rightarrow> ledger \<Rightarrow> bool"
  for L c Q where
  run_nil: "run L c Q s [] s"
| run_op: "\<lbrakk>run L c Q s txs s'; step L c h k s' p s''; Q k tx; confirms L p tx\<rbrakk>
     \<Longrightarrow> run L c Q s (txs @ [(h, tx)]) s''"
| run_other: "\<lbrakk>run L c Q s txs s'; \<forall>i \<in> set (tx_input tx). lg_idle s' (ti_previous_output i)\<rbrakk>
     \<Longrightarrow> run L c Q s (txs @ [(h, tx)]) s'"

lemma run_invariant:
  assumes "run L c Q s txs s'" "lg_wf s" "obol_supply s < 2 ^ 63"
  shows "lg_wf s' \<and> obol_supply s' = obol_supply s \<and> anchor_of s \<le> anchor_of s'"
  using assms
proof induction
  case (run_op s txs s' h k p s'' tx)
  then have "lg_wf s' \<and> obol_supply s' = obol_supply s \<and> anchor_of s \<le> anchor_of s'" by simp
  with step_wf[OF \<open>step L c h k s' p s''\<close>] step_supply[OF \<open>step L c h k s' p s''\<close>] step_anchor[OF \<open>step L c h k s' p s''\<close>]
  show ?case using run_op.prems by (auto intro: order_trans)
qed auto

text \<open>The indexer over a list of transactions, in chain order.\<close>

definition index_txs ::
  "'p library \<Rightarrow> 'p ctx \<Rightarrow> xonly list \<Rightarrow> (u32 \<times> transaction) list \<Rightarrow> index_state \<Rightarrow> index_state \<times> notice list" where
  "index_txs L c owners txs st =
     fold (\<lambda>(h, tx) (st, ns). case apply_tx L c owners h tx st of (st', ns') \<Rightarrow> (st', ns @ ns')) txs (st, [])"

lemma index_txs_nil [simp]: "index_txs L c owners [] st = (st, [])"
  by (simp add: index_txs_def)

lemma index_txs_snoc:
  "index_txs L c owners (txs @ [(h, tx)]) st =
     (case index_txs L c owners txs st of (st1, ns) \<Rightarrow>
      case apply_tx L c owners h tx st1 of (st2, ns') \<Rightarrow> (st2, ns @ ns'))"
  by (simp add: index_txs_def)

lemma input_index_idle:
  assumes "\<forall>i \<in> set (tx_input tx). ti_previous_output i \<noteq> op"
  shows "input_index tx op = None"
proof -
  have "position (\<lambda>i. ti_previous_output i = op) is = None" if "\<forall>i \<in> set is. ti_previous_output i \<noteq> op" for "is"
    using that by (induction "is") auto
  then show ?thesis using assms by (simp add: input_index_def)
qed

lemma other_index:
  assumes co: "corr L c st s" and idle: "\<forall>i \<in> set (tx_input tx). lg_idle s (ti_previous_output i)"
  shows "fst (apply_events L c owners h tx st) = st \<and> list_all clean (snd (apply_events L c owners h tx st))"
proof -
  have ii: "input_index tx (oc_outpoint (ps_pot (lg_ps s))) = None" "input_index tx (oc_outpoint (ps_reserve (lg_ps s))) = None"
    "input_index tx (oc_outpoint (ps_issuer (lg_ps s))) = None"
    using idle by (auto intro!: input_index_idle simp: lg_idle_def)
  have "vault_inputs st tx = []"
    using idle by (auto simp: vault_inputs_def filter_empty_conv in_set_enumerate_eq corr_simps[OF co] lg_idle_def)
  then have "apply_events L c owners h tx st = non_protocol_tx L c h (lb_txid L tx) tx st"
    by (simp add: apply_events_def corr_simps[OF co] ii)
  then show ?thesis
    by (auto simp: non_protocol_tx_def corr_simps[OF co] Let_def split: option.splits prod.splits)
qed

lemma run_index:
  assumes "run L c (followed L owners) s txs s'" "deployed L c" "lg_wf s" "obol_supply s < 2 ^ 63" "corr L c st s"
  shows "corr L c (fst (index_txs L c owners txs st)) s' \<and> list_all (\<lambda>n. clean (no_event n)) (snd (index_txs L c owners txs st))"
  using assms
proof induction
  case (run_op s txs s' h k p s'' tx)
  obtain st1 ns where i1: "index_txs L c owners txs st = (st1, ns)" by force
  obtain st2 evs where i2: "apply_events L c owners h tx st1 = (st2, evs)" by force
  from run_op i1 have ih: "corr L c st1 s'" "list_all (\<lambda>n. clean (no_event n)) ns" by auto
  from run_invariant[OF run_op(1)] run_op have inv: "lg_wf s'" "obol_supply s' < 2 ^ 63" by auto
  from step_index[OF run_op(2) \<open>deployed L c\<close> inv(1) ih(1) inv(2) \<open>followed L owners k tx\<close> \<open>confirms L p tx\<close>] i2 ih(2)
  show ?case by (auto simp: index_txs_snoc i1 apply_tx_def list_all_iff)
next
  case (run_other s txs s' tx h)
  obtain st1 ns where i1: "index_txs L c owners txs st = (st1, ns)" by force
  obtain st2 evs where i2: "apply_events L c owners h tx st1 = (st2, evs)" by force
  from run_other i1 have ih: "corr L c st1 s'" "list_all (\<lambda>n. clean (no_event n)) ns" by auto
  from other_index[OF ih(1) run_other(2), of owners h] i2 ih
  show ?case by (auto simp: index_txs_snoc i1 apply_tx_def list_all_iff)
qed simp

section \<open>A sample run\<close>

definition sample_vault_utxo :: vault_utxo where
  "sample_vault_utxo = \<lparr>oc_state = sample_vault, oc_outpoint = OutPoint 5 0, oc_value = Sats 900000\<rparr>"

definition sample_ledger :: ledger where
  "sample_ledger =
     \<lparr>lg_ps = \<lparr>ps_pot = \<lparr>oc_state = PotState, oc_outpoint = OutPoint 2 0, oc_value = Obol 1000\<rparr>,
               ps_reserve = \<lparr>oc_state = ReserveState, oc_outpoint = OutPoint 3 0, oc_value = Sats 5000\<rparr>,
               ps_issuer = \<lparr>oc_state = \<lparr>is_last_mint_height = BlockHeight 1\<rparr>, oc_outpoint = OutPoint 4 0, oc_value = 1\<rparr>\<rparr>,
      lg_vaults = put_vault sample_vault_utxo fmempty\<rparr>"

definition sample_repay :: "u64 \<Rightarrow> repay_intent" where
  "sample_repay x =
     \<lparr>rp_amount = Obol x,
      rp_payer = \<lparr>oc_coin_outpoint = OutPoint 6 0, oc_coin_value = Obol 50, oc_coin_spk = [0]\<rparr>,
      rp_payer_change_spk = [0],
      rp_fee_coin = \<lparr>fc_outpoint = OutPoint 7 0, fc_value = Sats 20000, fc_spk = [0]\<rparr>,
      rp_change_spk = [0], rp_fee = Sats 10000\<rparr>"

abbreviation sample_repaid :: "repay_delta built" where
  "sample_repaid \<equiv> repay_unchecked sample_library sample_ctx (ps_pot (lg_ps sample_ledger)) sample_vault_utxo (sample_repay 40)"

definition sample_index :: "index_state" where
  "sample_index = (genesis 0)\<lparr>ix_pot := Some (ps_pot (lg_ps sample_ledger)), ix_reserve := Some (ps_reserve (lg_ps sample_ledger)),
     ix_issuer := Some (ps_issuer (lg_ps sample_ledger)),
     ix_vaults := fmupd (OutPoint 5 0) (tv_of sample_library sample_ctx sample_vault_utxo) fmempty\<rparr>"

lemma sample_wallet_spk: "wallet_spk sample_library sample_ctx [0]"
  by (simp add: wallet_spk_def pot_spk_def stability_spk_def p2tr_spk_def sample_library_def Let_def)

lemma sample_deployed: "deployed sample_library sample_ctx"
  by (simp add: deployed_def sample_library_ok sample_artifacts_wf sample_ctx_def assets_ok_def sample_params_def)

lemma sample_wf: "lg_wf sample_ledger" "obol_supply sample_ledger = 1100"
  using total_debt_put[of fmempty sample_vault_utxo]
  by (auto simp: lg_wf_def sample_ledger_def put_vault_def obol_supply_def sample_vault_utxo_def debt_nat_def
      sample_vault_def total_debt_def)

lemma sample_corr: "corr sample_library sample_ctx sample_index sample_ledger"
  by (simp add: corr_iff sample_index_def sample_ledger_def fmmap_put sample_vault_utxo_def)

lemma sample_idle: "lg_idle sample_ledger (OutPoint 6 n)" "lg_idle sample_ledger (OutPoint 7 n)" "lg_idle sample_ledger (OutPoint 1 n)"
  by (simp_all add: lg_idle_def sample_ledger_def put_vault_def sample_vault_utxo_def)

lemma sample_repay_ok:
  "x \<le> 50 \<Longrightarrow> repay sample_library sample_ctx (ps_pot (lg_ps sample_ledger)) sample_vault_utxo (sample_repay x) =
     Inr (repay_unchecked sample_library sample_ctx (ps_pot (lg_ps sample_ledger)) sample_vault_utxo (sample_repay x))"
  by (simp add: repay_Inr_iff sample_repay_def sample_vault_utxo_def sample_vault_def less_eq_obol_def less_sats_def)
     (rule order_trans, assumption, simp)

lemma sample_step:
  "step sample_library sample_ctx h (KRepay (Obol 40)) sample_ledger (bt_plan sample_repaid)
     (sample_ledger\<lparr>lg_ps := (lg_ps sample_ledger)\<lparr>ps_pot := rd_pot (bt_expected sample_repaid)\<rparr>,
        lg_vaults := put_vault (rd_vault (bt_expected sample_repaid)) (fmdrop (OutPoint 5 0) (lg_vaults sample_ledger))\<rparr>)"
proof -
  have look: "fmlookup (lg_vaults sample_ledger) (oc_outpoint sample_vault_utxo) = Some sample_vault_utxo"
    by (simp add: sample_ledger_def put_vault_def sample_vault_utxo_def)
  have fresh: "lg_fresh sample_ledger (plan_txid sample_library (bt_plan sample_repaid))"
    by (simp add: lg_fresh_def plan_txid_def sample_library_def sample_idle)
  from step_repay[OF sample_repay_ok[of 40] look _ _ _ fresh, of h] show ?thesis
    by (simp add: sample_repay_def sample_idle sample_wallet_spk sample_vault_utxo_def)
qed

lemma sample_run:
  "\<exists>s'. run sample_library sample_ctx (followed sample_library [9]) sample_ledger [(h, pl_tx (bt_plan sample_repaid))] s' \<and>
     oc_value (ps_pot (lg_ps s')) = Obol 1040"
proof -
  have ok: "followed sample_library [9] (KRepay (Obol 40)) (pl_tx (bt_plan sample_repaid))" by (simp add: obol_ZERO_def)
  have "oc_value (rd_pot (bt_expected sample_repaid)) = Obol 1040"
    by (simp add: repay_unchecked_def Let_def sample_ledger_def sample_repay_def)
  with run_op[of _ _ "followed sample_library [9]", OF run_nil sample_step[of h] ok confirms_refl] show ?thesis by (auto intro!: exI)
qed

section \<open>Properties\<close>

text \<open>
  C1 (ledger_safe): along every run of the chain, whatever side condition its operations satisfy (so
  with none as well: zero repayments and unknown owners included), the OBOL in the pot plus the debt
  of all open vaults never changes (everything that circulates is owed by some vault), the mint
  anchor of the issuer never moves back, and the three singletons and the vaults stay at pairwise
  different outpoints.
\<close>

theorem ledger_safe:
  assumes "run L c Q s txs s'" "lg_wf s" "obol_supply s < 2 ^ 63"
  shows "lg_wf s' \<and> obol_supply s' = obol_supply s \<and> anchor_of s \<le> anchor_of s'"
  by (rule run_invariant[OF assms])

theorem ledger_safe_witness:
  "\<exists>s'. run sample_library sample_ctx (followed sample_library [9]) sample_ledger [(10, pl_tx (bt_plan sample_repaid))] s' \<and>
     oc_value (ps_pot (lg_ps s')) = Obol 1040 \<and> obol_supply s' = 1100"
  using sample_run ledger_safe[of sample_library sample_ctx "followed sample_library [9]" sample_ledger "[(10, _)]"] sample_wf by fastforce

text \<open>
  C2 (index_refines_ledger): the indexer refines the ledger along every run that it can follow
  (\<open>followed L owners\<close>): every OPEN's owner is in the indexer's list or readable in the witness of the
  issuer input, no REPAY is of amount zero, and no FULL-LIQ is of a vault without debt. From any
  indexed state that agrees with the ledger, indexing the transactions of such a run one after the
  other, each a confirmed form of a builder's plan or a foreign transaction, ends in a state that
  agrees with the ledger of the run, and no vault is reported lost and no anomaly raised on the
  way. Nothing is claimed for other runs, and a zero REPAY does break the agreement (next property).
\<close>

theorem index_refines_ledger:
  assumes "run L c (followed L owners) s txs s'" "deployed L c" "lg_wf s" "obol_supply s < 2 ^ 63" "corr L c st s"
  shows "corr L c (fst (index_txs L c owners txs st)) s' \<and>
    list_all (\<lambda>n. clean (no_event n)) (snd (index_txs L c owners txs st))"
  by (rule run_index[OF assms])

theorem index_refines_ledger_witness:
  "\<exists>s'. run sample_library sample_ctx (followed sample_library [9]) sample_ledger [(10, pl_tx (bt_plan sample_repaid))] s' \<and>
     corr sample_library sample_ctx
       (fst (index_txs sample_library sample_ctx [9] [(10, pl_tx (bt_plan sample_repaid))] sample_index)) s' \<and>
     ps_pot (lg_ps s') \<noteq> ps_pot (lg_ps sample_ledger)"
proof -
  obtain s' where r: "run sample_library sample_ctx (followed sample_library [9]) sample_ledger [(10, pl_tx (bt_plan sample_repaid))] s'"
    "oc_value (ps_pot (lg_ps s')) = Obol 1040"
    using sample_run by blast
  moreover have "ps_pot (lg_ps s') \<noteq> ps_pot (lg_ps sample_ledger)" using r(2) by (auto simp: sample_ledger_def)
  ultimately show ?thesis
    using index_refines_ledger[OF r(1) sample_deployed sample_wf(1) _ sample_corr] sample_wf(2) by auto
qed

text \<open>
  C27 (zero_repay_hides_vault): a REPAY of amount zero is accepted by the builder (it has no
  zero-amount refusal, unlike DRAW and LIQUIDATE), its transaction carries the successor vault
  with the unchanged debt at output 0, but the indexer reports the vault lost and tracks neither
  the old outpoint nor the live successor.
\<close>

theorem zero_repay_hides_vault:
  assumes "deployed L c" "lg_wf s" "corr L c st s" "fmlookup (lg_vaults s) (oc_outpoint v) = Some v"
    and b: "repay L c (ps_pot (lg_ps s)) v i = Inr b" and "rp_amount i = obol_ZERO"
    and idle: "lg_idle s (oc_coin_outpoint (rp_payer i))" "lg_idle s (fc_outpoint (rp_fee_coin i))"
    and "wallet_spk L c (rp_payer_change_spk i)" and fresh: "lg_fresh s (plan_txid L (bt_plan b))" and "confirms L (bt_plan b) tx"
  shows "to_script_pubkey (tx_output tx ! 0) = vault_spk L (cx_artifacts c) (oc_state v) \<and>
    fmlookup (ix_vaults (fst (apply_events L c owners h tx st))) (oc_outpoint v) = None \<and>
    fmlookup (ix_vaults (fst (apply_events L c owners h tx st))) (OutPoint (lb_txid L tx) 0) = None \<and>
    VaultLost (oc_outpoint v) ''REPAY-shaped spend without a pot successor'' \<in> set (snd (apply_events L c owners h tx st))"
proof -
  have be: "b = repay_unchecked L c (ps_pot (lg_ps s)) v i" using b by (simp add: repay_Inr_iff)
  have "sat_sub x 0 = x" for x :: u64 by (simp add: sat_sub_def)
  then have out: "to_script_pubkey (tx_output (pl_tx (bt_plan b)) ! 0) = vault_spk L (cx_artifacts c) (oc_state v)"
    by (simp add: be repay_unchecked_def Let_def \<open>rp_amount i = _\<close> obol_ZERO_def txout_def)
  have "fmlookup (fmdrop (oc_outpoint v) (ix_vaults st)) (oc_outpoint (rd_vault (bt_expected b))) = None"
    using repay_outs[OF b] lg_freshD(1)[OF fresh] by (simp add: corr_simps[OF \<open>corr L c st s\<close>])
  with index_zero_repay[OF corr_tracks[OF assms(3,2)] corr_vault[OF assms(3,4)] assms(1) b \<open>confirms L _ tx\<close>
      corr_idle[OF assms(3) idle(1)] corr_idle[OF assms(3) idle(2)] \<open>wallet_spk L c _\<close> \<open>rp_amount i = _\<close>, of owners h]
    repay_outs[OF b] out \<open>confirms L _ tx\<close>
  show ?thesis by (simp add: confirms_def)
qed

theorem zero_repay_hides_vault_witness:
  "\<exists>b. repay sample_library sample_ctx (ps_pot (lg_ps sample_ledger)) sample_vault_utxo (sample_repay 0) = Inr b \<and>
     fmlookup (ix_vaults (fst (apply_events sample_library sample_ctx [9] 10 (pl_tx (bt_plan b)) sample_index)))
       (OutPoint (lb_txid sample_library (pl_tx (bt_plan b))) 0) = None"
proof -
  define b where "b = repay_unchecked sample_library sample_ctx (ps_pot (lg_ps sample_ledger)) sample_vault_utxo (sample_repay 0)"
  have b: "repay sample_library sample_ctx (ps_pot (lg_ps sample_ledger)) sample_vault_utxo (sample_repay 0) = Inr b"
    by (simp add: b_def sample_repay_ok)
  have look: "fmlookup (lg_vaults sample_ledger) (oc_outpoint sample_vault_utxo) = Some sample_vault_utxo"
    by (simp add: sample_ledger_def put_vault_def sample_vault_utxo_def)
  have fresh: "lg_fresh sample_ledger (plan_txid sample_library (bt_plan b))"
    by (simp add: lg_fresh_def plan_txid_def sample_library_def sample_idle)
  have "rp_amount (sample_repay 0) = obol_ZERO" by (simp add: sample_repay_def obol_ZERO_def)
  from zero_repay_hides_vault[OF sample_deployed sample_wf(1) sample_corr look b this _ _ _ fresh confirms_refl, of "[9]" 10] b
  show ?thesis by (auto simp: sample_repay_def sample_idle sample_wallet_spk)
qed

end
