(* ===== verification/Styx_Sync.thy ===== *)
theory Styx_Sync
  imports Styx_System
begin

text \<open>
  The catch-up scan (\<open>styx-watch/src/sync.rs\<close>): blocks from the indexed height to the tip of the
  node, each checked against the sealed tip before its transactions are indexed. The node is a
  parameter: the answers elementsd gives to the three calls the scan makes.
\<close>

section \<open>The node and the scan\<close>

datatype node_error = Rpc string string | Shape string | Funding string

record block =
  bk_prev_blockhash :: block_hash
  bk_txdata :: "transaction list"

record node =
  nd_height :: "node_error + u32"
  nd_block_hash :: "u32 \<Rightarrow> node_error + block_hash"
  nd_block :: "block_hash \<Rightarrow> node_error + block"

datatype sync_error = SyncNode node_error | Reorg u32

text \<open>
  The body of the \<open>for\<close> loop: the accumulated notices are returned only when the scan ends, the
  state is updated in place, so both results carry it.
\<close>

fun catch_up_loop ::
  "'p library \<Rightarrow> 'p ctx \<Rightarrow> xonly list \<Rightarrow> node \<Rightarrow> nat \<Rightarrow> u32 \<Rightarrow> index_state \<Rightarrow> notice list \<Rightarrow>
     (sync_error + notice list) \<times> index_state" where
  "catch_up_loop L c owners nd 0 h st notices = (Inr notices, st)"
| "catch_up_loop L c owners nd (Suc n) h st notices =
     (case nd_block_hash nd h of
        Inl e \<Rightarrow> (Inl (SyncNode e), st)
      | Inr hash \<Rightarrow>
         (case nd_block nd hash of
            Inl e \<Rightarrow> (Inl (SyncNode e), st)
          | Inr b \<Rightarrow>
             if bk_prev_blockhash b \<noteq> ix_tip st then (Inl (Reorg h), st)
             else (case index_txs L c owners (map (Pair h) (bk_txdata b)) st of
                     (st', ns) \<Rightarrow> catch_up_loop L c owners nd n (h + 1) (seal h hash st') (notices @ ns))))"

text \<open>The number of heights in the inclusive range the loop walks.\<close>

definition range_count :: "u32 \<Rightarrow> u32 \<Rightarrow> nat" where
  "range_count lo hi = (if lo \<le> hi then Suc (unat hi - unat lo) else 0)"

definition catch_up ::
  "'p library \<Rightarrow> 'p ctx \<Rightarrow> xonly list \<Rightarrow> node \<Rightarrow> index_state \<Rightarrow> (sync_error + notice list) \<times> index_state" where
  "catch_up L c owners nd st =
     (case nd_height nd of
        Inl e \<Rightarrow> (Inl (SyncNode e), st)
      | Inr tip \<Rightarrow> catch_up_loop L c owners nd (range_count (ix_height st + 1) tip) (ix_height st + 1) st [])"

section \<open>Runs, block by block\<close>

lemma run_split: "run L c Q s (xs @ ys) s' \<Longrightarrow> \<exists>m. run L c Q s xs m \<and> run L c Q m ys s'"
proof (induction ys arbitrary: s' rule: rev_induct)
  case Nil
  then show ?case by (auto intro: run_nil)
next
  case (snoc y ys)
  obtain h tx where y: "y = (h, tx)" by force
  from snoc.prems have "run L c Q s ((xs @ ys) @ [(h, tx)]) s'" by (simp add: y)
  then show ?case
  proof cases
    case (run_op txs m h' k p tx')
    with snoc.IH[of m] obtain m0 where "run L c Q s xs m0" "run L c Q m0 ys m" by auto
    with run_op show ?thesis by (auto simp: y intro: run.run_op)
  next
    case (run_other txs tx' h')
    with snoc.IH[of s'] obtain m0 where "run L c Q s xs m0" "run L c Q m0 ys s'" by auto
    with run_other show ?thesis by (auto simp: y intro: run.run_other)
  qed simp
qed

text \<open>The node serves a list of blocks from a height on, each extending the one before.\<close>

fun serves :: "node \<Rightarrow> block_hash \<Rightarrow> u32 \<Rightarrow> (block_hash \<times> block) list \<Rightarrow> bool" where
  "serves nd prev h [] = True"
| "serves nd prev h ((hash, b) # bs) =
     (nd_block_hash nd h = Inr hash \<and> nd_block nd hash = Inr b \<and> bk_prev_blockhash b = prev \<and>
      serves nd hash (h + 1) bs)"

fun chain_txs :: "u32 \<Rightarrow> (block_hash \<times> block) list \<Rightarrow> (u32 \<times> transaction) list" where
  "chain_txs h [] = []"
| "chain_txs h ((hash, b) # bs) = map (Pair h) (bk_txdata b) @ chain_txs (h + 1) bs"

lemma corr_seal [simp]: "corr L c (seal h hash st) s \<longleftrightarrow> corr L c st s"
  by (simp add: corr_iff seal_def)

lemma catch_up_loop_run:
  assumes "serves nd (ix_tip st) h bs" "run L c (followed L owners) s (chain_txs h bs) s'" "deployed L c" "lg_wf s"
    "obol_supply s < 2 ^ 63" "corr L c st s" "list_all (\<lambda>n. clean (no_event n)) ns"
  shows "\<exists>ns' st'. catch_up_loop L c owners nd (length bs) h st ns = (Inr ns', st') \<and> corr L c st' s' \<and>
    list_all (\<lambda>n. clean (no_event n)) ns'"
  using assms
proof (induction bs arbitrary: h st s ns)
  case Nil
  then show ?case by (auto elim: run.cases)
next
  case (Cons hb bs)
  obtain hash b where hb: "hb = (hash, b)" by force
  from Cons.prems(2) obtain m where m: "run L c (followed L owners) s (map (Pair h) (bk_txdata b)) m"
    "run L c (followed L owners) m (chain_txs (h + 1) bs) s'"
    using run_split[of L c "followed L owners" s "map (Pair h) (bk_txdata b)" "chain_txs (h + 1) bs" s'] by (auto simp: hb)
  obtain st1 ns1 where ix: "index_txs L c owners (map (Pair h) (bk_txdata b)) st = (st1, ns1)" by force
  from run_index[OF m(1) Cons.prems(3-6)] ix
  have co: "corr L c (seal h hash st1) m" "list_all (\<lambda>n. clean (no_event n)) ns1" by auto
  from run_invariant[OF m(1) Cons.prems(4,5)] Cons.prems(5) have inv: "lg_wf m" "obol_supply m < 2 ^ 63" by auto
  have "serves nd (ix_tip (seal h hash st1)) (h + 1) bs" using Cons.prems(1) by (simp add: hb seal_def)
  from Cons.IH[OF this m(2) Cons.prems(3) inv co(1), of "ns @ ns1"] co(2) Cons.prems(7)
  obtain ns' st' where "catch_up_loop L c owners nd (length bs) (h + 1) (seal h hash st1) (ns @ ns1) = (Inr ns', st')"
    "corr L c st' s'" "list_all (\<lambda>n. clean (no_event n)) ns'"
    by auto
  then show ?case using Cons.prems(1) by (simp add: hb ix)
qed

lemma catch_up_loop_height:
  "catch_up_loop L c owners nd n h st ns = (Inr ns', st') \<Longrightarrow>
     ix_height st' = (if n = 0 then ix_height st else h + of_nat n - 1)"
proof (induction L c owners nd n h st ns rule: catch_up_loop.induct)
  case (2 L c owners nd n h st ns)
  then show ?case
    by (auto split: sum.splits prod.splits if_splits simp: seal_def)
qed simp

section \<open>Resuming after a failure\<close>

text \<open>A node that answers at least what another one answers.\<close>

definition answers_more :: "node \<Rightarrow> node \<Rightarrow> bool" where
  "answers_more nd nd' \<longleftrightarrow>
     (\<forall>h hash. nd_block_hash nd h = Inr hash \<longrightarrow> nd_block_hash nd' h = Inr hash) \<and>
     (\<forall>hash b. nd_block nd hash = Inr b \<longrightarrow> nd_block nd' hash = Inr b)"

lemma answers_moreD:
  "\<lbrakk>answers_more nd nd'; nd_block_hash nd h = Inr hash\<rbrakk> \<Longrightarrow> nd_block_hash nd' h = Inr hash"
  "\<lbrakk>answers_more nd nd'; nd_block nd hash = Inr b\<rbrakk> \<Longrightarrow> nd_block nd' hash = Inr b"
  by (auto simp: answers_more_def)

text \<open>The result of a scan with earlier notices put in front.\<close>

definition prepend :: "notice list \<Rightarrow> sync_error + notice list \<Rightarrow> sync_error + notice list" where
  "prepend ns r = map_sum id (\<lambda>xs. ns @ xs) r"

lemma prepend_simps [simp]:
  "prepend [] r = r" "prepend a (prepend b r) = prepend (a @ b) r" "prepend a (Inl e) = Inl e"
  "prepend a (Inr ns) = Inr (a @ ns)"
  by (cases r; simp add: prepend_def)+

lemma prepend_Inl: "prepend ns r = Inl e \<Longrightarrow> r = Inl e"
  by (cases r) simp_all

lemma catch_up_loop_acc:
  "catch_up_loop L c owners nd n h st ns =
     (case catch_up_loop L c owners nd n h st [] of (r, st') \<Rightarrow> (prepend ns r, st'))"
proof (induction n arbitrary: h st ns)
  case (Suc n)
  show ?case
  proof (cases "nd_block_hash nd h")
    case hash: (Inr hash)
    show ?thesis
    proof (cases "nd_block nd hash")
      case b: (Inr b)
      obtain st1 ns1 where ix: "index_txs L c owners (map (Pair h) (bk_txdata b)) st = (st1, ns1)" by force
      show ?thesis
        using Suc.IH[of "h + 1" "seal h hash st1" "ns @ ns1"] Suc.IH[of "h + 1" "seal h hash st1" ns1]
        by (simp add: hash b ix split: prod.splits)
    qed (simp add: hash)
  qed simp
qed simp

lemma range_count_next:
  assumes "range_count h tip = Suc n"
  shows "n = 0 \<or> range_count (h + 1) tip = n"
proof (cases "h = tip")
  case True
  with assms show ?thesis by (simp add: range_count_def)
next
  case False
  with assms have lt: "h < tip" by (auto simp: range_count_def split: if_splits)
  then have "Suc (unat h) < 2 ^ 32" using unat_lt_u32[of tip] by (simp add: word_less_nat_alt)
  then have "unat (h + 1) = Suc (unat h)" by (simp add: unat_word_ariths)
  moreover have "h + 1 \<le> tip" using lt by (simp add: inc_le)
  ultimately show ?thesis using assms lt by (auto simp: range_count_def word_less_nat_alt split: if_splits)
qed

lemma catch_up_loop_resume:
  assumes "catch_up_loop L c owners nd n h st [] = (Inl e, st1)" "answers_more nd nd'" "ix_height st + 1 = h"
    "n = range_count h tip"
  shows "\<exists>lost. catch_up_loop L c owners nd' n h st [] =
    (case catch_up_loop L c owners nd' (range_count (ix_height st1 + 1) tip) (ix_height st1 + 1) st1 [] of
       (r, st') \<Rightarrow> (prepend lost r, st'))"
  using assms
proof (induction n arbitrary: h st)
  case (Suc n)
  note fail = Suc.prems(1)
  show ?case
  proof (cases "st1 = st")
    case True
    with Suc.prems(3,4) show ?thesis by (intro exI[of _ "[]"]) (simp del: catch_up_loop.simps)
  next
    case False
    with fail obtain hash b where hb: "nd_block_hash nd h = Inr hash" "nd_block nd hash = Inr b"
      "bk_prev_blockhash b = ix_tip st"
      by (auto split: sum.splits if_splits)
    obtain st2 ns2 where ix: "index_txs L c owners (map (Pair h) (bk_txdata b)) st = (st2, ns2)" by force
    from fail have "catch_up_loop L c owners nd n (h + 1) (seal h hash st2) ns2 = (Inl e, st1)"
      by (simp add: hb ix)
    then have rest: "catch_up_loop L c owners nd n (h + 1) (seal h hash st2) [] = (Inl e, st1)"
      using catch_up_loop_acc[of L c owners nd n "h + 1" "seal h hash st2" ns2]
      by (auto split: prod.splits dest: prepend_Inl)
    then have "n \<noteq> 0" by (cases n) auto
    then have "n = range_count (h + 1) tip" using range_count_next[of h tip n] Suc.prems(4) by auto
    moreover have "ix_height (seal h hash st2) + 1 = h + 1" by (simp add: seal_def)
    ultimately obtain lost where "catch_up_loop L c owners nd' n (h + 1) (seal h hash st2) [] =
      (case catch_up_loop L c owners nd' (range_count (ix_height st1 + 1) tip) (ix_height st1 + 1) st1 [] of
         (r, st') \<Rightarrow> (prepend lost r, st'))"
      using Suc.IH[OF rest \<open>answers_more nd nd'\<close>] by blast
    then show ?thesis
      using catch_up_loop_acc[of L c owners nd' n "h + 1" "seal h hash st2" ns2]
      by (auto simp: answers_moreD[OF \<open>answers_more nd nd'\<close>] hb ix intro!: exI[of _ "ns2 @ lost"]
          split: prod.splits)
  qed
qed simp

lemma catch_up_loop_reorg:
  assumes "catch_up_loop L c owners nd n (ix_height st + 1) st ns = (Inl (Reorg h), st1)"
  shows "h = ix_height st1 + 1 \<and> (\<exists>hash b. nd_block_hash nd h = Inr hash \<and> nd_block nd hash = Inr b \<and>
    bk_prev_blockhash b \<noteq> ix_tip st1)"
  using assms
proof (induction n arbitrary: st ns)
  case (Suc n)
  let ?k = "ix_height st + 1"
  show ?case
  proof (cases "\<exists>hash b. nd_block_hash nd ?k = Inr hash \<and> nd_block nd hash = Inr b \<and> bk_prev_blockhash b = ix_tip st")
    case True
    then obtain hash b where hb: "nd_block_hash nd ?k = Inr hash" "nd_block nd hash = Inr b"
      "bk_prev_blockhash b = ix_tip st" by blast
    obtain st2 ns2 where ix: "index_txs L c owners (map (Pair ?k) (bk_txdata b)) st = (st2, ns2)" by force
    from Suc.prems Suc.IH[of "seal ?k hash st2" "ns @ ns2"] show ?thesis
      by (auto simp: hb ix seal_def)
  next
    case False
    with Suc.prems show ?thesis by (auto split: sum.splits if_splits prod.splits)
  qed
qed simp

section \<open>Properties\<close>

text \<open>
  C24 (catch_up_follows_chain): when the node serves a chain that extends the sealed tip up to its
  height and whose transactions are a run of the protocol that the scanner can follow (every OPEN's
  owner is in the scanner's list or readable in the witness of the issuer input, no REPAY is of
  amount zero and no FULL-LIQ of a vault without debt: \<open>followed L owners\<close>), the catch-up scan
  succeeds, ends sealed at the node's height with a state that agrees with the ledger of the run,
  and reports no lost vault and no anomaly. For other chains agreement is not claimed.
\<close>

theorem catch_up_follows_chain:
  assumes "nd_height nd = Inr tip" "serves nd (ix_tip st) (ix_height st + 1) bs"
    and len: "unat (ix_height st) + length bs = unat tip" and room: "ix_height st + 1 \<noteq> 0"
    and "run L c (followed L owners) s (chain_txs (ix_height st + 1) bs) s'" "deployed L c" "lg_wf s" "obol_supply s < 2 ^ 63"
      "corr L c st s"
  shows "\<exists>ns st'. catch_up L c owners nd st = (Inr ns, st') \<and> corr L c st' s' \<and> ix_height st' = tip \<and>
    list_all (\<lambda>n. clean (no_event n)) ns"
proof -
  have tip: "tip = ix_height st + of_nat (length bs)"
    using len by (metis of_nat_add of_nat_unat ucast_id)
  have count: "range_count (ix_height st + 1) tip = length bs"
  proof (cases bs)
    case Nil
    with tip have "tip = ix_height st" by simp
    moreover have "\<not> ix_height st + 1 \<le> ix_height st"
      using room by (auto simp: inc_less_eq_triv_imp dest: inc_less_eq_triv_imp)
    ultimately show ?thesis using Nil by (auto simp: range_count_def)
  next
    case (Cons x xs)
    then have "Suc (unat (ix_height st)) < 2 ^ 32" using len unat_lt_u32[of tip] by simp
    then have "unat (ix_height st + 1) = Suc (unat (ix_height st))" by (simp add: unat_word_ariths)
    then show ?thesis using len Cons by (simp add: range_count_def word_le_nat_alt)
  qed
  from catch_up_loop_run[OF assms(2,5-9), of "[]"] obtain ns st'
    where loop: "catch_up_loop L c owners nd (length bs) (ix_height st + 1) st [] = (Inr ns, st')"
    and ok: "corr L c st' s'" "list_all (\<lambda>n. clean (no_event n)) ns" by auto
  have "ix_height st' = tip" using catch_up_loop_height[OF loop] tip by simp
  with loop ok show ?thesis by (simp add: catch_up_def \<open>nd_height nd = _\<close> count)
qed

definition sample_node :: "transaction list \<Rightarrow> node" where
  "sample_node txs =
     \<lparr>nd_height = Inr 1, nd_block_hash = (\<lambda>h. if h = 1 then Inr 77 else Inl (Rpc ''getblockhash'' ''out of range'')),
      nd_block = (\<lambda>hash. if hash = 77 then Inr \<lparr>bk_prev_blockhash = 0, bk_txdata = txs\<rparr> else Inl (Shape ''getblock''))\<rparr>"

lemma sample_index_tip: "ix_tip sample_index = 0" "ix_height sample_index = 0"
  by (simp_all add: sample_index_def genesis_def at_height_def)

theorem catch_up_follows_chain_witness:
  "\<exists>ns st'. catch_up sample_library sample_ctx [9] (sample_node [pl_tx (bt_plan sample_repaid)]) sample_index = (Inr ns, st') \<and>
     ix_height st' = 1 \<and> map_option oc_value (ix_pot st') = Some (Obol 1040)"
proof -
  let ?b = "\<lparr>bk_prev_blockhash = 0, bk_txdata = [pl_tx (bt_plan sample_repaid)]\<rparr>"
  let ?nd = "sample_node [pl_tx (bt_plan sample_repaid)]"
  obtain s' where s': "run sample_library sample_ctx (followed sample_library [9]) sample_ledger [(1, pl_tx (bt_plan sample_repaid))] s'"
    "oc_value (ps_pot (lg_ps s')) = Obol 1040"
    using sample_run by blast
  have hyps: "nd_height ?nd = Inr 1" "serves ?nd (ix_tip sample_index) (ix_height sample_index + 1) [(77, ?b)]"
    "unat (ix_height sample_index) + length [(77 :: block_hash, ?b)] = unat (1 :: u32)" "ix_height sample_index + 1 \<noteq> 0"
    "run sample_library sample_ctx (followed sample_library [9]) sample_ledger (chain_txs (ix_height sample_index + 1) [(77, ?b)]) s'"
    "obol_supply sample_ledger < 2 ^ 63"
    using s' by (simp_all add: sample_node_def sample_index_tip sample_wf(2))
  from catch_up_follows_chain[OF hyps(1-5) sample_deployed sample_wf(1) hyps(6) sample_corr] s'(2)
  show ?thesis by (auto simp: corr_iff)
qed

text \<open>
  A scan the node interrupts loses no state. Scanning again from the state
  the failed call left behind, with a node that now answers, ends in the same state and the same
  verdict as an uninterrupted scan; what is missing are the notices of the blocks the failed call
  had already sealed (\<open>missed\<close>), which no later call returns.
\<close>

lemma catch_up_resumes:
  assumes "catch_up L c owners nd st = (Inl e, st1)" "nd_height nd = Inr tip" "nd_height nd' = Inr tip"
    "answers_more nd nd'"
  shows "\<exists>missed. catch_up L c owners nd' st =
    (case catch_up L c owners nd' st1 of (r, st') \<Rightarrow> (prepend missed r, st'))"
  using catch_up_loop_resume[OF _ assms(4) refl refl, of L c owners "st" tip e st1] assms(1-3)
  by (simp add: catch_up_def)

text \<open>
  A reorg verdict is never spurious. It names the height after the sealed one,
  and the block the node serves there really does not extend the sealed tip.
\<close>

lemma catch_up_reorg:
  assumes "catch_up L c owners nd st = (Inl (Reorg h), st1)"
  shows "h = ix_height st1 + 1 \<and> (\<exists>hash b. nd_block_hash nd h = Inr hash \<and> nd_block nd hash = Inr b \<and>
    bk_prev_blockhash b \<noteq> ix_tip st1)"
  using assms by (auto simp: catch_up_def split: sum.splits dest!: catch_up_loop_reorg)

lemma catch_up_resumes_sample:
  "\<exists>e missed. catch_up sample_library sample_ctx [9]
       ((sample_node [])\<lparr>nd_height := Inr 2, nd_block := (\<lambda>_. Inl (Shape ''getblock''))\<rparr>) sample_index = (Inl e, sample_index) \<and>
     catch_up sample_library sample_ctx [9] ((sample_node [])\<lparr>nd_height := Inr 2\<rparr>) sample_index =
       (case catch_up sample_library sample_ctx [9] ((sample_node [])\<lparr>nd_height := Inr 2\<rparr>) sample_index of
          (r, st') \<Rightarrow> (prepend missed r, st'))"
proof -
  let ?nd = "(sample_node [])\<lparr>nd_height := Inr 2, nd_block := (\<lambda>_. Inl (Shape ''getblock''))\<rparr>"
  have f: "catch_up sample_library sample_ctx [9] ?nd sample_index = (Inl (SyncNode (Shape ''getblock'')), sample_index)"
    by (simp add: catch_up_def sample_node_def sample_index_tip range_count_def)
  have more: "answers_more ?nd ((sample_node [])\<lparr>nd_height := Inr 2\<rparr>)"
    by (simp add: answers_more_def)
  from catch_up_resumes[OF f _ _ more, of 2] f show ?thesis by auto
qed

end
