(* ===== verification/Styx_Node.thy ===== *)
theory Styx_Node
  imports Styx_Json Styx_Pset Styx_Sync
begin

text \<open>
  The node client (\<open>styx-node/src/client.rs\<close>), the protocol scanner (\<open>scan.rs\<close>) and the errors of
  \<open>lib.rs\<close>. elementsd is the parameter \<open>call\<close>, its answer to one JSON-RPC request; a loop that asks
  again takes the answers of every attempt. The parsers and printers of the elements library are
  the record \<open>node_codec\<close>. A call that broadcasts is a value here: what the node accepted is
  recorded by the callers.
\<close>

section \<open>Errors and constants\<close>

datatype broadcast_error = Conflict string | Rejected string | BroadcastNode node_error

datatype scan_error = PotFragmented nat | ReserveFragmented nat | Missing string | ScanNode node_error

fun show_node_error :: "node_error \<Rightarrow> string" where
  "show_node_error (Rpc method message) = ''rpc '' @ method @ '': '' @ message"
| "show_node_error (Shape context) = ''unexpected rpc shape in '' @ context"
| "show_node_error (Funding m) = ''wallet funding: '' @ m"

fun show_broadcast_error :: "broadcast_error \<Rightarrow> string" where
  "show_broadcast_error (Conflict m) = ''input conflict: '' @ m"
| "show_broadcast_error (Rejected m) = ''rejected: '' @ m"
| "show_broadcast_error (BroadcastNode e) = show_node_error e"

definition FEE :: sats where "FEE = Sats 10000"
definition FEE_RPC :: u64 where "FEE_RPC = 100000"
definition PREVOUT :: u64 where "PREVOUT = 100000"

text \<open>Decimal notation, as \<open>format!\<close> prints an integer.\<close>

fun dec_str :: "nat \<Rightarrow> string" where
  "dec_str n = (if n < 10 then [char_of (48 + n)] else dec_str (n div 10) @ [char_of (48 + n mod 10)])"

declare dec_str.simps [simp del]

definition change_after :: "u64 \<Rightarrow> u64 \<Rightarrow> string \<Rightarrow> node_error + u64" where
  "change_after have_sats spend what =
     (case sub_checked have_sats spend of
        Some c \<Rightarrow> Inr c
      | None \<Rightarrow> Inl (Funding (what @ '': wallet coin has '' @ dec_str (unat have_sats) @
          '' sats but the transaction needs '' @ dec_str (unat spend) @
          ''; fund the wallet with a larger single coin'')))"

section \<open>Requests\<close>

type_synonym call = "string \<Rightarrow> json list \<Rightarrow> string + json"

record node_codec =
  nc_txid :: "string \<Rightarrow> txid option"
  nc_txid_str :: "txid \<Rightarrow> string"
  nc_asset :: "string \<Rightarrow> asset_id option"
  nc_hash :: "string \<Rightarrow> block_hash option"
  nc_hash_str :: "block_hash \<Rightarrow> string"
  nc_from_hex :: "string \<Rightarrow> bytes option"
  nc_block :: "bytes \<Rightarrow> block option"
  nc_tx :: "bytes \<Rightarrow> transaction option"
  nc_tx_hex :: "transaction \<Rightarrow> string"
  nc_address_spk :: "string \<Rightarrow> script option"

definition rpc :: "call \<Rightarrow> string \<Rightarrow> json list \<Rightarrow> node_error + json" where
  "rpc call method args = map_err (Rpc method) (call method args)"

definition or_shape :: "string \<Rightarrow> 'a option \<Rightarrow> node_error + 'a" where
  "or_shape context v = (case v of None \<Rightarrow> Inl (Shape context) | Some a \<Rightarrow> Inr a)"

definition node_height :: "call \<Rightarrow> node_error + u32" where
  "node_height call =
     bind_res (rpc call ''getblockcount'' []) (\<lambda>v. or_shape ''getblockcount'' (map_option ucast (as_u64 v)))"

definition node_chain :: "call \<Rightarrow> node_error + string" where
  "node_chain call =
     bind_res (rpc call ''getblockchaininfo'' []) (\<lambda>info. or_shape ''getblockchaininfo chain'' (as_str (json_key info ''chain'')))"

definition relay_feerate_sat_per_kvb :: "call \<Rightarrow> u64 option" where
  "relay_feerate_sat_per_kvb call =
     Option.bind (sum_res (rpc call ''getnetworkinfo'' [])) (\<lambda>info.
     map_option (\<lambda>x. round_as_word (f64_mul x (10 ^ 8))) (as_f64 (json_key info ''relayfee'')))"

definition str_or_empty :: "json \<Rightarrow> string" where
  "str_or_empty v = (case as_str v of None \<Rightarrow> [] | Some s \<Rightarrow> s)"

definition node_block_hash :: "node_codec \<Rightarrow> call \<Rightarrow> u32 \<Rightarrow> node_error + block_hash" where
  "node_block_hash K call height =
     bind_res (rpc call ''getblockhash'' [JNumber (PosInt (ucast height))]) (\<lambda>v.
     or_shape ''getblockhash'' (nc_hash K (str_or_empty v)))"

definition node_genesis :: "node_codec \<Rightarrow> call \<Rightarrow> node_error + block_hash" where
  "node_genesis K call = node_block_hash K call 0"

definition node_block :: "node_codec \<Rightarrow> call \<Rightarrow> block_hash \<Rightarrow> node_error + block" where
  "node_block K call hash =
     bind_res (rpc call ''getblock'' [JString (nc_hash_str K hash), JNumber (PosInt 0)]) (\<lambda>res.
     bind_res (or_shape ''getblock'' (as_str res)) (\<lambda>hex.
     bind_res (or_shape ''getblock hex'' (nc_from_hex K hex)) (\<lambda>bs.
     or_shape ''getblock block'' (nc_block K bs))))"

text \<open>The three answers the catch-up scan asks for.\<close>

definition node_view :: "node_codec \<Rightarrow> call \<Rightarrow> node" where
  "node_view K call =
     \<lparr>nd_height = node_height call, nd_block_hash = node_block_hash K call, nd_block = node_block K call\<rparr>"

definition new_address :: "node_codec \<Rightarrow> call \<Rightarrow> node_error + script" where
  "new_address K call =
     bind_res (rpc call ''getnewaddress'' []) (\<lambda>v. or_shape ''getnewaddress'' (nc_address_spk K (str_or_empty v)))"

section \<open>Broadcast\<close>

datatype broadcast_verdict = VerdictConflict | VerdictAlreadyKnown | VerdictRejected

fun contains :: "string \<Rightarrow> string \<Rightarrow> bool" where
  "contains [] pat = (pat = [])"
| "contains (c # s) pat = (take (length pat) (c # s) = pat \<or> contains s pat)"

definition classify_broadcast :: "string \<Rightarrow> broadcast_verdict" where
  "classify_broadcast message =
     (if contains message ''missingorspent'' \<or> contains message ''txn-mempool-conflict'' \<or>
         contains message ''insufficient fee, rejecting replacement'' \<or> contains message ''conflict''
      then VerdictConflict
      else if contains message ''already in block chain'' \<or> contains message ''already known'' \<or>
              contains message ''already-known'' \<or> contains message ''txn-already-in-mempool''
      then VerdictAlreadyKnown
      else VerdictRejected)"

definition node_send :: "'p library \<Rightarrow> node_codec \<Rightarrow> call \<Rightarrow> transaction \<Rightarrow> broadcast_error + txid" where
  "node_send L K call tx =
     (case rpc call ''sendrawtransaction'' [JString (nc_tx_hex K tx)] of
        Inr v \<Rightarrow> map_err BroadcastNode (or_shape ''sendrawtransaction'' (nc_txid K (str_or_empty v)))
      | Inl (Rpc _ message) \<Rightarrow>
          (case classify_broadcast message of
             VerdictConflict \<Rightarrow> Inl (Conflict message)
           | VerdictAlreadyKnown \<Rightarrow> Inr (lb_txid L tx)
           | VerdictRejected \<Rightarrow> Inl (Rejected message))
      | Inl e \<Rightarrow> Inl (BroadcastNode e))"

section \<open>The node's own wallet\<close>

definition get_tx :: "node_codec \<Rightarrow> call \<Rightarrow> txid \<Rightarrow> node_error + transaction" where
  "get_tx K call txid =
     bind_res (rpc call ''gettransaction'' [JString (nc_txid_str K txid)]) (\<lambda>v.
     bind_res (or_shape ''gettransaction'' (as_str (json_key v ''hex''))) (\<lambda>hex.
     bind_res (or_shape ''gettransaction hex'' (nc_from_hex K hex)) (\<lambda>bs.
     or_shape ''gettransaction tx'' (nc_tx K bs))))"

definition node_find :: "node_codec \<Rightarrow> call \<Rightarrow> txid \<Rightarrow> script \<Rightarrow> u64 \<Rightarrow> node_error + outpoint" where
  "node_find K call txid spk value =
     bind_res (get_tx K call txid) (\<lambda>tx.
     case position (\<lambda>o'. to_value o' = VExplicit value \<and> to_script_pubkey o' = spk) (tx_output tx) of
       None \<Rightarrow> Inl (Shape ''find: output not present'')
     | Some vout \<Rightarrow> Inr (OutPoint txid (of_nat vout)))"

definition sats_of_btc :: "f64 \<Rightarrow> u64" where
  "sats_of_btc x = round_as_word (f64_mul x (10 ^ 8))"

definition policy_coin :: "node_codec \<Rightarrow> asset_id \<Rightarrow> json \<Rightarrow> (outpoint \<times> u64) option" where
  "policy_coin K policy c =
     Option.bind (as_str (json_key c ''asset'')) (\<lambda>a.
     Option.bind (nc_asset K a) (\<lambda>asset.
     if asset \<noteq> policy then None
     else Option.bind (as_str (json_key c ''txid'')) (\<lambda>t.
          Option.bind (nc_txid K t) (\<lambda>txid.
          Option.bind (as_u64 (json_key c ''vout'')) (\<lambda>vout.
          Option.bind (as_f64 (json_key c ''amount'')) (\<lambda>amount.
          Some (OutPoint txid (ucast vout), sats_of_btc amount)))))))"

text \<open>A stable sort by descending value.\<close>

definition sort_desc :: "('a \<times> u64) list \<Rightarrow> ('a \<times> u64) list" where
  "sort_desc coins = rev (sort_key snd (rev coins))"

definition policy_coins :: "node_codec \<Rightarrow> call \<Rightarrow> asset_id \<Rightarrow> node_error + (outpoint \<times> u64) list" where
  "policy_coins K call policy =
     bind_res (rpc call ''listunspent'' []) (\<lambda>u.
     bind_res (or_shape ''listunspent'' (as_array u)) (\<lambda>us.
     Inr (sort_desc (somes (map (policy_coin K policy) us)))))"

definition spendable :: "node_codec \<Rightarrow> call \<Rightarrow> asset_id \<Rightarrow> node_error + u64" where
  "spendable K call policy = bind_res (policy_coins K call policy) (\<lambda>coins. Inr (sum_list (map snd coins)))"

text \<open>Largest first until the need is covered: \<open>Inl\<close> the total when the coins run out.\<close>

fun take_until :: "u64 \<Rightarrow> u64 \<Rightarrow> (outpoint \<times> u64) list \<Rightarrow> u64 + outpoint list \<times> u64" where
  "take_until need acc [] = Inl acc"
| "take_until need acc ((op, v) # coins) =
     (if need \<le> acc + v then Inr ([op], acc + v)
      else case take_until need (acc + v) coins of
             Inl t \<Rightarrow> Inl t | Inr (ops, t) \<Rightarrow> Inr (op # ops, t))"

definition select_coins :: "node_codec \<Rightarrow> call \<Rightarrow> asset_id \<Rightarrow> u64 \<Rightarrow> string \<Rightarrow> node_error + outpoint list \<times> u64" where
  "select_coins K call policy need what =
     bind_res (policy_coins K call policy) (\<lambda>coins.
     map_err (\<lambda>acc. Funding (what @ '': wallet holds '' @ dec_str (unat acc) @ '' spendable sats across '' @
         dec_str (length coins) @ '' coin(s) but the transaction needs '' @ dec_str (unat need) @
         ''; fund the wallet with more''))
       (take_until need 0 coins))"

definition pay_tx :: "asset_id \<Rightarrow> (script \<times> u64) list \<Rightarrow> outpoint list \<Rightarrow> u64 \<Rightarrow> script \<Rightarrow> transaction" where
  "pay_tx policy outs inputs change change_spk =
     \<lparr>tx_version = 2, tx_lock_time = 0, tx_input = map txin inputs,
      tx_output = map (\<lambda>(spk, v). txout v spk policy) outs @
        (if 0 < change then [txout change change_spk policy] else []) @ [fee_out FEE policy]\<rparr>"

text \<open>What the node's wallet signed, before it is sent.\<close>

definition signed_tx :: "node_codec \<Rightarrow> string \<Rightarrow> call \<Rightarrow> node_error + transaction" where
  "signed_tx K raw call =
     bind_res (rpc call ''signrawtransactionwithwallet'' [JString raw]) (\<lambda>v.
     bind_res (or_shape ''sign hex'' (as_str (json_key v ''hex''))) (\<lambda>hex.
     bind_res (or_shape ''sign hex'' (nc_from_hex K hex)) (\<lambda>bs.
     or_shape ''sign tx'' (nc_tx K bs))))"

section \<open>Scanning\<close>

definition SCAN_BUSY :: string where "SCAN_BUSY = ''Scan already in progress''"

definition scan_desc :: "script \<Rightarrow> json list" where
  "scan_desc spk = [JString ''start'', JArray [JObject [(''desc'', JString (''raw('' @ hex_str spk @ '')''))]]]"

text \<open>The scan is asked again while the node is busy with another one, at most 40 times.\<close>

fun scan_retry :: "(nat \<Rightarrow> call) \<Rightarrow> json list \<Rightarrow> nat \<Rightarrow> nat \<Rightarrow> node_error + json" where
  "scan_retry calls args i 0 = rpc (calls i) ''scantxoutset'' args"
| "scan_retry calls args i (Suc n) =
     (case rpc (calls i) ''scantxoutset'' args of
        Inl (Rpc m message) \<Rightarrow>
          if contains message SCAN_BUSY then scan_retry calls args (Suc i) n else Inl (Rpc m message)
      | r \<Rightarrow> r)"

text \<open>One entry of the answer: \<open>None\<close> when it is of another asset.\<close>

definition scan_entry :: "node_codec \<Rightarrow> asset_id \<Rightarrow> json \<Rightarrow> node_error + (outpoint \<times> u64) option" where
  "scan_entry K asset u =
     bind_res (or_shape ''scantxoutset asset'' (Option.bind (as_str (json_key u ''asset'')) (nc_asset K))) (\<lambda>a.
     if a \<noteq> asset then Inr None
     else bind_res (or_shape ''scantxoutset txid'' (Option.bind (as_str (json_key u ''txid'')) (nc_txid K))) (\<lambda>txid.
          bind_res (or_shape ''scantxoutset vout'' (as_u64 (json_key u ''vout''))) (\<lambda>vout.
          bind_res (or_shape ''scantxoutset amount'' (as_f64 (json_key u ''amount''))) (\<lambda>amount.
          Inr (Some (OutPoint txid (ucast vout), sats_of_btc amount))))))"

fun scan_entries :: "node_codec \<Rightarrow> asset_id \<Rightarrow> json list \<Rightarrow> node_error + (outpoint \<times> u64) list" where
  "scan_entries K asset [] = Inr []"
| "scan_entries K asset (u # us) =
     bind_res (scan_entry K asset u) (\<lambda>c.
     bind_res (scan_entries K asset us) (\<lambda>cs.
     Inr (case c of None \<Rightarrow> cs | Some x \<Rightarrow> x # cs)))"

definition scan_spk :: "node_codec \<Rightarrow> (nat \<Rightarrow> call) \<Rightarrow> script \<Rightarrow> asset_id \<Rightarrow> scan_error + (outpoint \<times> u64) list" where
  "scan_spk K calls spk asset =
     map_err ScanNode
      (bind_res (scan_retry calls (scan_desc spk) 0 40) (\<lambda>res.
       bind_res (or_shape ''scantxoutset unspents'' (as_array (json_key res ''unspents''))) (\<lambda>unspents.
       scan_entries K asset unspents)))"

definition first_or_missing :: "string \<Rightarrow> 'a list \<Rightarrow> scan_error + 'a" where
  "first_or_missing role xs = (case xs of [] \<Rightarrow> Inl (Missing role) | x # _ \<Rightarrow> Inr x)"

text \<open>The scans run one after the other; the first argument gives the answers of each.\<close>

definition scan_protocol ::
  "'p library \<Rightarrow> node_codec \<Rightarrow> (nat \<Rightarrow> nat \<Rightarrow> call) \<Rightarrow> 'p ctx \<Rightarrow> issuer_state \<Rightarrow> scan_error + protocol_state" where
  "scan_protocol L K scans c expected_issuer =
     bind_res (scan_spk K (scans 0) (pot_spk L (cx_artifacts c)) (pr_obol (cx_params c))) (\<lambda>pots.
     refuse_if (1 < length pots) (PotFragmented (length pots)) (
     bind_res (first_or_missing ''pot'' pots) (\<lambda>(pot_op, pot_val).
     bind_res (scan_spk K (scans 1) (stability_spk L (cx_artifacts c)) (pr_policy (cx_params c))) (\<lambda>reserves.
     refuse_if (1 < length reserves) (ReserveFragmented (length reserves)) (
     bind_res (first_or_missing ''reserve'' reserves) (\<lambda>(reserve_op, reserve_val).
     bind_res (scan_spk K (scans 2) (issuer_spk L (cx_artifacts c) expected_issuer) (pr_issuer_token (cx_params c))) (\<lambda>issuers.
     bind_res (first_or_missing ''issuer'' issuers) (\<lambda>(issuer_op, _).
     Inr \<lparr>ps_pot = \<lparr>oc_state = PotState, oc_outpoint = pot_op, oc_value = Obol pot_val\<rparr>,
          ps_reserve = \<lparr>oc_state = ReserveState, oc_outpoint = reserve_op, oc_value = Sats reserve_val\<rparr>,
          ps_issuer = \<lparr>oc_state = expected_issuer, oc_outpoint = issuer_op, oc_value = 1\<rparr>\<rparr>))))))))"

text \<open>The recovery of a lost anchor: the first height of the range at which the token lies.\<close>

fun find_issuer_from ::
  "'p library \<Rightarrow> node_codec \<Rightarrow> (nat \<Rightarrow> nat \<Rightarrow> call) \<Rightarrow> 'p ctx \<Rightarrow> u32 \<Rightarrow> nat \<Rightarrow> nat \<Rightarrow> scan_error + issuer_utxo" where
  "find_issuer_from L K scans c h i 0 = Inl (Missing ''issuer'')"
| "find_issuer_from L K scans c h i (Suc n) =
     (let st = \<lparr>is_last_mint_height = BlockHeight h\<rparr> in
      bind_res (scan_spk K (scans i) (issuer_spk L (cx_artifacts c) st) (pr_issuer_token (cx_params c))) (\<lambda>coins.
      case coins of
        (op, _) # _ \<Rightarrow> Inr \<lparr>oc_state = st, oc_outpoint = op, oc_value = 1\<rparr>
      | [] \<Rightarrow> find_issuer_from L K scans c (h + 1) (Suc i) n))"

definition find_issuer ::
  "'p library \<Rightarrow> node_codec \<Rightarrow> (nat \<Rightarrow> nat \<Rightarrow> call) \<Rightarrow> 'p ctx \<Rightarrow> u32 \<Rightarrow> u32 \<Rightarrow> scan_error + issuer_utxo" where
  "find_issuer L K scans c lo hi = find_issuer_from L K scans c lo 0 (range_count lo hi)"


section \<open>Amounts are exact\<close>

text \<open>
  The node prints an amount as a decimal number of whole coins, which the JSON parser turns into the
  nearest double; the code multiplies by \<open>10 ^ 8\<close> and rounds. For every amount up to the supply of
  21 million coins the satoshis come back.
\<close>

definition btc_double :: "nat \<Rightarrow> rat \<Rightarrow> bool" where
  "btc_double v r \<longleftrightarrow> \<bar>r - of_nat v / 10 ^ 8\<bar> \<le> of_nat v / 10 ^ 8 / 2 ^ 53"

definition MAX_MONEY :: nat where "MAX_MONEY = 21 * 10 ^ 14"

lemma btc_double_near:
  assumes "btc_double v r" "v \<le> MAX_MONEY"
  shows "0 \<le> r" "\<bar>f64_round (r * 100000000) - of_nat v\<bar> < 1 / 2"
proof -
  define w :: rat where "w = of_nat v"
  have "of_nat v \<le> (of_nat MAX_MONEY :: rat)" using assms(2) by (simp only: of_nat_le_iff)
  then have w: "0 \<le> w" "w \<le> 2100000000000000" by (simp_all only: w_def MAX_MONEY_def) simp_all
  have "\<bar>r - w / 10 ^ 8\<bar> \<le> w / 10 ^ 8 / 2 ^ 53" using assms(1) by (simp only: btc_double_def w_def)
  then have "r - w / 100000000 \<le> w / 900719925474099200000000" "- (r - w / 100000000) \<le> w / 900719925474099200000000"
    by (simp_all only: abs_le_iff) simp_all
  then have r1: "\<bar>r * 100000000 - w\<bar> \<le> w / 9007199254740992" by linarith
  with w show pos: "0 \<le> r" by linarith
  have "\<bar>f64_round (r * 100000000) - r * 100000000\<bar> \<le> r * 100000000 / 2 ^ 53" by (rule f64_round_error) (use pos in simp)
  then have "\<bar>f64_round (r * 100000000) - r * 100000000\<bar> \<le> r * 100000000 / 9007199254740992" by simp
  with r1 w show "\<bar>f64_round (r * 100000000) - of_nat v\<bar> < 1 / 2" unfolding w_def[symmetric] by linarith
qed

lemma sats_of_btc_exact:
  assumes "btc_double v r" "v \<le> MAX_MONEY"
  shows "sats_of_btc (Finite r) = of_nat v"
proof -
  note near = btc_double_near[OF assms]
  have "round_away (f64_round (r * 100000000)) = int v"
  proof (cases "0 \<le> f64_round (r * 100000000)")
    case True
    then show ?thesis using near(2) by (intro round_away_near) simp_all
  next
    case False
    then have "of_nat v < (1 / 2 :: rat)" using near(2) by linarith
    then have "v = 0" by (cases v) (simp_all add: field_simps)
    with assms(1) have "r = 0" by (simp add: btc_double_def)
    then show ?thesis using False by (simp add: f64_round_def)
  qed
  moreover have "int v < 2 ^ 64" using assms(2) by (simp add: MAX_MONEY_def)
  ultimately show ?thesis by (simp add: sats_of_btc_def Let_def)
qed

section \<open>The scan\<close>

text \<open>An entry of the answer that describes a coin: outpoint, asset and amount.\<close>

definition reports :: "node_codec \<Rightarrow> json \<Rightarrow> outpoint \<times> asset_id \<times> nat \<Rightarrow> bool" where
  "reports K u coin = (case coin of (op, a, v) \<Rightarrow>
     Option.bind (as_str (json_key u ''asset'')) (nc_asset K) = Some a \<and>
     Option.bind (as_str (json_key u ''txid'')) (nc_txid K) = Some (op_txid op) \<and>
     as_u64 (json_key u ''vout'') = Some (ucast (op_vout op)) \<and>
     (\<exists>r. as_f64 (json_key u ''amount'') = Some (Finite r) \<and> btc_double v r) \<and> v \<le> MAX_MONEY)"

lemma ucast_u32_u64 [simp]: "(ucast (ucast (x :: u32) :: u64) :: u32) = x"
  by (rule ucast_down_ucast_id) (simp add: is_down)

lemma scan_entry_reports:
  "reports K u (op, a, v) \<Longrightarrow> scan_entry K asset u = Inr (if a = asset then Some (op, of_nat v) else None)"
  by (cases op) (auto simp: reports_def scan_entry_def or_shape_def bind_res_def sats_of_btc_exact)

lemma scan_entries_reports:
  "list_all2 (reports K) us coins \<Longrightarrow>
     scan_entries K asset us = Inr (map (\<lambda>(op, a, v). (op, of_nat v)) (filter (\<lambda>(op, a, v). a = asset) coins))"
proof (induction rule: list_all2_induct)
  case (Cons u us coin coins)
  obtain op a v where coin: "coin = (op, a, v)" by (cases coin)
  show ?case using Cons scan_entry_reports[of K u op a v asset] by (simp add: coin bind_res_def)
qed simp

text \<open>The node is busy for the first attempts, then it answers.\<close>

definition busy_until :: "(nat \<Rightarrow> call) \<Rightarrow> json list \<Rightarrow> nat \<Rightarrow> json \<Rightarrow> bool" where
  "busy_until calls args k res \<longleftrightarrow>
     (\<forall>i < k. \<exists>m. calls i ''scantxoutset'' args = Inl m \<and> contains m SCAN_BUSY) \<and>
     calls k ''scantxoutset'' args = Inr res"

lemma scan_retry_busy:
  "\<lbrakk>busy_until calls args (i + j) res; j \<le> n\<rbrakk> \<Longrightarrow> scan_retry calls args i n = Inr res"
proof (induction j arbitrary: i n)
  case 0
  then show ?case by (cases n) (simp_all add: busy_until_def rpc_def map_err_def)
next
  case (Suc j)
  then obtain n' where n: "n = Suc n'" by (cases n) auto
  have "\<exists>m. calls i ''scantxoutset'' args = Inl m \<and> contains m SCAN_BUSY"
    using Suc.prems(1) by (simp add: busy_until_def)
  moreover have "scan_retry calls args (Suc i) n' = Inr res" using Suc by (intro Suc.IH) (simp_all add: n)
  ultimately show ?case by (auto simp: n rpc_def map_err_def)
qed

lemma map_err_Inr_Inr [simp]: "map_err f (Inr a) = Inr a"
  by (simp add: map_err_def)

lemma scan_spk_answer:
  assumes "busy_until calls (scan_desc spk) k res" "k \<le> 40" "json_key res ''unspents'' = JArray us"
    "list_all2 (reports K) us coins"
  shows "scan_spk K calls spk asset =
    Inr (map (\<lambda>(op, a, v). (op, of_nat v)) (filter (\<lambda>(op, a, v). a = asset) coins))"
  using scan_retry_busy[of calls "scan_desc spk" 0 k res 40] assms
  by (simp add: scan_spk_def bind_res_def or_shape_def scan_entries_reports)

lemma first_or_missing_Inr: "first_or_missing role xs = Inr x \<longleftrightarrow> (\<exists>rest. xs = x # rest)"
  by (auto simp: first_or_missing_def split: list.splits)

lemma scan_protocol_parts:
  assumes "scan_protocol L K scans c st = Inr ps"
  shows "scan_spk K (scans 0) (pot_spk L (cx_artifacts c)) (pr_obol (cx_params c)) =
      Inr [(oc_outpoint (ps_pot ps), obol_raw (oc_value (ps_pot ps)))]"
    "scan_spk K (scans 1) (stability_spk L (cx_artifacts c)) (pr_policy (cx_params c)) =
      Inr [(oc_outpoint (ps_reserve ps), sats_raw (oc_value (ps_reserve ps)))]"
    "\<exists>v rest. scan_spk K (scans 2) (issuer_spk L (cx_artifacts c) st) (pr_issuer_token (cx_params c)) =
      Inr ((oc_outpoint (ps_issuer ps), v) # rest)"
    "oc_state (ps_issuer ps) = st"
  using assms
  by (auto simp: scan_protocol_def res_Inr first_or_missing_Inr case_prod_unfold not_less)


lemma money_unat: "v \<le> MAX_MONEY \<Longrightarrow> unat (of_nat v :: u64) = v"
  by (simp add: MAX_MONEY_def unat_of_nat)

lemma reports_money: "list_all2 (reports K) us coins \<Longrightarrow> (op, a, v) \<in> set coins \<Longrightarrow> v \<le> MAX_MONEY"
  by (fastforce simp: list_all2_conv_all_nth in_set_conv_nth reports_def)

lemma scan_single:
  assumes "busy_until calls (scan_desc spk) k res" "k \<le> 40" "json_key res ''unspents'' = JArray us"
    "list_all2 (reports K) us coins" "scan_spk K calls spk asset = Inr [(op, v)]"
  shows "filter (\<lambda>(op, a, v). a = asset) coins = [(op, asset, unat v)]"
proof -
  have m: "map (\<lambda>(op, a, v). (op, of_nat v :: u64)) (filter (\<lambda>(op, a, v). a = asset) coins) = [(op, v)]"
    using scan_spk_answer[OF assms(1-4), of asset] assms(5) by simp
  then obtain x where x: "filter (\<lambda>(op, a, v). a = asset) coins = [x]" by auto
  then have "x \<in> set coins \<and> fst (snd x) = asset" by (auto simp: filter_eq_Cons_iff case_prod_unfold)
  moreover obtain o' a' v' where xo: "x = (o', a', v')" by (cases x)
  ultimately have "(o', asset, v') \<in> set coins" "a' = asset" by auto
  moreover have "o' = op" "of_nat v' = v" using m x xo by auto
  ultimately show ?thesis using x xo money_unat[OF reports_money[OF assms(4)]] by auto
qed

section \<open>Samples\<close>

definition sample_codec_node :: node_codec where
  "sample_codec_node =
     \<lparr>nc_txid = (\<lambda>s. Some 7), nc_txid_str = (\<lambda>_. []), nc_asset = (\<lambda>s. Some (of_nat (length s))), nc_hash = (\<lambda>_. None),
      nc_hash_str = (\<lambda>_. []), nc_from_hex = (\<lambda>_. None), nc_block = (\<lambda>_. None), nc_tx = (\<lambda>_. None), nc_tx_hex = (\<lambda>_. []),
      nc_address_spk = (\<lambda>_. None)\<rparr>"

definition sample_utxo :: "string \<Rightarrow> u32 \<Rightarrow> rat \<Rightarrow> json" where
  "sample_utxo asset vout r =
     JObject [(''asset'', JString asset), (''txid'', JString []), (''vout'', JNumber (PosInt (ucast vout))), (''amount'', JNumber (Float (Finite r)))]"

lemma sample_utxo_reports:
  "\<lbrakk>btc_double v r; v \<le> MAX_MONEY\<rbrakk> \<Longrightarrow>
     reports sample_codec_node (sample_utxo asset vout r) (OutPoint 7 vout, of_nat (length asset), v)"
  by (auto simp: reports_def sample_utxo_def sample_codec_node_def)

lemma sample_double: "btc_double 150000000 (3 / 2)" "btc_double 1 (1 / 10 ^ 8)" "150000000 \<le> MAX_MONEY" "1 \<le> MAX_MONEY"
  by (simp_all add: btc_double_def MAX_MONEY_def)

text \<open>An address that holds one coin of asset 1 and dust of asset 2, on a node that is busy once.\<close>

definition sample_unspents :: "json list" where
  "sample_unspents = [sample_utxo ''o'' 0 (3 / 2), sample_utxo ''dd'' 1 (1 / 10 ^ 8)]"

definition sample_calls :: "nat \<Rightarrow> call" where
  "sample_calls i m args = (if i = 0 then Inl SCAN_BUSY else Inr (JObject [(''unspents'', JArray sample_unspents)]))"

lemma sample_reports:
  "list_all2 (reports sample_codec_node) sample_unspents [(OutPoint 7 0, 1, 150000000), (OutPoint 7 1, 2, 1)]"
  using sample_utxo_reports[OF sample_double(1,3), of "''o''" 0] sample_utxo_reports[OF sample_double(2,4), of "''dd''" 1]
  by (simp add: sample_unspents_def)

lemma sample_busy: "busy_until sample_calls args 1 (JObject [(''unspents'', JArray sample_unspents)])"
  by (simp add: busy_until_def sample_calls_def SCAN_BUSY_def)

section \<open>Properties\<close>

text \<open>
  C38 (scan_spk_exact): the scan of an address returns exactly its coins of the wanted asset, with
  their exact amounts in satoshis and in the node's order, whenever the node answers within the
  41 attempts and reports amounts up to the supply of 21 million coins; foreign-asset dust never
  enters, and the conversion of the node's floating-point amounts loses nothing.
\<close>

theorem scan_spk_exact:
  assumes "busy_until calls (scan_desc spk) k res" "k \<le> 40" "json_key res ''unspents'' = JArray us"
    "list_all2 (reports K) us coins"
  shows "scan_spk K calls spk asset =
    Inr (map (\<lambda>(op, a, v). (op, of_nat v)) (filter (\<lambda>(op, a, v). a = asset) coins))"
  by (rule scan_spk_answer[OF assms])

theorem scan_spk_exact_witness:
  "scan_spk sample_codec_node sample_calls [] 1 = Inr [(OutPoint 7 0, 150000000)]"
  using scan_spk_exact[OF sample_busy _ _ sample_reports, of "[]" 1] by simp

text \<open>
  When the protocol scan succeeds, the pot and the reserve of the
  snapshot are the only coins of their assets at their addresses (whatever foreign assets lie there),
  with their exact amounts, and the issuer is the coin at the address of the expected anchor: a
  builder never sees a fragment.
\<close>

lemma scan_protocol_singletons:
  assumes "scan_protocol L K scans c st = Inr ps"
    and "busy_until (scans 0) (scan_desc (pot_spk L (cx_artifacts c))) k0 res0" "k0 \<le> 40"
      "json_key res0 ''unspents'' = JArray us0" "list_all2 (reports K) us0 coins0"
    and "busy_until (scans 1) (scan_desc (stability_spk L (cx_artifacts c))) k1 res1" "k1 \<le> 40"
      "json_key res1 ''unspents'' = JArray us1" "list_all2 (reports K) us1 coins1"
  shows "filter (\<lambda>(op, a, v). a = pr_obol (cx_params c)) coins0 =
      [(oc_outpoint (ps_pot ps), pr_obol (cx_params c), unat (obol_raw (oc_value (ps_pot ps))))] \<and>
    filter (\<lambda>(op, a, v). a = pr_policy (cx_params c)) coins1 =
      [(oc_outpoint (ps_reserve ps), pr_policy (cx_params c), unat (sats_raw (oc_value (ps_reserve ps))))] \<and>
    oc_state (ps_issuer ps) = st"
  using scan_single[OF assms(2-5)] scan_single[OF assms(6-9)] scan_protocol_parts[OF assms(1)] by blast

text \<open>Assets of the sample deployment, chosen so that the sample codec reads them.\<close>

definition sample_scans :: "nat \<Rightarrow> nat \<Rightarrow> call" where
  "sample_scans n i m args =
     Inr (JObject [(''unspents'', JArray [sample_utxo (replicate (if n = 0 then 1 else if n = 1 then 3 else 2) CHR ''x'') 0 (3 / 2)])])"

definition sample_scan_ctx :: "u8 ctx" where
  "sample_scan_ctx = sample_ctx\<lparr>cx_params := (cx_params sample_ctx)\<lparr>pr_obol := 1, pr_issuer_token := 2, pr_policy := 3\<rparr>\<rparr>"

lemma sample_scan:
  "busy_until (sample_scans n) args 0 (JObject [(''unspents'', JArray [sample_utxo (replicate (if n = 0 then 1 else if n = 1 then 3 else 2) CHR ''x'') 0 (3 / 2)])])"
  "list_all2 (reports sample_codec_node) [sample_utxo (replicate m CHR ''x'') 0 (3 / 2)] [(OutPoint 7 0, of_nat m, 150000000)]"
  using sample_utxo_reports[OF sample_double(1,3), of "replicate m CHR ''x''" 0] by (simp_all add: busy_until_def sample_scans_def)

lemma scan_protocol_singletons_sample:
  "\<exists>ps. scan_protocol sample_library sample_codec_node sample_scans sample_scan_ctx \<lparr>is_last_mint_height = BlockHeight 5\<rparr> = Inr ps \<and>
     oc_outpoint (ps_pot ps) = OutPoint 7 0 \<and> unat (obol_raw (oc_value (ps_pot ps))) = 150000000"
proof -
  let ?st = "\<lparr>is_last_mint_height = BlockHeight 5\<rparr>"
  have ans: "scan_spk sample_codec_node (sample_scans n) spk (of_nat m) = Inr [(OutPoint 7 0, 150000000)]"
    if "m = (if n = 0 then 1 else if n = 1 then 3 else 2)" for n spk m
    using scan_spk_answer[where calls = "sample_scans n" and spk = spk and asset = "of_nat m", OF sample_scan(1) _ _ sample_scan(2)[of m]]
      that by simp
  have par: "pr_obol (cx_params sample_scan_ctx) = of_nat 1" "pr_policy (cx_params sample_scan_ctx) = of_nat 3"
    "pr_issuer_token (cx_params sample_scan_ctx) = of_nat 2"
    by (simp_all add: sample_scan_ctx_def)
  obtain ps where ps: "scan_protocol sample_library sample_codec_node sample_scans sample_scan_ctx ?st = Inr ps"
    using ans[of 1 0] ans[of 3 1] ans[of 2 2] par
    by (simp add: scan_protocol_def bind_res_def refuse_if_def first_or_missing_def)
  from scan_protocol_singletons[OF ps sample_scan(1) _ _ sample_scan(2)[of 1] sample_scan(1) _ _ sample_scan(2)[of 3]] par ps show ?thesis
    by simp
qed

end
