(* ===== verification/Styx_Config.thy ===== *)
theory Styx_Config
  imports Styx_Quotes Styx_Snapshot Styx_Node
begin

text \<open>
  The configuration files: \<open>styxnet.toml\<close> with the shared deployment (\<open>styx-watch/src/config.rs\<close>),
  the wallet's (\<open>styx-wallet/src/config.rs\<close>) and the keeper's (\<open>styx-keeper/src/config.rs\<close>). The
  TOML text is read by the toml library, which also fills in the defaults: its answer is a
  parameter, as are the parsers of keys, assets and hashes.
\<close>

section \<open>The shared deployment\<close>

datatype styxnet_error =
    StyxnetIo
  | StyxnetToml string
  | StyxnetField string string
  | NotDeployed string
  | OracleSet string

record network_section =
  nt_chain :: string
  nt_genesis :: "string option"

record assets_section =
  as_obol :: string
  as_issuer_token :: string
  as_policy :: string

record protocol_section =
  pt_issuer_anchor_genesis :: u32

record oracle_entry =
  oe_slot :: u8
  oe_protocol_pk :: string
  oe_nostr_pk :: "string option"
  oe_admin_url :: "string option"

record nostr_section =
  ns_relays :: "string list"

record styxnet_config =
  sn_network :: network_section
  sn_assets :: "assets_section option"
  sn_protocol :: "protocol_section option"
  sn_oracles :: "oracle_entry list"
  sn_nostr :: nostr_section

record parsers =
  ps_xonly :: "string \<Rightarrow> string + xonly"
  ps_asset :: "string \<Rightarrow> string + asset_id"
  ps_block_hash :: "string \<Rightarrow> string + block_hash"

definition styxnet_load ::
  "(string \<Rightarrow> string + styxnet_config) \<Rightarrow> (string \<Rightarrow> string option) \<Rightarrow> string \<Rightarrow> styxnet_error + styxnet_config" where
  "styxnet_load from_toml read path =
     (case read path of None \<Rightarrow> Inl StyxnetIo | Some text \<Rightarrow> map_err StyxnetToml (from_toml text))"

definition styxnet_save ::
  "(styxnet_config \<Rightarrow> string + string) \<Rightarrow> styxnet_config \<Rightarrow> string \<Rightarrow> styxnet_error + string effect list" where
  "styxnet_save to_toml cfg path =
     bind_res (map_err StyxnetToml (to_toml cfg)) (\<lambda>text. Inr [WriteFile path text])"

fun place_pks :: "parsers \<Rightarrow> xonly option list \<Rightarrow> oracle_entry list \<Rightarrow> styxnet_error + xonly option list" where
  "place_pks P pks [] = Inr pks"
| "place_pks P pks (e # es) =
     (let i = unat (oe_slot e) in
      refuse_if (4 < i \<or> pks ! i \<noteq> None) (OracleSet (''bad or duplicate slot '' @ dec_str i)) (
      bind_res (map_err (StyxnetField ''oracles.protocol_pk'') (ps_xonly P (oe_protocol_pk e))) (\<lambda>pk.
      place_pks P (pks[i := Some pk]) es)))"

fun all_present :: "nat \<Rightarrow> xonly option list \<Rightarrow> styxnet_error + xonly list" where
  "all_present i [] = Inr []"
| "all_present i (None # pks) = Inl (OracleSet (''slot '' @ dec_str i @ '' missing''))"
| "all_present i (Some pk # pks) = bind_res (all_present (Suc i) pks) (\<lambda>rest. Inr (pk # rest))"

definition oracle_pks :: "parsers \<Rightarrow> styxnet_config \<Rightarrow> styxnet_error + xonly list" where
  "oracle_pks P cfg = bind_res (place_pks P (replicate 5 None) (sn_oracles cfg)) (all_present 0)"

definition config_params :: "parsers \<Rightarrow> styxnet_config \<Rightarrow> styxnet_error + params" where
  "config_params P cfg =
     (case sn_assets cfg of
        None \<Rightarrow> Inl (NotDeployed ''assets'')
      | Some a \<Rightarrow>
          let parse = (\<lambda>field s. map_err (StyxnetField field) (ps_asset P s)) in
          bind_res (parse ''assets.obol'' (as_obol a)) (\<lambda>obol.
          bind_res (parse ''assets.issuer_token'' (as_issuer_token a)) (\<lambda>token.
          bind_res (parse ''assets.policy'' (as_policy a)) (\<lambda>policy.
          bind_res (oracle_pks P cfg) (\<lambda>pks.
          Inr \<lparr>pr_obol = obol, pr_issuer_token = token, pr_policy = policy, pr_oracle_pks = pks\<rparr>)))))"

definition config_genesis :: "parsers \<Rightarrow> styxnet_config \<Rightarrow> styxnet_error + block_hash" where
  "config_genesis P cfg =
     (case nt_genesis (sn_network cfg) of
        None \<Rightarrow> Inl (NotDeployed ''network.genesis'')
      | Some g \<Rightarrow> map_err (StyxnetField ''network.genesis'') (ps_block_hash P g))"

section \<open>The wallet and the keeper\<close>

datatype wallet_config_error =
    WalletConfigIo
  | WalletConfigToml string
  | WalletConfigField string string
  | WalletConfigAuth
  | WalletConfigPanic

datatype auth = CookieFile string | UserPass string string

record wallet_config =
  wc_styxnet :: string
  wc_rpc_url :: string
  wc_rpc_user :: "string option"
  wc_rpc_password :: "string option"
  wc_rpc_cookie :: "string option"
  wc_snapshot :: string
  wc_owner_seckey :: string
  wc_funding_seckey :: string

text \<open>Slicing the key off a character boundary panics, as in the quote decoder.\<close>

definition parse_seckey :: "(bytes \<Rightarrow> string + 'k) \<Rightarrow> string \<Rightarrow> string \<Rightarrow> wallet_config_error + 'k" where
  "parse_seckey from_seckey field hex =
     (if length hex \<noteq> 64 then Inl (WalletConfigField field ''expected 32 bytes of hex'')
      else case sig_pairs hex of
             Inl QuotePanic \<Rightarrow> Inl WalletConfigPanic
           | Inl (QuoteErr _) \<Rightarrow> Inl (WalletConfigField field ''bad hex'')
           | Inr sk \<Rightarrow> map_err (WalletConfigField field) (from_seckey sk))"

definition wallet_config_parse :: "(string \<Rightarrow> string + 'c) \<Rightarrow> string \<Rightarrow> wallet_config_error + 'c" where
  "wallet_config_parse from_toml text = map_err WalletConfigToml (from_toml text)"

definition wallet_config_load ::
  "(string \<Rightarrow> string + 'c) \<Rightarrow> (string \<Rightarrow> string option) \<Rightarrow> string \<Rightarrow> wallet_config_error + 'c" where
  "wallet_config_load from_toml read path =
     (case read path of None \<Rightarrow> Inl WalletConfigIo | Some text \<Rightarrow> wallet_config_parse from_toml text)"

definition wallet_config_auth :: "wallet_config \<Rightarrow> wallet_config_error + auth" where
  "wallet_config_auth cfg =
     (case (wc_rpc_cookie cfg, wc_rpc_user cfg, wc_rpc_password cfg) of
        (Some cookie, None, None) \<Rightarrow> Inr (CookieFile cookie)
      | (None, Some user, Some pass) \<Rightarrow> Inr (UserPass user pass)
      | _ \<Rightarrow> Inl WalletConfigAuth)"

definition config_owner :: "(bytes \<Rightarrow> string + 'k) \<Rightarrow> wallet_config \<Rightarrow> wallet_config_error + 'k" where
  "config_owner from_seckey cfg = parse_seckey from_seckey ''owner_seckey'' (wc_owner_seckey cfg)"

definition config_funding :: "(bytes \<Rightarrow> string + 'k) \<Rightarrow> wallet_config \<Rightarrow> wallet_config_error + 'k" where
  "config_funding from_seckey cfg = parse_seckey from_seckey ''funding_seckey'' (wc_funding_seckey cfg)"

record keeper_opts =
  ko_poke_lag :: u32
  ko_refresh_lag :: u32
  ko_walkback :: u32

definition keeper_opts_default :: keeper_opts where
  "keeper_opts_default = \<lparr>ko_poke_lag = 4, ko_refresh_lag = 16, ko_walkback = 8\<rparr>"

record keeper_config =
  kc_purse :: wallet_config
  kc_poke_lag :: u32
  kc_refresh_lag :: u32
  kc_walkback :: u32
  kc_poll_ms :: u64

definition keeper_config_opts :: "keeper_config \<Rightarrow> keeper_opts" where
  "keeper_config_opts cfg =
     \<lparr>ko_poke_lag = kc_poke_lag cfg, ko_refresh_lag = kc_refresh_lag cfg, ko_walkback = kc_walkback cfg\<rparr>"

section \<open>The oracle set\<close>

lemma place_pks_ok:
  assumes "place_pks P pks es = Inr pks'" "length pks = 5"
  shows "length pks' = 5 \<and> distinct (map oe_slot es) \<and>
    (\<forall>e \<in> set es. unat (oe_slot e) < 5 \<and> pks ! unat (oe_slot e) = None \<and>
       (\<exists>pk. ps_xonly P (oe_protocol_pk e) = Inr pk \<and> pks' ! unat (oe_slot e) = Some pk)) \<and>
    (\<forall>i < 5. i \<notin> (unat \<circ> oe_slot) ` set es \<longrightarrow> pks' ! i = pks ! i)"
  using assms
proof (induction es arbitrary: pks)
  case (Cons e es)
  let ?i = "unat (oe_slot e)"
  from Cons.prems obtain pk where i: "?i < 5" "pks ! ?i = None" "ps_xonly P (oe_protocol_pk e) = Inr pk"
    and rest: "place_pks P (pks[?i := Some pk]) es = Inr pks'"
    by (auto simp: Let_def res_Inr)
  note IH = Cons.IH[OF rest]
  have len: "length (pks[?i := Some pk]) = 5" using Cons.prems(2) by simp
  have notin: "?i \<notin> (unat \<circ> oe_slot) ` set es" using IH[OF len] i(1) Cons.prems(2) by force
  then have "oe_slot e \<notin> oe_slot ` set es" by force
  moreover have "pks' ! ?i = Some pk" using IH[OF len] notin i(1) Cons.prems(2) by simp
  ultimately show ?case using IH[OF len] i Cons.prems(2) notin by (auto simp: nth_list_update split: if_splits)
qed simp

lemma all_present_Inr: "all_present i pks = Inr out \<Longrightarrow> pks = map Some out"
  by (induction i pks arbitrary: out rule: all_present.induct) (auto simp: res_Inr)

lemma slots_complete:
  fixes S :: "nat set"
  assumes "finite S" "S \<subseteq> {0..<5}" "\<And>i. i < 5 \<Longrightarrow> i \<in> S"
  shows "S = {0..<5}"
  using assms by auto

lemma oracle_pks_ok:
  assumes "oracle_pks P cfg = Inr pks"
  shows "length pks = 5 \<and> distinct (map oe_slot (sn_oracles cfg)) \<and> length (sn_oracles cfg) = 5 \<and>
    (\<forall>e \<in> set (sn_oracles cfg). unat (oe_slot e) < 5 \<and> ps_xonly P (oe_protocol_pk e) = Inr (pks ! unat (oe_slot e)))"
proof -
  from assms obtain placed where pl: "place_pks P (replicate 5 None) (sn_oracles cfg) = Inr placed"
    and pr: "all_present 0 placed = Inr pks" by (auto simp: oracle_pks_def res_Inr)
  note ok = place_pks_ok[OF pl length_replicate]
  have map: "placed = map Some pks" by (rule all_present_Inr[OF pr])
  then have len: "length pks = 5" using ok by simp
  let ?slots = "(unat \<circ> oe_slot) ` set (sn_oracles cfg)"
  have "i \<in> ?slots" if "i < 5" for i
  proof (rule ccontr)
    assume "i \<notin> ?slots"
    with ok that have "placed ! i = replicate 5 None ! i" by blast
    then have "placed ! i = None" using that by simp
    then show False using that map len by simp
  qed
  moreover have "?slots \<subseteq> {0..<5}" using ok by auto
  ultimately have "?slots = {0..<5}" by (intro slots_complete) auto
  then have "card (unat ` oe_slot ` set (sn_oracles cfg)) = 5" by (simp add: image_comp)
  moreover have "card (unat ` oe_slot ` set (sn_oracles cfg)) = card (oe_slot ` set (sn_oracles cfg))"
    by (intro card_image) (simp add: inj_on_def word_unat_eq_iff)
  ultimately have "card (oe_slot ` set (sn_oracles cfg)) = 5" by simp
  then have "length (sn_oracles cfg) = 5" using ok distinct_card[of "map oe_slot (sn_oracles cfg)"] by simp
  then show ?thesis using ok map len by auto
qed

end
