(* ===== verification/Styx_Transport.thy ===== *)
theory Styx_Transport
  imports Styx_Quotes Styx_Node "HOL-Library.Sublist"
begin

text \<open>
  How quotes travel (\<open>styx-watch/src/transport.rs\<close> and \<open>nostr.rs\<close>): the in-memory hub of the tests,
  the events an oracle publishes and a consumer parses, and the walk back from the tip that the
  wallet and the application use to find a quorum.

  The relay client is library code: the notifications it delivers, the stored events it fetches and
  whether it could send are arguments. So are the JSON text of a quote and the addition of seconds
  to a timestamp.
\<close>

datatype transport_error = TransportBackend string | TransportClosed

section \<open>The in-memory hub\<close>

text \<open>
  A broadcast channel keeps the last 256 values; a receiver that is further behind skips to the
  oldest value kept. Every endpoint holds a sender and a receiver, so that neither end closes.
\<close>

definition HUB_CAPACITY :: nat where "HUB_CAPACITY = 256"

record mock_hub =
  mh_log :: "wire_quote list"

record mock_transport =
  mt_next :: nat

definition hub_new :: mock_hub where "hub_new = \<lparr>mh_log = []\<rparr>"

definition hub_endpoint :: "mock_hub \<Rightarrow> mock_transport" where
  "hub_endpoint hub = \<lparr>mt_next = length (mh_log hub)\<rparr>"

definition mock_publish :: "wire_quote \<Rightarrow> mock_hub \<Rightarrow> (transport_error + unit) \<times> mock_hub" where
  "mock_publish q hub = (Inr (), \<lparr>mh_log = mh_log hub @ [q]\<rparr>)"

text \<open>\<open>None\<close>: the receiver waits.\<close>

definition mock_recv :: "mock_hub \<Rightarrow> mock_transport \<Rightarrow> ((transport_error + wire_quote) \<times> mock_transport) option" where
  "mock_recv hub rx =
     (let n = length (mh_log hub); i = max (mt_next rx) (n - HUB_CAPACITY)
      in if i < n then Some (Inr (mh_log hub ! i), \<lparr>mt_next = Suc i\<rparr>) else None)"

section \<open>Nostr events\<close>

definition QUOTE_KIND :: u16 where "QUOTE_KIND = 33321"
definition EXPIRY_SECS :: u64 where "EXPIRY_SECS = 3600"

record nostr_event =
  ne_pubkey :: xonly
  ne_kind :: u16
  ne_created_at :: u64
  ne_identifier :: "string option"
  ne_expiration :: "u64 option"
  ne_content :: string

definition height_tag :: "u32 \<Rightarrow> string" where
  "height_tag h = dec_str (unat h)"

definition nostr_parse :: "(string \<Rightarrow> wire_quote option) \<Rightarrow> xonly list \<Rightarrow> nostr_event \<Rightarrow> wire_quote option" where
  "nostr_parse from_json authors ev =
     (if ne_kind ev \<noteq> QUOTE_KIND then None
      else if authors \<noteq> [] \<and> ne_pubkey ev \<notin> set authors then None
      else Option.bind (from_json (ne_content ev)) (\<lambda>q.
           if ne_identifier ev \<noteq> Some (height_tag (wq_height q)) then None else Some q))"

text \<open>A client: its filter, the last timestamp it used, and (for the properties) what it has handed over, latest first.\<close>

record nostr_quotes =
  nq_authors :: "xonly list"
  nq_last_created_at :: u64
  nq_out :: "nostr_event list"

definition nostr_connect :: "xonly list \<Rightarrow> nostr_quotes" where
  "nostr_connect authors = \<lparr>nq_authors = authors, nq_last_created_at = 0, nq_out = []\<rparr>"

definition next_created_at :: "(u64 \<Rightarrow> u64 \<Rightarrow> u64) \<Rightarrow> u64 \<Rightarrow> u64 \<Rightarrow> u64" where
  "next_created_at tadd now prev = (if prev < now then now else tadd prev 1)"

definition quote_event ::
  "(u64 \<Rightarrow> u64 \<Rightarrow> u64) \<Rightarrow> (wire_quote \<Rightarrow> string) \<Rightarrow> xonly \<Rightarrow> u64 \<Rightarrow> wire_quote \<Rightarrow> nostr_event" where
  "quote_event tadd to_json pk created_at q =
     \<lparr>ne_pubkey = pk, ne_kind = QUOTE_KIND, ne_created_at = created_at, ne_identifier = Some (height_tag (wq_height q)),
      ne_expiration = Some (tadd created_at EXPIRY_SECS), ne_content = to_json q\<rparr>"

definition nostr_publish ::
  "(u64 \<Rightarrow> u64 \<Rightarrow> u64) \<Rightarrow> (wire_quote \<Rightarrow> string) \<Rightarrow> xonly \<Rightarrow> (nostr_event \<Rightarrow> string + unit) \<Rightarrow> u64 \<Rightarrow> wire_quote \<Rightarrow> nostr_quotes \<Rightarrow>
     (transport_error + unit) \<times> nostr_quotes" where
  "nostr_publish tadd to_json pk send now q st =
     (let created_at = next_created_at tadd now (nq_last_created_at st);
          ev = quote_event tadd to_json pk created_at q
      in (map_err TransportBackend (send ev), st\<lparr>nq_last_created_at := created_at, nq_out := ev # nq_out st\<rparr>))"

datatype notification = NotifEvent nostr_event | NotifOther | NotifLagged | NotifClosed

text \<open>\<open>recv\<close> on the notifications that arrive; \<open>None\<close> when they run out and it keeps waiting.\<close>

fun nostr_recv ::
  "(string \<Rightarrow> wire_quote option) \<Rightarrow> xonly list \<Rightarrow> notification list \<Rightarrow> ((transport_error + wire_quote) \<times> notification list) option" where
  "nostr_recv from_json authors [] = None"
| "nostr_recv from_json authors (NotifEvent ev # ns) =
     (case nostr_parse from_json authors ev of Some q \<Rightarrow> Some (Inr q, ns) | None \<Rightarrow> nostr_recv from_json authors ns)"
| "nostr_recv from_json authors (NotifOther # ns) = nostr_recv from_json authors ns"
| "nostr_recv from_json authors (NotifLagged # ns) = nostr_recv from_json authors ns"
| "nostr_recv from_json authors (NotifClosed # ns) = Some (Inl TransportClosed, ns)"

text \<open>The stored events of a height: what the relays answer to the filter by identifier.\<close>

type_synonym fetched = "string \<Rightarrow> string + nostr_event list"

definition nostr_fetch ::
  "(string \<Rightarrow> wire_quote option) \<Rightarrow> fetched \<Rightarrow> xonly list \<Rightarrow> u32 \<Rightarrow> transport_error + wire_quote list" where
  "nostr_fetch from_json events authors h =
     bind_res (map_err TransportBackend (events (height_tag h))) (\<lambda>evs. Inr (somes (map (nostr_parse from_json authors) evs)))"

section \<open>The walk back from the tip\<close>

definition TICK_WALKBACK :: u32 where "TICK_WALKBACK = 8"

definition walk_heights :: "u32 \<Rightarrow> u32 list" where
  "walk_heights tip = map of_nat (rev [unat (sat_sub tip TICK_WALKBACK)..<Suc (unat tip)])"

text \<open>A quote the book refuses is dropped; a malformed signature string panics.\<close>

definition book_absorb :: "(bytes \<Rightarrow> bytes) \<Rightarrow> 'p prover \<Rightarrow> block_height \<Rightarrow> wire_quote \<Rightarrow> quote_book \<Rightarrow> quote_book option" where
  "book_absorb sha256 S tip q B =
     (case book_insert sha256 S B q tip of Inr B' \<Rightarrow> Some B' | Inl (QuoteErr _) \<Rightarrow> Some B | Inl QuotePanic \<Rightarrow> None)"

fun book_absorb_all ::
  "(bytes \<Rightarrow> bytes) \<Rightarrow> 'p prover \<Rightarrow> block_height \<Rightarrow> wire_quote list \<Rightarrow> quote_book \<Rightarrow> quote_book option" where
  "book_absorb_all sha256 S tip [] B = Some B"
| "book_absorb_all sha256 S tip (q # qs) B = Option.bind (book_absorb sha256 S tip q B) (book_absorb_all sha256 S tip qs)"

datatype walk_error = WalkTransport transport_error | NoQuorumNearTip | WalkPanic

text \<open>The wallet's walk ends at the first fetch that fails.\<close>

fun wallet_walk ::
  "(u32 \<Rightarrow> transport_error + wire_quote list) \<Rightarrow> (bytes \<Rightarrow> bytes) \<Rightarrow> 'p prover \<Rightarrow> block_height \<Rightarrow> u32 list \<Rightarrow> quote_book \<Rightarrow>
     walk_error + oracle_tick" where
  "wallet_walk fetch sha256 S tip [] B = Inl NoQuorumNearTip"
| "wallet_walk fetch sha256 S tip (h # hs) B =
     (case fetch h of
        Inl e \<Rightarrow> Inl (WalkTransport e)
      | Inr qs \<Rightarrow>
          (case book_absorb_all sha256 S tip qs B of
             None \<Rightarrow> Inl WalkPanic
           | Some B' \<Rightarrow>
               (case assemble_tick B' (BlockHeight h) of
                  Some t \<Rightarrow> Inr t
                | None \<Rightarrow> wallet_walk fetch sha256 S tip hs B')))"

text \<open>The application's walk skips such a height: \<open>Inr None\<close> when no height has a quorum, \<open>Inl\<close> a panic.\<close>

fun app_walk ::
  "(u32 \<Rightarrow> transport_error + wire_quote list) \<Rightarrow> (bytes \<Rightarrow> bytes) \<Rightarrow> 'p prover \<Rightarrow> block_height \<Rightarrow> u32 list \<Rightarrow> quote_book \<Rightarrow>
     walk_error + (u32 \<times> oracle_tick) option" where
  "app_walk fetch sha256 S tip [] B = Inr None"
| "app_walk fetch sha256 S tip (h # hs) B =
     (case fetch h of
        Inl e \<Rightarrow> app_walk fetch sha256 S tip hs B
      | Inr qs \<Rightarrow>
          (case book_absorb_all sha256 S tip qs B of
             None \<Rightarrow> Inl WalkPanic
           | Some B' \<Rightarrow>
               (case assemble_tick B' (BlockHeight h) of
                  Some t \<Rightarrow> Inr (Some (h, t))
                | None \<Rightarrow> app_walk fetch sha256 S tip hs B')))"

section \<open>What the hub delivers\<close>

text \<open>An endpoint receives the published quotes in order; it misses one only when 256 others came after it.\<close>

lemma mock_recv_order:
  assumes "mock_recv hub rx = Some (r, rx')"
  shows "\<exists>i. mt_next rx \<le> i \<and> mt_next rx' = Suc i \<and> i < length (mh_log hub) \<and> r = Inr (mh_log hub ! i) \<and>
    (\<forall>j. mt_next rx \<le> j \<and> j < i \<longrightarrow> j + HUB_CAPACITY < length (mh_log hub))"
  using assms by (auto simp: mock_recv_def Let_def split: if_splits intro!: exI[of _ "max (mt_next rx) (length (mh_log hub) - HUB_CAPACITY)"])

lemma mock_recv_ready: "mt_next rx < length (mh_log hub) \<Longrightarrow> \<exists>q rx'. mock_recv hub rx = Some (Inr q, rx')"
  by (auto simp: mock_recv_def Let_def HUB_CAPACITY_def)

section \<open>What a consumer parses\<close>

lemma nostr_parse_Some:
  "nostr_parse from_json authors ev = Some q \<longleftrightarrow>
     ne_kind ev = QUOTE_KIND \<and> (authors = [] \<or> ne_pubkey ev \<in> set authors) \<and> from_json (ne_content ev) = Some q \<and>
     ne_identifier ev = Some (height_tag (wq_height q))"
  by (auto simp: nostr_parse_def bind_eq_Some_conv)

lemma nostr_recv_author:
  "nostr_recv from_json authors ns = Some (Inr q, ns') \<Longrightarrow>
     \<exists>ev. NotifEvent ev \<in> set ns \<and> nostr_parse from_json authors ev = Some q"
  by (induction from_json authors ns rule: nostr_recv.induct) (auto split: option.splits)

lemma nostr_fetch_author:
  "nostr_fetch from_json events authors h = Inr qs \<Longrightarrow> q \<in> set qs \<Longrightarrow>
     \<exists>evs ev. events (height_tag h) = Inr evs \<and> ev \<in> set evs \<and> nostr_parse from_json authors ev = Some q"
  by (force simp: nostr_fetch_def res_Inr set_somes)

section \<open>The transport as an interface\<close>

text \<open>
  What a consumer does with a transport (\<open>drain\<close> of \<open>styx-keeper/src/keeper.rs\<close>): it receives until the
  transport waits or fails. \<open>n\<close> bounds the quotes it receives; the length of the backlog is enough.
\<close>

fun recv_all :: "('s \<Rightarrow> ((transport_error + wire_quote) \<times> 's) option) \<Rightarrow> nat \<Rightarrow> 's \<Rightarrow> wire_quote list \<times> 's" where
  "recv_all recv 0 s = ([], s)"
| "recv_all recv (Suc n) s =
     (case recv s of
        Some (Inr q, s') \<Rightarrow> apfst ((#) q) (recv_all recv n s')
      | Some (Inl _, s') \<Rightarrow> ([], s')
      | None \<Rightarrow> ([], s))"

text \<open>
  The contract of \<open>QuoteTransport::recv\<close>: a quote it returns is one of the backlog, those before it are
  missed for good, and it waits or fails only when the backlog is empty.
\<close>

locale quote_transport =
  fixes recv :: "'s \<Rightarrow> ((transport_error + wire_quote) \<times> 's) option" and backlog :: "'s \<Rightarrow> wire_quote list"
  assumes waits: "recv s = None \<Longrightarrow> backlog s = []"
    and fails: "recv s = Some (Inl e, s') \<Longrightarrow> backlog s = []"
    and delivers: "recv s = Some (Inr q, s') \<Longrightarrow> \<exists>missed. backlog s = missed @ q # backlog s'"
begin

lemma silent: "backlog s = [] \<Longrightarrow> fst (recv_all recv n s) = []"
  using delivers by (cases n) (fastforce split: option.splits prod.splits sum.splits)+

text \<open>What is drained is what the backlog held, in its order; draining longer receives nothing more.\<close>

lemma drained_part: "subseq (fst (recv_all recv n s)) (backlog s)"
proof (induction n arbitrary: s)
  case (Suc n)
  show ?case
  proof (cases "\<exists>q s'. recv s = Some (Inr q, s')")
    case True
    then obtain q s' where r: "recv s = Some (Inr q, s')" by blast
    then obtain missed where "backlog s = missed @ q # backlog s'" using delivers by blast
    then show ?thesis using r Suc[of s'] by (auto intro: list_emb_append2)
  qed (auto split: option.splits prod.splits sum.splits)
qed simp

lemma drained_all: "length (backlog s) \<le> n \<Longrightarrow> fst (recv_all recv (n + m) s) = fst (recv_all recv n s)"
proof (induction n arbitrary: s)
  case 0
  then show ?case using silent[of s m] by simp
next
  case (Suc n)
  show ?case
  proof (cases "\<exists>q s'. recv s = Some (Inr q, s')")
    case True
    then obtain q s' where r: "recv s = Some (Inr q, s')" by blast
    then have "length (backlog s') \<le> n" using delivers[OF r] Suc.prems by auto
    then show ?thesis using r Suc.IH[of s'] by simp
  qed (auto split: option.splits prod.splits sum.splits)
qed

text \<open>A transport that misses nothing, as long as \<open>P\<close> holds, delivers its backlog.\<close>

lemma lossless:
  assumes "\<And>s q s'. P s \<Longrightarrow> recv s = Some (Inr q, s') \<Longrightarrow> P s' \<and> backlog s = q # backlog s'" "P s" "length (backlog s) \<le> n"
  shows "fst (recv_all recv n s) = backlog s"
  using assms(2,3)
proof (induction n arbitrary: s)
  case (Suc n)
  then show ?case
  proof (cases "\<exists>q s'. recv s = Some (Inr q, s')")
    case True
    then obtain q s' where r: "recv s = Some (Inr q, s')" by blast
    then show ?thesis using assms(1)[OF Suc.prems(1) r] Suc by simp
  qed (use waits fails in \<open>auto split: option.splits prod.splits sum.splits\<close>)
qed simp

end

text \<open>The hub: an endpoint has the rest of the log before it.\<close>

interpretation hub: quote_transport "mock_recv hub" "\<lambda>rx. drop (mt_next rx) (mh_log hub)" for hub
proof (unfold_locales, goal_cases)
  case (3 rx q rx')
  then obtain i where i: "mt_next rx \<le> i" "mt_next rx' = Suc i" "i < length (mh_log hub)" "q = mh_log hub ! i"
    using mock_recv_order[of hub rx "Inr q" rx'] by auto
  then have "drop (mt_next rx) (mh_log hub) = take (i - mt_next rx) (drop (mt_next rx) (mh_log hub)) @ drop i (mh_log hub)"
    by (metis append_take_drop_id drop_drop le_add_diff_inverse2)
  then show ?case using i by (metis Cons_nth_drop_Suc)
qed (auto simp: mock_recv_def Let_def HUB_CAPACITY_def split: if_splits)

text \<open>The relays: the quotes of the notifications up to the end of the stream.\<close>

fun relay_backlog :: "(string \<Rightarrow> wire_quote option) \<Rightarrow> xonly list \<Rightarrow> notification list \<Rightarrow> wire_quote list" where
  "relay_backlog from_json authors [] = []"
| "relay_backlog from_json authors (NotifEvent ev # ns) =
     (case nostr_parse from_json authors ev of Some q \<Rightarrow> [q] | None \<Rightarrow> []) @ relay_backlog from_json authors ns"
| "relay_backlog from_json authors (NotifClosed # ns) = []"
| "relay_backlog from_json authors (_ # ns) = relay_backlog from_json authors ns"

lemma nostr_recv_backlog:
  "relay_backlog from_json authors ns =
     (case nostr_recv from_json authors ns of Some (Inr q, ns') \<Rightarrow> q # relay_backlog from_json authors ns' | _ \<Rightarrow> [])"
  by (induction from_json authors ns rule: nostr_recv.induct) (auto split: option.splits)

interpretation relay: quote_transport "nostr_recv from_json authors" "relay_backlog from_json authors" for from_json authors
  by unfold_locales (simp_all add: nostr_recv_backlog[of from_json authors s for s])

text \<open>
  A drain receives every quote the relays delivered, and an endpoint of the hub every quote that was
  published since it was made, when these are at most 256.
\<close>

lemma relay_drained: "length ns \<le> n \<Longrightarrow> fst (recv_all (nostr_recv from_json authors) n ns) = relay_backlog from_json authors ns"
proof (rule relay.lossless[where P = "\<lambda>_. True"])
  have "length (relay_backlog from_json authors ns) \<le> length ns"
    by (induction from_json authors ns rule: relay_backlog.induct) (auto split: option.splits)
  then show "length ns \<le> n \<Longrightarrow> length (relay_backlog from_json authors ns) \<le> n" by simp
qed (simp_all add: nostr_recv_backlog[of from_json authors s for s])

lemma hub_drained:
  assumes "length qs \<le> HUB_CAPACITY" "hub' = foldl (\<lambda>h q. snd (mock_publish q h)) hub qs"
  shows "fst (recv_all (mock_recv hub') (length qs) (hub_endpoint hub)) = qs"
proof -
  have "mh_log (foldl (\<lambda>h q. snd (mock_publish q h)) hub qs) = mh_log hub @ qs"
    by (induction qs arbitrary: hub) (simp_all add: mock_publish_def)
  then have log: "mh_log hub' = mh_log hub @ qs" by (simp add: assms(2))
  have step: "length (mh_log hub) \<le> mt_next rx' \<and> drop (mt_next rx) (mh_log hub') = q # drop (mt_next rx') (mh_log hub')"
    if "length (mh_log hub) \<le> mt_next rx" "mock_recv hub' rx = Some (Inr q, rx')" for rx q rx'
  proof -
    have "max (mt_next rx) (length (mh_log hub') - HUB_CAPACITY) = mt_next rx" using that(1) assms(1) log by simp
    then have "mt_next rx < length (mh_log hub')" "q = mh_log hub' ! mt_next rx" "mt_next rx' = Suc (mt_next rx)"
      using that(2) by (auto simp: mock_recv_def Let_def split: if_splits)
    then show ?thesis using that(1) Cons_nth_drop_Suc[of "mt_next rx" "mh_log hub'"] by simp
  qed
  have "fst (recv_all (mock_recv hub') (length qs) (hub_endpoint hub)) = drop (mt_next (hub_endpoint hub)) (mh_log hub')"
    by (rule hub.lossless[where P = "\<lambda>rx. length (mh_log hub) \<le> mt_next rx"])
      (use step in \<open>auto simp: hub_endpoint_def log\<close>)
  then show ?thesis by (simp add: hub_endpoint_def log)
qed

section \<open>What an oracle publishes\<close>

text \<open>The clock readings and quotes of a run of publications; whether the relay took one does not matter.\<close>

fun publish_all ::
  "(u64 \<Rightarrow> u64 \<Rightarrow> u64) \<Rightarrow> (wire_quote \<Rightarrow> string) \<Rightarrow> xonly \<Rightarrow> (nostr_event \<Rightarrow> string + unit) \<Rightarrow> (u64 \<times> wire_quote) list \<Rightarrow> nostr_quotes \<Rightarrow>
     nostr_quotes" where
  "publish_all tadd to_json pk send [] st = st"
| "publish_all tadd to_json pk send ((now, q) # rest) st =
     publish_all tadd to_json pk send rest (snd (nostr_publish tadd to_json pk send now q st))"

text \<open>The library's addition of one second: exact unless the timestamp is the last one.\<close>

definition second_exact :: "(u64 \<Rightarrow> u64 \<Rightarrow> u64) \<Rightarrow> bool" where
  "second_exact tadd \<longleftrightarrow> (\<forall>t. t \<noteq> - 1 \<longrightarrow> tadd t 1 = t + 1)"

definition clock_below :: "nat \<Rightarrow> u64 \<Rightarrow> bool" where
  "clock_below n t \<longleftrightarrow> unat t + n < 2 ^ 64"

lemma next_created_at_grows:
  assumes "second_exact tadd" "clock_below (Suc n) prev" "clock_below (Suc n) now"
  shows "prev < next_created_at tadd now prev" "clock_below n (next_created_at tadd now prev)"
proof -
  have lt: "unat prev + 1 < 2 ^ 64" using assms(2) by (simp add: clock_below_def)
  then have s: "unat (prev + 1) = unat prev + 1" by (simp add: unat_plus_exact)
  moreover have "prev \<noteq> - 1" using lt by auto
  ultimately show "prev < next_created_at tadd now prev" "clock_below n (next_created_at tadd now prev)"
    using assms by (auto simp: second_exact_def next_created_at_def word_less_nat_alt clock_below_def not_less)
qed

lemma publish_all_events:
  assumes "second_exact tadd" "clock_below (length pubs) (nq_last_created_at st)"
    "list_all (\<lambda>(now, q). clock_below (length pubs) now) pubs"
  shows "\<exists>evs. nq_out (publish_all tadd to_json pk send pubs st) = rev evs @ nq_out st \<and>
    list_all2 (\<lambda>(now, q) ev. ev = quote_event tadd to_json pk (ne_created_at ev) q) pubs evs \<and>
    sorted_wrt (<) (nq_last_created_at st # map ne_created_at evs)"
  using assms(2,3)
proof (induction pubs arbitrary: st)
  case (Cons p rest)
  obtain now q where p: "p = (now, q)" by (cases p)
  let ?t = "next_created_at tadd now (nq_last_created_at st)"
  let ?ev = "quote_event tadd to_json pk ?t q"
  define st1 where "st1 = snd (nostr_publish tadd to_json pk send now q st)"
  have st1: "nq_last_created_at st1 = ?t" "nq_out st1 = ?ev # nq_out st" by (simp_all add: st1_def nostr_publish_def Let_def)
  note grow = next_created_at_grows[OF assms(1), of "length rest" "nq_last_created_at st" now]
  have t: "nq_last_created_at st < ?t" "clock_below (length rest) ?t" using grow Cons.prems by (simp_all add: p)
  have "list_all (\<lambda>(now, q). clock_below (length rest) now) rest"
    using Cons.prems(2) by (auto simp: list_all_iff clock_below_def)
  with Cons.IH[of st1] t(2) st1(1) obtain evs where evs: "nq_out (publish_all tadd to_json pk send rest st1) = rev evs @ nq_out st1"
    "list_all2 (\<lambda>(now, q) ev. ev = quote_event tadd to_json pk (ne_created_at ev) q) rest evs"
    "sorted_wrt (<) (?t # map ne_created_at evs)" by auto
  have "nq_out (publish_all tadd to_json pk send (p # rest) st) = rev (?ev # evs) @ nq_out st"
    using evs(1) st1 by (simp add: p st1_def)
  moreover have "sorted_wrt (<) (nq_last_created_at st # map ne_created_at (?ev # evs))"
    using evs(3) t(1) by (auto simp: quote_event_def)
  moreover have "?ev = quote_event tadd to_json pk (ne_created_at ?ev) q" by (simp add: quote_event_def)
  ultimately show ?case using evs(2) by (intro exI[of _ "?ev # evs"]) (simp add: p)
qed simp

section \<open>The tick of a walk\<close>

lemma book_absorb_run: "\<lbrakk>book_absorb sha256 S tip q B = Some B'; book_run sha256 S B\<rbrakk> \<Longrightarrow> book_run sha256 S B' \<and> qb_oracle_pks B' = qb_oracle_pks B"
  using book_step[of sha256 S B q tip B'] by (auto simp: book_absorb_def book_insert_Inr_iff split: sum.splits quote_fault.splits)

lemma book_absorb_all_run:
  "\<lbrakk>book_absorb_all sha256 S tip qs B = Some B'; book_run sha256 S B\<rbrakk> \<Longrightarrow> book_run sha256 S B' \<and> qb_oracle_pks B' = qb_oracle_pks B"
proof (induction qs arbitrary: B)
  case (Cons q qs)
  then obtain B1 where "book_absorb sha256 S tip q B = Some B1" "book_absorb_all sha256 S tip qs B1 = Some B'"
    by (auto simp: bind_eq_Some_conv)
  with Cons.IH[of B1] Cons.prems(2) book_absorb_run[of sha256 S tip q B B1] show ?case by simp
qed simp

section \<open>Deliveries to one book\<close>

text \<open>Quotes reach a book one after the other, each judged at the tip the consumer knows at that moment.\<close>

fun book_feed :: "(bytes \<Rightarrow> bytes) \<Rightarrow> 'p prover \<Rightarrow> (wire_quote \<times> block_height) list \<Rightarrow> quote_book \<Rightarrow> quote_book option" where
  "book_feed sha256 S [] B = Some B"
| "book_feed sha256 S ((q, tip) # ds) B = Option.bind (book_absorb sha256 S tip q B) (book_feed sha256 S ds)"

text \<open>The quote an oracle signs for its slot at a height, and an oracle that signs one ratio only at that height.\<close>

definition slot_quote ::
  "(bytes \<Rightarrow> bytes) \<Rightarrow> ('key \<Rightarrow> bytes \<Rightarrow> bytes) \<Rightarrow> 'key \<Rightarrow> nat \<Rightarrow> tick_payload \<Rightarrow> wire_quote" where
  "slot_quote sha256 sign kp i p = wq_sign sha256 sign kp (OracleSlot (of_nat i)) p"

definition signs_only :: "(bytes \<Rightarrow> bytes) \<Rightarrow> 'p prover \<Rightarrow> xonly \<Rightarrow> block_height \<Rightarrow> ratio_k \<Rightarrow> bool" where
  "signs_only sha256 S pk h k \<longleftrightarrow>
     (\<forall>sg price k'. pv_verify S sg (tick_digest sha256 \<lparr>tp_height = h, tp_price = price, tp_backing_k = k'\<rparr>) pk \<longrightarrow> k' = k)"

definition signature_of :: "(bytes \<Rightarrow> bytes) \<Rightarrow> 'p prover \<Rightarrow> xonly \<Rightarrow> ('key \<Rightarrow> bytes \<Rightarrow> bytes) \<Rightarrow> 'key \<Rightarrow> tick_payload \<Rightarrow> bool" where
  "signature_of sha256 S pk sign kp p \<longleftrightarrow>
     (let d = tick_digest sha256 p in pv_verify S (sign kp d) d pk \<and> pv_sig_ok S (sign kp d) \<and> length (sign kp d) = 64)"

text \<open>A consumer's book: reachable, with the deployment's keys and the default window.\<close>

definition consumer_book :: "(bytes \<Rightarrow> bytes) \<Rightarrow> 'p prover \<Rightarrow> xonly list \<Rightarrow> quote_book \<Rightarrow> bool" where
  "consumer_book sha256 S pks B \<longleftrightarrow>
     book_run sha256 S B \<and> qb_oracle_pks B = pks \<and> qb_horizon B = DEFAULT_HORIZON \<and> qb_drift B = DEFAULT_DRIFT"

lemma consumer_new: "consumer_book sha256 S pks (book_new pks)"
  using book_start[of sha256 S pks DEFAULT_HORIZON DEFAULT_DRIFT]
  by (simp add: consumer_book_def book_new_def) (simp add: book_with_window_def)

lemma absorb_cases:
  assumes "book_absorb sha256 S tip q B = Some B'"
  obtains "B' = B" | "book_insert sha256 S B q tip = Inr B'"
  using assms by (auto simp: book_absorb_def split: sum.splits quote_fault.splits)

lemma consumer_absorb:
  assumes "book_absorb sha256 S tip q B = Some B'" "consumer_book sha256 S pks B"
  shows "consumer_book sha256 S pks B'"
  using assms(1)
proof (cases rule: absorb_cases)
  case 2
  then have "qb_oracle_pks B' = qb_oracle_pks B \<and> qb_horizon B' = qb_horizon B \<and> qb_drift B' = qb_drift B"
    by (auto simp: book_insert_Inr_iff)
  with assms(2) book_step[OF _ 2] show ?thesis by (simp add: consumer_book_def)
qed (use assms(2) in simp)

text \<open>Slot \<open>i\<close> of a height holds a quote with the given ratio.\<close>

definition slot_has :: "quote_book \<Rightarrow> u32 \<Rightarrow> ratio_k \<Rightarrow> nat \<Rightarrow> bool" where
  "slot_has B h k i \<longleftrightarrow> (\<exists>q. book_slots B h ! i = Some (k, q))"

text \<open>Nothing that is delivered later displaces the ratio of an oracle that signs one ratio only.\<close>

lemma slot_has_absorb:
  assumes "book_absorb sha256 S tip q B = Some B'" and B: "consumer_book sha256 S pks B"
    and "sat_sub (height_raw tip) DEFAULT_HORIZON \<le> h" "i < 5" and only: "signs_only sha256 S (pks ! i) (BlockHeight h) k"
    and "slot_has B h k i"
  shows "slot_has B' h k i"
  using assms(1)
proof (cases rule: absorb_cases)
  case 2
  then obtain slot sg where ins: "pv_verify S sg (tick_digest sha256 (wq_payload q)) (qb_oracle_pks B ! slot_index slot)"
    and B': "B' = B\<lparr>qb_heights := fmfilter (\<lambda>h. sat_sub (height_raw tip) (qb_horizon B) \<le> h)
          (fmupd (wq_height q) ((book_slots B (wq_height q))
            [slot_index slot := Some (RatioK (wq_backing_k q), \<lparr>sq_price = Price (wq_price q), sq_sig = sg\<rparr>)]) (qb_heights B))\<rparr>"
    unfolding book_insert_Inr_iff by blast
  have len: "length (book_slots B h) = 5"
    using B book_slots_ok[OF book_run_ok] by (auto simp: consumer_book_def slots_ok_def)
  have keep: "book_slots B' h = (if wq_height q = h then (book_slots B h)[slot_index slot := Some (RatioK (wq_backing_k q),
      \<lparr>sq_price = Price (wq_price q), sq_sig = sg\<rparr>)] else book_slots B h)"
    using assms(3) B by (simp add: B' book_slots_def consumer_book_def)
  have "RatioK (wq_backing_k q) = k" if "slot_index slot = i" "wq_height q = h"
    using ins only B that by (auto simp: signs_only_def wq_payload_def consumer_book_def)
  then show ?thesis using assms(4,6) len
    by (cases "slot_index slot = i \<and> wq_height q = h") (auto simp: slot_has_def keep)
qed (use assms(6) in simp)

lemma slot_has_added:
  assumes "book_absorb sha256 S tip (slot_quote sha256 sign kp i p) B = Some B'" and B: "consumer_book sha256 S pks B"
    and i: "i < 5" and "tp_price p \<noteq> Price 0" "signature_of sha256 S (pks ! i) sign kp p"
    and win: "sat_sub (height_raw tip) DEFAULT_HORIZON \<le> height_raw (tp_height p)"
      "height_raw (tp_height p) \<le> sat_add (height_raw tip) DEFAULT_DRIFT"
  shows "slot_has B' (height_raw (tp_height p)) (tp_backing_k p) i"
proof -
  note ix = slot_new_lt[OF i]
  have "\<exists>B1. book_insert sha256 S B (wq_sign sha256 sign kp (OracleSlot (of_nat i)) p) tip = Inr B1 \<and>
    book_slots B1 (height_raw (tp_height p)) ! slot_index (OracleSlot (of_nat i)) = Some (tp_backing_k p, sign_quote sha256 sign kp p) \<and>
    book_ok sha256 S B1"
    by (rule wq_sign_accepted)
      (use assms(4,5) win B ix i book_run_ok in \<open>auto simp: slot_ok_def signature_of_def Let_def consumer_book_def\<close>)
  then show ?thesis using assms(1) ix by (auto simp: slot_quote_def book_absorb_def slot_has_def)
qed

lemma feed_keeps:
  assumes "book_feed sha256 S ds B = Some B'" "consumer_book sha256 S pks B"
    "\<forall>(q, tip) \<in> set ds. sat_sub (height_raw tip) DEFAULT_HORIZON \<le> h" "i < 5" "signs_only sha256 S (pks ! i) (BlockHeight h) k"
  shows "consumer_book sha256 S pks B' \<and> (slot_has B h k i \<longrightarrow> slot_has B' h k i)"
  using assms
proof (induction ds arbitrary: B)
  case (Cons d ds)
  obtain q tip where d: "d = (q, tip)" by force
  with Cons.prems obtain B1 where B1: "book_absorb sha256 S tip q B = Some B1" "book_feed sha256 S ds B1 = Some B'"
    by (auto simp: bind_eq_Some_conv)
  from Cons.IH[OF B1(2) consumer_absorb[OF B1(1) Cons.prems(2)]] Cons.prems slot_has_absorb[OF B1(1) Cons.prems(2), of h i k] d
  show ?case by auto
qed simp

lemma feed_adds:
  assumes "book_feed sha256 S ds B = Some B'" "consumer_book sha256 S pks B"
    "\<forall>(q, tip) \<in> set ds. sat_sub (height_raw tip) DEFAULT_HORIZON \<le> height_raw (tp_height p)"
    and i: "i < 5" and only: "signs_only sha256 S (pks ! i) (tp_height p) (tp_backing_k p)"
    and "tp_price p \<noteq> Price 0" "signature_of sha256 S (pks ! i) sign kp p"
    and del: "(slot_quote sha256 sign kp i p, tip) \<in> set ds" "height_raw (tp_height p) \<le> sat_add (height_raw tip) DEFAULT_DRIFT"
  shows "slot_has B' (height_raw (tp_height p)) (tp_backing_k p) i"
  using assms(1-3) del(1)
proof (induction ds arbitrary: B)
  case (Cons d ds)
  obtain q tp where d: "d = (q, tp)" by force
  with Cons.prems obtain B1 where B1: "book_absorb sha256 S tp q B = Some B1" "book_feed sha256 S ds B1 = Some B'"
    by (auto simp: bind_eq_Some_conv)
  note c1 = consumer_absorb[OF B1(1) Cons.prems(2)]
  show ?case
  proof (cases "(slot_quote sha256 sign kp i p, tip) \<in> set ds")
    case True
    with Cons.IH[OF B1(2) c1] Cons.prems(3) show ?thesis by simp
  next
    case False
    with Cons.prems(3,4) d have "q = slot_quote sha256 sign kp i p" "tp = tip"
      "sat_sub (height_raw tip) DEFAULT_HORIZON \<le> height_raw (tp_height p)" by auto
    with slot_has_added[OF _ Cons.prems(2) i assms(6,7) _ del(2), of B1] B1(1)
    have "slot_has B1 (height_raw (tp_height p)) (tp_backing_k p) i" by blast
    with feed_keeps[OF B1(2) c1, of "height_raw (tp_height p)" i "tp_backing_k p"] Cons.prems(3) i only show ?thesis by simp
  qed
qed simp

text \<open>Only a signature string that is not plain hexadecimal can panic.\<close>

lemma hex_absorbed: "wq_sig q = hex_str bs \<Longrightarrow> \<exists>B'. book_absorb sha256 S tip q B = Some B'"
proof -
  assume "wq_sig q = hex_str bs"
  then have "sig_bytes q \<noteq> Inl QuotePanic" by (simp add: sig_bytes_def sig_pairs_hex)
  then have "book_insert sha256 S B q tip \<noteq> Inl QuotePanic"
    by (auto simp: book_insert_def refuse_if_def bind_res_def Let_def split: sum.splits)
  then show ?thesis by (auto simp: book_absorb_def split: sum.splits quote_fault.splits)
qed

lemma hex_fed: "\<forall>(q, tip) \<in> set ds. \<exists>bs. wq_sig q = hex_str bs \<Longrightarrow> \<exists>B'. book_feed sha256 S ds B = Some B'"
proof (induction ds arbitrary: B)
  case (Cons d ds)
  obtain q tip where d: "d = (q, tip)" by force
  with Cons.prems hex_absorbed obtain B1 where "book_absorb sha256 S tip q B = Some B1" by fastforce
  with Cons show ?case by (simp add: d)
qed simp

section \<open>Ticks of a walk\<close>

text \<open>A tick whose three quotes verify under the deployment's keys, at a height not above the tip and at most eight below it.\<close>

definition tick_from :: "(bytes \<Rightarrow> bytes) \<Rightarrow> 'p prover \<Rightarrow> xonly list \<Rightarrow> u32 list \<Rightarrow> oracle_tick \<Rightarrow> bool" where
  "tick_from sha256 S pks heights t \<longleftrightarrow>
     tick_wf t \<and> check_zero_price t = Inr () \<and> height_raw (ot_height t) \<in> set heights \<and>
     (\<forall>i < 5. \<forall>q. ot_slots t ! i = Some q \<longrightarrow> quote_valid sha256 S pks (height_raw (ot_height t)) i (ot_backing_k t) q)"

lemma tick_from_assembled:
  "\<lbrakk>book_run sha256 S B; assemble_tick B (BlockHeight h) = Some t; h \<in> set hs\<rbrakk> \<Longrightarrow> tick_from sha256 S (qb_oracle_pks B) hs t"
  using assemble_authentic[of sha256 S B "BlockHeight h" t] by (auto simp: tick_from_def)

lemma tick_from_mono: "\<lbrakk>tick_from sha256 S pks hs t; set hs \<subseteq> set hs'\<rbrakk> \<Longrightarrow> tick_from sha256 S pks hs' t"
  by (auto simp: tick_from_def)

lemma wallet_walk_tick:
  "\<lbrakk>wallet_walk fetch sha256 S tip hs B = Inr t; book_run sha256 S B\<rbrakk> \<Longrightarrow> tick_from sha256 S (qb_oracle_pks B) hs t"
proof (induction hs arbitrary: B)
  case (Cons h hs)
  then obtain qs B' where B': "fetch h = Inr qs" "book_absorb_all sha256 S tip qs B = Some B'"
    by (auto split: sum.splits option.splits)
  then have run: "book_run sha256 S B'" "qb_oracle_pks B' = qb_oracle_pks B" using book_absorb_all_run Cons.prems(2) by blast+
  show ?case
  proof (cases "assemble_tick B' (BlockHeight h)")
    case None
    with Cons.prems B' have "wallet_walk fetch sha256 S tip hs B' = Inr t" by simp
    from tick_from_mono[OF Cons.IH[OF this run(1)], of "h # hs"] run(2) show ?thesis by auto
  next
    case (Some t')
    with Cons.prems B' have "t' = t" by simp
    with tick_from_assembled[OF run(1) Some, of "h # hs"] run(2) show ?thesis by simp
  qed
qed simp

lemma app_walk_tick:
  "\<lbrakk>app_walk fetch sha256 S tip hs B = Inr (Some (h, t)); book_run sha256 S B\<rbrakk> \<Longrightarrow>
     tick_from sha256 S (qb_oracle_pks B) hs t \<and> ot_height t = BlockHeight h"
proof (induction hs arbitrary: B)
  case (Cons h' hs)
  have weaken: "tick_from sha256 S (qb_oracle_pks B) (h' # hs) t" if "tick_from sha256 S (qb_oracle_pks B) hs t"
    using tick_from_mono[OF that, of "h' # hs"] by auto
  show ?case
  proof (cases "fetch h'")
    case (Inl e)
    with Cons.prems have "app_walk fetch sha256 S tip hs B = Inr (Some (h, t))" by simp
    from Cons.IH[OF this Cons.prems(2)] weaken show ?thesis by simp
  next
    case (Inr qs)
    with Cons.prems obtain B' where B': "book_absorb_all sha256 S tip qs B = Some B'" by (auto split: option.splits)
    then have run: "book_run sha256 S B'" "qb_oracle_pks B' = qb_oracle_pks B" using book_absorb_all_run Cons.prems(2) by blast+
    show ?thesis
    proof (cases "assemble_tick B' (BlockHeight h')")
      case None
      with Cons.prems Inr B' have "app_walk fetch sha256 S tip hs B' = Inr (Some (h, t))" by simp
      from Cons.IH[OF this run(1)] run(2) weaken show ?thesis by simp
    next
      case (Some t')
      with Cons.prems Inr B' have eq: "t' = t" "h' = h" by simp_all
      with tick_from_assembled[OF run(1) Some, of "h' # hs"] assemble_authentic[OF run(1) Some] run(2) show ?thesis by simp
    qed
  qed
qed simp

lemma walk_heights_near:
  assumes "h \<in> set (walk_heights tip)"
  shows "h \<le> tip" "unat tip \<le> unat h + 8"
proof -
  from assms obtain n where n: "unat (sat_sub tip TICK_WALKBACK) \<le> n" "n \<le> unat tip" "h = of_nat n"
    by (auto simp: walk_heights_def simp del: upt_Suc)
  then have "unat h = n" using unat_lt_u32[of tip] by (simp add: unat_of_nat)
  with n show "h \<le> tip" "unat tip \<le> unat h + 8" by (auto simp: word_le_nat_alt unat_sat_sub TICK_WALKBACK_def)
qed

section \<open>A feed with byzantine quotes\<close>

text \<open>Slots 0 to 2 belong to oracles that sign nothing but one payload; the keys of slots 3 and 4 verify anything.\<close>

definition byz_payload :: tick_payload where
  "byz_payload = \<lparr>tp_height = BlockHeight 100, tp_price = Price 7, tp_backing_k = K_PAR\<rparr>"

definition byz_prover :: "u8 prover" where
  "byz_prover = sample_prover\<lparr>pv_verify := (\<lambda>sg d pk. pk \<in> {4, 5} \<or> d = tick_preimage byz_payload)\<rparr>"

definition byz_quote :: "u8 \<Rightarrow> wire_quote" where
  "byz_quote i = wq_sign (\<lambda>bs. bs) (\<lambda>k d. replicate 64 0) () (OracleSlot i) (byz_payload\<lparr>tp_backing_k := RatioK 3\<rparr>)"

abbreviation good_quote :: "nat \<Rightarrow> wire_quote" where
  "good_quote i \<equiv> slot_quote (\<lambda>bs. bs) (\<lambda>k d. replicate 64 0) () i byz_payload"

text \<open>Two other ratios, a forgery for slot 0 and a repeated byzantine quote among the honest ones, at a moving tip.\<close>

definition byz_feed :: "(wire_quote \<times> block_height) list" where
  "byz_feed = [(byz_quote 3, BlockHeight 99), (good_quote 0, BlockHeight 100), (byz_quote 0, BlockHeight 100),
     (good_quote 1, BlockHeight 100), (byz_quote 4, BlockHeight 101), (good_quote 2, BlockHeight 102), (byz_quote 3, BlockHeight 103)]"

lemma byz_fed: "\<exists>B. book_feed (\<lambda>bs. bs) byz_prover byz_feed (book_new [1, 2, 3, 4, 5]) = Some B"
  by (rule hex_fed) (auto simp: byz_feed_def byz_quote_def slot_quote_def wq_sign_def sign_quote_def Let_def)

lemma byz_honest:
  assumes "i < 3"
  shows "signs_only (\<lambda>bs. bs) byz_prover ([1, 2, 3, 4, 5] ! i) (BlockHeight 100) K_PAR"
    "signature_of (\<lambda>bs. bs) byz_prover ([1, 2, 3, 4, 5] ! i) (\<lambda>k d. replicate 64 0) () byz_payload"
proof -
  have i: "i = 0 \<or> i = 1 \<or> i = 2" using assms by auto
  then show "signs_only (\<lambda>bs. bs) byz_prover ([1, 2, 3, 4, 5] ! i) (BlockHeight 100) K_PAR"
    using tick_preimage_inject[of "\<lparr>tp_height = BlockHeight 100, tp_price = _, tp_backing_k = _\<rparr>" byz_payload]
    by (auto simp: signs_only_def byz_prover_def tick_digest_def byz_payload_def)
  show "signature_of (\<lambda>bs. bs) byz_prover ([1, 2, 3, 4, 5] ! i) (\<lambda>k d. replicate 64 0) () byz_payload"
    by (simp add: signature_of_def byz_prover_def sample_prover_def tick_digest_def)
qed

section \<open>Properties\<close>

text \<open>
  C7 (tick_survives_byzantine): two byzantine oracles can not block a tick. Let quotes be delivered
  to a fresh book in any order and number, at any tips that keep the height inside the window (no
  tip more than 32 above it), none of them with a signature string that makes the decoder panic (a
  malformed one does, \<open>quote_panics\<close>; that is the one thing the other two can do). When three oracles
  sign one and the same backing ratio at this height and no other, and their quotes, each with a
  non-zero price of its own, are among the deliveries at a tip at most two below the height, then the
  book assembles a tick of the height with that ratio, whatever else was delivered before, between
  and after them.
\<close>

theorem tick_survives_byzantine:
  assumes fed: "book_feed sha256 S ds (book_new pks) = Some B"
    and tips: "\<forall>(q, tip) \<in> set ds. sat_sub (height_raw tip) DEFAULT_HORIZON \<le> height_raw h"
    and honest: "H \<subseteq> {..<5}" "3 \<le> card H" "\<forall>i \<in> H. signs_only sha256 S (pks ! i) h k"
    and quotes: "\<forall>i \<in> H. price i \<noteq> Price 0 \<and>
      signature_of sha256 S (pks ! i) sign (kp i) \<lparr>tp_height = h, tp_price = price i, tp_backing_k = k\<rparr> \<and>
      (\<exists>tip. (slot_quote sha256 sign (kp i) i \<lparr>tp_height = h, tp_price = price i, tp_backing_k = k\<rparr>, tip) \<in> set ds \<and>
         height_raw h \<le> sat_add (height_raw tip) DEFAULT_DRIFT)"
    and "height_raw h < LOCK_TIME_HEIGHT_THRESHOLD"
  shows "\<exists>t. assemble_tick B h = Some t \<and> ot_backing_k t = k"
proof -
  have has: "slot_has B (height_raw h) k i" if i: "i \<in> H" for i
  proof -
    from quotes i obtain tip where del: "(slot_quote sha256 sign (kp i) i \<lparr>tp_height = h, tp_price = price i, tp_backing_k = k\<rparr>, tip) \<in> set ds"
      "height_raw h \<le> sat_add (height_raw tip) DEFAULT_DRIFT" by blast
    from feed_adds[OF fed consumer_new, of "\<lparr>tp_height = h, tp_price = price i, tp_backing_k = k\<rparr>" i sign "kp i" tip]
      tips honest(1,3) quotes i del show ?thesis by auto
  qed
  from honest(2) obtain j where j: "j \<in> H" by fastforce
  have run: "book_run sha256 S B"
    using feed_keeps[OF fed consumer_new, of "height_raw h" j k] tips honest(1,3) j by (auto simp: consumer_book_def)
  have "j < 5" using j honest(1) by auto
  with has[OF j] obtain slots where slots: "fmlookup (qb_heights B) (height_raw h) = Some slots"
    by (auto simp: slot_has_def book_slots_def split: option.splits)
  have "H \<subseteq> {i. i < 5 \<and> (\<exists>q. slots ! i = Some (k, q))}"
    using has honest(1) by (auto simp: slot_has_def book_slots_Some[OF slots])
  then have "card H \<le> card {i. i < 5 \<and> (\<exists>q. slots ! i = Some (k, q))}" by (intro card_mono) auto
  with assemble_some[OF run slots _ assms(7), of k] honest(2) show ?thesis by simp
qed

theorem tick_survives_byzantine_witness:
  "\<exists>B t. book_feed (\<lambda>bs. bs) byz_prover byz_feed (book_new [1, 2, 3, 4, 5]) = Some B \<and>
     assemble_tick B (BlockHeight 100) = Some t \<and> ot_backing_k t = K_PAR"
proof -
  obtain B where fed: "book_feed (\<lambda>bs. bs) byz_prover byz_feed (book_new [1, 2, 3, 4, 5]) = Some B" using byz_fed by blast
  have del: "\<exists>tip. (good_quote i, tip) \<in> set byz_feed \<and> 100 \<le> sat_add (height_raw tip) DEFAULT_DRIFT" if "i < 3" for i
  proof -
    have "i = 0 \<or> i = 1 \<or> i = 2" using that by auto
    then show ?thesis by (auto simp: byz_feed_def sat_add_def DEFAULT_DRIFT_def)
  qed
  from tick_survives_byzantine[OF fed, of "BlockHeight 100" "{..<3}" K_PAR "\<lambda>_. Price 7" "\<lambda>k d. replicate 64 0" "\<lambda>_. ()"]
    byz_honest del fed
  show ?thesis by (auto simp: byz_feed_def sat_sub_def DEFAULT_HORIZON_def LOCK_TIME_HEIGHT_THRESHOLD_def byz_payload_def)
qed

text \<open>
  C35 (publish_received): the events of any run of publications, whatever the clock shows, carry
  strictly growing timestamps, so that a relay always replaces an earlier quote of a height by the
  later one; and a consumer that follows the oracle parses each event back to the quote published.
  The two hypotheses on library code: the JSON text of each quote reads back, and adding a second to a
  timestamp that is not the last one is exact.
\<close>

theorem publish_received:
  assumes "second_exact tadd" "list_all (\<lambda>(now, q). from_json (to_json q) = Some q) pubs"
    "list_all (\<lambda>(now, q). unat now + length pubs < 2 ^ 64) pubs" "length pubs < 2 ^ 64" "pk \<in> set authors"
  shows "sorted_wrt (\<lambda>e e'. ne_created_at e' < ne_created_at e) (nq_out (publish_all tadd to_json pk send pubs (nostr_connect []))) \<and>
    map (nostr_parse from_json authors) (rev (nq_out (publish_all tadd to_json pk send pubs (nostr_connect [])))) =
      map (\<lambda>(now, q). Some q) pubs"
proof -
  obtain evs where evs: "nq_out (publish_all tadd to_json pk send pubs (nostr_connect [])) = rev evs"
    "list_all2 (\<lambda>(now, q) ev. ev = quote_event tadd to_json pk (ne_created_at ev) q) pubs evs"
    "sorted_wrt (<) (map ne_created_at evs)"
    using publish_all_events[OF assms(1), of pubs "nostr_connect []" to_json pk send] assms(3,4)
    by (auto simp: nostr_connect_def clock_below_def)
  have parse: "nostr_parse from_json authors ev = Some q"
    if "ev = quote_event tadd to_json pk t q" "from_json (to_json q) = Some q" for ev t q
    using that assms(5) by (simp add: nostr_parse_Some quote_event_def)
  have "map (nostr_parse from_json authors) evs = map (\<lambda>(now, q). Some q) pubs"
    using evs(2) assms(2) by (induction rule: list_all2_induct) (auto split: prod.splits intro: parse)
  moreover have "sorted_wrt (\<lambda>e e'. ne_created_at e' < ne_created_at e) (rev evs)"
    using evs(3) by (simp add: sorted_wrt_rev sorted_wrt_map)
  ultimately show ?thesis by (simp add: evs(1))
qed

definition sample_pub :: "u32 \<Rightarrow> wire_quote" where
  "sample_pub h = \<lparr>wq_slot = 0, wq_height = h, wq_price = 100, wq_backing_k = 5, wq_sig = ''ab'', wq_name = ''o''\<rparr>"

theorem publish_received_witness:
  "map (nostr_parse (\<lambda>s. Some (sample_pub (if s = ''a'' then 1 else 2))) [7])
     (rev (nq_out (publish_all (+) (\<lambda>q. if wq_height q = 1 then ''a'' else ''b'') 7 (\<lambda>_. Inl ''offline'')
       [(9, sample_pub 1), (9, sample_pub 2)] (nostr_connect [])))) = [Some (sample_pub 1), Some (sample_pub 2)]"
  using publish_received[of "(+)" "\<lambda>s. Some (sample_pub (if s = ''a'' then 1 else 2))"
      "\<lambda>q. if wq_height q = 1 then ''a'' else ''b''" "[(9, sample_pub 1), (9, sample_pub 2)]" 7 "[7]" "\<lambda>_. Inl ''offline''"]
  by (simp add: second_exact_def sample_pub_def)

end
