(* ===== verification/Styx_Service.thy ===== *)
theory Styx_Service
  imports Styx_Config Styx_Transport
begin

text \<open>
  The oracle daemon (\<open>styx-oracle\<close>): the exchange parsers of \<open>feed.rs\<close>, the configuration of
  \<open>config.rs\<close> and its use in \<open>main.rs\<close>, the running state and the two loops of \<open>service.rs\<close>, and
  the admin handlers of \<open>http.rs\<close>. The loops and the handlers run concurrently on one state, so they
  are steps that interleave; the block loop is cut where it releases the locks, between the
  staleness gate, the signature and the result of the publication. An instant is a number of
  nanoseconds of the monotonic clock. The JSON and TOML parsers, the decimal parser of \<open>f64\<close>, the
  key and signature library and the relay are parameters.
\<close>

section \<open>Price backends\<close>

datatype feed_error = FeedHttp string | FeedShape string string | FeedInsane string f64

datatype backend = Coinbase | Binance | Kraken | Bitstamp | Bitfinex | Okx

definition backend_from_str :: "string \<Rightarrow> string + backend" where
  "backend_from_str s =
     (if s = ''coinbase'' then Inr Coinbase
      else if s = ''binance'' then Inr Binance
      else if s = ''kraken'' then Inr Kraken
      else if s = ''bitstamp'' then Inr Bitstamp
      else if s = ''bitfinex'' then Inr Bitfinex
      else if s = ''okx'' then Inr Okx
      else Inl (''unknown feed backend '' @ s @ '' (coinbase / binance / kraken / bitstamp / bitfinex / okx)''))"

fun backend_name :: "backend \<Rightarrow> string" where
  "backend_name Coinbase = ''coinbase''"
| "backend_name Binance = ''binance''"
| "backend_name Kraken = ''kraken''"
| "backend_name Bitstamp = ''bitstamp''"
| "backend_name Bitfinex = ''bitfinex''"
| "backend_name Okx = ''okx''"

fun backend_endpoint :: "backend \<Rightarrow> string" where
  "backend_endpoint Coinbase = ''https://api.coinbase.com/v2/prices/BTC-USD/spot''"
| "backend_endpoint Binance = ''https://api.binance.com/api/v3/ticker/price?symbol=BTCUSDT''"
| "backend_endpoint Kraken = ''https://api.kraken.com/0/public/Ticker?pair=XBTUSD''"
| "backend_endpoint Bitstamp = ''https://www.bitstamp.net/api/v2/ticker/btcusd/''"
| "backend_endpoint Bitfinex = ''https://api-pub.bitfinex.com/v2/ticker/tBTCUSD''"
| "backend_endpoint Okx = ''https://www.okx.com/api/v5/market/ticker?instId=BTC-USDT''"

definition MAX_SANE_PRICE :: rat where "MAX_SANE_PRICE = 100000000"

definition sane :: "string \<Rightarrow> f64 \<Rightarrow> feed_error + price" where
  "sane backend raw =
     (case raw of
        Finite x \<Rightarrow>
          if \<not> (1 \<le> x \<and> x < MAX_SANE_PRICE) then Inl (FeedInsane backend raw)
          else Inr (Price (round_as_word raw))
      | _ \<Rightarrow> Inl (FeedInsane backend raw))"

text \<open>The chain \<open>.as_str().ok_or(..)?.parse().map_err(..)?\<close> on one field.\<close>

definition str_price :: "(string \<Rightarrow> f64 option) \<Rightarrow> backend \<Rightarrow> string \<Rightarrow> string \<Rightarrow> json \<Rightarrow> feed_error + f64" where
  "str_price parse_f64 b missing bad v =
     (case as_str v of
        None \<Rightarrow> Inl (FeedShape (backend_name b) missing)
      | Some s \<Rightarrow> (case parse_f64 s of None \<Rightarrow> Inl (FeedShape (backend_name b) bad) | Some x \<Rightarrow> Inr x))"

fun ticker_price :: "(string \<Rightarrow> f64 option) \<Rightarrow> backend \<Rightarrow> json \<Rightarrow> feed_error + f64" where
  "ticker_price parse_f64 Coinbase v =
     str_price parse_f64 Coinbase ''data.amount missing'' ''data.amount not a number'' (json_key (json_key v ''data'') ''amount'')"
| "ticker_price parse_f64 Binance v =
     str_price parse_f64 Binance ''price missing'' ''price not a number'' (json_key v ''price'')"
| "ticker_price parse_f64 Kraken v =
     (case json_key v ''result'' of
        JObject [] \<Rightarrow> Inl (FeedShape (backend_name Kraken) ''result empty'')
      | JObject ((_, pair) # _) \<Rightarrow>
          str_price parse_f64 Kraken ''result.*.c[0] missing'' ''c[0] not a number'' (json_at (json_key pair ''c'') 0)
      | _ \<Rightarrow> Inl (FeedShape (backend_name Kraken) ''result missing''))"
| "ticker_price parse_f64 Bitstamp v =
     str_price parse_f64 Bitstamp ''last missing'' ''last not a number'' (json_key v ''last'')"
| "ticker_price parse_f64 Bitfinex v =
     (case as_f64 (json_at v 6) of
        None \<Rightarrow> Inl (FeedShape (backend_name Bitfinex) ''ticker[6] missing'')
      | Some x \<Rightarrow> Inr x)"
| "ticker_price parse_f64 Okx v =
     str_price parse_f64 Okx ''data[0].last missing'' ''data[0].last not a number''
       (json_key (json_at (json_key v ''data'') 0) ''last'')"

definition parse_price ::
  "(string \<Rightarrow> string + json) \<Rightarrow> (string \<Rightarrow> f64 option) \<Rightarrow> backend \<Rightarrow> string \<Rightarrow> feed_error + price" where
  "parse_price from_json parse_f64 b body =
     bind_res (map_err (FeedShape (backend_name b)) (from_json body)) (\<lambda>v.
     bind_res (ticker_price parse_f64 b v) (\<lambda>raw. sane (backend_name b) raw))"

text \<open>A poll of the exchange: the request fails, or its body is parsed.\<close>

definition http_fetch :: "(string \<Rightarrow> feed_error + price) \<Rightarrow> string + string \<Rightarrow> feed_error + price" where
  "http_fetch parse r = bind_res (map_err FeedHttp r) parse"

section \<open>The running state\<close>

datatype price_mode = OverrideMode | FeedMode | ConfigMode

fun mode_as_str :: "price_mode \<Rightarrow> string" where
  "mode_as_str OverrideMode = ''override''"
| "mode_as_str FeedMode = ''feed''"
| "mode_as_str ConfigMode = ''config''"

record 'k oracle_state =
  os_slot :: oracle_slot
  os_keypair :: 'k
  os_feed :: price
  os_override_price :: "price option"
  os_feed_updated :: "nat option"
  os_max_feed_age :: "nat option"
  os_name :: string
  os_last_published :: u32

definition oracle_new :: "oracle_slot \<Rightarrow> 'k \<Rightarrow> price \<Rightarrow> 'k oracle_state" where
  "oracle_new slot kp initial =
     \<lparr>os_slot = slot, os_keypair = kp, os_feed = initial, os_override_price = None, os_feed_updated = None,
      os_max_feed_age = None, os_name = [], os_last_published = 0\<rparr>"

definition with_max_feed_age :: "nat option \<Rightarrow> 'k oracle_state \<Rightarrow> 'k oracle_state" where
  "with_max_feed_age limit s = s\<lparr>os_max_feed_age := limit\<rparr>"

definition with_name :: "string \<Rightarrow> 'k oracle_state \<Rightarrow> 'k oracle_state" where
  "with_name n s = s\<lparr>os_name := n\<rparr>"

definition publishable :: "nat \<Rightarrow> 'k oracle_state \<Rightarrow> bool" where
  "publishable now s =
     (if os_override_price s \<noteq> None then True
      else case os_max_feed_age s of
             None \<Rightarrow> True
           | Some limit \<Rightarrow> (case os_feed_updated s of None \<Rightarrow> False | Some t \<Rightarrow> now - t \<le> limit))"

definition effective_price :: "'k oracle_state \<Rightarrow> price" where
  "effective_price s = (case os_override_price s of Some p \<Rightarrow> p | None \<Rightarrow> os_feed s)"

definition price_mode_of :: "'k oracle_state \<Rightarrow> price_mode" where
  "price_mode_of s =
     (if os_override_price s \<noteq> None then OverrideMode
      else if os_feed_updated s \<noteq> None then FeedMode
      else ConfigMode)"

definition as_secs :: "nat \<Rightarrow> nat" where
  "as_secs ns = ns div 10 ^ 9"

definition feed_age_secs :: "nat \<Rightarrow> 'k oracle_state \<Rightarrow> nat option" where
  "feed_age_secs now s = map_option (\<lambda>t. as_secs (now - t)) (os_feed_updated s)"

text \<open>
  A delivered price takes two writes, each under a lock of its own: the price, then the instant. The
  daemon below takes them as two steps, between which every other task may run.
\<close>

definition land_feed :: "price \<Rightarrow> 'k oracle_state \<Rightarrow> 'k oracle_state" where
  "land_feed p s = s\<lparr>os_feed := p\<rparr>"

definition stamp_feed :: "nat \<Rightarrow> 'k oracle_state \<Rightarrow> 'k oracle_state" where
  "stamp_feed now s = s\<lparr>os_feed_updated := Some now\<rparr>"

definition set_override :: "price \<Rightarrow> 'k oracle_state \<Rightarrow> 'k oracle_state" where
  "set_override p s = s\<lparr>os_override_price := Some p\<rparr>"

definition clear_override :: "'k oracle_state \<Rightarrow> 'k oracle_state" where
  "clear_override s = s\<lparr>os_override_price := None\<rparr>"

definition quote_for ::
  "(bytes \<Rightarrow> bytes) \<Rightarrow> ('k \<Rightarrow> bytes \<Rightarrow> bytes) \<Rightarrow> 'k oracle_state \<Rightarrow> block_height \<Rightarrow> wire_quote" where
  "quote_for sha256 sign s h =
     (wq_sign sha256 sign (os_keypair s) (os_slot s)
        \<lparr>tp_height = h, tp_price = effective_price s, tp_backing_k = K_PAR\<rparr>)\<lparr>wq_name := os_name s\<rparr>"

section \<open>The admin handlers\<close>

record health =
  hl_slot :: u8
  hl_height :: u32
  hl_price :: u32
  hl_source :: string
  hl_feed_age_secs :: "nat option"
  hl_publishing :: bool

definition health_of :: "nat \<Rightarrow> 'k oracle_state \<Rightarrow> health" where
  "health_of now s =
     \<lparr>hl_slot = of_nat (slot_index (os_slot s)), hl_height = os_last_published s,
      hl_price = price_raw (effective_price s), hl_source = mode_as_str (price_mode_of s),
      hl_feed_age_secs = feed_age_secs now s, hl_publishing = publishable now s\<rparr>"

definition http_quote ::
  "(bytes \<Rightarrow> bytes) \<Rightarrow> ('k \<Rightarrow> bytes \<Rightarrow> bytes) \<Rightarrow> 'k oracle_state \<Rightarrow> u32 \<Rightarrow> wire_quote" where
  "http_quote sha256 sign s h = quote_for sha256 sign s (BlockHeight h)"

text \<open>A refusal is the HTTP status with its message.\<close>

definition http_set_price :: "nat \<Rightarrow> u32 \<Rightarrow> 'k oracle_state \<Rightarrow> (nat \<times> string + health) \<times> 'k oracle_state" where
  "http_set_price now usd s =
     (if usd = 0 then (Inl (422, ''zero price''), s)
      else let s' = set_override (Price usd) s in (Inr (health_of now s'), s'))"

definition http_clear_price :: "nat \<Rightarrow> 'k oracle_state \<Rightarrow> health \<times> 'k oracle_state" where
  "http_clear_price now s = (let s' = clear_override s in (health_of now s', s'))"

section \<open>Configuration and start\<close>

record feed_config =
  fc_backend :: string
  fc_url :: "string option"
  fc_poll_ms :: u64
  fc_max_age_secs :: "u64 option"

record oracle_config =
  oc_cfg_slot :: u8
  oc_cfg_name :: string
  oc_protocol_seckey :: string
  oc_nostr_seckey :: string
  oc_relays :: "string list"
  oc_rpc_url :: string
  oc_rpc_user :: "string option"
  oc_rpc_password :: "string option"
  oc_rpc_cookie :: "string option"
  oc_listen :: string
  oc_price_usd :: u32
  oc_poll_ms :: u64
  oc_feed :: "feed_config option"

datatype config_error =
    ConfigIo
  | ConfigToml string
  | ConfigField string string
  | ConfigAuth
  | ConfigZeroPrice

definition config_parse :: "(string \<Rightarrow> string + oracle_config) \<Rightarrow> string \<Rightarrow> config_error + oracle_config" where
  "config_parse from_toml text =
     bind_res (map_err ConfigToml (from_toml text)) (\<lambda>cfg.
     refuse_if (oc_price_usd cfg = 0) ConfigZeroPrice (Inr cfg))"

definition config_load ::
  "(string \<Rightarrow> string + oracle_config) \<Rightarrow> (string \<Rightarrow> string option) \<Rightarrow> string \<Rightarrow> config_error + oracle_config" where
  "config_load from_toml read path =
     (case read path of None \<Rightarrow> Inl ConfigIo | Some text \<Rightarrow> config_parse from_toml text)"

definition config_auth :: "oracle_config \<Rightarrow> config_error + auth" where
  "config_auth cfg =
     (case (oc_rpc_cookie cfg, oc_rpc_user cfg, oc_rpc_password cfg) of
        (Some cookie, None, None) \<Rightarrow> Inr (CookieFile cookie)
      | (None, Some user, Some pass) \<Rightarrow> Inr (UserPass user pass)
      | _ \<Rightarrow> Inl ConfigAuth)"

datatype start_error =
    StartConfig config_error
  | StartSlot oracle_error
  | StartKey string
  | StartPanic
  | StartBackend string

definition parse_protocol_key :: "(bytes \<Rightarrow> string + 'k) \<Rightarrow> string \<Rightarrow> start_error + 'k" where
  "parse_protocol_key from_seckey hex =
     (if length hex \<noteq> 64 then Inl (StartKey ''protocol_seckey must be 32 bytes of hex'')
      else case sig_pairs hex of
             Inl QuotePanic \<Rightarrow> Inl StartPanic
           | Inl (QuoteErr _) \<Rightarrow> Inl (StartKey ''protocol_seckey: bad hex'')
           | Inr sk \<Rightarrow> map_err StartKey (from_seckey sk))"

text \<open>
  The part of \<open>main\<close> that makes the running state from the file: the staleness limit is the feed's,
  in seconds. The connections it opens between these steps are input and output.
\<close>

definition oracle_start ::
  "(string \<Rightarrow> string + oracle_config) \<Rightarrow> (string \<Rightarrow> string option) \<Rightarrow> (bytes \<Rightarrow> string + 'k) \<Rightarrow> string \<Rightarrow>
     start_error + 'k oracle_state \<times> backend option" where
  "oracle_start from_toml read from_seckey path =
     bind_res (map_err StartConfig (config_load from_toml read path)) (\<lambda>cfg.
     bind_res (map_err StartSlot (oracle_slot_new (oc_cfg_slot cfg))) (\<lambda>slot.
     bind_res (parse_protocol_key from_seckey (oc_protocol_seckey cfg)) (\<lambda>kp.
     let limit = map_option (\<lambda>secs. unat secs * 10 ^ 9) (Option.bind (oc_feed cfg) fc_max_age_secs);
         s = with_name (oc_cfg_name cfg) (with_max_feed_age limit (oracle_new slot kp (Price (oc_price_usd cfg))))
     in case oc_feed cfg of
          None \<Rightarrow> Inr (s, None)
        | Some f \<Rightarrow> bind_res (map_err StartBackend (backend_from_str (fc_backend f))) (\<lambda>b. Inr (s, Some b)))))"

section \<open>The loops\<close>

datatype run_error = NodeDown nat node_error | Join string

definition NODE_DOWN_FATAL :: nat where "NODE_DOWN_FATAL = 60 * 10 ^ 9"

text \<open>Where the block loop stands: about to poll the node, past the gate, or waiting for the relay.\<close>

datatype loop_pc = PollNode | SignQuote u32 | SendQuote u32 wire_quote | Stopped run_error

text \<open>
  The daemon; \<open>dm_landing\<close> is the feed task between its two writes. The last three fields record what
  happened, for the properties: the writes of a delivered price with their instants, the polls of
  the node (with whether it answered), both latest first, and the quotes sent, each with the instant
  at which it passed the gate.
\<close>

record 'k daemon =
  dm_oracle :: "'k oracle_state"
  dm_now :: nat
  dm_failing :: bool
  dm_landing :: "price option"
  dm_node_down_since :: "nat option"
  dm_gated :: bool
  dm_pc :: loop_pc
  dm_gate_at :: nat
  dm_deliveries :: "(nat \<times> price) list"
  dm_polls :: "(nat \<times> bool) list"
  dm_sent :: "(nat \<times> wire_quote) list"

definition daemon_start :: "'k oracle_state \<Rightarrow> nat \<Rightarrow> 'k daemon" where
  "daemon_start s now =
     \<lparr>dm_oracle = s, dm_now = now, dm_failing = False, dm_landing = None, dm_node_down_since = None, dm_gated = False,
      dm_pc = PollNode, dm_gate_at = 0, dm_deliveries = [], dm_polls = [], dm_sent = []\<rparr>"

definition run_feed_step :: "feed_error + price \<Rightarrow> 'k daemon \<Rightarrow> 'k daemon" where
  "run_feed_step r d =
     (case r of
        Inr p \<Rightarrow> d\<lparr>dm_failing := False, dm_oracle := land_feed p (dm_oracle d), dm_landing := Some p,
                   dm_deliveries := (dm_now d, p) # dm_deliveries d\<rparr>
      | Inl _ \<Rightarrow> d\<lparr>dm_failing := True\<rparr>)"

definition stamp_step :: "price \<Rightarrow> 'k daemon \<Rightarrow> 'k daemon" where
  "stamp_step p d =
     d\<lparr>dm_oracle := stamp_feed (dm_now d) (dm_oracle d), dm_landing := None, dm_deliveries := (dm_now d, p) # dm_deliveries d\<rparr>"

text \<open>The first half of an iteration: the poll of the node up to the staleness gate.\<close>

definition poll_step :: "nat \<Rightarrow> string + (node_error + u32) \<Rightarrow> 'k daemon \<Rightarrow> 'k daemon" where
  "poll_step node_down_fatal answer d =
     (case answer of
        Inl e \<Rightarrow> d\<lparr>dm_pc := Stopped (Join e)\<rparr>
      | Inr (Inl e) \<Rightarrow>
          let since = (case dm_node_down_since d of None \<Rightarrow> dm_now d | Some t \<Rightarrow> t);
              d1 = d\<lparr>dm_node_down_since := Some since, dm_polls := (dm_now d, False) # dm_polls d\<rparr>
          in if node_down_fatal \<le> dm_now d - since
             then d1\<lparr>dm_pc := Stopped (NodeDown (as_secs (dm_now d - since)) e)\<rparr>
             else d1
      | Inr (Inr h) \<Rightarrow>
          let d1 = d\<lparr>dm_node_down_since := None, dm_polls := (dm_now d, True) # dm_polls d\<rparr>
          in if os_last_published (dm_oracle d) < h then
               (if \<not> publishable (dm_now d) (dm_oracle d) then d1\<lparr>dm_gated := True\<rparr>
                else d1\<lparr>dm_gated := False, dm_pc := SignQuote h, dm_gate_at := dm_now d\<rparr>)
             else d1)"

definition sign_step :: "(bytes \<Rightarrow> bytes) \<Rightarrow> ('k \<Rightarrow> bytes \<Rightarrow> bytes) \<Rightarrow> u32 \<Rightarrow> 'k daemon \<Rightarrow> 'k daemon" where
  "sign_step sha256 sign h d = d\<lparr>dm_pc := SendQuote h (quote_for sha256 sign (dm_oracle d) (BlockHeight h))\<rparr>"

definition send_step :: "transport_error + unit \<Rightarrow> u32 \<Rightarrow> wire_quote \<Rightarrow> 'k daemon \<Rightarrow> 'k daemon" where
  "send_step r h q d =
     (case r of
        Inr _ \<Rightarrow> d\<lparr>dm_oracle := (dm_oracle d)\<lparr>os_last_published := h\<rparr>, dm_pc := PollNode,
                   dm_sent := (dm_gate_at d, q) # dm_sent d\<rparr>
      | Inl _ \<Rightarrow> d\<lparr>dm_pc := PollNode\<rparr>)"

text \<open>
  One step of the daemon: time passes, a task runs, or a handler runs. The flag says whether the
  admin surface is used at all.
\<close>

inductive daemon_step ::
  "(bytes \<Rightarrow> bytes) \<Rightarrow> ('k \<Rightarrow> bytes \<Rightarrow> bytes) \<Rightarrow> (string \<Rightarrow> feed_error + price) \<Rightarrow> nat \<Rightarrow> bool \<Rightarrow>
     'k daemon \<Rightarrow> 'k daemon \<Rightarrow> bool"
  for sha256 sign parse fatal admin where
  ds_time: "daemon_step sha256 sign parse fatal admin d (d\<lparr>dm_now := dm_now d + n\<rparr>)"
| ds_feed: "dm_landing d = None \<Longrightarrow> daemon_step sha256 sign parse fatal admin d (run_feed_step (http_fetch parse r) d)"
| ds_stamp: "dm_landing d = Some p \<Longrightarrow> daemon_step sha256 sign parse fatal admin d (stamp_step p d)"
| ds_set: "admin \<Longrightarrow> daemon_step sha256 sign parse fatal admin d
     (d\<lparr>dm_oracle := snd (http_set_price (dm_now d) usd (dm_oracle d))\<rparr>)"
| ds_clear: "admin \<Longrightarrow> daemon_step sha256 sign parse fatal admin d
     (d\<lparr>dm_oracle := snd (http_clear_price (dm_now d) (dm_oracle d))\<rparr>)"
| ds_poll: "dm_pc d = PollNode \<Longrightarrow> daemon_step sha256 sign parse fatal admin d (poll_step fatal a d)"
| ds_sign: "dm_pc d = SignQuote h \<Longrightarrow> daemon_step sha256 sign parse fatal admin d (sign_step sha256 sign h d)"
| ds_send: "dm_pc d = SendQuote h q \<Longrightarrow> daemon_step sha256 sign parse fatal admin d (send_step r h q d)"

inductive daemon_run ::
  "(bytes \<Rightarrow> bytes) \<Rightarrow> ('k \<Rightarrow> bytes \<Rightarrow> bytes) \<Rightarrow> (string \<Rightarrow> feed_error + price) \<Rightarrow> nat \<Rightarrow> bool \<Rightarrow>
     'k oracle_state \<Rightarrow> 'k daemon \<Rightarrow> bool"
  for sha256 sign parse fatal admin s0 where
  dr_start: "daemon_run sha256 sign parse fatal admin s0 (daemon_start s0 now)"
| dr_step: "\<lbrakk>daemon_run sha256 sign parse fatal admin s0 d; daemon_step sha256 sign parse fatal admin d d'\<rbrakk>
     \<Longrightarrow> daemon_run sha256 sign parse fatal admin s0 d'"


inductive_cases daemon_stepE: "daemon_step sha256 sign parse fatal admin d d'"

section \<open>Sane prices\<close>

lemma round_away_between:
  assumes "1 \<le> x" "x < 100000000"
  shows "1 \<le> round_away x" "round_away x \<le> 100000000"
  using assms by (simp_all add: round_away_def le_floor_iff floor_le_iff)

lemma sane_range: "sane b raw = Inr p \<Longrightarrow> 1 \<le> unat (price_raw p) \<and> unat (price_raw p) \<le> 100000000"
proof (cases raw)
  case (Finite x)
  moreover assume "sane b raw = Inr p"
  ultimately have x: "1 \<le> x" "x < 100000000" and p: "price_raw p = round_as_word raw"
    by (auto simp: sane_def MAX_SANE_PRICE_def split: if_splits)
  note r = round_away_between[OF x]
  then have "unat (price_raw p) = nat (round_away x)"
    by (simp add: p Finite Let_def unsigned_of_int take_bit_int_eq_self)
  with r show ?thesis by linarith
qed (auto simp: sane_def)

lemma parse_price_range:
  "parse_price from_json parse_f64 b body = Inr p \<Longrightarrow> 1 \<le> unat (price_raw p) \<and> unat (price_raw p) \<le> 100000000"
  by (auto simp: parse_price_def res_Inr dest: sane_range)

lemma backend_name_roundtrip: "backend_from_str (backend_name b) = Inr b"
  by (cases b) (simp_all add: backend_from_str_def)

section \<open>The daemon invariant\<close>

text \<open>The contract of a price backend: what it delivers is never zero.\<close>

definition own_quote ::
  "(bytes \<Rightarrow> bytes) \<Rightarrow> ('k \<Rightarrow> bytes \<Rightarrow> bytes) \<Rightarrow> 'k oracle_state \<Rightarrow> wire_quote \<Rightarrow> bool" where
  "own_quote sha256 sign s q \<longleftrightarrow> (\<exists>p. p \<noteq> Price 0 \<and>
     q = (wq_sign sha256 sign (os_keypair s) (os_slot s)
        \<lparr>tp_height = BlockHeight (wq_height q), tp_price = p, tp_backing_k = K_PAR\<rparr>)\<lparr>wq_name := os_name s\<rparr>)"

definition same_identity :: "'k oracle_state \<Rightarrow> 'k oracle_state \<Rightarrow> bool" where
  "same_identity s s' \<longleftrightarrow> os_slot s' = os_slot s \<and> os_keypair s' = os_keypair s \<and> os_name s' = os_name s \<and>
     os_max_feed_age s' = os_max_feed_age s"

fun pc_ok :: "(bytes \<Rightarrow> bytes) \<Rightarrow> ('k \<Rightarrow> bytes \<Rightarrow> bytes) \<Rightarrow> 'k oracle_state \<Rightarrow> u32 \<Rightarrow> loop_pc \<Rightarrow> bool" where
  "pc_ok sha256 sign s0 last_h (SignQuote h) = (last_h < h)"
| "pc_ok sha256 sign s0 last_h (SendQuote h q) = (last_h < h \<and> wq_height q = h \<and> own_quote sha256 sign s0 q)"
| "pc_ok sha256 sign s0 last_h _ = True"

definition daemon_ok :: "(bytes \<Rightarrow> bytes) \<Rightarrow> ('k \<Rightarrow> bytes \<Rightarrow> bytes) \<Rightarrow> 'k oracle_state \<Rightarrow> 'k daemon \<Rightarrow> bool" where
  "daemon_ok sha256 sign s0 d \<longleftrightarrow>
     same_identity s0 (dm_oracle d) \<and> os_feed (dm_oracle d) \<noteq> Price 0 \<and>
     os_override_price (dm_oracle d) \<noteq> Some (Price 0) \<and> pc_ok sha256 sign s0 (os_last_published (dm_oracle d)) (dm_pc d) \<and>
     sorted_wrt (>) (map (wq_height \<circ> snd) (dm_sent d)) \<and>
     (\<forall>(t, q) \<in> set (dm_sent d). own_quote sha256 sign s0 q \<and> wq_height q \<le> os_last_published (dm_oracle d))"

lemmas state_defs = land_feed_def stamp_feed_def set_override_def clear_override_def same_identity_def Let_def

lemma daemon_ok_oracle:
  assumes "daemon_ok sha256 sign s0 d" "same_identity (dm_oracle d) s" "os_feed s \<noteq> Price 0"
    "os_override_price s \<noteq> Some (Price 0)" "os_last_published s = os_last_published (dm_oracle d)"
  shows "daemon_ok sha256 sign s0 (d\<lparr>dm_oracle := s\<rparr>)"
  using assms unfolding daemon_ok_def same_identity_def by auto

lemma effective_nonzero: "daemon_ok sha256 sign s0 d \<Longrightarrow> effective_price (dm_oracle d) \<noteq> Price 0"
  by (auto simp: daemon_ok_def effective_price_def split: option.splits)

lemma quote_for_own:
  "daemon_ok sha256 sign s0 d \<Longrightarrow> own_quote sha256 sign s0 (quote_for sha256 sign (dm_oracle d) h)"
  using effective_nonzero[of sha256 sign s0 d]
  by (cases h) (auto simp: daemon_ok_def own_quote_def quote_for_def same_identity_def wq_sign_def Let_def)

lemma quote_for_height: "wq_height (quote_for sha256 sign s (BlockHeight h)) = h"
  by (simp add: quote_for_def wq_sign_def Let_def)

lemma daemon_ok_log:
  "daemon_ok sha256 sign s0 (d\<lparr>dm_failing := f, dm_deliveries := xs\<rparr>) \<longleftrightarrow> daemon_ok sha256 sign s0 d"
  "daemon_ok sha256 sign s0 (d\<lparr>dm_landing := l, dm_deliveries := xs\<rparr>) \<longleftrightarrow> daemon_ok sha256 sign s0 d"
  "daemon_ok sha256 sign s0 (d\<lparr>dm_failing := f\<rparr>) \<longleftrightarrow> daemon_ok sha256 sign s0 d"
  "daemon_ok sha256 sign s0 (d\<lparr>dm_now := n\<rparr>) \<longleftrightarrow> daemon_ok sha256 sign s0 d"
  by (simp_all add: daemon_ok_def)

lemma poll_step_ok: "\<lbrakk>daemon_ok sha256 sign s0 d; dm_pc d = PollNode\<rbrakk> \<Longrightarrow> daemon_ok sha256 sign s0 (poll_step fatal a d)"
  by (auto simp: poll_step_def daemon_ok_def Let_def split: sum.splits)

lemma sign_step_ok: "\<lbrakk>daemon_ok sha256 sign s0 d; dm_pc d = SignQuote h\<rbrakk> \<Longrightarrow> daemon_ok sha256 sign s0 (sign_step sha256 sign h d)"
  using quote_for_own[of sha256 sign s0 d "BlockHeight h"]
  by (simp add: sign_step_def daemon_ok_def quote_for_height)

lemma send_step_ok: "\<lbrakk>daemon_ok sha256 sign s0 d; dm_pc d = SendQuote h q\<rbrakk> \<Longrightarrow> daemon_ok sha256 sign s0 (send_step r h q d)"
  by (fastforce simp: send_step_def daemon_ok_def same_identity_def split: sum.splits)

lemma start_ok:
  "\<lbrakk>os_feed s0 \<noteq> Price 0; os_override_price s0 = None\<rbrakk> \<Longrightarrow> daemon_ok sha256 sign s0 (daemon_start s0 now)"
  by (simp add: daemon_start_def daemon_ok_def same_identity_def)

lemma stamp_step_ok: "daemon_ok sha256 sign s0 d \<Longrightarrow> daemon_ok sha256 sign s0 (stamp_step p d)"
  by (auto simp: stamp_step_def daemon_ok_def state_defs)

locale price_source =
  fixes fetch :: "string \<Rightarrow> feed_error + price"
  assumes fetch_nonzero: "fetch body = Inr p \<Longrightarrow> p \<noteq> Price 0"
begin

lemma feed_step_ok:
  assumes "daemon_ok sha256 sign s0 d"
  shows "daemon_ok sha256 sign s0 (run_feed_step (http_fetch fetch r) d)"
proof (cases "http_fetch fetch r")
  case (Inr p)
  then have "p \<noteq> Price 0" by (auto simp: http_fetch_def res_Inr dest: fetch_nonzero)
  then have "daemon_ok sha256 sign s0 (d\<lparr>dm_oracle := land_feed p (dm_oracle d)\<rparr>)"
    using assms by (intro daemon_ok_oracle) (auto simp: state_defs daemon_ok_def)
  then show ?thesis using Inr by (simp add: run_feed_step_def daemon_ok_def)
qed (use assms in \<open>simp add: run_feed_step_def daemon_ok_log\<close>)

lemma step_ok:
  assumes "daemon_step sha256 sign fetch fatal admin d d'" "daemon_ok sha256 sign s0 d"
  shows "daemon_ok sha256 sign s0 d'"
  using assms(1)
proof cases
  case (ds_time n)
  with assms(2) show ?thesis by (simp add: daemon_ok_log)
next
  case (ds_feed r)
  with feed_step_ok[OF assms(2)] show ?thesis by simp
next
  case (ds_stamp p)
  then show ?thesis using assms(2) stamp_step_ok by simp
next
  case (ds_set usd)
  then show ?thesis
    using assms(2) by (auto intro!: daemon_ok_oracle simp: http_set_price_def state_defs daemon_ok_def)
next
  case ds_clear
  then show ?thesis
    using assms(2) by (auto intro!: daemon_ok_oracle simp: http_clear_price_def state_defs daemon_ok_def)
qed (use assms(2) poll_step_ok sign_step_ok send_step_ok in auto)

lemma run_ok:
  assumes "daemon_run sha256 sign fetch fatal admin s0 d" "os_feed s0 \<noteq> Price 0" "os_override_price s0 = None"
  shows "daemon_ok sha256 sign s0 d"
  using assms
  by (induction rule: daemon_run.induct) (auto intro: step_ok start_ok)

end

interpretation exchange: price_source "parse_price from_json parse_f64 b"
  by unfold_locales (use parse_price_range in fastforce)

lemma oracle_start_state:
  assumes "oracle_start from_toml read from_seckey path = Inr (s, b)"
  shows "os_feed s \<noteq> Price 0" "os_override_price s = None" "slot_ok (os_slot s)" "os_feed_updated s = None"
  using assms
  by (auto simp: oracle_start_def res_Inr Let_def with_name_def with_max_feed_age_def oracle_new_def config_load_def
      config_parse_def split: option.splits)
     (auto dest!: slot_ok_new)


section \<open>Quotes on the wire\<close>

lemma book_insert_name: "book_insert sha256 S B (q\<lparr>wq_name := n\<rparr>) tip = book_insert sha256 S B q tip"
proof -
  have "wq_payload (q\<lparr>wq_name := n\<rparr>) = wq_payload q" "sig_bytes (q\<lparr>wq_name := n\<rparr>) = sig_bytes q"
    by (simp_all add: sig_bytes_def wq_payload_def)
  then show ?thesis unfolding book_insert_def by (simp cong: sum.case_cong if_cong)
qed

lemma own_quote_fields:
  assumes "own_quote sha256 sign s q"
  shows "wq_price q \<noteq> 0" "wq_slot q = slot_byte (os_slot s)" "wq_backing_k q = ratio_raw K_PAR"
proof -
  obtain p where p: "p \<noteq> Price 0"
    and q: "q = (wq_sign sha256 sign (os_keypair s) (os_slot s)
        \<lparr>tp_height = BlockHeight (wq_height q), tp_price = p, tp_backing_k = K_PAR\<rparr>)\<lparr>wq_name := os_name s\<rparr>"
    using assms by (auto simp: own_quote_def)
  have "wq_price q = price_raw p" "wq_slot q = of_nat (slot_index (os_slot s))" "wq_backing_k q = ratio_raw K_PAR"
    by (subst q; simp add: wq_sign_def Let_def)+
  with p show "wq_price q \<noteq> 0" "wq_slot q = slot_byte (os_slot s)" "wq_backing_k q = ratio_raw K_PAR"
    by (cases p; simp add: slot_index_def)+
qed

text \<open>A book into which the oracle's key is configured accepts every quote of its own inside the window.\<close>

definition in_window :: "quote_book \<Rightarrow> block_height \<Rightarrow> wire_quote \<Rightarrow> bool" where
  "in_window B tip q \<longleftrightarrow> sat_sub (height_raw tip) (qb_horizon B) \<le> wq_height q \<and>
     wq_height q \<le> sat_add (height_raw tip) (qb_drift B)"

lemma own_quote_accepted:
  assumes own: "own_quote sha256 sign s q" and slot: "slot_ok (os_slot s)"
    and sig: "\<And>dg. pv_verify S (sign (os_keypair s) dg) dg (qb_oracle_pks B ! slot_index (os_slot s))"
      "\<And>dg. pv_sig_ok S (sign (os_keypair s) dg)" "\<And>dg. length (sign (os_keypair s) dg) = 64"
    and B: "book_ok sha256 S B" "in_window B tip q"
  shows "\<exists>B' sq. book_insert sha256 S B q tip = Inr B' \<and> book_ok sha256 S B' \<and>
    book_slots B' (wq_height q) ! slot_index (os_slot s) = Some (K_PAR, sq) \<and> sq_price sq = Price (wq_price q)"
proof -
  obtain p where p: "p \<noteq> Price 0"
    and q: "q = (wq_sign sha256 sign (os_keypair s) (os_slot s)
        \<lparr>tp_height = BlockHeight (wq_height q), tp_price = p, tp_backing_k = K_PAR\<rparr>)\<lparr>wq_name := os_name s\<rparr>"
    using own by (auto simp: own_quote_def)
  let ?p = "\<lparr>tp_height = BlockHeight (wq_height q), tp_price = p, tp_backing_k = K_PAR\<rparr>"
  let ?w = "wq_sign sha256 sign (os_keypair s) (os_slot s) ?p"
  have price: "Price (wq_price q) = p" by (subst q; simp add: wq_sign_def Let_def)
  have "\<exists>B'. book_insert sha256 S B ?w tip = Inr B' \<and>
    book_slots B' (height_raw (tp_height ?p)) ! slot_index (os_slot s) = Some (tp_backing_k ?p, sign_quote sha256 sign (os_keypair s) ?p) \<and>
    book_ok sha256 S B'"
    by (rule wq_sign_accepted[where S = S and sign = sign and kp = "os_keypair s", OF slot _ sig])
       (use p B in \<open>simp_all add: in_window_def\<close>)
  then obtain B' where "book_insert sha256 S B ?w tip = Inr B'" "book_ok sha256 S B'"
    "book_slots B' (wq_height q) ! slot_index (os_slot s) = Some (K_PAR, sign_quote sha256 sign (os_keypair s) ?p)"
    by auto
  moreover have "book_insert sha256 S B q tip = book_insert sha256 S B ?w tip"
    by (subst q) (rule book_insert_name)
  ultimately show ?thesis by (auto simp: sign_quote_def price)
qed

section \<open>The staleness gate\<close>

text \<open>What holds while nobody uses the admin surface.\<close>

definition fresh_at :: "nat option \<Rightarrow> 'k daemon \<Rightarrow> price \<Rightarrow> nat \<Rightarrow> bool" where
  "fresh_at limit d p t \<longleftrightarrow> (\<forall>l. limit = Some l \<longrightarrow> (\<exists>t'. (t', p) \<in> set (dm_deliveries d) \<and> t - t' \<le> l))"

definition gate_ok :: "nat option \<Rightarrow> 'k daemon \<Rightarrow> bool" where
  "gate_ok limit d \<longleftrightarrow>
     os_override_price (dm_oracle d) = None \<and> os_max_feed_age (dm_oracle d) = limit \<and> dm_gate_at d \<le> dm_now d \<and>
     (\<forall>p. dm_landing d = Some p \<longrightarrow> os_feed (dm_oracle d) = p) \<and>
     (\<forall>t. os_feed_updated (dm_oracle d) = Some t \<longrightarrow> t \<le> dm_now d \<and>
        (\<exists>t' \<ge> t. (t', os_feed (dm_oracle d)) \<in> set (dm_deliveries d))) \<and>
     (case dm_pc d of
        SignQuote h \<Rightarrow> fresh_at limit d (os_feed (dm_oracle d)) (dm_gate_at d)
      | SendQuote h q \<Rightarrow> fresh_at limit d (Price (wq_price q)) (dm_gate_at d)
      | _ \<Rightarrow> True) \<and>
     (\<forall>(t, q) \<in> set (dm_sent d). fresh_at limit d (Price (wq_price q)) t)"

lemma fresh_at_deliver: "fresh_at limit d p t \<Longrightarrow> set (dm_deliveries d) \<subseteq> set (dm_deliveries d') \<Longrightarrow> fresh_at limit d' p t"
  by (fastforce simp: fresh_at_def)

lemma quote_for_price: "wq_price (quote_for sha256 sign s h) = price_raw (effective_price s)"
  by (simp add: quote_for_def wq_sign_def Let_def)

lemma gate_step:
  assumes "daemon_step sha256 sign parse fatal False d d'" "gate_ok limit d"
  shows "gate_ok limit d'"
  using assms(1)
proof cases
  case (ds_feed r)
  show ?thesis
  proof (cases "http_fetch parse r")
    case (Inr p)
    let ?d = "run_feed_step (Inr p) d"
    have sub: "set (dm_deliveries d) \<subseteq> set (dm_deliveries ?d)" by (auto simp: run_feed_step_def)
    have new: "fresh_at limit ?d p (dm_gate_at d)"
      using assms(2) by (auto simp: gate_ok_def fresh_at_def run_feed_step_def intro!: exI[of _ "dm_now d"])
    have pc: "case dm_pc ?d of SignQuote h \<Rightarrow> fresh_at limit ?d (os_feed (dm_oracle ?d)) (dm_gate_at ?d)
        | SendQuote h q \<Rightarrow> fresh_at limit ?d (Price (wq_price q)) (dm_gate_at ?d) | _ \<Rightarrow> True"
      using assms(2) new fresh_at_deliver[OF _ sub]
      by (auto simp: gate_ok_def run_feed_step_def land_feed_def split: loop_pc.splits)
    have sent: "\<forall>(t, q) \<in> set (dm_sent ?d). fresh_at limit ?d (Price (wq_price q)) t"
      using assms(2) fresh_at_deliver[OF _ sub] by (auto simp: gate_ok_def run_feed_step_def)
    have "gate_ok limit ?d"
      unfolding gate_ok_def using assms(2) pc sent
      by (auto simp: gate_ok_def run_feed_step_def land_feed_def)
    with ds_feed Inr show ?thesis by simp
  qed (use assms(2) ds_feed in \<open>auto simp: run_feed_step_def gate_ok_def fresh_at_def split: loop_pc.splits\<close>)
next
  case (ds_stamp p)
  have "set (dm_deliveries d) \<subseteq> set (dm_deliveries (stamp_step p d))" by (auto simp: stamp_step_def)
  from fresh_at_deliver[OF _ this] assms(2) ds_stamp show ?thesis
    by (auto simp: gate_ok_def stamp_step_def stamp_feed_def split: loop_pc.splits)
next
  case (ds_poll a)
  have new: "fresh_at limit d (os_feed (dm_oracle d)) (dm_now d)" if "publishable (dm_now d) (dm_oracle d)"
    using assms(2) that by (fastforce simp: gate_ok_def fresh_at_def publishable_def split: option.splits)
  with assms(2) ds_poll show ?thesis
    by (auto simp: poll_step_def gate_ok_def fresh_at_def Let_def split: sum.splits)
next
  case (ds_sign h)
  with assms(2) show ?thesis
    by (auto simp: sign_step_def gate_ok_def fresh_at_def quote_for_price effective_price_def)
next
  case (ds_send h q r)
  with assms(2) show ?thesis
    by (auto simp: send_step_def gate_ok_def fresh_at_def split: sum.splits)
qed (use assms(2) in \<open>auto simp: gate_ok_def fresh_at_def split: loop_pc.splits\<close>)

lemma gate_start:
  "\<lbrakk>os_override_price s0 = None; os_feed_updated s0 = None\<rbrakk> \<Longrightarrow> gate_ok (os_max_feed_age s0) (daemon_start s0 now)"
  by (simp add: daemon_start_def gate_ok_def)

lemma gate_run:
  "\<lbrakk>daemon_run sha256 sign parse fatal False s0 d; os_override_price s0 = None; os_feed_updated s0 = None\<rbrakk> \<Longrightarrow>
     gate_ok (os_max_feed_age s0) d"
  by (induction rule: daemon_run.induct) (auto intro: gate_step gate_start)


section \<open>Giving up on the node\<close>

text \<open>The polls since the node last answered: all failed, from the recorded instant on.\<close>

definition outage :: "(nat \<times> bool) list \<Rightarrow> nat option \<Rightarrow> bool" where
  "outage polls since \<longleftrightarrow> (\<exists>fs rest. polls = fs @ rest \<and> (\<forall>p \<in> set fs. \<not> snd p) \<and>
     (rest = [] \<or> snd (hd rest)) \<and> (case since of None \<Rightarrow> fs = [] | Some t \<Rightarrow> fs \<noteq> [] \<and> fst (last fs) = t))"

lemma outage_ok: "outage ((now, True) # polls) None"
  by (auto simp: outage_def intro!: exI[of _ "[]"])

lemma outage_fail: "outage polls since \<Longrightarrow> outage ((now, False) # polls) (Some (case since of None \<Rightarrow> now | Some t \<Rightarrow> t))"
  unfolding outage_def
  apply (elim exE)
  subgoal for fs rest
    by (rule exI[of _ "(now, False) # fs"], rule exI[of _ rest]) (auto split: option.splits)
  done

definition down_ok :: "nat \<Rightarrow> 'k daemon \<Rightarrow> bool" where
  "down_ok fatal d \<longleftrightarrow> outage (dm_polls d) (dm_node_down_since d) \<and>
     (\<forall>secs e. dm_pc d = Stopped (NodeDown secs e) \<longrightarrow>
        (\<exists>since. dm_node_down_since d = Some since \<and> dm_polls d \<noteq> [] \<and>
           fatal \<le> fst (hd (dm_polls d)) - since \<and> secs = as_secs (fst (hd (dm_polls d)) - since)))"

lemma down_step: "\<lbrakk>daemon_step sha256 sign parse fatal admin d d'; down_ok fatal d\<rbrakk> \<Longrightarrow> down_ok fatal d'"
proof (induction rule: daemon_step.induct)
  case (ds_poll d a)
  then show ?case
    using outage_fail[of "dm_polls d" "dm_node_down_since d" "dm_now d"]
    by (auto simp: poll_step_def down_ok_def Let_def outage_ok split: sum.splits)
qed (auto simp: down_ok_def run_feed_step_def stamp_step_def sign_step_def send_step_def split: sum.splits)

lemma down_start: "down_ok fatal (daemon_start s0 now)"
  by (simp add: daemon_start_def down_ok_def outage_def)

lemma down_run: "daemon_run sha256 sign parse fatal admin s0 d \<Longrightarrow> down_ok fatal d"
  by (induction rule: daemon_run.induct) (auto intro: down_step down_start)

section \<open>Samples\<close>

definition sample_cfg :: oracle_config where
  "sample_cfg = \<lparr>oc_cfg_slot = 2, oc_cfg_name = [], oc_protocol_seckey = hex_str (replicate 32 1), oc_nostr_seckey = [],
     oc_relays = [], oc_rpc_url = [], oc_rpc_user = None, oc_rpc_password = None, oc_rpc_cookie = None, oc_listen = [],
     oc_price_usd = 7, oc_poll_ms = 500,
     oc_feed = Some \<lparr>fc_backend = ''kraken'', fc_url = None, fc_poll_ms = 5000, fc_max_age_secs = Some 60\<rparr>\<rparr>"

definition sample_oracle :: "bytes oracle_state" where
  "sample_oracle = (oracle_new (OracleSlot 2) (replicate 32 1) (Price 7))\<lparr>os_max_feed_age := Some (60 * 10 ^ 9)\<rparr>"

definition sample_sign :: "bytes \<Rightarrow> bytes \<Rightarrow> bytes" where
  "sample_sign k d = replicate 64 0"

lemma sample_start:
  "oracle_start (\<lambda>_. Inr sample_cfg) (\<lambda>_. Some []) Inr [] = Inr (sample_oracle, Some Kraken)"
  by (simp add: oracle_start_def config_load_def config_parse_def bind_res_def map_err_def refuse_if_def sample_cfg_def
      oracle_slot_new_def parse_protocol_key_def hex_str_length sig_pairs_hex Let_def with_name_def with_max_feed_age_def
      oracle_new_def sample_oracle_def backend_from_str_def)

text \<open>A daemon that got a price at instant 5, polled height 100 and published it.\<close>

definition sample_body :: json where
  "sample_body = JObject [(''result'', JObject [(''XXBTZUSD'', JObject [(''c'', JArray [JString ''x''])])])]"

definition sample_parse :: "string \<Rightarrow> feed_error + price" where
  "sample_parse = parse_price (\<lambda>_. Inr sample_body) (\<lambda>_. Some (Finite 9)) Kraken"

lemma sample_parse_value: "sample_parse body = Inr (Price 9)"
proof -
  have "round_away 9 = 9" by (rule round_away_near) simp_all
  then show ?thesis
    by (simp add: sample_parse_def parse_price_def sample_body_def bind_res_def map_err_def str_price_def sane_def
        MAX_SANE_PRICE_def)
qed

definition sample_fed :: "bytes daemon" where
  "sample_fed = stamp_step (Price 9) (run_feed_step (Inr (Price 9)) (daemon_start sample_oracle 5))"

definition sample_sent :: "bytes daemon" where
  "sample_sent = (let q = quote_for (\<lambda>bs. bs) sample_sign (dm_oracle sample_fed) (BlockHeight 100)
     in send_step (Inr ()) 100 q (sign_step (\<lambda>bs. bs) sample_sign 100 (poll_step NODE_DOWN_FATAL (Inr (Inr 100)) sample_fed)))"

lemma sample_gate: "publishable 5 (dm_oracle sample_fed)" "dm_now sample_fed = 5" "os_last_published (dm_oracle sample_fed) = 0"
  "dm_pc sample_fed = PollNode"
  by (simp_all add: sample_fed_def run_feed_step_def daemon_start_def publishable_def stamp_step_def stamp_feed_def land_feed_def sample_oracle_def oracle_new_def)

lemma sample_polled:
  "dm_pc (poll_step NODE_DOWN_FATAL (Inr (Inr 100)) sample_fed) = SignQuote 100"
  "dm_oracle (poll_step NODE_DOWN_FATAL (Inr (Inr 100)) sample_fed) = dm_oracle sample_fed"
  by (simp_all add: poll_step_def Let_def sample_gate)

lemma sample_daemon_run: "daemon_run (\<lambda>bs. bs) sample_sign sample_parse NODE_DOWN_FATAL admin sample_oracle sample_sent"
proof -
  let ?step = "daemon_step (\<lambda>bs. bs) sample_sign sample_parse NODE_DOWN_FATAL admin"
  let ?polled = "poll_step NODE_DOWN_FATAL (Inr (Inr 100)) sample_fed"
  let ?q = "quote_for (\<lambda>bs. bs) sample_sign (dm_oracle sample_fed) (BlockHeight 100)"
  have fetch: "http_fetch sample_parse (Inr []) = Inr (Price 9)"
    by (simp add: http_fetch_def bind_res_def map_err_def sample_parse_value)
  let ?landed = "run_feed_step (Inr (Price 9)) (daemon_start sample_oracle 5)"
  have "?step (daemon_start sample_oracle 5) ?landed"
    using ds_feed[of "daemon_start sample_oracle 5" "\<lambda>bs. bs" sample_sign sample_parse NODE_DOWN_FATAL admin "Inr []"]
    by (simp add: fetch) (simp add: daemon_start_def)
  note r0 = dr_step[OF dr_start this]
  have "?step ?landed sample_fed"
    unfolding sample_fed_def by (rule ds_stamp) (simp add: run_feed_step_def)
  note r1 = dr_step[OF r0 this]
  note r2 = dr_step[OF r1 ds_poll[OF sample_gate(4), of _ _ _ _ _ "Inr (Inr 100)"]]
  note r3 = dr_step[OF r2 ds_sign[OF sample_polled(1)]]
  have "dm_pc (sign_step (\<lambda>bs. bs) sample_sign 100 ?polled) = SendQuote 100 ?q"
    by (simp add: sign_step_def sample_polled)
  from dr_step[OF r3 ds_send[OF this, of _ _ _ _ _ "Inr ()"]] show ?thesis by (simp add: sample_sent_def Let_def)
qed

lemma sample_sent_log:
  "dm_sent sample_sent = [(5, quote_for (\<lambda>bs. bs) sample_sign (dm_oracle sample_fed) (BlockHeight 100))]"
  by (simp add: sample_sent_def Let_def send_step_def sign_step_def poll_step_def sample_gate)
     (simp add: sample_fed_def stamp_step_def run_feed_step_def daemon_start_def)


section \<open>Properties\<close>

text \<open>
  C25 (oracle_service_safe): whatever the exchange, the node, the relay and the admin do, and in
  whatever order the tasks of a daemon started from a valid configuration run, the heights of the
  quotes it publishes strictly increase, every quote carries a non-zero price, par backing and the
  daemon's own slot, and every consumer that has the daemon's key under that slot accepts the quote
  inside its window and stores exactly the published price.
\<close>

theorem oracle_service_safe:
  assumes start: "oracle_start from_toml read from_seckey path = Inr (s0, b)"
    and run: "daemon_run sha256 sign (parse_price from_json parse_f64 be) fatal admin s0 d"
    and sig: "\<And>dg. pv_verify S (sign (os_keypair s0) dg) dg pk" "\<And>dg. pv_sig_ok S (sign (os_keypair s0) dg)"
      "\<And>dg. length (sign (os_keypair s0) dg) = 64"
  shows "sorted_wrt (>) (map (wq_height \<circ> snd) (dm_sent d)) \<and>
    (\<forall>(t, q) \<in> set (dm_sent d). wq_price q \<noteq> 0 \<and> wq_slot q = slot_byte (os_slot s0) \<and>
       wq_backing_k q = ratio_raw K_PAR \<and>
       (\<forall>B tip. book_ok sha256 S B \<and> qb_oracle_pks B ! slot_index (os_slot s0) = pk \<and> in_window B tip q \<longrightarrow>
          (\<exists>B' sq. book_insert sha256 S B q tip = Inr B' \<and>
             book_slots B' (wq_height q) ! slot_index (os_slot s0) = Some (K_PAR, sq) \<and> sq_price sq = Price (wq_price q))))"
proof -
  note init = oracle_start_state[OF start]
  have ok: "daemon_ok sha256 sign s0 d" by (rule exchange.run_ok[OF run init(1,2)])
  have acc: "\<exists>B' sq. book_insert sha256 S B q tip = Inr B' \<and>
      book_slots B' (wq_height q) ! slot_index (os_slot s0) = Some (K_PAR, sq) \<and> sq_price sq = Price (wq_price q)"
    if "own_quote sha256 sign s0 q" "book_ok sha256 S B" "qb_oracle_pks B ! slot_index (os_slot s0) = pk" "in_window B tip q" for q B tip
    using own_quote_accepted[where S = S and sign = sign, OF that(1) init(3) _ sig(2,3) that(2,4)] sig(1) that(3) by auto
  from ok show ?thesis using own_quote_fields acc unfolding daemon_ok_def by fast
qed

theorem oracle_service_safe_witness:
  "\<exists>q B' sq. dm_sent sample_sent = [(5, q)] \<and> wq_price q = 9 \<and>
     book_insert (\<lambda>bs. bs) sample_prover (book_new [1, 2, 3, 4, 5]) q (BlockHeight 100) = Inr B' \<and>
     book_slots B' 100 ! 2 = Some (K_PAR, sq) \<and> sq_price sq = Price 9"
proof -
  let ?q = "quote_for (\<lambda>bs. bs) sample_sign (dm_oracle sample_fed) (BlockHeight 100)"
  let ?B = "book_new [1, 2, 3, 4, 5]"
  have q: "wq_height ?q = 100" "wq_price ?q = 9"
    by (simp_all add: quote_for_height quote_for_price sample_fed_def run_feed_step_def daemon_start_def effective_price_def
        stamp_step_def stamp_feed_def land_feed_def sample_oracle_def oracle_new_def)
  have slot: "slot_index (os_slot sample_oracle) = 2" by (simp add: sample_oracle_def oracle_new_def slot_index_def)
  have sig: "pv_verify sample_prover (sample_sign (os_keypair sample_oracle) dg) dg 3"
    "pv_sig_ok sample_prover (sample_sign (os_keypair sample_oracle) dg)" "length (sample_sign (os_keypair sample_oracle) dg) = 64" for dg
    by (simp_all add: sample_sign_def sample_prover_def)
  have B: "book_ok (\<lambda>bs. bs) sample_prover ?B" "qb_oracle_pks ?B ! 2 = 3" "in_window ?B (BlockHeight 100) ?q"
    using book_new_ok[of "\<lambda>bs. bs" sample_prover "[1, 2, 3, 4, 5]" DEFAULT_HORIZON DEFAULT_DRIFT] q
    by (simp_all add: book_new_def book_with_window_def in_window_def DEFAULT_HORIZON_def DEFAULT_DRIFT_def sat_sub_def sat_add_def)
  from oracle_service_safe[where S = sample_prover and sign = sample_sign and pk = 3, OF sample_start
      sample_daemon_run[unfolded sample_parse_def, of True] sig] B q
  show ?thesis by (simp add: sample_sent_log slot)
qed

text \<open>
  With the staleness gate armed and the admin surface unused, every quote
  the daemon publishes carries a price that its backend delivered, and delivered no longer before
  the quote passed the gate than the limit allows: silence, never a frozen price.
\<close>

lemma stale_feed_silent:
  assumes "oracle_start from_toml read from_seckey path = Inr (s0, b)"
    "daemon_run sha256 sign parse fatal False s0 d" "os_max_feed_age s0 = Some limit" "(t, q) \<in> set (dm_sent d)"
  shows "\<exists>t' p. (t', p) \<in> set (dm_deliveries d) \<and> wq_price q = price_raw p \<and> t - t' \<le> limit"
proof -
  have "gate_ok (os_max_feed_age s0) d" using gate_run[OF assms(2)] oracle_start_state[OF assms(1)] by blast
  with assms(3,4) have "fresh_at (Some limit) d (Price (wq_price q)) t" by (auto simp: gate_ok_def)
  then obtain t' where "(t', Price (wq_price q)) \<in> set (dm_deliveries d)" "t - t' \<le> limit" by (auto simp: fresh_at_def)
  then show ?thesis by (intro exI[of _ t'] exI[of _ "Price (wq_price q)"]) simp
qed

lemma stale_feed_silent_sample:
  "\<exists>q t' p. dm_sent sample_sent = [(5, q)] \<and> (t', p) \<in> set (dm_deliveries sample_sent) \<and> wq_price q = price_raw p \<and>
     5 - t' \<le> (60 * 10 ^ 9 :: nat)"
proof -
  have lim: "os_max_feed_age sample_oracle = Some (60 * 10 ^ 9)" by (simp add: sample_oracle_def)
  from stale_feed_silent[OF sample_start sample_daemon_run lim, of 5 "quote_for (\<lambda>bs. bs) sample_sign (dm_oracle sample_fed) (BlockHeight 100)"]
  show ?thesis by (auto simp: sample_sent_log)
qed

text \<open>
  The fallback channel does not know the gate. While the daemon
  withholds its quotes because the feed is stale, the \<open>/quote\<close> handler still signs the frozen price
  under any height asked for, and a consumer accepts what it signed.
\<close>

lemma quote_endpoint_ungated:
  assumes "\<not> publishable now s" "os_feed s \<noteq> Price 0" "slot_ok (os_slot s)"
    "\<And>dg. pv_verify S (sign (os_keypair s) dg) dg (qb_oracle_pks B ! slot_index (os_slot s))"
    "\<And>dg. pv_sig_ok S (sign (os_keypair s) dg)" "\<And>dg. length (sign (os_keypair s) dg) = 64"
    "book_ok sha256 S B" "in_window B tip (http_quote sha256 sign s h)"
  shows "\<exists>B' sq. book_insert sha256 S B (http_quote sha256 sign s h) tip = Inr B' \<and>
    book_slots B' h ! slot_index (os_slot s) = Some (K_PAR, sq) \<and> sq_price sq = os_feed s"
proof -
  have eff: "effective_price s = os_feed s"
    using assms(1) by (auto simp: publishable_def effective_price_def split: option.splits if_splits)
  have h: "wq_height (http_quote sha256 sign s h) = h" "Price (wq_price (http_quote sha256 sign s h)) = os_feed s"
    by (simp_all add: http_quote_def quote_for_height quote_for_price eff)
  have own: "own_quote sha256 sign s (http_quote sha256 sign s h)"
    using assms(2) h(1) eff by (auto simp: own_quote_def http_quote_def quote_for_def)
  from own_quote_accepted[where S = S and sign = sign, OF own assms(3-8)] show ?thesis unfolding h by blast
qed

lemma quote_endpoint_ungated_sample:
  "\<not> publishable 0 sample_oracle \<and>
   (\<exists>B' sq. book_insert (\<lambda>bs. bs) sample_prover (book_new [1, 2, 3, 4, 5])
      (http_quote (\<lambda>bs. bs) sample_sign sample_oracle 100) (BlockHeight 100) = Inr B' \<and>
      book_slots B' 100 ! 2 = Some (K_PAR, sq) \<and> sq_price sq = Price 7)"
proof -
  let ?B = "book_new [1, 2, 3, 4, 5]"
  have o: "\<not> publishable 0 sample_oracle" "os_feed sample_oracle = Price 7" "slot_index (os_slot sample_oracle) = 2"
    "slot_ok (os_slot sample_oracle)"
    by (simp_all add: sample_oracle_def oracle_new_def slot_index_def slot_ok_def publishable_def)
  have "pv_verify sample_prover (sample_sign (os_keypair sample_oracle) dg) dg (qb_oracle_pks ?B ! slot_index (os_slot sample_oracle))"
    "pv_sig_ok sample_prover (sample_sign (os_keypair sample_oracle) dg)" "length (sample_sign (os_keypair sample_oracle) dg) = 64" for dg
    by (simp_all add: sample_sign_def sample_prover_def)
  moreover have "book_ok (\<lambda>bs. bs) sample_prover ?B" unfolding book_new_def by (rule book_new_ok)
  moreover have "in_window ?B (BlockHeight 100) (http_quote (\<lambda>bs. bs) sample_sign sample_oracle 100)"
    by (simp add: in_window_def http_quote_def quote_for_height book_new_def book_with_window_def DEFAULT_HORIZON_def
        DEFAULT_DRIFT_def sat_sub_def sat_add_def)
  ultimately show ?thesis
    using quote_endpoint_ungated[where S = sample_prover and sign = sample_sign and s = sample_oracle and B = ?B
        and ?sha256.0 = "\<lambda>bs. bs" and tip = "BlockHeight 100" and h = 100, OF o(1) _ o(4)] o
    by simp
qed

text \<open>
  The daemon gives up on its node only after an uninterrupted outage. When
  it stops with \<open>NodeDown\<close>, every poll of a final stretch failed, the stretch lasted at least the
  fatal duration, the poll before it (if any) was answered, and the reported seconds are its length.
\<close>

lemma node_down_tolerated:
  assumes "daemon_run sha256 sign parse fatal admin s0 d" "dm_pc d = Stopped (NodeDown secs e)"
  shows "\<exists>fs rest. dm_polls d = fs @ rest \<and> fs \<noteq> [] \<and> (\<forall>p \<in> set fs. \<not> snd p) \<and> (rest = [] \<or> snd (hd rest)) \<and>
    fatal \<le> fst (hd fs) - fst (last fs) \<and> secs = as_secs (fst (hd fs) - fst (last fs))"
proof -
  from down_run[OF assms(1)] assms(2) obtain since where s: "dm_node_down_since d = Some since"
    "fatal \<le> fst (hd (dm_polls d)) - since" "secs = as_secs (fst (hd (dm_polls d)) - since)" and o: "outage (dm_polls d) (Some since)"
    by (auto simp: down_ok_def)
  from o obtain fs rest where "dm_polls d = fs @ rest" "\<forall>p \<in> set fs. \<not> snd p" "rest = [] \<or> snd (hd rest)" "fs \<noteq> []" "fst (last fs) = since"
    by (auto simp: outage_def)
  with s show ?thesis by (intro exI[of _ fs] exI[of _ rest]) auto
qed

end
