(* ===== verification/Styx_Wallet.thy ===== *)
theory Styx_Wallet
  imports Styx_Config
begin

text \<open>
  The wallet session (\<open>styx-wallet/src/wallet.rs\<close>): opening a session, syncing it, the coin and
  vault views, coin selection, the self-spends, and the conflict-retry policy that the wallet
  operations and the keeper share.

  A method of the source that talks to the node is a function from the wallet to its result and the
  wallet after it. The node is arbitrary: request number \<open>n\<close> of the session is answered by
  \<open>we_calls n\<close> (and its repetitions by further answers), so that everything proved holds whatever
  happens on the chain between two requests. \<open>wl_sent\<close> keeps, latest first, the transactions whose
  broadcast the node acknowledged: those for which \<open>send\<close> returned a transaction id. A transaction the
  node took but whose reply was lost or unreadable is an error to the program (client.rs, \<open>send\<close>) and
  is not in the list, so "sent" in the properties means acknowledged and never more. The file system
  is arbitrary as well: \<open>we_io n\<close> answers the effects of the save that belongs to request \<open>n\<close>.
\<close>

section \<open>Errors\<close>

datatype wallet_error =
    WConfig wallet_config_error
  | WStyxnet styxnet_error
  | WNode node_error
  | WScan scan_error
  | WSync sync_error
  | WSnapshot snapshot_error
  | WBuild build_error
  | WPset pset_error
  | WPrune prune_error
  | WBroadcast broadcast_error
  | WMath math_error
  | WArtifacts deploy_error
  | GenesisMismatch block_hash block_hash
  | NotLive
  | NodeBehindAnchor u32 u32
  | VaultNotFound outpoint
  | VaultNotMine outpoint
  | InsufficientLbtc u64 u64
  | InsufficientObol u64 u64
  | AmbiguousVault nat
  | NoVault
  | WRejected string string
  | ConflictExhausted string nat

fun is_node_down :: "wallet_error \<Rightarrow> bool" where
  "is_node_down (WNode _) = True"
| "is_node_down (WScan (ScanNode _)) = True"
| "is_node_down (WSync (SyncNode _)) = True"
| "is_node_down _ = False"

section \<open>Fallible operations on a state\<close>

type_synonym ('s, 'a) op = "'s \<Rightarrow> (wallet_error + 'a) \<times> 's"

definition op_bind :: "('s, 'a) op \<Rightarrow> ('a \<Rightarrow> ('s, 'b) op) \<Rightarrow> ('s, 'b) op" where
  "op_bind m f s = (case m s of (Inl e, s') \<Rightarrow> (Inl e, s') | (Inr a, s') \<Rightarrow> f a s')"

definition op_lift :: "wallet_error + 'a \<Rightarrow> ('s, 'a) op" where
  "op_lift r s = (r, s)"

definition op_ret :: "'a \<Rightarrow> ('s, 'a) op" where
  "op_ret a s = (Inr a, s)"

definition op_gets :: "('s \<Rightarrow> 'a) \<Rightarrow> ('s, 'a) op" where
  "op_gets f s = (Inr (f s), s)"

section \<open>The conflict-retry policy\<close>

datatype lost_race = Benign | RaceError

definition CONFLICT_ATTEMPTS :: nat where "CONFLICT_ATTEMPTS = 3"

text \<open>The errors that mean the target went away under a retry.\<close>

fun lost_target :: "wallet_error \<Rightarrow> bool" where
  "lost_target (VaultNotFound _) = True"
| "lost_target (VaultNotMine _) = True"
| "lost_target (WBuild (RatchetNotAdvanced _ _)) = True"
| "lost_target _ = False"

definition attempt_error :: "string \<Rightarrow> lost_race \<Rightarrow> nat \<Rightarrow> wallet_error \<Rightarrow> wallet_error + txid option" where
  "attempt_error what lost_race attempt e =
     (case e of
        WBroadcast (Rejected message) \<Rightarrow> Inl (WRejected what message)
      | _ \<Rightarrow>
          if lost_target e \<and> 0 < attempt
          then (case lost_race of Benign \<Rightarrow> Inr None | RaceError \<Rightarrow> Inl e)
          else Inl e)"

fun retry_from ::
  "string \<Rightarrow> ('s, unit) op \<Rightarrow> ('s, txid) op \<Rightarrow> lost_race \<Rightarrow> nat \<Rightarrow> nat \<Rightarrow> ('s, txid option) op" where
  "retry_from what resync f lost_race attempt 0 s = (Inl (ConflictExhausted what CONFLICT_ATTEMPTS), s)"
| "retry_from what resync f lost_race attempt (Suc n) s =
     (case f s of
        (Inr txid, s') \<Rightarrow> (Inr (Some txid), s')
      | (Inl (WBroadcast (Conflict m)), s') \<Rightarrow>
          (case resync s' of
             (Inl e, s'') \<Rightarrow> (Inl e, s'')
           | (Inr _, s'') \<Rightarrow> retry_from what resync f lost_race (Suc attempt) n s'')
      | (Inl e, s') \<Rightarrow> (attempt_error what lost_race attempt e, s'))"

definition retry_conflicts :: "string \<Rightarrow> ('s, unit) op \<Rightarrow> ('s, txid) op \<Rightarrow> lost_race \<Rightarrow> ('s, txid option) op" where
  "retry_conflicts what resync f lost_race = retry_from what resync f lost_race 0 CONFLICT_ATTEMPTS"

section \<open>The session\<close>

record ('p, 'f) wallet_env =
  we_lib :: "'p library"
  we_prover :: "'p prover"
  we_codec :: node_codec
  we_snap :: "'f codec"
  we_with_tmp :: "string \<Rightarrow> string"
  we_io :: "nat \<Rightarrow> nat \<Rightarrow> 'f io_answer"
  we_pubkey :: "u256 \<Rightarrow> xonly"
  we_key_spk :: "xonly \<Rightarrow> script"
  we_calls :: "nat \<Rightarrow> nat \<Rightarrow> call"

record ('p, 'f) wallet =
  wl_ctx :: "'p ctx"
  wl_owner :: u256
  wl_funding :: u256
  wl_state :: index_state
  wl_snapshot_path :: string
  wl_disk :: "string \<Rightarrow> 'f option"
  wl_clock :: nat
  wl_sent :: "transaction list"

type_synonym ('p, 'f, 'a) wop = "(('p, 'f) wallet, 'a) op"

text \<open>One request to the node: it is answered, and the next one will be answered by the next answers.\<close>

definition node_op :: "('p, 'f) wallet_env \<Rightarrow> ((nat \<Rightarrow> call) \<Rightarrow> wallet_error + 'a) \<Rightarrow> ('p, 'f, 'a) wop" where
  "node_op E f w = (f (we_calls E (wl_clock w)), w\<lparr>wl_clock := Suc (wl_clock w)\<rparr>)"

text \<open>
  Opening: the node's genesis must be the deployment's before anything is compiled, and the state
  is the snapshot's or an empty one at the deployment anchor. The node answers once for the session
  start; the address parameters only affect how addresses are printed.
\<close>

record 'f session_files =
  sf_styxnet :: "string \<Rightarrow> string option"
  sf_toml :: "string \<Rightarrow> string + styxnet_config"
  sf_parsers :: parsers
  sf_from_seckey :: "bytes \<Rightarrow> string + u256"
  sf_disk :: "string \<Rightarrow> 'f option"

definition start_state ::
  "('p, 'f) wallet_env \<Rightarrow> 'f session_files \<Rightarrow> call \<Rightarrow> wallet_config \<Rightarrow> styxnet_config \<Rightarrow> block_hash \<Rightarrow>
     wallet_error + index_state" where
  "start_state E F call cfg net chain_genesis =
     (if sf_disk F (wc_snapshot cfg) \<noteq> None
      then map_err WSnapshot (load (we_snap E) (wc_snapshot cfg) (sf_disk F))
      else case sn_protocol net of
             None \<Rightarrow> Inr (genesis chain_genesis)
           | Some p \<Rightarrow>
               let start = pt_issuer_anchor_genesis p in
               bind_res (map_err WNode (node_height call)) (\<lambda>tip.
               refuse_if (tip < start) (NodeBehindAnchor tip start) (
               bind_res (map_err WNode (node_block_hash (we_codec E) call start)) (\<lambda>h.
               Inr (at_height start h)))))"

definition open_session ::
  "('p, 'f) wallet_env \<Rightarrow> 'f session_files \<Rightarrow> (auth \<Rightarrow> string \<Rightarrow> node_error + call) \<Rightarrow> wallet_config \<Rightarrow>
     wallet_error + ('p, 'f) wallet" where
  "open_session E F connect cfg =
     bind_res (map_err WStyxnet (styxnet_load (sf_toml F) (sf_styxnet F) (wc_styxnet cfg))) (\<lambda>net.
     bind_res (map_err WStyxnet (config_params (sf_parsers F) net)) (\<lambda>params.
     bind_res (map_err WConfig (wallet_config_auth cfg)) (\<lambda>auth.
     bind_res (map_err WNode (connect auth (wc_rpc_url cfg))) (\<lambda>call.
     bind_res (map_err WNode (node_genesis (we_codec E) call)) (\<lambda>chain_genesis.
     bind_res (map_err WStyxnet (config_genesis (sf_parsers F) net)) (\<lambda>expected.
     refuse_if (expected \<noteq> chain_genesis) (GenesisMismatch expected chain_genesis) (
     bind_res (map_err WArtifacts (artifacts_compile (we_lib E) params)) (\<lambda>arts.
     bind_res (start_state E F call cfg net chain_genesis) (\<lambda>st.
     bind_res (map_err WConfig (config_owner (sf_from_seckey F) cfg)) (\<lambda>owner.
     bind_res (map_err WConfig (config_funding (sf_from_seckey F) cfg)) (\<lambda>funding.
     Inr \<lparr>wl_ctx = \<lparr>cx_params = params, cx_artifacts = arts, cx_genesis = chain_genesis\<rparr>, wl_owner = owner,
          wl_funding = funding, wl_state = st, wl_snapshot_path = wc_snapshot cfg, wl_disk = sf_disk F,
          wl_clock = 0, wl_sent = []\<rparr>)))))))))))"

definition owner_pk :: "('p, 'f) wallet_env \<Rightarrow> ('p, 'f) wallet \<Rightarrow> xonly" where
  "owner_pk E w = we_pubkey E (wl_owner w)"

definition funding_spk :: "('p, 'f) wallet_env \<Rightarrow> ('p, 'f) wallet \<Rightarrow> script" where
  "funding_spk E w = we_key_spk E (we_pubkey E (wl_funding w))"

text \<open>The scan updates the state in place even when it fails; the snapshot is saved only after a full scan.\<close>

definition sync :: "('p, 'f) wallet_env \<Rightarrow> ('p, 'f, notice list) wop" where
  "sync E w =
     (let nd = node_view (we_codec E) (we_calls E (wl_clock w) 0);
          (r, st) = catch_up (we_lib E) (wl_ctx w) [owner_pk E w] nd (wl_state w);
          w1 = w\<lparr>wl_state := st, wl_clock := Suc (wl_clock w)\<rparr>
      in case r of
           Inl e \<Rightarrow> (Inl (WSync e), w1)
         | Inr notices \<Rightarrow>
             (case save_snapshot (we_snap E) (we_with_tmp E) (we_io E (wl_clock w)) st (wl_snapshot_path w) (wl_disk w) of
                (Inl e, disk) \<Rightarrow> (Inl (WSnapshot e), w1\<lparr>wl_disk := disk\<rparr>)
              | (Inr _, disk) \<Rightarrow> (Inr notices, w1\<lparr>wl_disk := disk\<rparr>)))"

definition resync :: "('p, 'f) wallet_env \<Rightarrow> ('p, 'f, unit) wop" where
  "resync E = op_bind (sync E) (\<lambda>_. op_ret ())"

section \<open>Views\<close>

definition lbtc_coins :: "('p, 'f) wallet_env \<Rightarrow> ('p, 'f, (outpoint \<times> u64) list) wop" where
  "lbtc_coins E w =
     node_op E (\<lambda>calls. map_err WScan (scan_spk (we_codec E) calls (funding_spk E w) (pr_policy (cx_params (wl_ctx w))))) w"

definition obol_coins :: "('p, 'f) wallet_env \<Rightarrow> ('p, 'f, (outpoint \<times> u64) list) wop" where
  "obol_coins E w =
     node_op E (\<lambda>calls. map_err WScan (scan_spk (we_codec E) calls (funding_spk E w) (pr_obol (cx_params (wl_ctx w))))) w"

definition vault_entries :: "index_state \<Rightarrow> (outpoint \<times> tracked_vault) list" where
  "vault_entries st = map (\<lambda>op. (op, the (fmlookup (ix_vaults st) op))) (sorted_list_of_fset (fmdom (ix_vaults st)))"

definition my_vaults :: "('p, 'f) wallet_env \<Rightarrow> ('p, 'f) wallet \<Rightarrow> vault_utxo list" where
  "my_vaults E w =
     somes (map (\<lambda>(op, v). tv_known v op)
       (filter (\<lambda>(op, v). tv_owner v = Some (owner_pk E w)) (vault_entries (wl_state w))))"

definition pick_vault :: "('p, 'f) wallet_env \<Rightarrow> outpoint option \<Rightarrow> ('p, 'f) wallet \<Rightarrow> wallet_error + vault_utxo" where
  "pick_vault E which w =
     (case which of
        Some op \<Rightarrow>
          (case fmlookup (ix_vaults (wl_state w)) op of
             None \<Rightarrow> Inl (VaultNotFound op)
           | Some v \<Rightarrow>
               if tv_owner v \<noteq> Some (owner_pk E w) then Inl (VaultNotMine op)
               else (case tv_known v op of None \<Rightarrow> Inl (VaultNotMine op) | Some k \<Rightarrow> Inr k))
      | None \<Rightarrow>
          (case my_vaults E w of
             [] \<Rightarrow> Inl NoVault
           | [v] \<Rightarrow> Inr v
           | vs \<Rightarrow> Inl (AmbiguousVault (length vs))))"

definition protocol :: "('p, 'f) wallet \<Rightarrow> wallet_error + protocol_state" where
  "protocol w = (case ix_protocol (wl_state w) of None \<Rightarrow> Inl NotLive | Some ps \<Rightarrow> Inr ps)"

section \<open>Signing and broadcasting\<close>

fun sign_ours ::
  "('p, 'f) wallet_env \<Rightarrow> ('p, 'f) wallet \<Rightarrow> tx_plan \<Rightarrow> nat \<Rightarrow> elements_utxo list \<Rightarrow> pset \<Rightarrow> pset_error + pset" where
  "sign_ours E w plan i [] px = Inr px"
| "sign_ours E w plan i (u # us) px =
     (if eu_script_pubkey u = funding_spk E w
      then bind_res (sign_funding (we_prover E) (wl_ctx w) plan px i (wl_funding w)) (sign_ours E w plan (Suc i) us)
      else sign_ours E w plan (Suc i) us px)"

definition wallet_sign :: "('p, 'f) wallet_env \<Rightarrow> tx_plan \<Rightarrow> ('p, 'f) wallet \<Rightarrow> wallet_error + transaction" where
  "wallet_sign E plan w =
     map_err WPset
      (bind_res (to_pset (we_lib E) (wl_ctx w) plan) (\<lambda>px.
       bind_res (sign_ours E w plan 0 (pl_in_utxos plan) px) (\<lambda>px'.
       finalize_pset (we_lib E) (we_prover E) (wl_ctx w) plan px')))"

definition broadcast :: "('p, 'f) wallet_env \<Rightarrow> transaction \<Rightarrow> ('p, 'f, txid) wop" where
  "broadcast E tx w =
     (case node_op E (\<lambda>calls. map_err WBroadcast (node_send (we_lib E) (we_codec E) (calls 0) tx)) w of
        (Inr txid, w') \<Rightarrow> (Inr txid, w'\<lparr>wl_sent := tx # wl_sent w'\<rparr>)
      | (Inl e, w') \<Rightarrow> (Inl e, w'))"

definition sign_and_broadcast :: "('p, 'f) wallet_env \<Rightarrow> tx_plan \<Rightarrow> ('p, 'f, txid) wop" where
  "sign_and_broadcast E plan w = op_bind (op_lift (wallet_sign E plan w)) (broadcast E) w"

definition relay_feerate :: "('p, 'f) wallet_env \<Rightarrow> ('p, 'f, u64 option) wop" where
  "relay_feerate E = node_op E (\<lambda>calls. Inr (relay_feerate_sat_per_kvb (calls 0)))"

section \<open>Coin selection\<close>

text \<open>\<open>min_by_key\<close>: the first of the smallest.\<close>

fun min_by_value :: "('a \<times> u64) list \<Rightarrow> ('a \<times> u64) option" where
  "min_by_value [] = None"
| "min_by_value (c # cs) = Some (foldl (\<lambda>best x. if snd x < snd best then x else best) c cs)"

definition select_at_least :: "(outpoint \<times> u64) list \<Rightarrow> u64 \<Rightarrow> (outpoint \<times> u64) option" where
  "select_at_least coins need = min_by_value (filter (\<lambda>(_, v). need \<le> v) coins)"

fun accumulate :: "u64 \<Rightarrow> u64 \<Rightarrow> (outpoint \<times> u64) list \<Rightarrow> (outpoint \<times> u64) list option" where
  "accumulate need acc [] = None"
| "accumulate need acc (c # cs) =
     (let acc' = sat_add acc (snd c)
      in if need \<le> acc' then Some [c] else map_option (Cons c) (accumulate need acc' cs))"

definition select_accumulate :: "(outpoint \<times> u64) list \<Rightarrow> u64 \<Rightarrow> (outpoint \<times> u64) list option" where
  "select_accumulate coins need = accumulate need 0 (sort_desc coins)"

definition coins_sum :: "(outpoint \<times> u64) list \<Rightarrow> u64" where
  "coins_sum coins = sum_list (map snd coins)"

definition DUST_FLOOR :: u64 where "DUST_FLOOR = 500"

definition split_change :: "u64 \<Rightarrow> u64 option \<times> sats" where
  "split_change excess =
     (if DUST_FLOOR \<le> excess then (Some excess, FEE) else (None, Sats (sats_raw FEE + excess)))"

section \<open>Self-spends\<close>

definition plain_plan :: "transaction \<Rightarrow> elements_utxo list \<Rightarrow> tx_plan" where
  "plain_plan tx us = \<lparr>pl_tx = tx, pl_in_utxos = us, pl_slots = []\<rparr>"

definition change_and_fee :: "u64 \<Rightarrow> script \<Rightarrow> asset_id \<Rightarrow> tx_out list" where
  "change_and_fee excess ours policy =
     (case split_change excess of (change, fee) \<Rightarrow>
        (case change of None \<Rightarrow> [] | Some c \<Rightarrow> [txout c ours policy]) @ [fee_out fee policy])"

text \<open>A spend of our coins of the policy asset that pays one amount to a script.\<close>

definition pay_plan :: "params \<Rightarrow> script \<Rightarrow> (outpoint \<times> u64) list \<Rightarrow> script \<Rightarrow> u64 \<Rightarrow> u64 \<Rightarrow> tx_plan" where
  "pay_plan p ours taken dest amount excess =
     plain_plan
       \<lparr>tx_version = 2, tx_lock_time = 0, tx_input = map (\<lambda>(op, _). txin op) taken,
        tx_output = txout amount dest (pr_policy p) # change_and_fee excess ours (pr_policy p)\<rparr>
       (map (\<lambda>(_, v). claimed v ours (pr_policy p)) taken)"

definition shape_plan :: "params \<Rightarrow> script \<Rightarrow> (outpoint \<times> u64) list \<Rightarrow> sats \<Rightarrow> tx_plan" where
  "shape_plan p ours taken need =
     pay_plan p ours taken ours (sats_raw need) (coins_sum taken - sats_raw need - sats_raw FEE)"

definition shape_exact :: "('p, 'f) wallet_env \<Rightarrow> sats \<Rightarrow> ('p, 'f, outpoint \<times> transaction) wop" where
  "shape_exact E need =
     op_bind (lbtc_coins E) (\<lambda>coins w.
       let needed = sats_raw need + sats_raw FEE in
       case select_accumulate coins needed of
         None \<Rightarrow> (Inl (InsufficientLbtc needed (coins_sum coins)), w)
       | Some taken \<Rightarrow>
           let plan = shape_plan (cx_params (wl_ctx w)) (funding_spk E w) taken need in
           op_bind (sign_and_broadcast E plan) (\<lambda>txid. op_ret (OutPoint txid 0, pl_tx plan)) w)"

definition consolidate_plan ::
  "params \<Rightarrow> script \<Rightarrow> (outpoint \<times> u64) list \<Rightarrow> outpoint \<times> u64 \<Rightarrow> tx_plan" where
  "consolidate_plan p ours obol fee_coin =
     plain_plan
       \<lparr>tx_version = 2, tx_lock_time = 0, tx_input = map (\<lambda>(op, _). txin op) obol @ [txin (fst fee_coin)],
        tx_output = txout (coins_sum obol) ours (pr_obol p) # change_and_fee (snd fee_coin - sats_raw FEE) ours (pr_policy p)\<rparr>
       (map (\<lambda>(_, v). claimed v ours (pr_obol p)) obol @ [claimed (snd fee_coin) ours (pr_policy p)])"

definition FEE_COIN_MIN :: u64 where "FEE_COIN_MIN = sats_raw FEE + 1"

definition consolidate_obol :: "('p, 'f) wallet_env \<Rightarrow> ('p, 'f, outpoint \<times> u64) wop" where
  "consolidate_obol E =
     op_bind (obol_coins E) (\<lambda>obol.
     op_bind (lbtc_coins E) (\<lambda>lbtc w.
       case select_at_least lbtc FEE_COIN_MIN of
         None \<Rightarrow> (Inl (InsufficientLbtc FEE_COIN_MIN 0), w)
       | Some fee_coin \<Rightarrow>
           op_bind (sign_and_broadcast E (consolidate_plan (cx_params (wl_ctx w)) (funding_spk E w) obol fee_coin))
             (\<lambda>txid. op_ret (OutPoint txid 0, coins_sum obol)) w))"


section \<open>What a retry does\<close>

text \<open>The state after a number of attempts that all ended in a conflict and a resync.\<close>

fun conflicts :: "('s, unit) op \<Rightarrow> ('s, txid) op \<Rightarrow> nat \<Rightarrow> 's \<Rightarrow> 's option" where
  "conflicts rs f 0 s = Some s"
| "conflicts rs f (Suc k) s =
     (case f s of
        (Inl (WBroadcast (Conflict m)), s') \<Rightarrow> (case rs s' of (Inr _, s'') \<Rightarrow> conflicts rs f k s'' | _ \<Rightarrow> None)
      | _ \<Rightarrow> None)"

lemma conflicts_Suc:
  "conflicts rs f (Suc k) s = Some t \<longleftrightarrow>
     (\<exists>m s' u s''. f s = (Inl (WBroadcast (Conflict m)), s') \<and> rs s' = (Inr u, s'') \<and> conflicts rs f k s'' = Some t)"
  by (auto split: sum.splits prod.splits wallet_error.splits broadcast_error.splits)

declare conflicts.simps(2) [simp del]

lemma retry_some:
  "retry_from what rs f lr a n s = (Inr (Some t), s') \<Longrightarrow> \<exists>k < n. \<exists>u. conflicts rs f k s = Some u \<and> f u = (Inr t, s')"
proof (induction n arbitrary: a s)
  case (Suc n)
  obtain r s1 where f: "f s = (r, s1)" by force
  show ?case
  proof (cases "\<exists>m. r = Inl (WBroadcast (Conflict m))")
    case True
    then obtain m q s2 where m: "r = Inl (WBroadcast (Conflict m))" and q: "rs s1 = (q, s2)" by force
    with Suc.prems f obtain u where "q = Inr u" "retry_from what rs f lr (Suc a) n s2 = (Inr (Some t), s')" by (cases q) auto
    with Suc.IH[of "Suc a" s2] obtain k v where "k < n" "conflicts rs f k s2 = Some v" "f v = (Inr t, s')" by force
    then show ?thesis using f m q \<open>q = Inr u\<close> by (intro exI[of _ "Suc k"]) (simp add: conflicts_Suc)
  next
    case False
    then have "r = Inr t \<and> s1 = s'"
      using Suc.prems f by (auto simp: attempt_error_def split: sum.splits wallet_error.splits broadcast_error.splits if_splits lost_race.splits)
    then show ?thesis using f by (intro exI[of _ 0]) simp
  qed
qed simp

lemma retry_none:
  "retry_from what rs f lr a n s = (Inr None, s') \<Longrightarrow>
     lr = Benign \<and> (\<exists>k < n. \<exists>u e. 0 < a + k \<and> conflicts rs f k s = Some u \<and> f u = (Inl e, s') \<and> lost_target e)"
proof (induction n arbitrary: a s)
  case (Suc n)
  obtain r s1 where f: "f s = (r, s1)" by force
  show ?case
  proof (cases "\<exists>m. r = Inl (WBroadcast (Conflict m))")
    case True
    then obtain m q s2 where m: "r = Inl (WBroadcast (Conflict m))" and q: "rs s1 = (q, s2)" by force
    with Suc.prems f obtain u where "q = Inr u" "retry_from what rs f lr (Suc a) n s2 = (Inr None, s')" by (cases q) auto
    with Suc.IH[of "Suc a" s2] obtain k v e where "lr = Benign" "k < n" "conflicts rs f k s2 = Some v" "f v = (Inl e, s')" "lost_target e"
      by force
    then show ?thesis using f m q \<open>q = Inr u\<close> by (intro conjI exI[of _ "Suc k"]) (auto simp: conflicts_Suc)
  next
    case False
    then obtain e where "r = Inl e" "lost_target e" "0 < a" "lr = Benign" "s1 = s'"
      using Suc.prems f by (auto simp: attempt_error_def split: sum.splits wallet_error.splits broadcast_error.splits if_splits lost_race.splits)
    then show ?thesis using f by (intro conjI exI[of _ 0]) auto
  qed
qed simp

lemma retry_after:
  "\<lbrakk>conflicts rs f k s = Some t; k \<le> n\<rbrakk> \<Longrightarrow> retry_from what rs f lr a n s = retry_from what rs f lr (a + k) (n - k) t"
proof (induction k arbitrary: s a n)
  case (Suc k)
  from Suc.prems(1) obtain m s' u s'' where c: "f s = (Inl (WBroadcast (Conflict m)), s')" "rs s' = (Inr u, s'')"
    "conflicts rs f k s'' = Some t" by (auto simp: conflicts_Suc)
  obtain n' where n: "n = Suc n'" using Suc.prems(2) by (cases n) auto
  show ?case using Suc.IH[OF c(3), of n' "Suc a"] Suc.prems(2) c(1,2) by (simp add: n)
qed simp

text \<open>
  The contract of a retried operation: an invariant that a conflicted attempt followed by a resync
  keeps, and what holds after a successful attempt and after any other end.
\<close>

locale retried_op =
  fixes rs :: "('s, unit) op" and f :: "('s, txid) op" and inv fail_post :: "'s \<Rightarrow> bool"
    and done_post :: "txid \<Rightarrow> 's \<Rightarrow> bool"
  assumes conflict_inv: "\<lbrakk>inv s; f s = (Inl (WBroadcast (Conflict m)), s'); rs s' = (Inr u, s'')\<rbrakk> \<Longrightarrow> inv s''"
    and resync_fail: "\<lbrakk>inv s; f s = (Inl (WBroadcast (Conflict m)), s'); rs s' = (Inl e, s'')\<rbrakk> \<Longrightarrow> fail_post s''"
    and attempt_done: "\<lbrakk>inv s; f s = (Inr t, s')\<rbrakk> \<Longrightarrow> done_post t s'"
    and attempt_fail: "\<lbrakk>inv s; f s = (Inl e, s')\<rbrakk> \<Longrightarrow> fail_post s'"
    and inv_fail: "inv s \<Longrightarrow> fail_post s"
begin

lemma retry_post:
  "inv s \<Longrightarrow> retry_from what rs f lr a n s = (r, s') \<Longrightarrow>
     (case r of Inr (Some t) \<Rightarrow> done_post t s' | _ \<Rightarrow> fail_post s')"
proof (induction n arbitrary: a s)
  case (Suc n)
  obtain r1 s1 where f: "f s = (r1, s1)" by force
  show ?case
  proof (cases "\<exists>m. r1 = Inl (WBroadcast (Conflict m))")
    case True
    then obtain m q s2 where m: "r1 = Inl (WBroadcast (Conflict m))" and q: "rs s1 = (q, s2)" by force
    then show ?thesis
      using Suc f conflict_inv[of s m s1 _ s2] resync_fail[of s m s1 _ s2] by (cases q) auto
  next
    case False
    then show ?thesis
      using Suc.prems f attempt_done[of s _ s1] attempt_fail[of s _ s1]
      by (auto simp: attempt_error_def split: sum.splits wallet_error.splits broadcast_error.splits lost_race.splits if_splits)
  qed
qed (auto simp: inv_fail)

lemma retry_conflicts_post:
  "\<lbrakk>inv s; retry_conflicts what rs f lr s = (r, s')\<rbrakk> \<Longrightarrow> (case r of Inr (Some t) \<Rightarrow> done_post t s' | _ \<Rightarrow> fail_post s')"
  unfolding retry_conflicts_def by (rule retry_post)

end


section \<open>Coin selection\<close>

definition coins_nat :: "('a \<times> u64) list \<Rightarrow> nat" where
  "coins_nat coins = sum_list (map (unat \<circ> snd) coins)"

lemma coins_nat_simps [simp]:
  "coins_nat [] = 0" "coins_nat (c # cs) = unat (snd c) + coins_nat cs" "coins_nat (xs @ ys) = coins_nat xs + coins_nat ys"
  by (simp_all add: coins_nat_def)

lemma coins_sum_simps [simp]: "coins_sum [] = 0" "coins_sum (c # cs) = snd c + coins_sum cs"
  by (simp_all add: coins_sum_def)

lemma coins_sum_exact: "coins_nat coins < 2 ^ 64 \<Longrightarrow> unat (coins_sum coins) = coins_nat coins"
  by (induction coins) (simp_all add: unat_plus_exact)

lemma coins_nat_mset: "mset xs = mset ys \<Longrightarrow> coins_nat xs = coins_nat ys"
  by (simp only: coins_nat_def flip: sum_mset_sum_list mset_map) simp

lemma mset_sort_desc [simp]: "mset (sort_desc coins) = mset coins"
  by (simp add: sort_desc_def)

lemma min_foldl:
  "foldl (\<lambda>best x. if snd x < snd best then x else best) c cs \<in> set (c # cs) \<and>
     (\<forall>x \<in> set (c # cs). snd (foldl (\<lambda>best x. if snd x < snd best then x else best) c cs) \<le> (snd x :: u64))"
proof (induction cs arbitrary: c)
  case (Cons x xs)
  show ?case
  proof (cases "snd x < snd c")
    case True
    then show ?thesis using Cons[of x] by (auto intro: order_trans[OF _ less_imp_le])
  next
    case False
    then show ?thesis using Cons[of c] by (auto simp: not_less intro: order_trans)
  qed
qed simp

lemma select_at_least_Some:
  assumes "select_at_least coins need = Some c"
  shows "c \<in> set coins" "need \<le> snd c" "\<And>x. \<lbrakk>x \<in> set coins; need \<le> snd x\<rbrakk> \<Longrightarrow> snd c \<le> snd x"
proof -
  from assms obtain d ds where ds: "filter (\<lambda>(_, v). need \<le> v) coins = d # ds"
    and c: "c = foldl (\<lambda>best x. if snd x < snd best then x else best) d ds"
    by (cases "filter (\<lambda>(_, v). need \<le> v) coins") (auto simp: select_at_least_def)
  note m = min_foldl[where c = d and cs = ds, folded c]
  have "c \<in> set (filter (\<lambda>(_, v). need \<le> v) coins)" using m ds by simp
  then show "c \<in> set coins" "need \<le> snd c" by auto
  fix x assume "x \<in> set coins" "need \<le> snd x"
  then have "x \<in> set (d # ds)" by (simp flip: ds add: case_prod_unfold)
  then show "snd c \<le> snd x" using m by blast
qed

lemma accumulate_Some:
  "accumulate need acc cs = Some taken \<Longrightarrow> (\<exists>rest. cs = taken @ rest) \<and> unat need \<le> unat acc + coins_nat taken"
proof (induction need acc cs arbitrary: taken rule: accumulate.induct)
  case (2 need acc c cs)
  show ?case
  proof (cases "need \<le> sat_add acc (snd c)")
    case True
    then have "unat need \<le> unat acc + unat (snd c)" by (simp add: to_nat)
    with True "2.prems" show ?thesis by auto
  next
    case False
    with "2.prems" obtain t where t: "accumulate need (sat_add acc (snd c)) cs = Some t" "taken = c # t" by (auto simp: Let_def)
    from "2.IH"[OF refl False t(1)] show ?thesis by (auto simp: t(2) to_nat)
  qed
qed simp

lemma select_accumulate_Some:
  assumes "select_accumulate coins need = Some taken"
  shows "set taken \<subseteq> set coins" "unat need \<le> coins_nat taken" "coins_nat taken \<le> coins_nat coins"
proof -
  obtain rest where r: "sort_desc coins = taken @ rest" "unat need \<le> coins_nat taken"
    using accumulate_Some[OF assms[unfolded select_accumulate_def]] by auto
  then show "unat need \<le> coins_nat taken" by simp
  have "mset coins = mset (taken @ rest)" by (metis mset_sort_desc r(1))
  then show "set taken \<subseteq> set coins" "coins_nat taken \<le> coins_nat coins"
    by (metis Un_upper1 set_append set_mset_mset, metis coins_nat_mset coins_nat_simps(3) le_add1)
qed

section \<open>Self-spends conserve\<close>

lemma FEE_nat [simp]: "unat (sats_raw FEE) = 10000"
  by (simp add: FEE_def)

lemma change_and_fee_total:
  "outs_total a (change_and_fee x ours policy) = (if a = policy then unat x + 10000 else 0)"
proof (cases "DUST_FLOOR \<le> x")
  case False
  then have "unat x < 500" by (simp add: DUST_FLOOR_def to_nat)
  then have "unat (sats_raw FEE + x) = unat x + 10000" by (subst unat_plus_exact) simp_all
  with False show ?thesis by (simp add: change_and_fee_def split_change_def)
qed (simp add: change_and_fee_def split_change_def)

lemma claimed_total:
  "utxos_total a (map (\<lambda>(_, v). claimed v ours asset) coins) = (if a = asset then coins_nat coins else 0)"
  by (induction coins) auto

lemma utxos_total_append [simp]: "utxos_total a (us @ vs) = utxos_total a us + utxos_total a vs"
  by (simp add: utxos_total_def)

lemma pay_plan_conserves:
  "coins_nat taken = unat amount + unat excess + 10000 \<Longrightarrow> conserves (pay_plan p ours taken dest amount excess)"
  by (simp add: conserves_def pay_plan_def plain_plan_def claimed_total change_and_fee_total)

lemma excess_exact:
  assumes "select_accumulate coins (amount + sats_raw FEE) = Some taken" "unat amount + 10000 < 2 ^ 64" "coins_nat coins < 2 ^ 64"
  shows "coins_nat taken = unat amount + unat (coins_sum taken - (amount + sats_raw FEE)) + 10000"
proof -
  note sel = select_accumulate_Some[OF assms(1)]
  have need: "unat (amount + sats_raw FEE) = unat amount + 10000" using assms(2) by (subst unat_plus_exact) simp_all
  have sum: "unat (coins_sum taken) = coins_nat taken" using sel(3) assms(3) by (intro coins_sum_exact) simp
  then have "amount + sats_raw FEE \<le> coins_sum taken" using sel(2) need by (simp add: word_le_nat_alt)
  then show ?thesis using sum need sel(2) by (simp add: unat_sub)
qed

lemma consolidate_conserves:
  assumes "select_at_least lbtc FEE_COIN_MIN = Some fee_coin" "coins_nat obol < 2 ^ 64"
  shows "conserves (consolidate_plan p ours obol fee_coin)"
proof -
  have "sats_raw FEE \<le> snd fee_coin"
    using select_at_least_Some(2)[OF assms(1)] by (simp add: FEE_COIN_MIN_def FEE_def word_le_nat_alt)
  then have "unat (snd fee_coin - sats_raw FEE) + 10000 = unat (snd fee_coin)" by (simp add: unat_sub word_le_nat_alt)
  then show ?thesis
    using coins_sum_exact[OF assms(2)]
    by (simp add: conserves_def consolidate_plan_def plain_plan_def claimed_total change_and_fee_total)
qed

section \<open>Requests leave the wallet alone\<close>

text \<open>What an operation other than a sync or a broadcast keeps: everything but the request counter.\<close>

definition quiet :: "('p, 'f, 'a) wop \<Rightarrow> bool" where
  "quiet m \<longleftrightarrow> (\<forall>w r w'. m w = (r, w') \<longrightarrow> (\<exists>n. w' = w\<lparr>wl_clock := n\<rparr>))"

lemma quiet_node_op [intro, simp]: "quiet (node_op E f)"
  by (auto simp: quiet_def node_op_def)

lemma quiet_scan [simp]: "quiet (lbtc_coins E)" "quiet (obol_coins E)" "quiet (relay_feerate E)"
  by (auto simp: quiet_def lbtc_coins_def obol_coins_def relay_feerate_def node_op_def)

lemma quietD: "\<lbrakk>quiet m; m w = (r, w')\<rbrakk> \<Longrightarrow> \<exists>n. w' = w\<lparr>wl_clock := n\<rparr>"
  by (auto simp: quiet_def)

lemma broadcast_sent:
  "broadcast E tx w = (r, w') \<Longrightarrow>
     \<exists>n. w' = w\<lparr>wl_clock := n, wl_sent := (case r of Inl _ \<Rightarrow> wl_sent w | Inr _ \<Rightarrow> tx # wl_sent w)\<rparr>"
  by (auto simp: broadcast_def node_op_def split: sum.splits prod.splits)

lemma sign_and_broadcast_sent:
  assumes "sign_and_broadcast E plan w = (r, w')"
  shows "case r of
      Inl _ \<Rightarrow> \<exists>n. w' = w\<lparr>wl_clock := n\<rparr>
    | Inr _ \<Rightarrow> \<exists>n tx. w' = w\<lparr>wl_clock := n, wl_sent := tx # wl_sent w\<rparr> \<and> wallet_sign E plan w = Inr tx"
proof (cases "wallet_sign E plan w")
  case (Inl e)
  with assms have "r = Inl e" "w' = w\<lparr>wl_clock := wl_clock w\<rparr>"
    by (auto simp: sign_and_broadcast_def op_bind_def op_lift_def)
  then show ?thesis by (auto intro: exI[of _ "wl_clock w"])
next
  case (Inr tx)
  with assms have "broadcast E tx w = (r, w')" by (simp add: sign_and_broadcast_def op_bind_def op_lift_def)
  with broadcast_sent[OF this] Inr show ?thesis by (cases r) auto
qed

text \<open>The body of a signed transaction is the plan's.\<close>

lemma wallet_sign_body:
  assumes "wallet_sign E plan w = Inr tx"
  shows "strip tx = strip (pl_tx plan)"
proof -
  from assms obtain px where "finalize_pset (we_lib E) (we_prover E) (wl_ctx w) plan px = Inr tx"
    by (auto simp: wallet_sign_def res_Inr)
  then obtain tx1 where fin: "finalize (we_lib E) (we_prover E) (wl_ctx w) plan = Inr tx1"
    and att: "attach_sigs (we_lib E) (we_prover E) (wl_ctx w) plan tx1 0 (px_inputs px) = Inr tx"
    by (auto simp: finalize_pset_def res_Inr)
  show ?thesis using witness_slots_body[OF fin[unfolded finalize_def]] attach_sigs_spec[OF att] by simp
qed


section \<open>A session\<close>

lemma open_session_Inr:
  assumes "open_session E F connect cfg = Inr w"
  obtains net call where "styxnet_load (sf_toml F) (sf_styxnet F) (wc_styxnet cfg) = Inr net"
    "config_params (sf_parsers F) net = Inr (cx_params (wl_ctx w))"
    "node_genesis (we_codec E) call = Inr (cx_genesis (wl_ctx w))"
    "config_genesis (sf_parsers F) net = Inr (cx_genesis (wl_ctx w))"
    "artifacts_compile (we_lib E) (cx_params (wl_ctx w)) = Inr (cx_artifacts (wl_ctx w))"
    "start_state E F call cfg net (cx_genesis (wl_ctx w)) = Inr (wl_state w)" "wl_sent w = []"
  using assms by (auto simp: open_session_def res_Inr)

lemma config_params_pks:
  "config_params P net = Inr p \<Longrightarrow> oracle_pks P net = Inr (pr_oracle_pks p)"
  by (auto simp: config_params_def res_Inr Let_def split: option.splits)

text \<open>A concrete session on a chain whose genesis is 7.\<close>

definition sample_parsers :: parsers where
  "sample_parsers = \<lparr>ps_xonly = (\<lambda>s. Inr (of_nat (length s))), ps_asset = (\<lambda>s. Inr (of_nat (length s))),
     ps_block_hash = (\<lambda>s. Inr 7)\<rparr>"

definition sample_entry :: "u8 \<Rightarrow> nat \<Rightarrow> oracle_entry" where
  "sample_entry i n = \<lparr>oe_slot = i, oe_protocol_pk = replicate n CHR ''k'', oe_nostr_pk = None, oe_admin_url = None\<rparr>"

definition sample_net :: styxnet_config where
  "sample_net = \<lparr>sn_network = \<lparr>nt_chain = [], nt_genesis = Some []\<rparr>,
     sn_assets = Some \<lparr>as_obol = replicate 10 CHR ''a'', as_issuer_token = replicate 11 CHR ''a'', as_policy = replicate 12 CHR ''a''\<rparr>,
     sn_protocol = None, sn_oracles = [sample_entry 0 1, sample_entry 1 2, sample_entry 2 3, sample_entry 3 4, sample_entry 4 5], sn_nostr = \<lparr>ns_relays = []\<rparr>\<rparr>"

definition sample_wallet_cfg :: wallet_config where
  "sample_wallet_cfg = \<lparr>wc_styxnet = [], wc_rpc_url = [], wc_rpc_user = None, wc_rpc_password = None, wc_rpc_cookie = Some [],
     wc_snapshot = [], wc_owner_seckey = hex_str (replicate 32 1), wc_funding_seckey = hex_str (replicate 32 2)\<rparr>"

definition sample_files :: "doc session_files" where
  "sample_files = \<lparr>sf_styxnet = (\<lambda>_. Some []), sf_toml = (\<lambda>_. Inr sample_net), sf_parsers = sample_parsers,
     sf_from_seckey = (\<lambda>bs. Inr (of_nat (unat (hd bs)))), sf_disk = (\<lambda>_. None)\<rparr>"

definition sample_env :: "(nat \<Rightarrow> nat \<Rightarrow> call) \<Rightarrow> (u8, doc) wallet_env" where
  "sample_env calls = \<lparr>we_lib = sample_library, we_prover = sample_prover,
     we_codec = sample_codec_node\<lparr>nc_hash := (\<lambda>s. Some 7)\<rparr>, we_snap = sample_codec, we_with_tmp = (\<lambda>p. p @ ''.tmp''), we_io = (\<lambda>_ _. IoDone),
     we_pubkey = (\<lambda>k. k), we_key_spk = (\<lambda>k. [0x51, 0x20] @ u256_be k), we_calls = calls\<rparr>"

lemma sample_pks: "place_pks sample_parsers (replicate 5 None) (sn_oracles sample_net) = Inr [Some 1, Some 2, Some 3, Some 4, Some 5]"
proof -
  have five: "replicate 5 None = [None, None, None, None, (None :: xonly option)]"
    by (simp add: numeral_eq_Suc)
  have upd: "(x # xs)[numeral n := y] = x # xs[pred_numeral n := y]" for x y :: "xonly option" and xs n
    by (simp add: numeral_eq_Suc)
  show ?thesis
    by (simp add: five upd sample_net_def sample_parsers_def sample_entry_def Let_def refuse_if_def bind_res_def)
qed

lemma sample_params_parse: "config_params sample_parsers sample_net = Inr sample_params"
  unfolding config_params_def oracle_pks_def sample_pks
  by (simp add: sample_net_def sample_parsers_def Let_def bind_res_def sample_params_def)

lemma sample_session:
  "open_session (sample_env calls) sample_files (\<lambda>_ _. Inr (\<lambda>_ _. Inr JNull)) sample_wallet_cfg =
     Inr \<lparr>wl_ctx = \<lparr>cx_params = sample_params, cx_artifacts = sample_artifacts, cx_genesis = 7\<rparr>, wl_owner = 1, wl_funding = 2,
          wl_state = genesis 7, wl_snapshot_path = [], wl_disk = (\<lambda>_. None), wl_clock = 0, wl_sent = []\<rparr>"
proof -
  have "styxnet_load (sf_toml sample_files) (sf_styxnet sample_files) (wc_styxnet sample_wallet_cfg) = Inr sample_net"
    by (simp add: styxnet_load_def sample_files_def)
  moreover have "config_params (sf_parsers sample_files) sample_net = Inr sample_params"
    using sample_params_parse by (simp add: sample_files_def)
  moreover have "wallet_config_auth sample_wallet_cfg = Inr (CookieFile [])"
    by (simp add: wallet_config_auth_def sample_wallet_cfg_def)
  moreover have "node_genesis (we_codec (sample_env calls)) (\<lambda>_ _. Inr JNull) = Inr 7"
    by (simp add: node_genesis_def node_block_hash_def rpc_def bind_res_def or_shape_def sample_env_def)
  moreover have "config_genesis (sf_parsers sample_files) sample_net = Inr 7"
    by (simp add: config_genesis_def sample_files_def sample_net_def sample_parsers_def)
  moreover have "artifacts_compile (we_lib (sample_env calls)) sample_params = Inr sample_artifacts"
    by (simp add: sample_env_def sample_compile)
  moreover have "start_state (sample_env calls) sample_files (\<lambda>_ _. Inr JNull) sample_wallet_cfg sample_net 7 = Inr (genesis 7)"
    by (simp add: start_state_def sample_files_def sample_net_def)
  moreover have "config_owner (sf_from_seckey sample_files) sample_wallet_cfg = Inr 1"
    "config_funding (sf_from_seckey sample_files) sample_wallet_cfg = Inr 2"
    by (simp_all add: config_owner_def config_funding_def parse_seckey_def sample_wallet_cfg_def hex_str_length sig_pairs_hex sample_files_def)
  ultimately show ?thesis
    by (simp add: open_session_def bind_res_def refuse_if_def)
       (simp add: sample_wallet_cfg_def sample_files_def)
qed

section \<open>Properties\<close>

text \<open>
  A session that opens is on the deployment's chain: the node it is
  connected to has the genesis block of the shared file, the covenants were compiled from the
  parameters of that file, whose five oracle entries fill the slots 0 to 4 exactly once with five
  distinct keys, each at its own slot, and nothing has been broadcast.
\<close>

lemma open_session_right_chain:
  assumes "open_session E F connect cfg = Inr w"
  shows "\<exists>net call. styxnet_load (sf_toml F) (sf_styxnet F) (wc_styxnet cfg) = Inr net \<and>
    node_genesis (we_codec E) call = Inr (cx_genesis (wl_ctx w)) \<and>
    config_genesis (sf_parsers F) net = Inr (cx_genesis (wl_ctx w)) \<and>
    artifacts_compile (we_lib E) (cx_params (wl_ctx w)) = Inr (cx_artifacts (wl_ctx w)) \<and>
    preflight (cx_params (wl_ctx w)) = Inr () \<and>
    length (sn_oracles net) = 5 \<and> distinct (map oe_slot (sn_oracles net)) \<and>
    (\<forall>e \<in> set (sn_oracles net). unat (oe_slot e) < 5 \<and>
       ps_xonly (sf_parsers F) (oe_protocol_pk e) = Inr (pr_oracle_pks (cx_params (wl_ctx w)) ! unat (oe_slot e))) \<and>
    wl_sent w = []"
proof -
  obtain net call where o: "styxnet_load (sf_toml F) (sf_styxnet F) (wc_styxnet cfg) = Inr net"
    "config_params (sf_parsers F) net = Inr (cx_params (wl_ctx w))"
    "node_genesis (we_codec E) call = Inr (cx_genesis (wl_ctx w))"
    "config_genesis (sf_parsers F) net = Inr (cx_genesis (wl_ctx w))"
    "artifacts_compile (we_lib E) (cx_params (wl_ctx w)) = Inr (cx_artifacts (wl_ctx w))" "wl_sent w = []"
    using open_session_Inr[OF assms] by metis
  note pks = oracle_pks_ok[OF config_params_pks[OF o(2)]]
  from o pks artifacts_compile_Inr(1)[OF o(5)] show ?thesis by blast
qed

lemma open_session_right_chain_sample:
  "\<exists>w. open_session (sample_env (\<lambda>_ _ _ _. Inr JNull)) sample_files (\<lambda>_ _. Inr (\<lambda>_ _. Inr JNull)) sample_wallet_cfg = Inr w \<and>
     preflight (cx_params (wl_ctx w)) = Inr () \<and> wl_sent w = []"
  using open_session_right_chain[OF sample_session] sample_session by blast

text \<open>
  The conflict retry makes at most three attempts. It reports a transaction
  exactly when an attempt succeeds after fewer than three conflicts, each followed by a successful
  resync; it reports work done by someone else only under the benign policy and only when the target
  was lost on an attempt after a conflict; and three conflicts in a row end it with the exhaustion
  error.
\<close>

lemma retry_policy:
  "(retry_conflicts what rs f lr s = (Inr (Some t), s') \<longleftrightarrow>
      (\<exists>k < 3. \<exists>u. conflicts rs f k s = Some u \<and> f u = (Inr t, s'))) \<and>
   (retry_conflicts what rs f lr s = (Inr None, s') \<longrightarrow> lr = Benign \<and>
      (\<exists>k < 3. \<exists>u e. 0 < k \<and> conflicts rs f k s = Some u \<and> f u = (Inl e, s') \<and> lost_target e)) \<and>
   (conflicts rs f 3 s = Some s' \<longrightarrow> retry_conflicts what rs f lr s = (Inl (ConflictExhausted what 3), s'))"
proof (intro conjI impI iffI)
  assume "retry_conflicts what rs f lr s = (Inr (Some t), s')"
  then show "\<exists>k < 3. \<exists>u. conflicts rs f k s = Some u \<and> f u = (Inr t, s')"
    unfolding retry_conflicts_def CONFLICT_ATTEMPTS_def by (rule retry_some)
next
  assume "\<exists>k < 3. \<exists>u. conflicts rs f k s = Some u \<and> f u = (Inr t, s')"
  then obtain k u where k: "k < 3" "conflicts rs f k s = Some u" "f u = (Inr t, s')" by blast
  then obtain n where "3 - k = Suc n" by (cases "3 - k") auto
  with retry_after[OF k(2), of 3 what lr 0] k show "retry_conflicts what rs f lr s = (Inr (Some t), s')"
    by (simp add: retry_conflicts_def CONFLICT_ATTEMPTS_def)
next
  assume "retry_conflicts what rs f lr s = (Inr None, s')"
  from retry_none[OF this[unfolded retry_conflicts_def CONFLICT_ATTEMPTS_def]]
  show "lr = Benign" "\<exists>k < 3. \<exists>u e. 0 < k \<and> conflicts rs f k s = Some u \<and> f u = (Inl e, s') \<and> lost_target e" by auto
next
  assume "conflicts rs f 3 s = Some s'"
  from retry_after[OF this, of 3 what lr 0] show "retry_conflicts what rs f lr s = (Inl (ConflictExhausted what 3), s')"
    by (simp add: retry_conflicts_def CONFLICT_ATTEMPTS_def)
qed

text \<open>A node on which the first attempt conflicts: the state counts the attempts.\<close>

definition sample_attempt :: "(nat, txid) op" where
  "sample_attempt n = (if n = 0 then (Inl (WBroadcast (Conflict [])), 1) else (Inr 9, n))"

lemma retry_policy_sample:
  "retry_conflicts ''draw'' (op_ret ()) sample_attempt RaceError 0 = (Inr (Some 9), 1)"
proof -
  have "conflicts (op_ret ()) sample_attempt 1 0 = Some 1"
    unfolding One_nat_def by (simp add: conflicts_Suc sample_attempt_def op_ret_def)
  moreover have "sample_attempt 1 = (Inr 9, 1)" by (simp add: sample_attempt_def)
  ultimately have "\<exists>k < 3. \<exists>u. conflicts (op_ret ()) sample_attempt k 0 = Some u \<and> sample_attempt u = (Inr 9, 1)"
    by (intro exI[of _ 1]) auto
  then show ?thesis using retry_policy[of "''draw''" "op_ret ()" sample_attempt RaceError 0 9 1] by blast
qed

end
