(* ===== verification/Styx_Ops.thy ===== *)
theory Styx_Ops
  imports Styx_Wallet
begin

text \<open>
  The owner operations (\<open>styx-wallet/src/ops.rs\<close>), one definition per method: select coins, build
  with the checked builder, sign, broadcast, and the conflict retry around it.
\<close>

section \<open>Coins\<close>

record op_report =
  or_txid :: txid
  or_vault :: "vault_utxo option"

definition funding_coin_of :: "('p, 'f) wallet_env \<Rightarrow> ('p, 'f) wallet \<Rightarrow> outpoint \<times> u64 \<Rightarrow> funding_coin" where
  "funding_coin_of E w c = \<lparr>fc_outpoint = fst c, fc_value = Sats (snd c), fc_spk = funding_spk E w\<rparr>"

definition obol_coin_of :: "('p, 'f) wallet_env \<Rightarrow> ('p, 'f) wallet \<Rightarrow> outpoint \<times> u64 \<Rightarrow> obol_coin" where
  "obol_coin_of E w c = \<lparr>oc_coin_outpoint = fst c, oc_coin_value = Obol (snd c), oc_coin_spk = funding_spk E w\<rparr>"

definition pick_from :: "(outpoint \<times> u64) list \<Rightarrow> u64 \<Rightarrow> wallet_error + outpoint \<times> u64" where
  "pick_from coins need =
     (case select_at_least coins need of
        None \<Rightarrow> Inl (InsufficientLbtc need (coins_sum coins))
      | Some c \<Rightarrow> Inr c)"

definition pick_lbtc :: "('p, 'f) wallet_env \<Rightarrow> u64 \<Rightarrow> ('p, 'f, outpoint \<times> u64) wop" where
  "pick_lbtc E need = op_bind (lbtc_coins E) (\<lambda>coins. op_lift (pick_from coins need))"

definition ensure_obol :: "('p, 'f) wallet_env \<Rightarrow> u64 \<Rightarrow> ('p, 'f, outpoint \<times> u64) wop" where
  "ensure_obol E need =
     op_bind (obol_coins E) (\<lambda>coins.
     case select_at_least coins need of
       Some c \<Rightarrow> op_ret c
     | None \<Rightarrow>
         if coins_sum coins < need then op_lift (Inl (InsufficientObol need (coins_sum coins)))
         else consolidate_obol E)"

text \<open>
  The on-ramp pays from the NODE's wallet to the funding script: \<open>pay\<close> selects coins of that wallet,
  has the node sign the transaction and broadcasts it; \<open>fund_address\<close> waits, bounded, while the wallet
  does not show enough coins.
\<close>

definition node_broadcast :: "('p, 'f) wallet_env \<Rightarrow> transaction \<Rightarrow> ('p, 'f, txid) wop" where
  "node_broadcast E tx w =
     (case broadcast E tx w of
        (Inl (WBroadcast e), w') \<Rightarrow> (Inl (WNode (Rpc ''send'' (show_broadcast_error e))), w')
      | r \<Rightarrow> r)"

definition node_pay :: "('p, 'f) wallet_env \<Rightarrow> (script \<times> u64) list \<Rightarrow> string \<Rightarrow> ('p, 'f, txid) wop" where
  "node_pay E outs what w =
     (let policy = pr_policy (cx_params (wl_ctx w)); K = we_codec E; spend = sum_list (map snd outs) + sats_raw FEE in
      op_bind (node_op E (\<lambda>calls. map_err WNode (select_coins K (calls 0) policy spend what))) (\<lambda>(inputs, sum).
      let change = sum - spend in
      op_bind (if 0 < change then node_op E (\<lambda>calls. map_err WNode (new_address K (calls 0))) else op_ret []) (\<lambda>spk.
      op_bind (node_op E (\<lambda>calls. map_err WNode (signed_tx K (nc_tx_hex K (pay_tx policy outs inputs change spk)) (calls 0))))
        (node_broadcast E))) w)"

fun fund_attempts :: "('p, 'f) wallet_env \<Rightarrow> script \<Rightarrow> u64 \<Rightarrow> nat \<Rightarrow> node_error option \<Rightarrow> ('p, 'f, outpoint) wop" where
  "fund_attempts E spk value 0 last_err w =
     (Inl (WNode (case last_err of Some e \<Rightarrow> e | None \<Rightarrow> Shape ''fund_address: no coins'')), w)"
| "fund_attempts E spk value (Suc n) last_err w =
     (case node_pay E [(spk, value)] ''fund_address'' w of
        (Inr txid, w') \<Rightarrow> node_op E (\<lambda>calls. map_err WNode (node_find (we_codec E) (calls 0) txid spk value)) w'
      | (Inl (WNode (Funding m)), w') \<Rightarrow> fund_attempts E spk value n (Some (Funding m)) w'
      | (Inl e, w') \<Rightarrow> (Inl e, w'))"

definition fund_address :: "('p, 'f) wallet_env \<Rightarrow> script \<Rightarrow> u64 \<Rightarrow> ('p, 'f, outpoint) wop" where
  "fund_address E spk value = fund_attempts E spk value 120 None"

definition fund :: "('p, 'f) wallet_env \<Rightarrow> u64 \<Rightarrow> ('p, 'f, outpoint) wop" where
  "fund E sats w = fund_address E (funding_spk E w) sats w"

section \<open>Building, signing and sending a plan\<close>

text \<open>Build against the wallet, then sign and broadcast; the owner operations also install the owner's signature.\<close>

definition submit ::
  "('p, 'f) wallet_env \<Rightarrow> bool \<Rightarrow> (('p, 'f) wallet \<Rightarrow> build_error + 'd built) \<Rightarrow> ('d \<Rightarrow> vault_utxo option) \<Rightarrow>
     ('p, 'f, op_report) wop" where
  "submit E owner build succ w =
     (case build w of
        Inl e \<Rightarrow> (Inl (WBuild e), w)
      | Inr b \<Rightarrow>
          (case (if owner then map_err WPrune (owner_sign (we_lib E) (we_prover E) (wl_ctx w) (bt_plan b) (wl_owner w))
                 else Inr (bt_plan b)) of
             Inl e \<Rightarrow> (Inl e, w)
           | Inr plan \<Rightarrow>
               op_bind (sign_and_broadcast E plan) (\<lambda>txid. op_ret \<lparr>or_txid = txid, or_vault = succ (bt_expected b)\<rparr>) w))"

text \<open>
  The retry counts transactions and the operation's report is kept beside the state, as the source
  keeps it in a variable the closure assigns.
\<close>

definition beside :: "('s, 'a) op \<Rightarrow> ('s \<times> op_report option, 'a) op" where
  "beside m s = (case m (fst s) of (r, t) \<Rightarrow> (r, (t, snd s)))"

definition reporting :: "('s, op_report) op \<Rightarrow> ('s \<times> op_report option, txid) op" where
  "reporting once s =
     (case once (fst s) of
        (Inl e, t) \<Rightarrow> (Inl e, (t, snd s))
      | (Inr rep, t) \<Rightarrow> (Inr (or_txid rep), (t, Some rep)))"

definition with_retry :: "string \<Rightarrow> ('s, unit) op \<Rightarrow> ('s, op_report) op \<Rightarrow> ('s, op_report) op" where
  "with_retry what rs once s =
     (case retry_conflicts what (beside rs) (reporting once) RaceError (s, None) of
        (Inl e, (s', _)) \<Rightarrow> (Inl e, s')
      | (Inr _, (s', Some rep)) \<Rightarrow> (Inr rep, s')
      | (Inr _, (s', None)) \<Rightarrow> (Inl (ConflictExhausted what CONFLICT_ATTEMPTS), s'))"

section \<open>OPEN\<close>

definition open_need :: "obol \<Rightarrow> sats \<Rightarrow> oracle_tick \<Rightarrow> wallet_error + sats" where
  "open_need prin collateral tick =
     map_err WMath
      (bind_res (covenant_cents prin) (\<lambda>debt_cents.
       bind_res (sats_checked_add collateral (coll_at_cr debt_cents (fst (price_range tick)) K_FEE_HALF_PERCENT)) (\<lambda>x.
       sats_checked_add x FEE)))"

definition open_intent_of ::
  "('p, 'f) wallet_env \<Rightarrow> ('p, 'f) wallet \<Rightarrow> obol \<Rightarrow> sats \<Rightarrow> oracle_tick \<Rightarrow> funding_coin \<Rightarrow> open_intent" where
  "open_intent_of E w prin collateral tick funding =
     \<lparr>op_owner = owner_pk E w, op_principal = prin, op_collateral = collateral, op_borrower_spk = funding_spk E w,
      op_funding = funding, op_tick = tick, op_fee = FEE\<rparr>"

definition OUTPOINT_DEFAULT :: outpoint where "OUTPOINT_DEFAULT = OutPoint 0 (- 1)"

definition validate_open ::
  "('p, 'f) wallet_env \<Rightarrow> obol \<Rightarrow> sats \<Rightarrow> oracle_tick \<Rightarrow> ('p, 'f) wallet \<Rightarrow> wallet_error + unit" where
  "validate_open E prin collateral tick w =
     bind_res (protocol w) (\<lambda>ps.
     bind_res (open_need prin collateral tick) (\<lambda>need.
     let probe = \<lparr>fc_outpoint = OUTPOINT_DEFAULT, fc_value = need, fc_spk = funding_spk E w\<rparr> in
     bind_res (map_err WBuild (open_vault (we_lib E) (wl_ctx w) ps (open_intent_of E w prin collateral tick probe))) (\<lambda>_.
     Inr ())))"

text \<open>
  The shaping transaction of the operation is remembered across its attempts: the state is the
  wallet with the shaped coin.
\<close>

type_synonym ('p, 'f) shaping = "('p, 'f) wallet \<times> outpoint option"

definition with_shaped :: "('p, 'f, 'a) wop \<Rightarrow> (('p, 'f) shaping, 'a) op" where
  "with_shaped m s = (case m (fst s) of (r, w) \<Rightarrow> (r, (w, snd s)))"

definition open_funding :: "('p, 'f) wallet_env \<Rightarrow> sats \<Rightarrow> (('p, 'f) shaping, outpoint \<times> u64) op" where
  "open_funding E need =
     op_bind (with_shaped (lbtc_coins E)) (\<lambda>coins s.
       case find (\<lambda>(_, v). v = sats_raw need) coins of
         Some c \<Rightarrow> (Inr c, s)
       | None \<Rightarrow>
           (case snd s of
              Some op \<Rightarrow> (Inr (op, sats_raw need), s)
            | None \<Rightarrow>
                (case shape_exact E need (fst s) of
                   (Inl e, w) \<Rightarrow> (Inl e, (w, None))
                 | (Inr (exact, _), w) \<Rightarrow> (Inr (exact, sats_raw need), (w, Some exact)))))"

definition open_once ::
  "('p, 'f) wallet_env \<Rightarrow> obol \<Rightarrow> sats \<Rightarrow> oracle_tick \<Rightarrow> (('p, 'f) shaping, op_report) op" where
  "open_once E prin collateral tick =
     op_bind (op_gets (\<lambda>s. protocol (fst s))) (\<lambda>r. op_bind (op_lift r) (\<lambda>ps.
     op_bind (op_lift (open_need prin collateral tick)) (\<lambda>need.
     op_bind (open_funding E need) (\<lambda>coin.
     with_shaped (submit E False
       (\<lambda>w. open_vault (we_lib E) (wl_ctx w) ps (open_intent_of E w prin collateral tick (funding_coin_of E w coin)))
       (\<lambda>d. Some (od_vault d)))))))"

definition wallet_open ::
  "('p, 'f) wallet_env \<Rightarrow> obol \<Rightarrow> sats \<Rightarrow> oracle_tick \<Rightarrow> ('p, 'f, op_report) wop" where
  "wallet_open E prin collateral tick w =
     (case validate_open E prin collateral tick w of
        Inl e \<Rightarrow> (Inl e, w)
      | Inr _ \<Rightarrow>
          (case with_retry ''open'' (with_shaped (resync E)) (open_once E prin collateral tick) (w, None) of
             (r, (w', _)) \<Rightarrow> (r, w')))"

definition collateral_for :: "obol \<Rightarrow> oracle_tick \<Rightarrow> u32 option \<Rightarrow> wallet_error + sats" where
  "collateral_for prin tick cr_percent =
     (let k = (case cr_percent of Some p \<Rightarrow> from_cr_percent p | None \<Rightarrow> K_OPEN_MIN) in
      map_err WMath (bind_res (covenant_cents prin) (\<lambda>cents. Inr (coll_at_cr cents (fst (price_range tick)) k))))"

section \<open>The operations on an existing vault\<close>

definition repay_intent_of ::
  "('p, 'f) wallet_env \<Rightarrow> ('p, 'f) wallet \<Rightarrow> obol \<Rightarrow> outpoint \<times> u64 \<Rightarrow> outpoint \<times> u64 \<Rightarrow> repay_intent" where
  "repay_intent_of E w amount payer fee_coin =
     \<lparr>rp_amount = amount, rp_payer = obol_coin_of E w payer, rp_payer_change_spk = funding_spk E w,
      rp_fee_coin = funding_coin_of E w fee_coin, rp_change_spk = funding_spk E w, rp_fee = FEE\<rparr>"

text \<open>The protocol state and the vault an operation acts on, read before any request.\<close>

definition target :: "('p, 'f) wallet_env \<Rightarrow> outpoint option \<Rightarrow> ('p, 'f, protocol_state \<times> vault_utxo) wop" where
  "target E which w =
     (bind_res (protocol w) (\<lambda>ps. bind_res (pick_vault E which w) (\<lambda>v. Inr (ps, v))), w)"

definition repay_coins ::
  "('p, 'f) wallet_env \<Rightarrow> obol \<Rightarrow> ('p, 'f, (outpoint \<times> u64) \<times> (outpoint \<times> u64)) wop" where
  "repay_coins E amount =
     op_bind (ensure_obol E (obol_raw amount)) (\<lambda>payer.
     op_bind (lbtc_coins E) (\<lambda>lbtc.
     op_bind (op_lift (pick_from (filter (\<lambda>(op, _). op \<noteq> fst payer) lbtc) FEE_COIN_MIN)) (\<lambda>fee_coin.
     op_ret (payer, fee_coin))))"

definition repay_once :: "('p, 'f) wallet_env \<Rightarrow> outpoint option \<Rightarrow> obol \<Rightarrow> ('p, 'f, op_report) wop" where
  "repay_once E which amount =
     op_bind (target E which) (\<lambda>(ps, vault).
     op_bind (repay_coins E amount) (\<lambda>(payer, fee_coin).
     submit E True (\<lambda>w. repay (we_lib E) (wl_ctx w) (ps_pot ps) vault (repay_intent_of E w amount payer fee_coin))
       (\<lambda>d. Some (rd_vault d))))"

definition draw_intent_of ::
  "('p, 'f) wallet_env \<Rightarrow> ('p, 'f) wallet \<Rightarrow> obol \<Rightarrow> oracle_tick \<Rightarrow> draw_intent" where
  "draw_intent_of E w amount tick =
     \<lparr>dr_amount = amount, dr_borrower_spk = funding_spk E w, dr_tick = tick, dr_fee = FEE\<rparr>"

definition draw_once ::
  "('p, 'f) wallet_env \<Rightarrow> outpoint option \<Rightarrow> obol \<Rightarrow> oracle_tick \<Rightarrow> ('p, 'f, op_report) wop" where
  "draw_once E which amount tick =
     op_bind (target E which) (\<lambda>(ps, vault).
     submit E True (\<lambda>w. draw (we_lib E) (wl_ctx w) ps vault (draw_intent_of E w amount tick)) (\<lambda>d. Some (dd_vault d)))"

definition refresh_intent_of ::
  "('p, 'f) wallet_env \<Rightarrow> ('p, 'f) wallet \<Rightarrow> oracle_tick \<Rightarrow> outpoint \<times> u64 \<Rightarrow> sats \<Rightarrow> refresh_intent" where
  "refresh_intent_of E w tick fee_coin fee =
     \<lparr>rf_tick = tick, rf_fee_coin = funding_coin_of E w fee_coin, rf_change_spk = funding_spk E w, rf_fee = fee\<rparr>"

definition refresh_once :: "('p, 'f) wallet_env \<Rightarrow> outpoint option \<Rightarrow> oracle_tick \<Rightarrow> ('p, 'f, op_report) wop" where
  "refresh_once E which tick =
     op_bind (\<lambda>w. (pick_vault E which w, w)) (\<lambda>vault.
     op_bind (pick_lbtc E FEE_COIN_MIN) (\<lambda>fee_coin.
     submit E False (\<lambda>w. refresh (we_lib E) (wl_ctx w) vault (refresh_intent_of E w tick fee_coin FEE))
       (\<lambda>d. Some (fd_vault d))))"

definition close_intent_of :: "('p, 'f) wallet_env \<Rightarrow> ('p, 'f) wallet \<Rightarrow> outpoint \<times> u64 \<Rightarrow> close_intent" where
  "close_intent_of E w payer =
     \<lparr>cl_payer = obol_coin_of E w payer, cl_recipient_spk = funding_spk E w, cl_payer_change_spk = funding_spk E w,
      cl_fee = FEE\<rparr>"

definition close_once :: "('p, 'f) wallet_env \<Rightarrow> outpoint option \<Rightarrow> ('p, 'f, op_report) wop" where
  "close_once E which =
     op_bind (target E which) (\<lambda>(ps, vault).
     op_bind (ensure_obol E (obol_raw (vs_debt (oc_state vault)))) (\<lambda>payer.
     submit E True (\<lambda>w. close (we_lib E) (wl_ctx w) (ps_pot ps) vault (close_intent_of E w payer)) (\<lambda>d. None)))"

definition redeem_intent_of ::
  "('p, 'f) wallet_env \<Rightarrow> ('p, 'f) wallet \<Rightarrow> obol \<Rightarrow> outpoint \<times> u64 \<Rightarrow> oracle_tick \<Rightarrow> redeem_intent" where
  "redeem_intent_of E w x payer tick =
     \<lparr>rd_x = x, rd_redeemer = obol_coin_of E w payer, rd_redeemer_spk = funding_spk E w,
      rd_obol_change_spk = funding_spk E w, rd_tick = tick, rd_fee = FEE\<rparr>"

definition redeem_once ::
  "('p, 'f) wallet_env \<Rightarrow> outpoint option \<Rightarrow> obol \<Rightarrow> oracle_tick \<Rightarrow> ('p, 'f, op_report) wop" where
  "redeem_once E which x tick =
     op_bind (target E which) (\<lambda>(ps, vault).
     op_bind (ensure_obol E (obol_raw x)) (\<lambda>payer.
     submit E False (\<lambda>w. redeem (we_lib E) (wl_ctx w) ps vault (redeem_intent_of E w x payer tick)) (\<lambda>d. Some (xd_vault d))))"

definition wallet_repay :: "('p, 'f) wallet_env \<Rightarrow> outpoint option \<Rightarrow> obol \<Rightarrow> ('p, 'f, op_report) wop" where
  "wallet_repay E which amount = with_retry ''repay'' (resync E) (repay_once E which amount)"

definition wallet_draw :: "('p, 'f) wallet_env \<Rightarrow> outpoint option \<Rightarrow> obol \<Rightarrow> oracle_tick \<Rightarrow> ('p, 'f, op_report) wop" where
  "wallet_draw E which amount tick = with_retry ''draw'' (resync E) (draw_once E which amount tick)"

definition wallet_refresh :: "('p, 'f) wallet_env \<Rightarrow> outpoint option \<Rightarrow> oracle_tick \<Rightarrow> ('p, 'f, op_report) wop" where
  "wallet_refresh E which tick = with_retry ''refresh'' (resync E) (refresh_once E which tick)"

definition wallet_close :: "('p, 'f) wallet_env \<Rightarrow> outpoint option \<Rightarrow> ('p, 'f, op_report) wop" where
  "wallet_close E which = with_retry ''close'' (resync E) (close_once E which)"

definition wallet_redeem ::
  "('p, 'f) wallet_env \<Rightarrow> outpoint option \<Rightarrow> obol \<Rightarrow> oracle_tick \<Rightarrow> ('p, 'f, op_report) wop" where
  "wallet_redeem E which x tick = with_retry ''redeem'' (resync E) (redeem_once E which x tick)"

section \<open>The external-signer path\<close>

definition built_plan :: "build_error + 'd built \<Rightarrow> ('s, tx_plan) op" where
  "built_plan r = op_lift (map_err WBuild (map_sum id bt_plan r))"

definition close_unsigned :: "('p, 'f) wallet_env \<Rightarrow> outpoint option \<Rightarrow> ('p, 'f, tx_plan) wop" where
  "close_unsigned E which =
     op_bind (sync E) (\<lambda>_. op_bind (target E which) (\<lambda>(ps, vault).
     op_bind (ensure_obol E (obol_raw (vs_debt (oc_state vault)))) (\<lambda>payer w.
     built_plan (close (we_lib E) (wl_ctx w) (ps_pot ps) vault (close_intent_of E w payer)) w)))"

definition repay_unsigned :: "('p, 'f) wallet_env \<Rightarrow> outpoint option \<Rightarrow> obol \<Rightarrow> ('p, 'f, tx_plan) wop" where
  "repay_unsigned E which amount =
     op_bind (sync E) (\<lambda>_. op_bind (target E which) (\<lambda>(ps, vault).
     op_bind (repay_coins E amount) (\<lambda>(payer, fee_coin) w.
     built_plan (repay (we_lib E) (wl_ctx w) (ps_pot ps) vault (repay_intent_of E w amount payer fee_coin)) w)))"

definition draw_unsigned ::
  "('p, 'f) wallet_env \<Rightarrow> outpoint option \<Rightarrow> obol \<Rightarrow> oracle_tick \<Rightarrow> ('p, 'f, tx_plan) wop" where
  "draw_unsigned E which amount tick =
     op_bind (sync E) (\<lambda>_. op_bind (target E which) (\<lambda>(ps, vault) w.
     built_plan (draw (we_lib E) (wl_ctx w) ps vault (draw_intent_of E w amount tick)) w))"

definition finalize_broadcast :: "('p, 'f) wallet_env \<Rightarrow> tx_plan \<Rightarrow> ('p, 'f, txid) wop" where
  "finalize_broadcast E plan = sign_and_broadcast E plan"

section \<open>Payments\<close>

definition send_obol_plan ::
  "params \<Rightarrow> script \<Rightarrow> outpoint \<times> u64 \<Rightarrow> outpoint \<times> u64 \<Rightarrow> script \<Rightarrow> u64 \<Rightarrow> tx_plan" where
  "send_obol_plan p ours payer fee_coin dest amount =
     plain_plan
       \<lparr>tx_version = 2, tx_lock_time = 0, tx_input = [txin (fst payer), txin (fst fee_coin)],
        tx_output = [txout amount dest (pr_obol p)] @
          (if amount < snd payer then [txout (snd payer - amount) ours (pr_obol p)] else []) @
          change_and_fee (snd fee_coin - sats_raw FEE) ours (pr_policy p)\<rparr>
       [claimed (snd payer) ours (pr_obol p), claimed (snd fee_coin) ours (pr_policy p)]"

definition send_obol :: "('p, 'f) wallet_env \<Rightarrow> script \<Rightarrow> obol \<Rightarrow> ('p, 'f, txid) wop" where
  "send_obol E dest amount =
     op_bind (ensure_obol E (obol_raw amount)) (\<lambda>payer.
     op_bind (pick_lbtc E FEE_COIN_MIN) (\<lambda>fee_coin w.
     sign_and_broadcast E
       (send_obol_plan (cx_params (wl_ctx w)) (funding_spk E w) payer fee_coin dest (obol_raw amount)) w))"

definition send_lbtc :: "('p, 'f) wallet_env \<Rightarrow> script \<Rightarrow> sats \<Rightarrow> ('p, 'f, txid) wop" where
  "send_lbtc E dest amount =
     op_bind (lbtc_coins E) (\<lambda>coins w.
       let need = sats_raw amount + sats_raw FEE in
       case select_accumulate coins need of
         None \<Rightarrow> (Inl (InsufficientLbtc need (coins_sum coins)), w)
       | Some taken \<Rightarrow>
           sign_and_broadcast E
             (pay_plan (cx_params (wl_ctx w)) (funding_spk E w) taken dest (sats_raw amount) (coins_sum taken - need)) w)"


section \<open>What an attempt leaves behind\<close>

text \<open>The fixed part of a session: the deployment and the two keys.\<close>

definition session_of :: "('p, 'f) wallet \<Rightarrow> 'p ctx \<times> u256 \<times> u256" where
  "session_of w = (wl_ctx w, wl_owner w, wl_funding w)"

lemma session_of_updates [simp]:
  "session_of (w\<lparr>wl_clock := n\<rparr>) = session_of w" "session_of (w\<lparr>wl_sent := txs\<rparr>) = session_of w"
  "session_of (w\<lparr>wl_state := st\<rparr>) = session_of w" "session_of (w\<lparr>wl_disk := d\<rparr>) = session_of w"
  by (simp_all add: session_of_def)

lemma session_views:
  assumes "session_of w' = session_of w"
  shows "wl_ctx w' = wl_ctx w" "owner_pk E w' = owner_pk E w" "funding_spk E w' = funding_spk E w"
    "funding_coin_of E w' c = funding_coin_of E w c" "obol_coin_of E w' c = obol_coin_of E w c"
  using assms by (simp_all add: session_of_def owner_pk_def funding_spk_def funding_coin_of_def obol_coin_of_def)

lemma session_intents:
  assumes "session_of w' = session_of w"
  shows "open_intent_of E w' prin collateral tick (funding_coin_of E w' c) = open_intent_of E w prin collateral tick (funding_coin_of E w c)"
    "repay_intent_of E w' = repay_intent_of E w" "draw_intent_of E w' = draw_intent_of E w"
    "refresh_intent_of E w' = refresh_intent_of E w" "close_intent_of E w' = close_intent_of E w"
    "redeem_intent_of E w' = redeem_intent_of E w"
  using session_views[OF assms]
  by (simp_all add: open_intent_of_def repay_intent_of_def draw_intent_of_def refresh_intent_of_def close_intent_of_def
      redeem_intent_of_def fun_eq_iff)

lemma resync_session: "resync E w = (r, w') \<Longrightarrow> session_of w' = session_of w \<and> wl_sent w' = wl_sent w"
  by (auto simp: resync_def op_bind_def op_ret_def sync_def Let_def split: sum.splits prod.splits)

lemma my_vaults_owner: "v \<in> set (my_vaults E w) \<Longrightarrow> vs_owner (oc_state v) = owner_pk E w"
  by (auto simp: my_vaults_def set_somes tv_known_def split: option.splits)

lemma pick_vault_owner: "pick_vault E which w = Inr v \<Longrightarrow> vs_owner (oc_state v) = owner_pk E w"
  using my_vaults_owner[of v E w]
  by (auto simp: pick_vault_def tv_known_def split: option.splits if_splits list.splits)

lemma clock_self [simp]: "\<exists>n. w = w\<lparr>wl_clock := n\<rparr>"
  by (rule exI[of _ "wl_clock w"]) simp

lemma submit_cases:
  assumes "submit E owner build succ w = (r, w')"
  shows "case r of
      Inl _ \<Rightarrow> \<exists>n. w' = w\<lparr>wl_clock := n\<rparr>
    | Inr rep \<Rightarrow> \<exists>b tx n. build w = Inr b \<and> strip tx = strip (pl_tx (bt_plan b)) \<and> or_vault rep = succ (bt_expected b) \<and>
        w' = w\<lparr>wl_clock := n, wl_sent := tx # wl_sent w\<rparr>"
proof (cases "build w")
  case (Inl e)
  with assms show ?thesis by (auto simp: submit_def)
next
  case (Inr b)
  define signed where "signed = (if owner then map_err WPrune (owner_sign (we_lib E) (we_prover E) (wl_ctx w) (bt_plan b) (wl_owner w))
    else Inr (bt_plan b))"
  show ?thesis
  proof (cases signed)
    case (Inl e)
    with assms Inr show ?thesis by (auto simp: submit_def signed_def[symmetric])
  next
    case plan: (Inr plan)
    then have same: "pl_tx plan = pl_tx (bt_plan b)"
      by (auto simp: signed_def owner_sign_def install_owner_sig_def res_Inr split: if_splits)
    obtain q w1 where q: "sign_and_broadcast E plan w = (q, w1)" by force
    with assms Inr plan have "r = map_sum id (\<lambda>t. \<lparr>or_txid = t, or_vault = succ (bt_expected b)\<rparr>) q" "w' = w1"
      by (auto simp: submit_def signed_def[symmetric] op_bind_def op_ret_def split: sum.splits)
    then show ?thesis
      using sign_and_broadcast_sent[OF q] Inr same
      by (cases q) (force dest!: wallet_sign_body)+
  qed
qed

section \<open>The contract of a retried operation\<close>

text \<open>What an operation that reports a vault owes the retry: the laws of the retried operation, on the state without the report.\<close>

locale retried_report =
  fixes rs :: "('s, unit) op" and once :: "('s, op_report) op" and inv fail_post :: "'s \<Rightarrow> bool"
    and done_post :: "op_report \<Rightarrow> 's \<Rightarrow> bool"
  assumes again: "\<lbrakk>inv s; once s = (Inl (WBroadcast (Conflict m)), s'); rs s' = (Inr u, s'')\<rbrakk> \<Longrightarrow> inv s''"
    and stuck: "\<lbrakk>inv s; once s = (Inl (WBroadcast (Conflict m)), s'); rs s' = (Inl e, s'')\<rbrakk> \<Longrightarrow> fail_post s''"
    and reports: "\<lbrakk>inv s; once s = (Inr rep, s')\<rbrakk> \<Longrightarrow> done_post rep s'"
    and refuses: "\<lbrakk>inv s; once s = (Inl e, s')\<rbrakk> \<Longrightarrow> fail_post s'"
    and idle: "inv s \<Longrightarrow> fail_post s"

sublocale retried_report \<subseteq> reported: retried_op "beside rs" "reporting once" "\<lambda>s. inv (fst s)" "\<lambda>s. fail_post (fst s)"
  "\<lambda>t s. \<exists>rep. snd s = Some rep \<and> or_txid rep = t \<and> done_post rep (fst s)"
  by unfold_locales
    (auto simp: beside_def reporting_def intro: again stuck reports refuses idle split: prod.splits sum.splits)

context retried_report
begin

lemma with_retry_post:
  assumes "inv s" "with_retry what rs once s = (r, s')"
  shows "case r of Inl _ \<Rightarrow> fail_post s' | Inr rep \<Rightarrow> done_post rep s'"
proof -
  obtain q t where q: "retry_conflicts what (beside rs) (reporting once) RaceError (s, None) = (q, t)" by (meson surj_pair)
  have "q \<noteq> Inr None"
    using q retry_none[of what "beside rs" "reporting once" RaceError 0 CONFLICT_ATTEMPTS "(s, None)" t]
    by (auto simp: retry_conflicts_def)
  with reported.retry_conflicts_post[OF _ q] assms q show ?thesis
    by (auto simp: with_retry_def split: sum.splits option.splits prod.splits)
qed

end

section \<open>The transactions an operation sends\<close>

text \<open>A merge of our own OBOL coins into one.\<close>

definition consolidation :: "('p, 'f) wallet_env \<Rightarrow> ('p, 'f) wallet \<Rightarrow> transaction \<Rightarrow> bool" where
  "consolidation E w tx \<longleftrightarrow>
     (\<exists>obol fee_coin. strip tx = strip (pl_tx (consolidate_plan (cx_params (wl_ctx w)) (funding_spk E w) obol fee_coin)))"

lemma consolidationI:
  "strip tx = strip (pl_tx (consolidate_plan (cx_params (wl_ctx w)) (funding_spk E w) obol fee_coin)) \<Longrightarrow> consolidation E w tx"
  unfolding consolidation_def by blast

lemma consolidation_session: "session_of w' = session_of w \<Longrightarrow> consolidation E w' tx = consolidation E w tx"
  using session_views(1)[of w' w] session_views(3)[of w' w E] by (simp add: consolidation_def)

text \<open>The wallet later in the same session, with only transactions of a kind sent in between.\<close>

definition kept :: "(transaction \<Rightarrow> bool) \<Rightarrow> ('p, 'f) wallet \<Rightarrow> ('p, 'f) wallet \<Rightarrow> bool" where
  "kept C w w' \<longleftrightarrow> session_of w' = session_of w \<and> (\<exists>pre. wl_sent w' = pre @ wl_sent w \<and> (\<forall>tx \<in> set pre. C tx))"

lemma kept_refl [simp]: "kept C w w"
  by (simp add: kept_def)

lemma kept_trans: "\<lbrakk>kept C w u; kept C u v\<rbrakk> \<Longrightarrow> kept C w v"
  by (auto simp: kept_def)

lemma kept_clock [simp]: "kept C w (w\<lparr>wl_clock := n\<rparr>)"
  by (simp add: kept_def)

lemma kept_quiet: "\<lbrakk>quiet m; m w = (r, w')\<rbrakk> \<Longrightarrow> kept C w w'"
  by (auto dest: quietD)

lemma kept_resync: "resync E w = (r, w') \<Longrightarrow> kept C w w'"
  by (auto simp: kept_def dest: resync_session)

abbreviation merged :: "('p, 'f) wallet_env \<Rightarrow> ('p, 'f) wallet \<Rightarrow> ('p, 'f) wallet \<Rightarrow> bool" where
  "merged E w \<equiv> kept (consolidation E w) w"

lemma merged_trans: "\<lbrakk>merged E w u; merged E u v\<rbrakk> \<Longrightarrow> merged E w v"
  using consolidation_session[of u w E] by (auto simp: kept_def)

text \<open>An operation that sends nothing but merges.\<close>

definition merging :: "('p, 'f) wallet_env \<Rightarrow> ('p, 'f, 'a) wop \<Rightarrow> bool" where
  "merging E m \<longleftrightarrow> (\<forall>w r w'. m w = (r, w') \<longrightarrow> merged E w w')"

lemma merging_quiet: "quiet m \<Longrightarrow> merging E m"
  by (auto simp: merging_def intro: kept_quiet)

lemma merging_basic [simp]: "merging E (op_lift r)" "merging E (op_ret a)" "merging E (\<lambda>w. (f w, w))" "merging E (target E which)"
  by (auto simp: merging_def op_lift_def op_ret_def target_def)

lemma merging_bind: "\<lbrakk>merging E m; \<And>a. merging E (f a)\<rbrakk> \<Longrightarrow> merging E (op_bind m f)"
  unfolding merging_def op_bind_def by (fastforce intro: merged_trans split: prod.splits sum.splits)

lemma merging_scan [simp]: "merging E (lbtc_coins E)" "merging E (obol_coins E)"
  by (simp_all add: merging_quiet)

lemma merging_pick [simp]: "merging E (pick_lbtc E need)"
  by (simp add: pick_lbtc_def merging_bind)

lemma merging_consolidate [simp]: "merging E (consolidate_obol E)"
  unfolding consolidate_obol_def
proof (intro merging_bind merging_scan)
  fix obol lbtc
  show "merging E (\<lambda>w. case select_at_least lbtc FEE_COIN_MIN of
      None \<Rightarrow> (Inl (InsufficientLbtc FEE_COIN_MIN 0), w)
    | Some fee_coin \<Rightarrow>
        op_bind (sign_and_broadcast E (consolidate_plan (cx_params (wl_ctx w)) (funding_spk E w) obol fee_coin))
          (\<lambda>txid. op_ret (OutPoint txid 0, coins_sum obol)) w)"
  proof (cases "select_at_least lbtc FEE_COIN_MIN")
    case (Some fee_coin)
    show ?thesis
      unfolding merging_def Some option.simps
    proof (intro allI impI)
      fix w r w'
      let ?plan = "consolidate_plan (cx_params (wl_ctx w)) (funding_spk E w) obol fee_coin"
      assume "op_bind (sign_and_broadcast E ?plan) (\<lambda>txid. op_ret (OutPoint txid 0, coins_sum obol)) w = (r, w')"
      then obtain q where "sign_and_broadcast E ?plan w = (q, w')"
        by (auto simp: op_bind_def op_ret_def split: sum.splits prod.splits)
      from sign_and_broadcast_sent[OF this] show "merged E w w'"
        by (cases q) (auto simp: kept_def intro: consolidationI dest!: wallet_sign_body)
    qed
  qed (simp add: merging_def)
qed

lemma merging_ensure [simp]: "merging E (ensure_obol E need)"
  unfolding ensure_obol_def by (rule merging_bind) (auto split: option.splits)

lemma merging_repay_coins [simp]: "merging E (repay_coins E amount)"
  unfolding repay_coins_def by (intro merging_bind) auto

section \<open>The operations on an existing vault\<close>

text \<open>A sent transaction and its report are those of a built plan.\<close>

definition built_by :: "(build_error + 'd built) \<Rightarrow> ('d \<Rightarrow> vault_utxo option) \<Rightarrow> op_report \<Rightarrow> transaction \<Rightarrow> bool" where
  "built_by r succ rep tx \<longleftrightarrow>
     (\<exists>b. r = Inr b \<and> strip tx = strip (pl_tx (bt_plan b)) \<and> or_vault rep = succ (bt_expected b))"

text \<open>
  What an operation sends: transactions of the kind \<open>C\<close> only when it fails, and after them one
  transaction that the report describes when it succeeds.
\<close>

definition sends ::
  "(transaction \<Rightarrow> bool) \<Rightarrow> ('r \<Rightarrow> transaction \<Rightarrow> bool) \<Rightarrow> ('p, 'f) wallet \<Rightarrow> (wallet_error + 'r) \<times> ('p, 'f) wallet \<Rightarrow> bool" where
  "sends C P w res \<longleftrightarrow>
     (case res of
        (Inl _, w') \<Rightarrow> kept C w w'
      | (Inr rep, w') \<Rightarrow>
          session_of w' = session_of w \<and>
          (\<exists>tx pre. wl_sent w' = tx # pre @ wl_sent w \<and> (\<forall>t \<in> set pre. C t) \<and> P rep tx))"

lemma submit_sends:
  assumes "kept C w u" "\<And>rep tx. built_by (build u) succ rep tx \<Longrightarrow> P rep tx"
  shows "sends C P w (submit E owner build succ u)"
proof -
  obtain r u' where s: "submit E owner build succ u = (r, u')" by force
  show ?thesis
    using submit_cases[OF s] assms by (cases r) (auto simp: s sends_def kept_def built_by_def)
qed

lemma prepared_sends:
  assumes "\<And>r v. prep u = (r, v) \<Longrightarrow> kept C w v" "\<And>a v. \<lbrakk>prep u = (Inr a, v); kept C w v\<rbrakk> \<Longrightarrow> sends C P w (f a v)"
  shows "sends C P w (op_bind prep f u)"
proof -
  obtain r v where p: "prep u = (r, v)" by force
  then show ?thesis using assms by (cases r) (auto simp: op_bind_def sends_def)
qed

lemma merging_kept: "\<lbrakk>merging E prep; merged E w u; prep u = (r, v)\<rbrakk> \<Longrightarrow> merged E w v"
  unfolding merging_def using merged_trans by blast

lemma quiet_kept: "\<lbrakk>quiet prep; kept C w u; prep u = (r, v)\<rbrakk> \<Longrightarrow> kept C w v"
  using kept_quiet kept_trans by blast

lemma target_quiet [simp]: "quiet (target E which)" "quiet (\<lambda>w. (f w, w))" "quiet (pick_lbtc E need)"
  by (auto simp: quiet_def target_def pick_lbtc_def op_bind_def op_lift_def lbtc_coins_def node_op_def split: sum.splits)

lemma target_owner:
  "\<lbrakk>target E which u = (Inr (ps, v), u'); kept C w u\<rbrakk> \<Longrightarrow> vs_owner (oc_state v) = owner_pk E w"
  using session_views(2)[of u w E] by (auto simp: target_def res_Inr kept_def dest!: pick_vault_owner)

text \<open>
  The vault an operation acts on: of the wallet's own key, and the one the caller named; when none
  was named, the only vault of the wallet's key in the index the attempt saw.
\<close>

definition picked :: "('p, 'f) wallet_env \<Rightarrow> outpoint option \<Rightarrow> ('p, 'f) wallet \<Rightarrow> vault_utxo \<Rightarrow> bool" where
  "picked E which w v \<longleftrightarrow> vs_owner (oc_state v) = owner_pk E w \<and>
     (case which of Some op \<Rightarrow> oc_outpoint v = op | None \<Rightarrow> \<exists>st. my_vaults E (w\<lparr>wl_state := st\<rparr>) = [v])"

lemma my_vaults_session: "session_of w' = session_of w \<Longrightarrow> my_vaults E (w'\<lparr>wl_state := st\<rparr>) = my_vaults E (w\<lparr>wl_state := st\<rparr>)"
  using session_views(2)[of "w'\<lparr>wl_state := st\<rparr>" "w\<lparr>wl_state := st\<rparr>" E] by (simp add: my_vaults_def)

lemma picked_session: "session_of w' = session_of w \<Longrightarrow> picked E which w' v = picked E which w v"
  using session_views(2)[of w' w E] my_vaults_session[of w' w E] by (simp add: picked_def split: option.splits)

lemma pick_vault_picked: "pick_vault E which w = Inr v \<Longrightarrow> picked E which w v"
  using pick_vault_owner[of E which w v]
  by (auto simp: picked_def pick_vault_def tv_known_def intro!: exI[of _ "wl_state w"] split: option.splits if_splits list.splits)

lemma target_picked:
  "\<lbrakk>target E which u = (Inr (ps, v), u'); kept C w u\<rbrakk> \<Longrightarrow> picked E which w v"
  using picked_session[of u w E which v] by (auto simp: target_def res_Inr kept_def dest!: pick_vault_picked)

lemma once_contract:
  assumes "\<And>u. kept C w u \<Longrightarrow> sends C P w (once u)"
  shows "retried_report (resync E) once (kept C w) (kept C w) (\<lambda>rep w'. sends C P w (Inr rep, w'))"
proof
  fix u r u' m v e and rep :: op_report and v'
  assume u: "kept C w u"
  note s = assms[OF u]
  { assume "once u = (Inl (WBroadcast (Conflict m)), v)" "resync E v = (Inr r, v')"
    then show "kept C w v'" using s kept_resync kept_trans by (fastforce simp: sends_def) }
  { assume "once u = (Inl (WBroadcast (Conflict m)), v)" "resync E v = (Inl e, v')"
    then show "kept C w v'" using s kept_resync kept_trans by (fastforce simp: sends_def) }
  { assume "once u = (Inr rep, v)" then show "sends C P w (Inr rep, v)" using s by simp }
  { assume "once u = (Inl e, v)" then show "kept C w v" using s by (simp add: sends_def) }
  show "kept C w u" by (rule u)
qed

text \<open>The transaction of each operation: the checked builder's, for a vault of ours and the caller's amounts.\<close>

definition vault_closed :: "('p, 'f) wallet_env \<Rightarrow> outpoint option \<Rightarrow> ('p, 'f) wallet \<Rightarrow> op_report \<Rightarrow> transaction \<Rightarrow> bool" where
  "vault_closed E which w rep tx \<longleftrightarrow>
     (\<exists>pot v payer. picked E which w v \<and>
        built_by (close (we_lib E) (wl_ctx w) pot v (close_intent_of E w payer)) (\<lambda>_. None) rep tx)"

definition repaid :: "('p, 'f) wallet_env \<Rightarrow> outpoint option \<Rightarrow> obol \<Rightarrow> ('p, 'f) wallet \<Rightarrow> op_report \<Rightarrow> transaction \<Rightarrow> bool" where
  "repaid E which amount w rep tx \<longleftrightarrow>
     (\<exists>pot v payer fee_coin. picked E which w v \<and>
        built_by (repay (we_lib E) (wl_ctx w) pot v (repay_intent_of E w amount payer fee_coin)) (\<lambda>d. Some (rd_vault d)) rep tx)"

definition redeemed :: "('p, 'f) wallet_env \<Rightarrow> outpoint option \<Rightarrow> obol \<Rightarrow> oracle_tick \<Rightarrow> ('p, 'f) wallet \<Rightarrow> op_report \<Rightarrow> transaction \<Rightarrow> bool" where
  "redeemed E which x tick w rep tx \<longleftrightarrow>
     (\<exists>ps v payer. picked E which w v \<and>
        built_by (redeem (we_lib E) (wl_ctx w) ps v (redeem_intent_of E w x payer tick)) (\<lambda>d. Some (xd_vault d)) rep tx)"

definition drawn :: "('p, 'f) wallet_env \<Rightarrow> outpoint option \<Rightarrow> obol \<Rightarrow> oracle_tick \<Rightarrow> ('p, 'f) wallet \<Rightarrow> op_report \<Rightarrow> transaction \<Rightarrow> bool" where
  "drawn E which amount tick w rep tx \<longleftrightarrow>
     (\<exists>ps v. picked E which w v \<and>
        built_by (draw (we_lib E) (wl_ctx w) ps v (draw_intent_of E w amount tick)) (\<lambda>d. Some (dd_vault d)) rep tx)"

definition refreshed :: "('p, 'f) wallet_env \<Rightarrow> outpoint option \<Rightarrow> oracle_tick \<Rightarrow> ('p, 'f) wallet \<Rightarrow> op_report \<Rightarrow> transaction \<Rightarrow> bool" where
  "refreshed E which tick w rep tx \<longleftrightarrow>
     (\<exists>v fee_coin. picked E which w v \<and>
        built_by (refresh (we_lib E) (wl_ctx w) v (refresh_intent_of E w tick fee_coin FEE)) (\<lambda>d. Some (fd_vault d)) rep tx)"

lemma kept_session: "kept C w u \<Longrightarrow> session_of u = session_of w"
  by (simp add: kept_def)

lemma target_sends:
  assumes "kept C w u" "\<And>ps v. picked E which w v \<Longrightarrow> sends C P w (f (ps, v) u)"
  shows "sends C P w (op_bind (target E which) f u)"
  by (rule prepared_sends) (use assms target_picked[of E which u _ _ _ C w] in \<open>auto simp: target_def\<close>)

lemma merging_sends:
  assumes "merging E prep" "merged E w u" "\<And>a v. merged E w v \<Longrightarrow> sends (consolidation E w) P w (f a v)"
  shows "sends (consolidation E w) P w (op_bind prep f u)"
  by (rule prepared_sends) (use assms merging_kept[OF assms(1,2)] in auto)

lemma built_sends:
  assumes "kept C w u" "build u = r" "\<And>rep tx. built_by r succ rep tx \<Longrightarrow> P rep tx"
  shows "sends C P w (submit E owner build succ u)"
  using assms by (auto intro: submit_sends)

lemma close_once_sends:
  assumes "merged E w u" shows "sends (consolidation E w) (vault_closed E which w) w (close_once E which u)"
  unfolding close_once_def
proof (rule target_sends[OF assms], unfold prod.case, rule merging_sends[OF merging_ensure assms], rule built_sends)
  fix v payer u' assume u': "merged E w u'"
  show "close (we_lib E) (wl_ctx u') (ps_pot ps) v (close_intent_of E u' payer) =
    close (we_lib E) (wl_ctx w) (ps_pot ps) v (close_intent_of E w payer)" for ps
    using session_views(1)[OF kept_session[OF u']] session_intents(5)[OF kept_session[OF u'], of E] by simp
qed (auto simp: vault_closed_def)

lemma repay_once_sends:
  assumes "merged E w u" shows "sends (consolidation E w) (repaid E which amount w) w (repay_once E which amount u)"
  unfolding repay_once_def
proof (rule target_sends[OF assms], unfold prod.case, rule merging_sends[OF merging_repay_coins assms], unfold case_prod_beta, rule built_sends)
  fix v coins u' assume u': "merged E w u'"
  show "repay (we_lib E) (wl_ctx u') (ps_pot ps) v (repay_intent_of E u' amount (fst coins) (snd coins)) =
    repay (we_lib E) (wl_ctx w) (ps_pot ps) v (repay_intent_of E w amount (fst coins) (snd coins))" for ps
    using session_views(1)[OF kept_session[OF u']] session_intents(2)[OF kept_session[OF u'], of E] by simp
qed (unfold repaid_def, blast+)

lemma redeem_once_sends:
  assumes "merged E w u" shows "sends (consolidation E w) (redeemed E which x tick w) w (redeem_once E which x tick u)"
  unfolding redeem_once_def
proof (rule target_sends[OF assms], unfold prod.case, rule merging_sends[OF merging_ensure assms], rule built_sends)
  fix v payer u' assume u': "merged E w u'"
  show "redeem (we_lib E) (wl_ctx u') ps v (redeem_intent_of E u' x payer tick) =
    redeem (we_lib E) (wl_ctx w) ps v (redeem_intent_of E w x payer tick)" for ps
    using session_views(1)[OF kept_session[OF u']] session_intents(6)[OF kept_session[OF u'], of E] by simp
qed (auto simp: redeemed_def)

lemma draw_once_sends:
  assumes "kept C w u" shows "sends C (drawn E which amount tick w) w (draw_once E which amount tick u)"
  unfolding draw_once_def
proof (rule target_sends[OF assms], unfold prod.case, rule built_sends[OF assms])
  show "draw (we_lib E) (wl_ctx u) ps v (draw_intent_of E u amount tick) =
    draw (we_lib E) (wl_ctx w) ps v (draw_intent_of E w amount tick)" for ps v
    using session_views(1)[OF kept_session[OF assms]] session_intents(3)[OF kept_session[OF assms], of E] by simp
qed (auto simp: drawn_def)

lemma refresh_once_sends:
  assumes "kept C w u" shows "sends C (refreshed E which tick w) w (refresh_once E which tick u)"
  unfolding refresh_once_def
proof (rule prepared_sends)
  fix v u1 assume "(pick_vault E which u, u) = (Inr v, u1)"
  then have own: "picked E which w v" and u1: "u1 = u"
    using pick_vault_picked[of E which u v] picked_session[OF kept_session[OF assms], of E which v] by auto
  show "sends C (refreshed E which tick w) w (op_bind (pick_lbtc E FEE_COIN_MIN)
    (\<lambda>fee_coin. submit E False (\<lambda>w. refresh (we_lib E) (wl_ctx w) v (refresh_intent_of E w tick fee_coin FEE))
       (\<lambda>d. Some (fd_vault d))) u1)"
  proof (rule prepared_sends)
    fix fee_coin u2 assume u2: "kept C w u2"
    show "sends C (refreshed E which tick w) w
      (submit E False (\<lambda>w. refresh (we_lib E) (wl_ctx w) v (refresh_intent_of E w tick fee_coin FEE)) (\<lambda>d. Some (fd_vault d)) u2)"
      by (rule built_sends[OF u2 refl])
         (use own session_views(1)[OF kept_session[OF u2]] session_intents(4)[OF kept_session[OF u2], of E] in \<open>auto simp: refreshed_def simp del: split_paired_Ex\<close>)
  qed (use quiet_kept[OF target_quiet(3) assms] u1 in blast)
qed (use assms in auto)

text \<open>Each operation with the resync meets the contract of the retry.\<close>

interpretation close_retry: retried_report "resync E" "close_once E which" "merged E w" "merged E w"
  "\<lambda>rep w'. sends (consolidation E w) (vault_closed E which w) w (Inr rep, w')" for E which w
  by (rule once_contract[OF close_once_sends])

interpretation repay_retry: retried_report "resync E" "repay_once E which amount" "merged E w" "merged E w"
  "\<lambda>rep w'. sends (consolidation E w) (repaid E which amount w) w (Inr rep, w')" for E which amount w
  by (rule once_contract[OF repay_once_sends])

interpretation redeem_retry: retried_report "resync E" "redeem_once E which x tick" "merged E w" "merged E w"
  "\<lambda>rep w'. sends (consolidation E w) (redeemed E which x tick w) w (Inr rep, w')" for E which x tick w
  by (rule once_contract[OF redeem_once_sends])

interpretation draw_retry: retried_report "resync E" "draw_once E which amount tick" "kept (\<lambda>_. False) w" "kept (\<lambda>_. False) w"
  "\<lambda>rep w'. sends (\<lambda>_. False) (drawn E which amount tick w) w (Inr rep, w')" for E which amount tick w
  by (rule once_contract[OF draw_once_sends])

interpretation refresh_retry: retried_report "resync E" "refresh_once E which tick" "kept (\<lambda>_. False) w" "kept (\<lambda>_. False) w"
  "\<lambda>rep w'. sends (\<lambda>_. False) (refreshed E which tick w) w (Inr rep, w')" for E which tick w
  by (rule once_contract[OF refresh_once_sends])

section \<open>OPEN\<close>

text \<open>The transaction of an open: the checked builder's for exactly the needed funding.\<close>

definition opened :: "('p, 'f) wallet_env \<Rightarrow> obol \<Rightarrow> sats \<Rightarrow> oracle_tick \<Rightarrow> ('p, 'f) wallet \<Rightarrow> op_report \<Rightarrow> transaction \<Rightarrow> bool" where
  "opened E prin collateral tick w rep tx \<longleftrightarrow>
     (\<exists>ps op need. open_need prin collateral tick = Inr need \<and>
        built_by (open_vault (we_lib E) (wl_ctx w) ps
          (open_intent_of E w prin collateral tick (funding_coin_of E w (op, sats_raw need)))) (\<lambda>d. Some (od_vault d)) rep tx)"

text \<open>A self-spend of L-BTC coins of ours that makes a coin of the needed value.\<close>

definition shaping_tx :: "('p, 'f) wallet_env \<Rightarrow> sats \<Rightarrow> ('p, 'f) wallet \<Rightarrow> transaction \<Rightarrow> bool" where
  "shaping_tx E need w tx \<longleftrightarrow>
     (\<exists>taken. strip tx = strip (pl_tx (shape_plan (cx_params (wl_ctx w)) (funding_spk E w) taken need)))"

text \<open>The transactions sent before the open: none, or the shaping one when a shaped coin is remembered.\<close>

definition shaped_inv ::
  "('p, 'f) wallet_env \<Rightarrow> obol \<Rightarrow> sats \<Rightarrow> oracle_tick \<Rightarrow> ('p, 'f) wallet \<Rightarrow> ('p, 'f) shaping \<Rightarrow> bool" where
  "shaped_inv E prin collateral tick w s \<longleftrightarrow>
     session_of (fst s) = session_of w \<and>
     (case snd s of
        None \<Rightarrow> wl_sent (fst s) = wl_sent w
      | Some _ \<Rightarrow> \<exists>need tx. open_need prin collateral tick = Inr need \<and> shaping_tx E need w tx \<and> wl_sent (fst s) = tx # wl_sent w)"

definition open_done ::
  "('p, 'f) wallet_env \<Rightarrow> obol \<Rightarrow> sats \<Rightarrow> oracle_tick \<Rightarrow> ('p, 'f) wallet \<Rightarrow> op_report \<Rightarrow> ('p, 'f) shaping \<Rightarrow> bool" where
  "open_done E prin collateral tick w rep s \<longleftrightarrow>
     (\<exists>tx rest u. wl_sent (fst s) = tx # rest \<and> opened E prin collateral tick w rep tx \<and> session_of (fst s) = session_of w \<and>
        shaped_inv E prin collateral tick w (u, snd s) \<and> wl_sent u = rest)"

lemma shaped_inv_cong:
  "\<lbrakk>shaped_inv E prin collateral tick w (u, sh); session_of u' = session_of u; wl_sent u' = wl_sent u\<rbrakk> \<Longrightarrow>
     shaped_inv E prin collateral tick w (u', sh)"
  by (auto simp: shaped_inv_def split: option.splits)

lemma shape_exact_cases:
  assumes "shape_exact E need w = (r, w')"
  shows "session_of w' = session_of w \<and>
    (case r of Inl _ \<Rightarrow> wl_sent w' = wl_sent w | Inr _ \<Rightarrow> \<exists>tx. shaping_tx E need w tx \<and> wl_sent w' = tx # wl_sent w)"
proof -
  obtain q w1 where q: "lbtc_coins E w = (q, w1)" by force
  from quietD[OF quiet_scan(1) q] obtain n where w1: "w1 = w\<lparr>wl_clock := n\<rparr>" by blast
  have same: "cx_params (wl_ctx w1) = cx_params (wl_ctx w)" "funding_spk E w1 = funding_spk E w"
    by (simp_all add: w1 funding_spk_def)
  show ?thesis
  proof (cases q)
    case (Inl e)
    then show ?thesis using assms q w1 by (auto simp: shape_exact_def op_bind_def)
  next
    case (Inr coins)
    show ?thesis
    proof (cases "select_accumulate coins (sats_raw need + sats_raw FEE)")
      case None
      then show ?thesis using assms q w1 Inr by (auto simp: shape_exact_def op_bind_def Let_def)
    next
      case (Some taken)
      define plan where "plan = shape_plan (cx_params (wl_ctx w)) (funding_spk E w) taken need"
      obtain p w2 where p: "sign_and_broadcast E plan w1 = (p, w2)" by force
      then have "w' = w2" "isl r \<longleftrightarrow> isl p"
        using assms q Inr Some same by (auto simp: shape_exact_def op_bind_def op_ret_def Let_def plan_def split: sum.splits)
      then show ?thesis
        using sign_and_broadcast_sent[OF p] w1 Some
        by (cases p; cases r) (auto simp: shaping_tx_def plan_def dest!: wallet_sign_body)
    qed
  qed
qed

lemma shaping_tx_session: "session_of w' = session_of w \<Longrightarrow> shaping_tx E need w' tx = shaping_tx E need w tx"
  using session_views(1)[of w' w] session_views(3)[of w' w E] by (simp add: shaping_tx_def)

lemma open_funding_cases:
  assumes inv: "shaped_inv E prin collateral tick w s" and need: "open_need prin collateral tick = Inr need"
    and f: "open_funding E need s = (r, s')"
  shows "shaped_inv E prin collateral tick w s'" "\<And>c. r = Inr c \<Longrightarrow> snd c = sats_raw need"
proof -
  obtain u sh where s: "s = (u, sh)" by force
  obtain q u1 where q: "lbtc_coins E u = (q, u1)" by force
  from quietD[OF quiet_scan(1) q] obtain n where u1: "u1 = u\<lparr>wl_clock := n\<rparr>" by blast
  have inv1: "shaped_inv E prin collateral tick w (u1, sh)" using inv by (auto simp: s u1 intro: shaped_inv_cong)
  have "shaped_inv E prin collateral tick w s' \<and> (\<forall>c. r = Inr c \<longrightarrow> snd c = sats_raw need)"
  proof (cases q)
    case (Inl e)
    then show ?thesis using f q inv1 by (auto simp: open_funding_def op_bind_def with_shaped_def s)
  next
    case (Inr coins)
    show ?thesis
    proof (cases "find (\<lambda>(_, v). v = sats_raw need) coins")
      case (Some c)
      then have "snd c = sats_raw need" by (auto simp: find_Some_iff)
      then show ?thesis using f q inv1 Inr Some by (auto simp: open_funding_def op_bind_def with_shaped_def s)
    next
      case None
      show ?thesis
      proof (cases sh)
        case (Some op)
        then show ?thesis using f q inv1 Inr None by (auto simp: open_funding_def op_bind_def with_shaped_def s)
      next
        case sh: None
        obtain p u2 where p: "shape_exact E need u1 = (p, u2)" by force
        from inv1 sh have w: "session_of u1 = session_of w" "wl_sent u1 = wl_sent w" by (simp_all add: shaped_inv_def)
        show ?thesis
          using f q Inr None sh p w shape_exact_cases[OF p] need shaping_tx_session[OF w(1), of E]
          by (cases p) (auto simp: open_funding_def op_bind_def with_shaped_def s shaped_inv_def)
      qed
    qed
  qed
  then show "shaped_inv E prin collateral tick w s'" "\<And>c. r = Inr c \<Longrightarrow> snd c = sats_raw need" by auto
qed

lemma open_once_cases:
  assumes inv: "shaped_inv E prin collateral tick w s" and once: "open_once E prin collateral tick s = (r, s')"
  shows "case r of Inl _ \<Rightarrow> shaped_inv E prin collateral tick w s' | Inr rep \<Rightarrow> open_done E prin collateral tick w rep s'"
proof (cases "\<exists>ps need. protocol (fst s) = Inr ps \<and> open_need prin collateral tick = Inr need")
  case False
  then have "s' = s \<and> isl r"
    using once by (auto simp: open_once_def op_bind_def op_gets_def op_lift_def split: sum.splits prod.splits)
  then show ?thesis using inv by (cases r) auto
next
  case True
  then obtain ps need where ps: "protocol (fst s) = Inr ps" and need: "open_need prin collateral tick = Inr need" by blast
  obtain q s1 where q: "open_funding E need s = (q, s1)" by (meson surj_pair)
  note fund = open_funding_cases[OF inv need q]
  show ?thesis
  proof (cases q)
    case (Inl e)
    then have "r = Inl e \<and> s' = s1" using once q ps need by (simp add: open_once_def op_bind_def op_gets_def op_lift_def)
    then show ?thesis using fund by simp
  next
    case (Inr c)
    obtain u sh where s1: "s1 = (u, sh)" by force
    define build where "build = (\<lambda>w. open_vault (we_lib E) (wl_ctx w) ps (open_intent_of E w prin collateral tick (funding_coin_of E w c)))"
    obtain p u' where p: "submit E False build (\<lambda>d. Some (od_vault d)) u = (p, u')" by force
    have rs: "r = p" "s' = (u', sh)"
      using once q ps need Inr p by (auto simp: open_once_def op_bind_def op_gets_def op_lift_def with_shaped_def s1 build_def)
    have ses: "session_of u = session_of w" using fund(1) by (simp add: shaped_inv_def s1)
    have c: "c = (fst c, sats_raw need)" using fund(2)[OF Inr] by (cases c) simp
    have "build u = open_vault (we_lib E) (wl_ctx w) ps (open_intent_of E w prin collateral tick (funding_coin_of E w (fst c, sats_raw need)))"
      using session_views(1)[OF ses] session_intents(1)[OF ses] c by (simp add: build_def)
    then have op: "built_by (build u) (\<lambda>d. Some (od_vault d)) rep tx \<Longrightarrow> opened E prin collateral tick w rep tx" for rep tx
      using need unfolding opened_def by metis
    show ?thesis
    proof (cases p)
      case (Inl e)
      then show ?thesis using submit_cases[OF p] fund(1) rs by (auto simp: s1 intro: shaped_inv_cong)
    next
      case (Inr rep)
      with submit_cases[OF p] obtain tx n where "built_by (build u) (\<lambda>d. Some (od_vault d)) rep tx"
        and u': "u' = u\<lparr>wl_clock := n, wl_sent := tx # wl_sent u\<rparr>" unfolding built_by_def by auto
      then have "open_done E prin collateral tick w rep (u', sh)"
        unfolding open_done_def using op ses fund(1) by (intro exI[of _ tx] exI[of _ "wl_sent u"] exI[of _ u]) (auto simp: s1)
      then show ?thesis using rs Inr by simp
    qed
  qed
qed

text \<open>The sent transactions that an ended open leaves, in the order latest first.\<close>

definition shaping_trace :: "('p, 'f) wallet_env \<Rightarrow> obol \<Rightarrow> sats \<Rightarrow> oracle_tick \<Rightarrow> ('p, 'f) wallet \<Rightarrow> transaction list \<Rightarrow> bool" where
  "shaping_trace E prin collateral tick w pre \<longleftrightarrow>
     pre = [] \<or> (\<exists>need tx. open_need prin collateral tick = Inr need \<and> shaping_tx E need w tx \<and> pre = [tx])"

lemma shaped_inv_trace:
  "shaped_inv E prin collateral tick w s \<Longrightarrow>
     \<exists>pre. wl_sent (fst s) = pre @ wl_sent w \<and> shaping_trace E prin collateral tick w pre"
  by (auto simp: shaped_inv_def shaping_trace_def split: option.splits)

interpretation open_retry: retried_report "with_shaped (resync E)" "open_once E prin collateral tick"
  "shaped_inv E prin collateral tick w" "shaped_inv E prin collateral tick w" "open_done E prin collateral tick w"
  for E prin collateral tick w
proof
  fix s s' s'' m and u :: unit and e and rep :: op_report
  assume inv: "shaped_inv E prin collateral tick w s"
  { assume "open_once E prin collateral tick s = (Inl (WBroadcast (Conflict m)), s')" "with_shaped (resync E) s' = (Inr u, s'')"
    then show "shaped_inv E prin collateral tick w s''"
      using open_once_cases[OF inv] resync_session[of E "fst s'"]
      by (cases s') (auto simp: with_shaped_def intro: shaped_inv_cong split: prod.splits) }
  { assume "open_once E prin collateral tick s = (Inl (WBroadcast (Conflict m)), s')" "with_shaped (resync E) s' = (Inl e, s'')"
    then show "shaped_inv E prin collateral tick w s''"
      using open_once_cases[OF inv] resync_session[of E "fst s'"]
      by (cases s') (auto simp: with_shaped_def intro: shaped_inv_cong split: prod.splits) }
  { assume "open_once E prin collateral tick s = (Inr rep, s')"
    then show "open_done E prin collateral tick w rep s'" using open_once_cases[OF inv] by fastforce }
  { assume "open_once E prin collateral tick s = (Inl e, s')"
    then show "shaped_inv E prin collateral tick w s'" using open_once_cases[OF inv] by fastforce }
  show "shaped_inv E prin collateral tick w s" by (rule inv)
qed

section \<open>The transactions of a whole operation\<close>

lemma retried_sends:
  assumes "case fst res of Inl _ \<Rightarrow> kept C w (snd res) | Inr rep \<Rightarrow> sends C P w (Inr rep, snd res)"
  shows "sends C P w res"
  using assms by (cases res; cases "fst res") (simp_all add: sends_def)

lemma owner_ops_send:
  "sends (consolidation E w) (vault_closed E which w) w (wallet_close E which w)"
  "sends (consolidation E w) (repaid E which amount w) w (wallet_repay E which amount w)"
  "sends (consolidation E w) (redeemed E which amount tick w) w (wallet_redeem E which amount tick w)"
  "sends (\<lambda>_. False) (drawn E which amount tick w) w (wallet_draw E which amount tick w)"
  "sends (\<lambda>_. False) (refreshed E which tick w) w (wallet_refresh E which tick w)"
  unfolding wallet_close_def wallet_repay_def wallet_redeem_def wallet_draw_def wallet_refresh_def
  by (rule retried_sends, rule close_retry.with_retry_post[OF kept_refl prod.collapse[symmetric]])
    (rule retried_sends, rule repay_retry.with_retry_post[OF kept_refl prod.collapse[symmetric]]
      redeem_retry.with_retry_post[OF kept_refl prod.collapse[symmetric]] draw_retry.with_retry_post[OF kept_refl prod.collapse[symmetric]]
      refresh_retry.with_retry_post[OF kept_refl prod.collapse[symmetric]])+

lemma shaped_inv_session: "shaped_inv E prin collateral tick w s \<Longrightarrow> session_of (fst s) = session_of w"
  by (simp add: shaped_inv_def)

lemma wallet_open_post:
  "case wallet_open E prin collateral tick w of
     (Inl _, w') \<Rightarrow> session_of w' = session_of w \<and> (\<exists>pre. shaping_trace E prin collateral tick w pre \<and> wl_sent w' = pre @ wl_sent w)
   | (Inr rep, w') \<Rightarrow> session_of w' = session_of w \<and>
       (\<exists>tx pre. shaping_trace E prin collateral tick w pre \<and> opened E prin collateral tick w rep tx \<and> wl_sent w' = tx # pre @ wl_sent w)"
proof (cases "validate_open E prin collateral tick w")
  case (Inl e)
  then show ?thesis by (auto simp: wallet_open_def shaping_trace_def)
next
  case (Inr u)
  obtain r s' where r: "with_retry ''open'' (with_shaped (resync E)) (open_once E prin collateral tick) (w, None) = (r, s')"
    by (meson surj_pair)
  have "shaped_inv E prin collateral tick w (w, None)" by (simp add: shaped_inv_def)
  note post = open_retry.with_retry_post[OF this r]
  have res: "wallet_open E prin collateral tick w = (r, fst s')" using Inr r by (simp add: wallet_open_def split: prod.splits)
  show ?thesis
  proof (cases r)
    case (Inl e)
    then show ?thesis using post res shaped_inv_trace[of E prin collateral tick w s'] shaped_inv_session[of E prin collateral tick w s'] by auto
  next
    case rep: (Inr rep)
    with post obtain tx rest v where "wl_sent (fst s') = tx # rest" "opened E prin collateral tick w rep tx" "session_of (fst s') = session_of w"
      and v: "shaped_inv E prin collateral tick w (v, snd s')" "wl_sent v = rest" by (auto simp: open_done_def)
    then show ?thesis using shaped_inv_trace[OF v(1)] rep res by auto
  qed
qed

section \<open>Scans of an unchanged confirmed set\<close>

text \<open>The outpoints a transaction spends.\<close>

definition spent :: "transaction \<Rightarrow> outpoint set" where
  "spent tx = ti_previous_output ` set (tx_input tx)"

lemma spent_strip: "spent (strip tx) = spent tx"
  by (simp add: spent_def strip_def strip_in_def image_image)

text \<open>Until a block is found the node's scans return the same coins.\<close>

definition confirmed :: "('p, 'f) wallet_env \<Rightarrow> ('p, 'f) wallet \<Rightarrow> (outpoint \<times> u64) list \<Rightarrow> (outpoint \<times> u64) list \<Rightarrow> bool" where
  "confirmed E w lbtc obol \<longleftrightarrow>
     (\<forall>n. scan_spk (we_codec E) (we_calls E n) (funding_spk E w) (pr_policy (cx_params (wl_ctx w))) = Inr lbtc \<and>
          scan_spk (we_codec E) (we_calls E n) (funding_spk E w) (pr_obol (cx_params (wl_ctx w))) = Inr obol)"

lemma wallet_sent_clock [simp]: "wl_sent (w\<lparr>wl_clock := n\<rparr>) = wl_sent w"
  by simp

lemma confirmed_scans:
  assumes "confirmed E w lbtc obol" "session_of u = session_of w"
  shows "lbtc_coins E u = (Inr lbtc, u\<lparr>wl_clock := Suc (wl_clock u)\<rparr>)" "obol_coins E u = (Inr obol, u\<lparr>wl_clock := Suc (wl_clock u)\<rparr>)"
  using assms(1) session_views(1)[OF assms(2)] session_views(3)[OF assms(2), of E]
  by (simp_all add: confirmed_def lbtc_coins_def obol_coins_def node_op_def map_err_def)

lemma consolidate_confirmed:
  assumes "confirmed E w lbtc obol" "session_of u = session_of w" "consolidate_obol E u = (Inr c, u')"
  obtains fee_coin tx where "select_at_least lbtc FEE_COIN_MIN = Some fee_coin" "session_of u' = session_of w"
    "strip tx = strip (pl_tx (consolidate_plan (cx_params (wl_ctx w)) (funding_spk E w) obol fee_coin))"
    "wl_sent u' = tx # wl_sent u"
proof -
  note sc = confirmed_scans[OF assms(1)]
  define v where "v = u\<lparr>wl_clock := Suc (Suc (wl_clock u))\<rparr>"
  have v: "session_of v = session_of w" "wl_sent v = wl_sent u" using assms(2) by (simp_all add: v_def)
  have "(case select_at_least lbtc FEE_COIN_MIN of
      None \<Rightarrow> (Inl (InsufficientLbtc FEE_COIN_MIN 0), v)
    | Some fee_coin \<Rightarrow>
        op_bind (sign_and_broadcast E (consolidate_plan (cx_params (wl_ctx v)) (funding_spk E v) obol fee_coin))
          (\<lambda>txid. op_ret (OutPoint txid 0, coins_sum obol)) v) = (Inr c, u')"
    using assms(2,3) sc(2)[of u] sc(1)[of "u\<lparr>wl_clock := Suc (wl_clock u)\<rparr>"]
    unfolding v_def consolidate_obol_def op_bind_def[of "obol_coins E"] op_bind_def[of "lbtc_coins E"] by simp
  then obtain fee_coin txid where f: "select_at_least lbtc FEE_COIN_MIN = Some fee_coin"
    and b: "sign_and_broadcast E (consolidate_plan (cx_params (wl_ctx v)) (funding_spk E v) obol fee_coin) v = (Inr txid, u')"
    by (auto simp: op_bind_def op_ret_def split: option.splits sum.splits prod.splits)
  from sign_and_broadcast_sent[OF b] obtain tx n where
    "u' = v\<lparr>wl_clock := n, wl_sent := tx # wl_sent v\<rparr>"
    "strip tx = strip (pl_tx (consolidate_plan (cx_params (wl_ctx v)) (funding_spk E v) obol fee_coin))"
    by (auto dest: wallet_sign_body)
  then show ?thesis using that[OF f, of tx] v session_views(1)[OF v(1)] session_views(3)[OF v(1), of E] by simp
qed

section \<open>Properties\<close>

text \<open>
  C11 (open_trace): a refused open leaves no trace: when the intent does not validate, the wallet is
  returned as it was, with nothing requested and nothing sent. Otherwise, whatever the node answers
  and however often the open conflicts, it sends at most one shaping self-spend, before the open
  itself; and when it reports a vault, the last transaction sent is the body the checked builder
  made for the caller's principal and collateral with exactly the needed funding, and the reported
  vault is the builder's.
\<close>

theorem open_trace:
  "case validate_open E prin collateral tick w of
     Inl e \<Rightarrow> wallet_open E prin collateral tick w = (Inl e, w)
   | Inr _ \<Rightarrow>
       (case wallet_open E prin collateral tick w of
          (Inl _, w') \<Rightarrow> \<exists>pre. shaping_trace E prin collateral tick w pre \<and> wl_sent w' = pre @ wl_sent w
        | (Inr rep, w') \<Rightarrow>
            \<exists>tx pre. shaping_trace E prin collateral tick w pre \<and> opened E prin collateral tick w rep tx \<and>
              wl_sent w' = tx # pre @ wl_sent w)"
  using wallet_open_post[where E = E and prin = prin and collateral = collateral and tick = tick and w = w] by (auto simp: wallet_open_def split: sum.splits prod.splits)


text \<open>
  A wallet whose OBOL is fragmented but covers the repayment merges its coins
  first. Until the merge confirms the node's scan still lists the L-BTC coin that paid for it, and
  the repayment selects that very coin for its own fee: the merge it has just sent and the
  transaction it builds next spend the same outpoint.
\<close>

lemma fee_coin_reused:
  assumes scans: "confirmed E w lbtc obol"
    and fragmented: "select_at_least obol (obol_raw amount) = None" "obol_raw amount \<le> coins_sum obol"
    and coins: "repay_coins E amount w = (Inr (payer, fee_coin), w')" and fresh: "fst payer \<notin> fst ` set lbtc"
  shows "\<exists>tx. wl_sent w' = tx # wl_sent w \<and> consolidation E w tx \<and> fst fee_coin \<in> spent tx \<and>
    (\<forall>pot v b. repay (we_lib E) (wl_ctx w) pot v (repay_intent_of E w amount payer fee_coin) = Inr b \<longrightarrow>
       fst fee_coin \<in> spent (pl_tx (bt_plan b)))"
proof -
  obtain u where u: "ensure_obol E (obol_raw amount) w = (Inr payer, u)"
    and rest: "op_bind (lbtc_coins E) (\<lambda>lbtc. op_bind (op_lift (pick_from (filter (\<lambda>(op, _). op \<noteq> fst payer) lbtc) FEE_COIN_MIN))
      (\<lambda>fee_coin. op_ret (payer, fee_coin))) u = (Inr (payer, fee_coin), w')"
    using coins by (auto simp: repay_coins_def op_bind_def op_ret_def op_lift_def split: sum.splits prod.splits)
  have "consolidate_obol E (w\<lparr>wl_clock := Suc (wl_clock w)\<rparr>) = (Inr payer, u)"
    using u fragmented confirmed_scans(2)[OF scans refl] by (simp add: ensure_obol_def op_bind_def not_le[symmetric])
  from consolidate_confirmed[OF scans _ this] obtain c tx where c: "select_at_least lbtc FEE_COIN_MIN = Some c"
    and tx: "session_of u = session_of w" "wl_sent u = tx # wl_sent w"
      "strip tx = strip (pl_tx (consolidate_plan (cx_params (wl_ctx w)) (funding_spk E w) obol c))"
    by (metis session_of_updates(1) wallet_sent_clock)
  have "filter (\<lambda>(op, _). op \<noteq> fst payer) lbtc = lbtc" using fresh by (intro filter_True) (simp add: case_prod_beta, metis imageI)
  then have "fee_coin = c \<and> w' = u\<lparr>wl_clock := Suc (wl_clock u)\<rparr>"
    using rest c confirmed_scans(1)[OF scans tx(1)] by (simp add: op_bind_def op_lift_def op_ret_def pick_from_def)
  moreover have "fst c \<in> spent tx"
    by (subst spent_strip[symmetric]) (simp add: tx(3) spent_strip, simp add: spent_def consolidate_plan_def plain_plan_def txin_def)
  moreover have "fst fee_coin \<in> spent (pl_tx (bt_plan b))"
    if "repay (we_lib E) (wl_ctx w) pot v (repay_intent_of E w amount payer fee_coin) = Inr b" for pot v b
    using that by (simp add: repay_Inr_iff repay_unchecked_def repay_intent_of_def funding_coin_of_def Let_def spent_def txin_def)
  ultimately show ?thesis using tx consolidationI[OF tx(3)] by auto
qed

text \<open>Two OBOL coins of one unit each and one L-BTC coin, on a node that accepts whatever is sent.\<close>

definition sample_fragmented :: call where
  "sample_fragmented m args =
     (if m = ''scantxoutset''
      then Inr (JObject [(''unspents'', JArray [sample_utxo (replicate 10 CHR ''a'') 0 (1 / 10 ^ 8), sample_utxo (replicate 10 CHR ''a'') 1 (1 / 10 ^ 8),
                   sample_utxo (replicate 12 CHR ''a'') 2 (3 / 2)])])
      else Inr (JString []))"

abbreviation frag_node :: "(u8, doc) wallet_env" where
  "frag_node \<equiv> sample_env (\<lambda>_ _. sample_fragmented)"

definition sample_wallet :: "(u8, doc) wallet" where
  "sample_wallet = \<lparr>wl_ctx = \<lparr>cx_params = sample_params, cx_artifacts = sample_artifacts, cx_genesis = 7\<rparr>, wl_owner = 1, wl_funding = 2,
     wl_state = genesis 7, wl_snapshot_path = [], wl_disk = (\<lambda>_. None), wl_clock = 0, wl_sent = []\<rparr>"

abbreviation sample_obol :: "(outpoint \<times> u64) list" where
  "sample_obol \<equiv> [(OutPoint 7 0, 1), (OutPoint 7 1, 1)]"

lemma sample_split: "select_at_least sample_obol 2 = None"
  by (simp add: select_at_least_def word_le_nat_alt)

lemma sample_confirmed: "confirmed frag_node sample_wallet [(OutPoint 7 2, 150000000)] sample_obol"
proof -
  let ?us = "[sample_utxo (replicate 10 CHR ''a'') 0 (1 / 10 ^ 8), sample_utxo (replicate 10 CHR ''a'') 1 (1 / 10 ^ 8),
    sample_utxo (replicate 12 CHR ''a'') 2 (3 / 2)]"
  have "list_all2 (reports sample_codec_node) ?us [(OutPoint 7 0, 10, 1), (OutPoint 7 1, 10, 1), (OutPoint 7 2, 12, 150000000)]"
    using sample_utxo_reports[OF sample_double(2,4), of "replicate 10 CHR ''a''"] sample_utxo_reports[OF sample_double(1,3), of "replicate 12 CHR ''a''"]
    by simp
  then have reports: "list_all2 (reports (we_codec frag_node)) ?us [(OutPoint 7 0, 10, 1), (OutPoint 7 1, 10, 1), (OutPoint 7 2, 12, 150000000)]"
    by (simp add: sample_env_def reports_def)
  have busy: "busy_until (we_calls frag_node n) args 0 (JObject [(''unspents'', JArray ?us)])" for n args
    by (simp add: busy_until_def sample_env_def sample_fragmented_def)
  note answer = scan_spk_answer[OF busy _ _ reports]
  show ?thesis
    unfolding confirmed_def by (intro allI conjI; subst answer) (simp_all add: sample_wallet_def sample_params_def)
qed

lemma sample_sign: "\<exists>tx. wallet_sign (sample_env calls) (consolidate_plan sample_params (funding_spk (sample_env calls) sample_wallet) sample_obol (OutPoint 7 2, 150000000))
    (sample_wallet\<lparr>wl_clock := n\<rparr>) = Inr tx"
proof -
  have spk: "funding_spk (sample_env calls) (sample_wallet\<lparr>wl_clock := n\<rparr>) = 0x51 # 0x20 # u256_be 2"
    "funding_spk (sample_env calls) sample_wallet = 0x51 # 0x20 # u256_be 2"
    by (simp_all add: funding_spk_def sample_env_def sample_wallet_def)
  have env: "we_lib (sample_env calls) = sample_library" "we_prover (sample_env calls) = sample_prover"
    by (simp_all add: sample_env_def)
  have lib: "pv_key_sighash sample_prover tx outs i g = Inr [of_nat i]" "pv_verify sample_prover sg d k" "pv_tweak sample_prover = Inr"
    "lb_xonly sample_library bs = Some (of_nat (from_be bs))" for tx outs i g sg d k bs
    by (simp_all add: sample_prover_def sample_library_def)
  have explicit: "value_explicit (VExplicit v)" "asset_explicit (AExplicit a)" for v a
    by (simp_all add: value_explicit_def asset_explicit_def)
  show ?thesis
    unfolding wallet_sign_def consolidate_plan_def plain_plan_def change_and_fee_def split_change_def spk env
    by (simp add: DUST_FLOOR_def FEE_def to_pset_def validate_explicit_def explicit spk env lib Let_def refuse_if_def bind_res_def
        claimed_def sign_funding_def funding_sighash_def finalize_pset_def finalize_def check_funding_sig_def set_witness_def
        pset_input_empty_def upt_rec)
qed

lemma sample_repay_coins:
  "\<exists>w'. repay_coins frag_node (Obol 2) sample_wallet = (Inr ((OutPoint 7 0, 2), (OutPoint 7 2, 150000000)), w')"
proof -
  note sc = confirmed_scans[OF sample_confirmed]
  let ?w = "\<lambda>n. sample_wallet\<lparr>wl_clock := n\<rparr>"
  have clock: "wl_clock sample_wallet = 0" and par: "cx_params (wl_ctx sample_wallet) = sample_params"
    by (simp_all add: sample_wallet_def)
  have spk: "funding_spk frag_node (?w n) = funding_spk frag_node sample_wallet" for n
    by (simp add: funding_spk_def)
  obtain tx where tx: "wallet_sign frag_node (consolidate_plan sample_params (funding_spk frag_node sample_wallet) sample_obol
      (OutPoint 7 2, 150000000)) (?w (Suc (Suc (Suc 0)))) = Inr tx" using sample_sign[of "\<lambda>_ _. sample_fragmented"] by blast
  have "node_send sample_library (we_codec frag_node) sample_fragmented t = Inr 7" for t
    by (simp add: node_send_def rpc_def sample_fragmented_def or_shape_def sample_env_def sample_codec_node_def)
  then have "sign_and_broadcast frag_node (consolidate_plan sample_params (funding_spk frag_node sample_wallet) sample_obol
      (OutPoint 7 2, 150000000)) (?w (Suc (Suc (Suc 0)))) = (Inr 7, (?w (Suc (Suc (Suc (Suc 0)))))\<lparr>wl_sent := [tx]\<rparr>)"
    using tx by (simp add: sign_and_broadcast_def op_bind_def op_lift_def broadcast_def node_op_def sample_env_def sample_wallet_def)
  moreover have "select_at_least [(OutPoint 7 2, 150000000)] FEE_COIN_MIN = Some (OutPoint 7 2, 150000000)"
    by (simp add: select_at_least_def FEE_COIN_MIN_def FEE_def)
  ultimately have "consolidate_obol frag_node (?w (Suc 0)) = (Inr (OutPoint 7 0, 2), (?w (Suc (Suc (Suc (Suc 0)))))\<lparr>wl_sent := [tx]\<rparr>)"
    using sc(2)[of "?w (Suc 0)"] sc(1)[of "?w (Suc (Suc 0))"] spk par by (simp add: consolidate_obol_def op_bind_def op_ret_def)
  then have "ensure_obol frag_node 2 sample_wallet = (Inr (OutPoint 7 0, 2), (?w (Suc (Suc (Suc (Suc 0)))))\<lparr>wl_sent := [tx]\<rparr>)"
    using sc(2)[of sample_wallet] clock by (simp add: ensure_obol_def op_bind_def sample_split)
  then show ?thesis
    using sc(1)[of "(?w (Suc (Suc (Suc (Suc 0)))))\<lparr>wl_sent := [tx]\<rparr>"]
    by (simp add: repay_coins_def op_bind_def op_ret_def op_lift_def pick_from_def select_at_least_def FEE_COIN_MIN_def FEE_def)
qed

lemma fee_coin_reused_sample:
  "\<exists>w' tx. repay_coins frag_node (Obol 2) sample_wallet = (Inr ((OutPoint 7 0, 2), (OutPoint 7 2, 150000000)), w') \<and>
     wl_sent w' = [tx] \<and> OutPoint 7 2 \<in> spent tx"
proof -
  obtain w' where w': "repay_coins frag_node (Obol 2) sample_wallet = (Inr ((OutPoint 7 0, 2), (OutPoint 7 2, 150000000)), w')"
    using sample_repay_coins by blast
  have "select_at_least sample_obol (obol_raw (Obol 2)) = None" "obol_raw (Obol 2) \<le> coins_sum sample_obol"
    "fst (OutPoint 7 0, 2 :: u64) \<notin> fst ` set [(OutPoint 7 2, 150000000 :: u64)]" "wl_sent sample_wallet = []"
    by (simp_all add: sample_split sample_wallet_def)
  with fee_coin_reused[OF sample_confirmed _ _ w'] w' show ?thesis by auto
qed

end
