(* ===== verification/Styx_Ladder.thy ===== *)
theory Styx_Ladder
  imports Styx_System
begin

text \<open>
  The economics of the builders, across operations: what the mint gates guarantee, how the rungs of
  the liquidation ladder relate to each other, and that every transaction a builder emits
  conserves every asset.
\<close>

section \<open>Collateral arithmetic\<close>

text \<open>The collateral covers the ratio up to the one satoshi the truncation drops.\<close>

lemma coll_le_covers:
  assumes "coll_at_cr d p k \<le> s" "price_raw p \<noteq> 0"
  shows "unat d * unat (ratio_raw k) < (unat (sats_raw s) + 1) * (unat (price_raw p) * 200)"
proof -
  let ?n = "unat (price_raw p) * 200"
  have pos: "0 < ?n" using assms(2) by (simp add: unat_gt_0)
  have "unat d * unat (ratio_raw k) div ?n \<le> unat (sats_raw s)" using assms(1) by (simp add: to_nat)
  then have "unat d * unat (ratio_raw k) div ?n < unat (sats_raw s) + 1" by simp
  with pos show ?thesis by (simp only: div_less_iff_less_mult)
qed

lemma hi_nonzero: "price_raw (tick_lo t) \<noteq> 0 \<Longrightarrow> tick_lo t \<le> tick_hi t \<Longrightarrow> price_raw (tick_hi t) \<noteq> 0"
  by (auto simp: less_eq_price_def)

lemma heal_ge_gate: "coll_at_cr d p K_HEALTH_GATE \<le> coll_at_cr d p K_HEAL_LO"
  using coll_nat_mono_k[of 260000000 264000000 "unat d" "unat (price_raw p)"] by (simp add: to_nat)

lemma cents_of_diff:
  assumes "covenant_cents d = Inr cents" "covenant_cents x = Inr xc" "unat rd + unat xc = unat cents"
  shows "covenant_cents (Obol (sat_sub (obol_raw d) (obol_raw x))) = Inr rd"
  using assms by (elim covenant_cents_Inr_iff[THEN iffD1, elim_format]) (auto simp: covenant_cents_Inr_iff)

section \<open>The successor of a liquidated vault\<close>

lemma liquidate_vault:
  "ld_vault (bt_expected (liquidate_unchecked L c ps v i)) =
     \<lparr>oc_state = (oc_state v)\<lparr>vs_debt := Obol (sat_sub (obol_raw (vs_debt (oc_state v))) (obol_raw (lq_dd i)))\<rparr>,
      oc_outpoint = OutPoint (plan_txid L (bt_plan (liquidate_unchecked L c ps v i))) 0, oc_value = lq_residual i\<rparr>"
  by (simp add: liquidate_unchecked_def Let_def)

lemma redeem_vault:
  "covenant_cents (rd_x i) = Inr xc \<Longrightarrow>
   oc_value (xd_vault (bt_expected (redeem_unchecked L c ps v i))) =
     Sats (sat_sub (sats_raw (oc_value v)) (sats_raw (coll_at_cr xc (tick_hi (rd_tick i)) (min (ot_backing_k (rd_tick i)) K_PAR)))) \<and>
   oc_state (xd_vault (bt_expected (redeem_unchecked L c ps v i))) =
     (oc_state v)\<lparr>vs_debt := Obol (sat_sub (obol_raw (vs_debt (oc_state v))) (obol_raw (rd_x i)))\<rparr>"
  by (simp add: redeem_unchecked_def Let_def)

lemma liquidate_healthy:
  assumes "price_raw (tick_lo (lq_tick j)) \<noteq> 0" "vs_last_height (oc_state v) < ot_height (lq_tick j)"
    "covenant_cents (vs_debt (oc_state v)) = Inr cents" "coll_at_cr cents (tick_hi (lq_tick j)) K_HEALTH_GATE \<le> oc_value v"
  shows "liquidate L c ps v j = Inl (VaultTooHealthy (coll_at_cr cents (tick_hi (lq_tick j)) K_HEALTH_GATE) (oc_value v))"
  using assms by (simp add: liquidate_def check_zero_price_def check_vault_ratchet_def bind_res_def map_err_def refuse_if_def Let_def
      not_le split: prod.splits)

section \<open>Samples\<close>

definition ladder_vault :: vault_utxo where
  "ladder_vault = \<lparr>oc_state = \<lparr>vs_debt = Obol 10000, vs_owner = 9, vs_last_height = BlockHeight 1\<rparr>,
     oc_outpoint = OutPoint 5 0, oc_value = Sats 125000\<rparr>"

definition ladder_ps :: protocol_state where
  "ladder_ps =
     \<lparr>ps_pot = \<lparr>oc_state = PotState, oc_outpoint = OutPoint 2 0, oc_value = Obol 1000000\<rparr>,
      ps_reserve = \<lparr>oc_state = ReserveState, oc_outpoint = OutPoint 3 0, oc_value = Sats 5000\<rparr>,
      ps_issuer = \<lparr>oc_state = \<lparr>is_last_mint_height = BlockHeight 1\<rparr>, oc_outpoint = OutPoint 4 0, oc_value = 1\<rparr>\<rparr>"

definition ladder_coin :: obol_coin where
  "ladder_coin = \<lparr>oc_coin_outpoint = OutPoint 6 0, oc_coin_value = Obol 20000, oc_coin_spk = [0]\<rparr>"

definition ladder_liquidate :: liquidate_intent where
  "ladder_liquidate = \<lparr>lq_dd = Obol 4000, lq_residual = Sats 79200, lq_keeper = ladder_coin, lq_keeper_spk = [0],
     lq_obol_change_spk = [0], lq_tick = sample_tick 100 100000 100000 100000, lq_fee = Sats 1000\<rparr>"

lemma sample_tick_sel: "ot_height (sample_tick h x y z) = BlockHeight h" "ot_backing_k (sample_tick h x y z) = K_PAR"
  by (simp_all add: sample_tick_def)

lemma ladder_liquidate_ok:
  "liquidate sample_library sample_ctx ladder_ps ladder_vault ladder_liquidate =
     Inr (liquidate_unchecked sample_library sample_ctx ladder_ps ladder_vault ladder_liquidate)"
proof -
  have c: "covenant_cents (Obol 10000) = Inr 10000" "covenant_cents (Obol 4000) = Inr 4000"
    by (simp_all add: covenant_cents_Inr_iff)
  show ?thesis
    unfolding liquidate_Inr_iff
    by (rule exI[of _ 10000], rule exI[of _ 6000], rule exI[of _ 4000])
      (simp add: ladder_liquidate_def ladder_vault_def ladder_coin_def c sample_tick_range sample_tick_sel to_nat obol_ZERO_def)
qed

lemmas ladder_simps = sample_tick_range sample_tick_sel to_nat obol_ZERO_def covenant_cents_Inr_iff ladder_ps_def ladder_coin_def

definition ladder_open :: open_intent where
  "ladder_open = \<lparr>op_owner = 9, op_principal = Obol 10000, op_collateral = Sats 150000, op_borrower_spk = [0],
     op_funding = \<lparr>fc_outpoint = OutPoint 7 0, fc_value = Sats 151500, fc_spk = [0]\<rparr>,
     op_tick = sample_tick 100 100000 100000 100000, op_fee = Sats 1000\<rparr>"

lemma ladder_open_ok: "\<exists>b. open_vault sample_library sample_ctx ladder_ps ladder_open = Inr b"
  unfolding open_Inr_iff
  by (rule exI, rule exI[of _ 10000]) (simp add: ladder_open_def ladder_simps)

definition ladder_draw :: draw_intent where
  "ladder_draw = \<lparr>dr_amount = Obol 5000, dr_borrower_spk = [0], dr_tick = sample_tick 100 100000 100000 100000, dr_fee = Sats 1000\<rparr>"

lemma ladder_draw_ok: "\<exists>b. draw sample_library sample_ctx ladder_ps (ladder_vault\<lparr>oc_value := Sats 300000\<rparr>) ladder_draw = Inr b"
  unfolding draw_Inr_iff
  by (rule exI, rule exI[of _ "Obol 15000"], rule exI[of _ 15000])
    (simp add: ladder_draw_def ladder_vault_def ladder_simps obol_amt.cadd_Inr_iff)

definition ladder_redeem :: redeem_intent where
  "ladder_redeem = \<lparr>rd_x = Obol 2000, rd_redeemer = ladder_coin, rd_redeemer_spk = [0], rd_obol_change_spk = [0],
     rd_tick = sample_tick 100 100000 100000 100000, rd_fee = Sats 1000\<rparr>"

lemma ladder_redeem_ok: "\<exists>b. redeem sample_library sample_ctx ladder_ps ladder_vault ladder_redeem = Inr b"
  unfolding redeem_Inr_iff
  by (rule exI, rule exI[of _ 2000]) (simp add: ladder_redeem_def ladder_vault_def ladder_simps)

section \<open>Properties\<close>

text \<open>
  C4 (mint_overcollateralised): no debt is minted below 150%. When OPEN or DRAW is accepted, the
  debt the vault then carries times 1.5 is covered by its collateral at the lowest price of the
  tick, up to the satoshi that integer division drops, and the pot really held what is minted.
\<close>

theorem mint_overcollateralised:
  "(open_vault L c ps i = Inr b \<longrightarrow>
      vs_debt (oc_state (od_vault (bt_expected b))) = op_principal i \<and>
      unat (obol_raw (op_principal i)) * 300000000 <
        (unat (sats_raw (oc_value (od_vault (bt_expected b)))) + 1) * (unat (price_raw (tick_lo (op_tick i))) * 200) \<and>
      op_principal i \<le> oc_value (ps_pot ps)) \<and>
   (draw L c ps v j = Inr b' \<longrightarrow>
      unat (obol_raw (vs_debt (oc_state (dd_vault (bt_expected b'))))) =
        unat (obol_raw (vs_debt (oc_state v))) + unat (obol_raw (dr_amount j)) \<and>
      unat (obol_raw (vs_debt (oc_state (dd_vault (bt_expected b'))))) * 300000000 <
        (unat (sats_raw (oc_value (dd_vault (bt_expected b')))) + 1) * (unat (price_raw (tick_lo (dr_tick j))) * 200) \<and>
      dr_amount j \<le> oc_value (ps_pot ps))"
proof (intro conjI[of "_ \<longrightarrow> _"] impI)
  assume "open_vault L c ps i = Inr b"
  then obtain cents bf where "covenant_cents (op_principal i) = Inr cents" "price_raw (tick_lo (op_tick i)) \<noteq> 0"
    "coll_at_cr cents (tick_lo (op_tick i)) K_OPEN_MIN \<le> op_collateral i" "op_principal i \<le> oc_value (ps_pot ps)"
    "b = open_unchecked L c ps i bf"
    by (auto simp: open_Inr_iff)
  then show "vs_debt (oc_state (od_vault (bt_expected b))) = op_principal i \<and>
      unat (obol_raw (op_principal i)) * 300000000 <
        (unat (sats_raw (oc_value (od_vault (bt_expected b)))) + 1) * (unat (price_raw (tick_lo (op_tick i))) * 200) \<and>
      op_principal i \<le> oc_value (ps_pot ps)"
    using coll_le_covers[of cents "tick_lo (op_tick i)" K_OPEN_MIN "op_collateral i"]
    by (simp add: open_unchecked_def Let_def covenant_cents_Inr_iff)
next
  assume "draw L c ps v j = Inr b'"
  then obtain debt cents where d: "obol_checked_add (vs_debt (oc_state v)) (dr_amount j) = Inr debt"
    "covenant_cents debt = Inr cents" "price_raw (tick_lo (dr_tick j)) \<noteq> 0" "dr_amount j \<le> oc_value (ps_pot ps)"
    "coll_at_cr cents (tick_lo (dr_tick j)) K_OPEN_MIN \<le> Sats (sat_sub (sats_raw (oc_value v)) (sats_raw (dr_fee j)))"
    and b: "b' = draw_unchecked L c ps v j"
    by (auto simp: draw_Inr_iff)
  have "unat (sat_add (obol_raw (vs_debt (oc_state v))) (obol_raw (dr_amount j))) =
      unat (obol_raw (vs_debt (oc_state v))) + unat (obol_raw (dr_amount j))"
    using d(1) by (intro unat_sat_add_exact) (simp add: obol_amt.cadd_Inr_iff)
  then show "unat (obol_raw (vs_debt (oc_state (dd_vault (bt_expected b'))))) =
        unat (obol_raw (vs_debt (oc_state v))) + unat (obol_raw (dr_amount j)) \<and>
      unat (obol_raw (vs_debt (oc_state (dd_vault (bt_expected b'))))) * 300000000 <
        (unat (sats_raw (oc_value (dd_vault (bt_expected b')))) + 1) * (unat (price_raw (tick_lo (dr_tick j))) * 200) \<and>
      dr_amount j \<le> oc_value (ps_pot ps)"
    using d coll_le_covers[OF d(5,3)]
    by (simp add: b draw_unchecked_def Let_def covenant_cents_Inr_iff obol_amt.cadd_Inr_iff)
qed

theorem mint_overcollateralised_witness:
  "\<exists>b b'. open_vault sample_library sample_ctx ladder_ps ladder_open = Inr b \<and>
     draw sample_library sample_ctx ladder_ps (ladder_vault\<lparr>oc_value := Sats 300000\<rparr>) ladder_draw = Inr b' \<and>
     vs_debt (oc_state (od_vault (bt_expected b))) = op_principal ladder_open \<and> dr_amount ladder_draw \<le> oc_value (ps_pot ladder_ps)"
  using ladder_open_ok ladder_draw_ok mint_overcollateralised by blast

text \<open>
  C23 (liquidate_heals): an accepted partial liquidation cures the vault. The debt falls by exactly
  the repaid amount and stays positive, the collateral that remains is inside the heal band of the
  high price, the keeper extracts at most 115% of what it repays, and the same tick can not
  liquidate the successor again: the builder refuses it as too healthy.
\<close>

theorem liquidate_heals:
  assumes "liquidate L c ps v i = Inr b" and t: "lq_tick j = lq_tick i"
  shows "unat (obol_raw (vs_debt (oc_state (ld_vault (bt_expected b))))) + unat (obol_raw (lq_dd i)) =
      unat (obol_raw (vs_debt (oc_state v))) \<and>
    vs_debt (oc_state (ld_vault (bt_expected b))) \<noteq> obol_ZERO \<and>
    (\<exists>rd ddc. covenant_cents (vs_debt (oc_state (ld_vault (bt_expected b)))) = Inr rd \<and> covenant_cents (lq_dd i) = Inr ddc \<and>
       coll_at_cr rd (tick_hi (lq_tick i)) K_HEAL_LO \<le> oc_value (ld_vault (bt_expected b)) \<and>
       oc_value (ld_vault (bt_expected b)) \<le> coll_at_cr rd (tick_hi (lq_tick i)) K_HEAL_HI \<and>
       unat (sats_raw (oc_value v)) - unat (sats_raw (oc_value (ld_vault (bt_expected b)))) \<le>
         unat (sats_raw (coll_at_cr ddc (tick_hi (lq_tick i)) K_FULL_LIQ_CAP)) \<and>
       liquidate L c ps' (ld_vault (bt_expected b)) j =
         Inl (VaultTooHealthy (coll_at_cr rd (tick_hi (lq_tick i)) K_HEALTH_GATE) (oc_value (ld_vault (bt_expected b)))))"
proof -
  obtain cents rd ddc where acc: "covenant_cents (vs_debt (oc_state v)) = Inr cents" "covenant_cents (lq_dd i) = Inr ddc"
    "unat rd + unat ddc = unat cents" "price_raw (tick_lo (lq_tick i)) \<noteq> 0"
    "vs_last_height (oc_state v) < ot_height (lq_tick i)" "lq_dd i < vs_debt (oc_state v)"
    "coll_at_cr rd (tick_hi (lq_tick i)) K_HEAL_LO \<le> lq_residual i"
    "lq_residual i \<le> coll_at_cr rd (tick_hi (lq_tick i)) K_HEAL_HI"
    "unat (sats_raw (oc_value v)) - unat (sats_raw (lq_residual i)) \<le>
       unat (sats_raw (coll_at_cr ddc (tick_hi (lq_tick i)) K_FULL_LIQ_CAP))"
    and b: "b = liquidate_unchecked L c ps v i"
    using assms(1) unfolding liquidate_Inr_iff by blast
  let ?v = "ld_vault (bt_expected b)"
  have rd: "covenant_cents (vs_debt (oc_state ?v)) = Inr rd"
    using cents_of_diff[OF acc(1-3)] by (simp add: b liquidate_vault)
  have "coll_at_cr rd (tick_hi (lq_tick j)) K_HEALTH_GATE \<le> oc_value ?v"
    using order_trans[OF heal_ge_gate acc(7)] by (simp add: t b liquidate_vault)
  from liquidate_healthy[OF _ _ rd this, of L c ps'] acc(4,5)
  have again: "liquidate L c ps' ?v j = Inl (VaultTooHealthy (coll_at_cr rd (tick_hi (lq_tick i)) K_HEALTH_GATE) (oc_value ?v))"
    by (simp add: t b liquidate_vault)
  have lt: "unat (obol_raw (lq_dd i)) < unat (obol_raw (vs_debt (oc_state v)))"
    using acc(6) by (simp add: less_obol_def word_less_nat_alt)
  then have debt: "unat (obol_raw (vs_debt (oc_state ?v))) + unat (obol_raw (lq_dd i)) = unat (obol_raw (vs_debt (oc_state v)))"
    by (simp add: b liquidate_vault)
  then have "vs_debt (oc_state ?v) \<noteq> obol_ZERO" using lt by (auto simp: obol_ZERO_def)
  with debt again rd acc(2,7-9) show ?thesis by (simp add: b liquidate_vault)
qed

theorem liquidate_heals_witness:
  "\<exists>b e. liquidate sample_library sample_ctx ladder_ps ladder_vault ladder_liquidate = Inr b \<and>
     vs_debt (oc_state (ld_vault (bt_expected b))) \<noteq> obol_ZERO \<and>
     liquidate sample_library sample_ctx ladder_ps (ld_vault (bt_expected b)) ladder_liquidate = Inl e"
  using liquidate_heals[OF ladder_liquidate_ok, of ladder_liquidate ladder_ps] ladder_liquidate_ok by blast

text \<open>
  C29 (redeem_keeps_solvent): redemption never pushes a solvent vault under water. The debt falls by
  exactly the redeemed amount, the redeemed collateral is worth at most the redeemed amount at par,
  and when the collateral covered the debt at the tick's high price before, what remains covers
  the remaining debt.
\<close>

theorem redeem_keeps_solvent:
  assumes "redeem L c ps v i = Inr b" "covenant_cents (vs_debt (oc_state v)) = Inr cents"
    "coll_at_cr cents (tick_hi (rd_tick i)) K_PAR \<le> oc_value v"
  shows "unat (obol_raw (vs_debt (oc_state (xd_vault (bt_expected b))))) + unat (obol_raw (rd_x i)) =
      unat (obol_raw (vs_debt (oc_state v))) \<and>
    (\<exists>rest xc. covenant_cents (vs_debt (oc_state (xd_vault (bt_expected b)))) = Inr rest \<and> covenant_cents (rd_x i) = Inr xc \<and>
       unat (sats_raw (oc_value v)) - unat (sats_raw (oc_value (xd_vault (bt_expected b)))) \<le>
         unat (sats_raw (coll_at_cr xc (tick_hi (rd_tick i)) K_PAR)) \<and>
       coll_at_cr rest (tick_hi (rd_tick i)) K_PAR \<le> oc_value (xd_vault (bt_expected b)))"
proof -
  obtain xc where acc: "covenant_cents (rd_x i) = Inr xc" "rd_x i \<le> vs_debt (oc_state v)"
    "coll_at_cr xc (tick_hi (rd_tick i)) (min (ot_backing_k (rd_tick i)) K_PAR) \<le> oc_value v"
    and b: "b = redeem_unchecked L c ps v i"
    using assms(1) unfolding redeem_Inr_iff by blast
  let ?hi = "tick_hi (rd_tick i)" and ?k = "min (ot_backing_k (rd_tick i)) K_PAR"
  note xv = redeem_vault[OF acc(1), of L c ps v]
  have le: "unat xc \<le> unat cents" using acc assms(2)
    by (auto simp: covenant_cents_Inr_iff less_eq_obol_def word_le_nat_alt)
  define rest where "rest = cents - xc"
  have sum: "unat rest + unat xc = unat cents" using le by (simp add: rest_def unat_sub word_le_nat_alt)
  have rest: "covenant_cents (vs_debt (oc_state (xd_vault (bt_expected b)))) = Inr rest"
    using cents_of_diff[OF assms(2) acc(1) sum] xv by (simp add: b)
  have k: "unat (ratio_raw ?k) \<le> 200000000"
    using K_raw(1) by (auto simp: min_def less_eq_ratio_k_def word_le_nat_alt)
  have worth: "unat (sats_raw (coll_at_cr xc ?hi ?k)) \<le> unat (sats_raw (coll_at_cr xc ?hi K_PAR))"
    using coll_nat_mono_k[OF k] by (simp add: unat_coll)
  have "unat (sats_raw (coll_at_cr rest ?hi K_PAR)) + unat (sats_raw (coll_at_cr xc ?hi K_PAR)) \<le> unat (sats_raw (oc_value v))"
    using coll_nat_superadditive[where a = "unat rest" and p = "unat (price_raw ?hi)" and k = 200000000 and b = "unat xc"] assms(3) sum by (simp add: to_nat)
  with worth xv have "coll_at_cr rest ?hi K_PAR \<le> oc_value (xd_vault (bt_expected b))"
    "unat (sats_raw (oc_value v)) - unat (sats_raw (oc_value (xd_vault (bt_expected b)))) \<le>
       unat (sats_raw (coll_at_cr xc ?hi K_PAR))"
    by (simp_all add: b less_eq_sats_def word_le_nat_alt)
  moreover have "unat (obol_raw (vs_debt (oc_state (xd_vault (bt_expected b))))) + unat (obol_raw (rd_x i)) =
      unat (obol_raw (vs_debt (oc_state v)))"
    using acc(2) xv by (simp add: b less_eq_obol_def word_le_nat_alt)
  ultimately show ?thesis using rest acc(1) by blast
qed

theorem redeem_keeps_solvent_witness:
  "\<exists>b rest. redeem sample_library sample_ctx ladder_ps ladder_vault ladder_redeem = Inr b \<and>
     covenant_cents (vs_debt (oc_state (xd_vault (bt_expected b)))) = Inr rest \<and>
     coll_at_cr rest (tick_hi (rd_tick ladder_redeem)) K_PAR \<le> oc_value (xd_vault (bt_expected b))"
proof -
  obtain b where b: "redeem sample_library sample_ctx ladder_ps ladder_vault ladder_redeem = Inr b"
    using ladder_redeem_ok by blast
  have "covenant_cents (vs_debt (oc_state ladder_vault)) = Inr 10000"
    "coll_at_cr 10000 (tick_hi (rd_tick ladder_redeem)) K_PAR \<le> oc_value ladder_vault"
    by (simp_all add: ladder_vault_def ladder_redeem_def ladder_simps)
  from redeem_keeps_solvent[OF b this] b show ?thesis by blast
qed

text \<open>
  The rungs of the ladder do not overlap where they must not. At one tick a
  vault is never open to both BAD-DEBT and FULL-LIQ, nor to both REFRESH and LIQUIDATE, whatever
  the other inputs of the two builders.
\<close>

lemma ladder_exclusive:
  assumes "bd_tick i = t" "fl_tick j = t" "rf_tick k = t" "lq_tick l = t"
  shows "\<not> ((\<exists>b. bad_debt L c ps v i = Inr b) \<and> (\<exists>b. full_liq L c ps v j = Inr b)) \<and>
    \<not> ((\<exists>b. refresh L c v k = Inr b) \<and> (\<exists>b. liquidate L c ps v l = Inr b))"
  using assms by (auto simp: bad_debt_Inr_iff full_liq_Inr_iff refresh_Inr_iff liquidate_Inr_iff)

lemma ladder_exclusive_sample:
  "(\<exists>b. liquidate sample_library sample_ctx ladder_ps ladder_vault ladder_liquidate = Inr b) \<and>
   \<not> (\<exists>b. refresh sample_library sample_ctx ladder_vault
        \<lparr>rf_tick = lq_tick ladder_liquidate, rf_fee_coin = op_funding ladder_open, rf_change_spk = [0], rf_fee = Sats 1000\<rparr> = Inr b)"
proof -
  let ?r = "\<lparr>rf_tick = lq_tick ladder_liquidate, rf_fee_coin = op_funding ladder_open, rf_change_spk = [0], rf_fee = Sats 1000\<rparr>"
  let ?bd = "\<lparr>bd_keeper = ladder_coin, bd_keeper_spk = [], bd_obol_change_spk = [], bd_fee_coin = op_funding ladder_open,
     bd_change_spk = [], bd_tick = lq_tick ladder_liquidate, bd_fee = Sats 0\<rparr>"
  let ?fl = "\<lparr>fl_keeper = ladder_coin, fl_keeper_spk = [], fl_obol_change_spk = [], fl_tick = lq_tick ladder_liquidate, fl_fee = Sats 0\<rparr>"
  from ladder_exclusive[of ?bd "lq_tick ladder_liquidate" ?fl ?r ladder_liquidate sample_library sample_ctx ladder_ps ladder_vault]
    ladder_liquidate_ok
  show ?thesis by auto
qed

text \<open>A FULL-LIQ that conserves the policy asset is funded: an unfunded one has the fee output in excess.\<close>

lemma full_liq_conserves_funded:
  assumes "full_liq L c ps v i = Inr b" "assets_ok (cx_params c)"
    "sane_amounts [obol_raw (oc_value (ps_pot ps)), sats_raw (oc_value (ps_reserve ps))]" "conserves (bt_plan b)"
  shows "unat (full_liq_reserve_fee v i) + unat (sats_raw (fl_fee i)) \<le> unat (sats_raw (oc_value v))"
proof -
  obtain cents where cents: "covenant_cents (vs_debt (oc_state v)) = Inr cents"
    and acc: "oc_value v \<le> coll_at_cr cents (tick_hi (fl_tick i)) K_FULL_LIQ_CAP"
    and b: "b = full_liq_unchecked L c ps v i"
    using assms(1) by (auto simp: full_liq_Inr_iff)
  let ?fee = "sat_sub (sats_raw (oc_value v)) (sats_raw (coll_at_cr cents (tick_hi (fl_tick i)) K_PAR)) div 3"
  have fee: "unat ?fee = unat (full_liq_reserve_fee v i)" "unat ?fee \<le> unat (sats_raw (oc_value v))"
    by (simp_all add: full_liq_reserve_fee_def cents unat_div)
  have "unat (sats_raw (coll_at_cr cents (tick_hi (fl_tick i)) K_FULL_LIQ_CAP)) < 2 ^ 63" by (rule coll_sane) simp
  then have "unat ?fee < 2 ^ 63" using acc fee(2) by (simp add: less_eq_sats_def word_le_nat_alt)
  then have add: "unat (sat_add (sats_raw (oc_value (ps_reserve ps))) ?fee) = unat (sats_raw (oc_value (ps_reserve ps))) + unat ?fee"
    using assms(3) by (intro sat_add_sane) simp
  have "utxos_total (pr_policy (cx_params c)) (pl_in_utxos (bt_plan b)) = outs_total (pr_policy (cx_params c)) (tx_output (pl_tx (bt_plan b)))"
    using assms(4) by (simp add: conserves_def)
  with cents add assets_ok_ne[OF assms(2)]
  have "unat (sats_raw (oc_value v)) = (unat (sats_raw (oc_value v)) - unat ?fee - unat (sats_raw (fl_fee i))) + unat ?fee + unat (sats_raw (fl_fee i))"
    by (simp add: b full_liq_unchecked_def Let_def)
  then show ?thesis unfolding fee(1)[symmetric] by linarith
qed

text \<open>
  C3 (builders_conserve): the transaction of an accepted operation conserves every asset (what the
  claimed inputs hold of it is what the outputs and the fee hold), FULL-LIQ excepted: it conserves
  exactly when the reserve's share and the fee fit the collateral, which its own checks do not
  enforce. The pot, the reserve and the vault's debt must stay below $2^{63}$ so that no saturating
  addition saturates.
\<close>

theorem builders_conserve:
  assumes "assets_ok (cx_params c)" "sane_amounts [obol_raw (oc_value (ps_pot ps)), sats_raw (oc_value (ps_reserve ps))]"
    "unat (obol_raw (vs_debt (oc_state v))) < 2 ^ 63"
  shows "(\<forall>i b. open_vault L c ps i = Inr b \<longrightarrow> conserves (bt_plan b)) \<and>
    (\<forall>i b. draw L c ps v i = Inr b \<longrightarrow> conserves (bt_plan b)) \<and>
    (\<forall>i b. repay L c (ps_pot ps) v i = Inr b \<longrightarrow> conserves (bt_plan b)) \<and>
    (\<forall>i b. close L c (ps_pot ps) v i = Inr b \<longrightarrow> conserves (bt_plan b)) \<and>
    (\<forall>i b. refresh L c v i = Inr b \<longrightarrow> conserves (bt_plan b)) \<and>
    (\<forall>i b. poke L c (ps_issuer ps) i = Inr b \<longrightarrow> conserves (bt_plan b)) \<and>
    (\<forall>i b. liquidate L c ps v i = Inr b \<longrightarrow> conserves (bt_plan b)) \<and>
    (\<forall>i b. redeem L c ps v i = Inr b \<longrightarrow> conserves (bt_plan b)) \<and>
    (\<forall>i b. bad_debt L c ps v i = Inr b \<longrightarrow> conserves (bt_plan b)) \<and>
    (\<forall>i b. full_liq L c ps v i = Inr b \<longrightarrow>
       (conserves (bt_plan b) \<longleftrightarrow>
        unat (full_liq_reserve_fee v i) + unat (sats_raw (fl_fee i)) \<le> unat (sats_raw (oc_value v))))"
proof (intro conjI allI impI iffI)
  show "conserves (bt_plan b)" if "repay L c (ps_pot ps) v i = Inr b" for i b
  proof (rule repay_conserves[OF that assms(1)])
    have "rp_amount i \<le> vs_debt (oc_state v)" using that by (simp add: repay_Inr_iff)
    then show "sane_amounts [obol_raw (oc_value (ps_pot ps)), obol_raw (rp_amount i)]"
      using assms(2,3) by (simp add: less_eq_obol_def word_le_nat_alt)
  qed
qed (use assms in \<open>auto intro: open_conserves draw_conserves close_conserves refresh_conserves poke_conserves
    liquidate_conserves redeem_conserves bad_debt_conserves full_liq_conserves full_liq_conserves_funded\<close>)

theorem builders_conserve_witness:
  "\<exists>b. liquidate sample_library sample_ctx ladder_ps ladder_vault ladder_liquidate = Inr b \<and> conserves (bt_plan b)"
proof -
  have "assets_ok (cx_params sample_ctx)" using sample_deployed by (simp add: deployed_def)
  moreover have "sane_amounts [obol_raw (oc_value (ps_pot ladder_ps)), sats_raw (oc_value (ps_reserve ladder_ps))]"
    "unat (obol_raw (vs_debt (oc_state ladder_vault))) < 2 ^ 63"
    by (simp_all add: ladder_ps_def ladder_vault_def)
  ultimately show ?thesis using builders_conserve ladder_liquidate_ok by blast
qed

text \<open>
  C28 (full_liq_unfunded): FULL-LIQ accepts a vault whose collateral does not cover the fee. There is
  an accepted intent whose transaction pays out more of the policy asset than its inputs hold: the
  keeper's output saturates at zero and the fee output stays.
\<close>

theorem full_liq_unfunded:
  "\<exists>v i b. full_liq sample_library sample_ctx ladder_ps v i = Inr b \<and>
     utxos_total (pr_policy (cx_params sample_ctx)) (pl_in_utxos (bt_plan b)) <
     outs_total (pr_policy (cx_params sample_ctx)) (tx_output (pl_tx (bt_plan b)))"
proof -
  let ?v = "\<lparr>oc_state = \<lparr>vs_debt = Obol 1, vs_owner = 9, vs_last_height = BlockHeight 1\<rparr>, oc_outpoint = OutPoint 5 0,
    oc_value = Sats 10\<rparr>"
  let ?i = "\<lparr>fl_keeper = ladder_coin, fl_keeper_spk = [0], fl_obol_change_spk = [0],
    fl_tick = sample_tick 100 100000 100000 100000, fl_fee = Sats 10000\<rparr>"
  have c: "covenant_cents (Obol 1) = Inr 1" by (simp add: covenant_cents_Inr_iff)
  have "full_liq sample_library sample_ctx ladder_ps ?v ?i = Inr (full_liq_unchecked sample_library sample_ctx ladder_ps ?v ?i)"
    unfolding full_liq_Inr_iff by (rule exI[of _ 1]) (simp add: ladder_simps)
  moreover have "utxos_total (pr_policy (cx_params sample_ctx)) (pl_in_utxos (bt_plan (full_liq_unchecked sample_library sample_ctx ladder_ps ?v ?i))) <
     outs_total (pr_policy (cx_params sample_ctx)) (tx_output (pl_tx (bt_plan (full_liq_unchecked sample_library sample_ctx ladder_ps ?v ?i))))"
    by (simp add: full_liq_unchecked_def Let_def c ladder_simps sample_ctx_def sample_params_def unat_div)
  ultimately show ?thesis by blast
qed

end
