(* ===== verification/Styx_Decide.thy ===== *)
theory Styx_Decide
  imports Styx_Ladder
begin

text \<open>
  The keeper's decision ladder (\<open>styx-keeper/src/decide.rs\<close>): what one look at a vault and a tick
  obliges the keeper to do. The debt of a vault that reaches the sizing loops has passed
  \<open>covenant_cents\<close>, so every \<open>u64\<close> of the loops is below $2^{32}$; the loops are written on
  natural numbers, the values they feed to the covenant arithmetic are words.
\<close>

section \<open>Verdicts\<close>

datatype action = NoAction | Refresh | Partial obol sats | FullLiq | BadDebt

text \<open>The binary search for an edge of \<open>fits\<close>, and the linear walk past it.\<close>

function search_edge :: "(nat \<Rightarrow> bool) \<Rightarrow> nat \<Rightarrow> nat \<Rightarrow> nat" where
  "search_edge fits lo hi =
     (if lo < hi
      then (let mid = lo + (hi - lo + 1) div 2
            in if fits mid then search_edge fits mid hi else search_edge fits lo (mid - 1))
      else lo)"
  by pat_completeness auto
termination
  by (relation "measure (\<lambda>(fits, lo, hi). hi - lo)") auto

function walk_tail :: "(nat \<Rightarrow> bool) \<Rightarrow> nat \<Rightarrow> nat \<Rightarrow> nat" where
  "walk_tail fits debt dd = (if dd + 1 < debt \<and> fits (dd + 1) then walk_tail fits debt (dd + 1) else dd)"
  by pat_completeness auto
termination
  by (relation "measure (\<lambda>(fits, debt, dd). debt - dd)") auto

declare search_edge.simps [simp del] walk_tail.simps [simp del]

definition pp_cap :: "price \<Rightarrow> nat \<Rightarrow> u64" where
  "pp_cap hi dd = sats_raw (coll_at_cr (of_nat dd) hi K_FULL_LIQ_CAP)"

definition pp_band :: "obol \<Rightarrow> price \<Rightarrow> nat \<Rightarrow> u64 \<times> u64" where
  "pp_band debt hi dd =
     (let rd = of_nat (unat (obol_raw debt) - dd)
      in (sats_raw (coll_at_cr rd hi K_HEAL_LO), sats_raw (coll_at_cr rd hi K_HEAL_HI)))"

definition pp_fits :: "obol \<Rightarrow> sats \<Rightarrow> price \<Rightarrow> nat \<Rightarrow> bool" where
  "pp_fits debt coll hi dd \<longleftrightarrow> sat_sub (sats_raw coll) (pp_cap hi dd) \<le> snd (pp_band debt hi dd)"

definition plan_partial :: "obol \<Rightarrow> sats \<Rightarrow> price \<Rightarrow> sats \<Rightarrow> (obol \<times> sats) option" where
  "plan_partial debt coll hi fee =
     (case covenant_cents debt of
        Inl _ \<Rightarrow> None
      | Inr debt_cents \<Rightarrow>
          if debt_cents < 2 then None
          else if \<not> pp_fits debt coll hi 1 then None
          else
            (let lo = search_edge (pp_fits debt coll hi) 1 (unat (obol_raw debt) - 1);
                 dd = walk_tail (pp_fits debt coll hi) (unat (obol_raw debt)) lo;
                 (band_lo, band_hi) = pp_band debt hi dd;
                 residual = max band_lo (sat_sub (sats_raw coll) (pp_cap hi dd))
             in if residual > band_hi \<or> residual > sats_raw coll then None
                else (let extraction = sats_raw coll - residual;
                          share = sats_raw (coll_at_cr (of_nat dd) hi K_RESERVE_SHARE)
                      in if extraction \<le> share + sats_raw fee then None
                         else Some (Obol (of_nat dd), Sats residual))))"

definition decide :: "vault_utxo \<Rightarrow> oracle_tick \<Rightarrow> block_height \<Rightarrow> u32 \<Rightarrow> sats \<Rightarrow> action" where
  "decide vault tick anchor refresh_lag fee =
     (if ot_height tick \<le> vs_last_height (oc_state vault) then NoAction
      else case covenant_cents (vs_debt (oc_state vault)) of
        Inl _ \<Rightarrow> NoAction
      | Inr debt_cents \<Rightarrow>
          if debt_cents = 0 then NoAction
          else (let hi = snd (price_range tick);
                    par = coll_at_cr debt_cents hi K_PAR;
                    cap = coll_at_cr debt_cents hi K_FULL_LIQ_CAP;
                    gate = coll_at_cr debt_cents hi K_HEALTH_GATE
                in if oc_value vault < par
                   then (if ot_height tick < anchor then NoAction else BadDebt)
                   else if oc_value vault \<le> cap then FullLiq
                   else if oc_value vault < gate
                   then (case plan_partial (vs_debt (oc_state vault)) (oc_value vault) hi fee of
                           Some (dd, residual) \<Rightarrow> Partial dd residual
                         | None \<Rightarrow> NoAction)
                   else if height_raw (ot_height tick) - height_raw (vs_last_height (oc_state vault)) > refresh_lag
                   then Refresh else NoAction))"

section \<open>The search\<close>

lemma search_edge_rec:
  "\<not> lo < hi \<Longrightarrow> search_edge fits lo hi = lo"
  "\<lbrakk>lo < hi; fits (lo + (hi - lo + 1) div 2)\<rbrakk> \<Longrightarrow> search_edge fits lo hi = search_edge fits (lo + (hi - lo + 1) div 2) hi"
  "\<lbrakk>lo < hi; \<not> fits (lo + (hi - lo + 1) div 2)\<rbrakk> \<Longrightarrow>
     search_edge fits lo hi = search_edge fits lo (lo + (hi - lo + 1) div 2 - 1)"
  by (subst search_edge.simps, simp add: Let_def)+

lemma search_edge_bounds:
  "fits lo \<Longrightarrow> fits (search_edge fits lo hi) \<and> lo \<le> search_edge fits lo hi \<and> search_edge fits lo hi \<le> max lo hi"
proof (induction fits lo hi rule: search_edge.induct)
  case (1 fits lo hi)
  let ?mid = "lo + (hi - lo + 1) div 2"
  consider "\<not> lo < hi" | "lo < hi" "fits ?mid" | "lo < hi" "\<not> fits ?mid" by blast
  then show ?case
  proof cases
    case 2
    then have "lo < ?mid" "?mid \<le> hi" by auto
    with 1(1)[OF 2(1) refl 2(2) 2(2)] show ?thesis by (simp add: search_edge_rec(2)[where fits = fits, OF 2] del: One_nat_def)
  next
    case 3
    then have "lo \<le> ?mid - 1" "?mid - 1 \<le> hi" by auto
    with 1(2)[OF 3(1) refl 3(2) 1(3)] show ?thesis by (simp add: search_edge_rec(3)[where fits = fits, OF 3] del: One_nat_def)
  qed (simp add: search_edge_rec(1) 1(3))
qed

text \<open>
  The search keeps that the value above its window does not fit, so it ends at an edge of any
  predicate, monotone or not, and the linear walk that follows it does not move.
\<close>

lemma search_edge_edge:
  "\<lbrakk>lo \<le> hi; hi = up \<or> \<not> fits (hi + 1)\<rbrakk> \<Longrightarrow> search_edge fits lo hi = up \<or> \<not> fits (search_edge fits lo hi + 1)"
proof (induction fits lo hi rule: search_edge.induct)
  case (1 fits lo hi)
  let ?mid = "lo + (hi - lo + 1) div 2"
  consider "\<not> lo < hi" | "lo < hi" "fits ?mid" | "lo < hi" "\<not> fits ?mid" by blast
  then show ?case
  proof cases
    case 2
    then have "?mid \<le> hi" by auto
    from "1.IH"(1)[OF 2(1) refl 2(2) this "1.prems"(2)] show ?thesis by (simp add: search_edge_rec(2)[where fits = fits, OF 2])
  next
    case 3
    then have "lo \<le> ?mid - 1" "\<not> fits (?mid - 1 + 1)" by auto
    from "1.IH"(2)[OF 3(1) refl 3(2) this(1) disjI2[OF this(2)]] show ?thesis
      by (simp only: search_edge_rec(3)[where fits = fits, OF 3])
  qed (use "1.prems" in \<open>simp add: search_edge_rec(1)\<close>)
qed

lemma walk_tail_idle:
  assumes "2 \<le> debt"
  shows "walk_tail fits debt (search_edge fits 1 (debt - 1)) = search_edge fits 1 (debt - 1)"
proof -
  let ?e = "search_edge fits 1 (debt - 1)"
  have "\<not> (?e + 1 < debt \<and> fits (?e + 1))" 
  proof -
    have "1 \<le> debt - 1" using assms by simp
    from search_edge_edge[OF this, of "debt - 1" fits] assms show ?thesis by linarith
  qed
  then show ?thesis by (subst walk_tail.simps) (simp only: if_False)
qed

lemma walk_tail_bounds:
  "\<lbrakk>fits dd; dd < debt\<rbrakk> \<Longrightarrow>
     fits (walk_tail fits debt dd) \<and> dd \<le> walk_tail fits debt dd \<and> walk_tail fits debt dd < debt \<and>
     (walk_tail fits debt dd + 1 = debt \<or> \<not> fits (walk_tail fits debt dd + 1))"
proof (induction fits debt dd rule: walk_tail.induct)
  case (1 fits debt dd)
  show ?case
  proof (cases "dd + 1 < debt \<and> fits (dd + 1)")
    case True
    with 1(1) have "fits (walk_tail fits debt (dd + 1)) \<and> dd + 1 \<le> walk_tail fits debt (dd + 1) \<and>
        walk_tail fits debt (dd + 1) < debt \<and>
        (walk_tail fits debt (dd + 1) + 1 = debt \<or> \<not> fits (walk_tail fits debt (dd + 1) + 1))" by blast
    moreover have "walk_tail fits debt dd = walk_tail fits debt (dd + 1)"
      using True by (subst walk_tail.simps) simp
    ultimately show ?thesis by simp
  next
    case False
    then have "walk_tail fits debt dd = dd" by (subst walk_tail.simps) auto
    with False 1(2,3) show ?thesis by auto
  qed
qed

section \<open>What a sized liquidation satisfies\<close>

lemma plan_partial_Some:
  assumes "plan_partial debt coll hi fee = Some (dd, residual)" "unat (sats_raw fee) < 2 ^ 63"
  shows "\<exists>cents rd ddc. covenant_cents debt = Inr cents \<and> covenant_cents dd = Inr ddc \<and>
    unat rd + unat ddc = unat cents \<and> dd \<noteq> obol_ZERO \<and> dd < debt \<and>
    coll_at_cr rd hi K_HEAL_LO \<le> residual \<and> residual \<le> coll_at_cr rd hi K_HEAL_HI \<and> residual \<le> coll \<and>
    unat (sats_raw coll) - unat (sats_raw residual) \<le> unat (sats_raw (coll_at_cr ddc hi K_FULL_LIQ_CAP)) \<and>
    unat (sats_raw (coll_at_cr ddc hi K_RESERVE_SHARE)) + unat (sats_raw fee) <
      unat (sats_raw coll) - unat (sats_raw residual)"
proof -
  let ?fits = "pp_fits debt coll hi" and ?D = "unat (obol_raw debt)"
  define lo where "lo = search_edge ?fits 1 (?D - 1)"
  define n where "n = walk_tail ?fits ?D lo"
  obtain cents where c: "covenant_cents debt = Inr cents" "\<not> cents < 2" "?fits 1"
    using assms(1) by (auto simp: plan_partial_def split: sum.splits if_splits)
  have D: "unat cents = ?D" "?D < 2 ^ 32" "2 \<le> ?D"
    using c(1,2) by (auto simp: covenant_cents_Inr_iff word_less_nat_alt)
  have "1 \<le> lo" "lo < ?D" "?fits lo"
    using search_edge_bounds[of ?fits 1 "?D - 1"] c(3) D(3) by (auto simp: lo_def)
  with walk_tail_bounds[of ?fits lo ?D] have n: "1 \<le> n" "n < ?D" by (auto simp: n_def)
  have n64: "unat (of_nat n :: u64) = n" and n32: "unat (of_nat n :: u32) = n"
    using n D(2) by (simp_all add: unat_of_nat)
  define rd :: u32 where "rd = of_nat (?D - n)"
  have "?D - n < 2 ^ LENGTH(32)" using D(2) by simp
  then have r32: "unat rd = ?D - n" unfolding rd_def by (simp only: unat_of_nat mod_less)
  let ?ddc = "of_nat n :: u32"
  have band: "pp_band debt hi n = (sats_raw (coll_at_cr rd hi K_HEAL_LO), sats_raw (coll_at_cr rd hi K_HEAL_HI))"
    by (simp only: pp_band_def Let_def rd_def)
  let ?res = "max (sats_raw (coll_at_cr rd hi K_HEAL_LO)) (sat_sub (sats_raw coll) (pp_cap hi n))"
  let ?share = "sats_raw (coll_at_cr ?ddc hi K_RESERVE_SHARE)"
  have "plan_partial debt coll hi fee =
      (if ?res > sats_raw (coll_at_cr rd hi K_HEAL_HI) \<or> ?res > sats_raw coll then None
       else if sats_raw coll - ?res \<le> ?share + sats_raw fee then None
       else Some (Obol (of_nat n), Sats ?res))"
    unfolding plan_partial_def c(1) sum.case Let_def lo_def[symmetric] n_def[symmetric] band prod.case
    using c(2,3) by simp
  with assms(1) have out: "dd = Obol (of_nat n)" "residual = Sats ?res"
    and res: "?res \<le> sats_raw (coll_at_cr rd hi K_HEAL_HI)" "?res \<le> sats_raw coll"
    and prof: "?share + sats_raw fee < sats_raw coll - ?res"
    by (auto simp: not_less not_le simp del: max_less_iff_conj max.bounded_iff split: if_splits)
  have "unat (?share + sats_raw fee) = unat ?share + unat (sats_raw fee)"
    using u32_price_le[of K_RESERVE_SHARE ?ddc hi] assms(2) by (intro unat_plus_exact) simp
  then have prof': "unat ?share + unat (sats_raw fee) < unat (sats_raw coll) - unat ?res"
    using prof res(2) by (simp add: word_less_nat_alt unat_sub del: max_less_iff_conj)
  have "unat (sat_sub (sats_raw coll) (pp_cap hi n)) \<le> unat ?res"
    by (simp add: max_def word_le_nat_alt)
  then have cap: "unat (sats_raw coll) - unat ?res \<le> unat (sats_raw (coll_at_cr ?ddc hi K_FULL_LIQ_CAP))"
    by (simp add: pp_cap_def)
  have cc: "covenant_cents dd = Inr ?ddc" using n D(2) by (simp add: covenant_cents_Inr_iff out n64 n32)
  show ?thesis
    using c(1) cc n res prof' cap D(1)
    by (intro exI[of _ cents] exI[of _ rd] exI[of _ ?ddc])
      (simp add: out less_eq_sats_def less_obol_def word_less_nat_alt n64 n32 r32 obol_ZERO_def
        word_unat_eq_iff del: max_less_iff_conj)
qed

section \<open>Properties\<close>

text \<open>
  C5 (decide_sound): every verdict of the keeper is one the checked builder accepts. With the same
  tick, the keeper's fee and coins that cover the debt, a \<open>Partial\<close> verdict is an accepted
  LIQUIDATE of exactly that size, \<open>FullLiq\<close> an accepted FULL-LIQ, \<open>BadDebt\<close> an accepted BAD-DEBT
  (the anchor being the issuer's) and \<open>Refresh\<close> an accepted REFRESH.
\<close>

theorem decide_sound:
  assumes "price_raw (tick_lo t) \<noteq> 0" "unat (sats_raw fee) < 2 ^ 63" "is_last_mint_height (oc_state (ps_issuer ps)) = anchor"
  shows "case decide v t anchor lag fee of
      NoAction \<Rightarrow> True
    | Refresh \<Rightarrow> \<forall>i. rf_tick i = t \<and> rf_fee i < fc_value (rf_fee_coin i) \<longrightarrow> (\<exists>b. refresh L c v i = Inr b)
    | Partial dd residual \<Rightarrow>
        \<forall>i. lq_dd i = dd \<and> lq_residual i = residual \<and> lq_tick i = t \<and> lq_fee i = fee \<and> dd \<le> oc_coin_value (lq_keeper i)
          \<longrightarrow> (\<exists>b. liquidate L c ps v i = Inr b)
    | FullLiq \<Rightarrow> \<forall>i. fl_tick i = t \<and> vs_debt (oc_state v) < oc_coin_value (fl_keeper i) \<longrightarrow> (\<exists>b. full_liq L c ps v i = Inr b)
    | BadDebt \<Rightarrow> \<forall>i. bd_tick i = t \<and> vs_debt (oc_state v) \<le> oc_coin_value (bd_keeper i) \<and> bd_fee i < fc_value (bd_fee_coin i)
          \<longrightarrow> (\<exists>b. bad_debt L c ps v i = Inr b)"
proof (cases "ot_height t \<le> vs_last_height (oc_state v)")
  case True
  then show ?thesis by (simp add: decide_def)
next
  case False
  show ?thesis
  proof (cases "covenant_cents (vs_debt (oc_state v))")
    case (Inl e)
    then show ?thesis by (simp add: decide_def)
  next
    case cents: (Inr cents)
    let ?hi = "tick_hi t"
    have part: "case plan_partial (vs_debt (oc_state v)) (oc_value v) ?hi fee of
        None \<Rightarrow> True
      | Some (dd, residual) \<Rightarrow> \<forall>i. lq_dd i = dd \<and> lq_residual i = residual \<and> lq_tick i = t \<and> lq_fee i = fee \<and>
          dd \<le> oc_coin_value (lq_keeper i) \<longrightarrow> (\<exists>b. liquidate L c ps v i = Inr b)"
      if gate: "oc_value v < coll_at_cr cents ?hi K_HEALTH_GATE"
    proof (cases "plan_partial (vs_debt (oc_state v)) (oc_value v) ?hi fee")
      case (Some q)
      obtain dd residual where q: "q = (dd, residual)" by force
      from plan_partial_Some[OF Some[unfolded q] assms(2)] cents
      show ?thesis using gate False assms(1) unfolding Some q liquidate_Inr_iff by (auto simp: not_le)
    qed simp
    from part show ?thesis
      using False assms cents
      by (auto simp: decide_def Let_def bad_debt_Inr_iff full_liq_Inr_iff refresh_Inr_iff not_le not_less
          split: option.splits)
  qed
qed

definition small_vault :: vault_utxo where
  "small_vault = \<lparr>oc_state = \<lparr>vs_debt = Obol 10, vs_owner = 9, vs_last_height = BlockHeight 1\<rparr>,
     oc_outpoint = OutPoint 5 0, oc_value = Sats 12500000\<rparr>"

lemma small_fits:
  "pp_fits (Obol 10) (Sats 12500000) (Price 1) 1" "pp_fits (Obol 10) (Sats 12500000) (Price 1) 5"
  "\<not> pp_fits (Obol 10) (Sats 12500000) (Price 1) 6" "\<not> pp_fits (Obol 10) (Sats 12500000) (Price 1) 7"
  by (simp_all add: pp_fits_def pp_cap_def pp_band_def Let_def to_nat word_le_nat_alt)

lemma small_search: "search_edge (pp_fits (Obol 10) (Sats 12500000) (Price 1)) 1 9 = 5"
proof -
  let ?f = "pp_fits (Obol 10) (Sats 12500000) (Price 1)"
  have "search_edge ?f 1 9 = search_edge ?f 5 9" using search_edge_rec(2)[of 1 9 ?f] small_fits by simp
  also have "\<dots> = search_edge ?f 5 6" using search_edge_rec(3)[of 5 9 ?f] small_fits by simp
  also have "\<dots> = search_edge ?f 5 5" using search_edge_rec(3)[of 5 6 ?f] small_fits by simp
  also have "\<dots> = 5" by (simp add: search_edge_rec(1))
  finally show ?thesis .
qed

lemma small_plan: "plan_partial (Obol 10) (Sats 12500000) (Price 1) (Sats 1000) = Some (Obol 5, Sats 6750000)"
proof -
  have cents: "covenant_cents (Obol 10) = Inr 10" by (simp add: covenant_cents_Inr_iff)
  have walk: "walk_tail (pp_fits (Obol 10) (Sats 12500000) (Price 1)) 10 5 = 5"
    by (subst walk_tail.simps) (simp add: small_fits)
  have raw: "sats_raw (coll_at_cr 5 (Price 1) K_HEAL_LO) = 6600000" "sats_raw (coll_at_cr 5 (Price 1) K_HEAL_HI) = 6850000"
    "sats_raw (coll_at_cr 5 (Price 1) K_FULL_LIQ_CAP) = 5750000" "sats_raw (coll_at_cr 5 (Price 1) K_RESERVE_SHARE) = 250000"
    by (simp_all add: word_unat_eq_iff to_nat)
  show ?thesis
    using small_fits(1) small_search
    by (simp add: plan_partial_def cents walk pp_band_def pp_cap_def raw sat_sub_def Let_def)
qed

lemma small_decide: "decide small_vault (sample_tick 100 1 1 1) (BlockHeight 1) 10 (Sats 1000) = Partial (Obol 5) (Sats 6750000)"
proof -
  have cents: "covenant_cents (Obol 10) = Inr 10" by (simp add: covenant_cents_Inr_iff)
  show ?thesis
    by (simp add: decide_def small_vault_def cents small_plan sample_tick_range sample_tick_sel Let_def to_nat)
qed

theorem decide_sound_witness:
  "\<exists>b. liquidate sample_library sample_ctx ladder_ps small_vault
     \<lparr>lq_dd = Obol 5, lq_residual = Sats 6750000, lq_keeper = ladder_coin, lq_keeper_spk = [0], lq_obol_change_spk = [0],
      lq_tick = sample_tick 100 1 1 1, lq_fee = Sats 1000\<rparr> = Inr b"
proof -
  have "price_raw (tick_lo (sample_tick 100 1 1 1)) \<noteq> 0" "unat (sats_raw (Sats 1000)) < 2 ^ 63"
    "is_last_mint_height (oc_state (ps_issuer ladder_ps)) = BlockHeight 1"
    by (simp_all add: sample_tick_range ladder_ps_def)
  from decide_sound[OF this, where v = small_vault and lag = 10 and L = sample_library and c = sample_ctx]
  show ?thesis by (simp add: small_decide ladder_coin_def less_eq_obol_def)
qed

text \<open>
  A vault below 115% is not left alone when the tick is above its ratchet and at or above the
  anchor, and its debt is a whole number of cents: worth less than the debt it gets a bad-debt
  verdict, between par and 115% a full-liquidation verdict.
\<close>

lemma decide_acts:
  assumes "vs_last_height (oc_state v) < ot_height t" "anchor \<le> ot_height t"
    "covenant_cents (vs_debt (oc_state v)) = Inr cents" "cents \<noteq> 0"
  shows "oc_value v < coll_at_cr cents (tick_hi t) K_PAR \<Longrightarrow> decide v t anchor lag fee = BadDebt"
    "\<lbrakk>coll_at_cr cents (tick_hi t) K_PAR \<le> oc_value v; oc_value v \<le> coll_at_cr cents (tick_hi t) K_FULL_LIQ_CAP\<rbrakk>
       \<Longrightarrow> decide v t anchor lag fee = FullLiq"
  using assms by (simp_all add: decide_def Let_def not_le not_less)

section \<open>The size of a partial liquidation\<close>

text \<open>
  What a partial liquidation of \<open>d\<close> cents may leave: a residual not above the 137% line of the
  remaining debt, and so that not more than 115% of \<open>d\<close> is taken out.
\<close>

definition sizes :: "obol \<Rightarrow> sats \<Rightarrow> price \<Rightarrow> nat \<Rightarrow> sats \<Rightarrow> bool" where
  "sizes debt coll hi d r \<longleftrightarrow>
     r \<le> coll_at_cr (of_nat (unat (obol_raw debt) - d)) hi K_HEAL_HI \<and>
     unat (sats_raw coll) \<le> unat (sats_raw r) + unat (sats_raw (coll_at_cr (of_nat d) hi K_FULL_LIQ_CAP))"

lemma pp_fits_iff: "pp_fits debt coll hi d \<longleftrightarrow> (\<exists>r. sizes debt coll hi d r)"
proof
  assume "pp_fits debt coll hi d"
  then show "\<exists>r. sizes debt coll hi d r"
    by (intro exI[of _ "Sats (sat_sub (sats_raw coll) (pp_cap hi d))"])
      (simp add: sizes_def pp_fits_def pp_cap_def pp_band_def Let_def less_eq_sats_def)
next
  assume "\<exists>r. sizes debt coll hi d r"
  then show "pp_fits debt coll hi d"
    by (auto simp: sizes_def pp_fits_def pp_cap_def pp_band_def Let_def less_eq_sats_def word_le_nat_alt)
qed

lemma pp_fits_nat:
  assumes "d \<le> unat (obol_raw debt)" "unat (obol_raw debt) < 2 ^ 32"
  shows "pp_fits debt coll hi d \<longleftrightarrow> unat (sats_raw coll) \<le>
    coll_nat d (unat (price_raw hi)) 230000000 + coll_nat (unat (obol_raw debt) - d) (unat (price_raw hi)) 274000000"
proof -
  have lt: "d < 2 ^ LENGTH(32)" "unat (obol_raw debt) - d < 2 ^ LENGTH(32)" using assms by simp_all
  then have "unat (of_nat d :: u32) = d" "unat (of_nat (unat (obol_raw debt) - d) :: u32) = unat (obol_raw debt) - d"
    by (simp_all only: unat_of_nat mod_less)
  then show ?thesis
    by (simp add: pp_fits_def pp_cap_def pp_band_def Let_def word_le_nat_alt to_nat) linarith
qed

text \<open>
  In the integers the feasible collateral falls with the size as soon as the sizes differ by one
  satoshi's worth of the 22% between the lines, $p / 220000$ cents.
\<close>

lemma div_add_le: "0 < c \<Longrightarrow> (a + b) div c \<le> a div c + b div c + (1 :: nat)"
proof -
  assume "0 < c"
  then have "a mod c + b mod c < 2 * c" using mod_less_divisor[of c a] mod_less_divisor[of c b] by linarith
  then have "(a mod c + b mod c) div c < 2" using \<open>0 < c\<close> by (simp add: div_less_iff_less_mult)
  then show ?thesis by (simp add: div_add1_eq[of a b c])
qed

lemma div_add_ge: "a div c + b div c \<le> (a + b) div (c :: nat)"
  by (simp add: div_add1_eq[of a b c])

lemma room_falls:
  assumes "a \<le> b" "b \<le> D" "p \<le> (b - a) * 220000"
  shows "coll_nat b p 230000000 + coll_nat (D - b) p 274000000 \<le> coll_nat a p 230000000 + coll_nat (D - a) p 274000000"
proof (cases "p = 0")
  case False
  let ?P = "p * 200" and ?n = "b - a"
  have eq: "b * 230000000 = a * 230000000 + ?n * 230000000" "(D - a) * 274000000 = (D - b) * 274000000 + ?n * 274000000"
    using assms(1,2) by (simp_all add: algebra_simps)
  have "(a * 230000000 + ?n * 230000000) div ?P \<le> a * 230000000 div ?P + ?n * 230000000 div ?P + 1"
    by (rule div_add_le) (use False in simp)
  moreover have "?n * 230000000 div ?P + 1 \<le> ?n * 274000000 div ?P"
  proof -
    have "?n * 230000000 div ?P + 1 = (?n * 230000000 + ?P) div ?P" using False by simp
    also have "\<dots> \<le> ?n * 274000000 div ?P" using assms(3) by (intro div_le_mono) simp
    finally show ?thesis .
  qed
  moreover have "(D - b) * 274000000 div ?P + ?n * 274000000 div ?P \<le> ((D - b) * 274000000 + ?n * 274000000) div ?P"
    by (rule div_add_ge)
  ultimately show ?thesis unfolding eq by linarith
qed simp

lemma plan_partial_size:
  assumes "plan_partial debt coll hi fee = Some (dd, residual)"
  defines "D \<equiv> unat (obol_raw debt)" and "n \<equiv> unat (obol_raw dd)"
  shows "D < 2 ^ 32 \<and> 1 \<le> n \<and> n < D \<and> pp_fits debt coll hi n \<and> (n + 1 = D \<or> \<not> pp_fits debt coll hi (n + 1)) \<and>
    residual = Sats (max (fst (pp_band debt hi n)) (sat_sub (sats_raw coll) (pp_cap hi n))) \<and>
    sats_raw residual \<le> snd (pp_band debt hi n)"
proof -
  let ?fits = "pp_fits debt coll hi"
  define lo where "lo = search_edge ?fits 1 (D - 1)"
  obtain cents where c: "covenant_cents debt = Inr cents" "\<not> cents < 2" "?fits 1"
    using assms(1) by (auto simp: plan_partial_def split: sum.splits if_splits)
  have D: "D < 2 ^ 32" "2 \<le> D" using c(1,2) by (auto simp: D_def covenant_cents_Inr_iff word_less_nat_alt)
  have lo: "1 \<le> lo" "lo < D" "?fits lo" using search_edge_bounds[of ?fits 1 "D - 1"] c(3) D(2) by (auto simp: lo_def)
  have edge: "lo + 1 = D \<or> \<not> ?fits (lo + 1)" using search_edge_edge[of 1 "D - 1" "D - 1" ?fits] D(2) by (auto simp: lo_def)
  have walk: "walk_tail ?fits D lo = lo" unfolding lo_def by (rule walk_tail_idle[OF D(2)])
  from assms(1) have out: "dd = Obol (of_nat lo)"
      "residual = Sats (max (fst (pp_band debt hi lo)) (sat_sub (sats_raw coll) (pp_cap hi lo)))"
    and band: "sats_raw residual \<le> snd (pp_band debt hi lo)"
    using c walk unfolding plan_partial_def D_def[symmetric] lo_def[symmetric]
    by (auto simp: Let_def case_prod_beta not_less split: if_splits)
  have "unat (of_nat lo :: u64) = lo" using lo(2) D(1) by (simp add: unat_of_nat)
  then have "n = lo" by (simp add: n_def out(1))
  with D lo edge out band show ?thesis by simp
qed

text \<open>
  C31 (partial_nearly_largest): the size the keeper plans for a partial liquidation works, and is the
  largest that works up to rounding. For every vault and price for which a plan is found, the planned
  size and residual respect the two lines (\<open>sizes\<close>: residual at most 137% of the remaining debt,
  extraction at most 115% of the repaid one) and the residual is the least one in the heal band that
  does. Any other size that works at all is not above the planned one, or exceeds it by less than
  one cent plus $p / 220000$ cents, so at prices up to 220000 the planned size is the maximum.
\<close>

theorem partial_nearly_largest:
  assumes "plan_partial debt coll hi fee = Some (dd, residual)"
  shows "sizes debt coll hi (unat (obol_raw dd)) residual \<and> 0 < unat (obol_raw dd) \<and> dd < debt \<and>
    (\<forall>r. coll_at_cr (of_nat (unat (obol_raw debt) - unat (obol_raw dd))) hi K_HEAL_LO \<le> r \<and>
       sizes debt coll hi (unat (obol_raw dd)) r \<longrightarrow> residual \<le> r) \<and>
    (\<forall>d r. 0 < d \<and> d < unat (obol_raw debt) \<and> sizes debt coll hi d r \<longrightarrow>
       d \<le> unat (obol_raw dd) \<or> (d - unat (obol_raw dd) - 1) * 220000 < unat (price_raw hi)) \<and>
    (price_raw hi \<le> 220000 \<longrightarrow> (\<forall>d r. 0 < d \<and> d < unat (obol_raw debt) \<and> sizes debt coll hi d r \<longrightarrow> d \<le> unat (obol_raw dd)))"
proof -
  let ?n = "unat (obol_raw dd)" and ?D = "unat (obol_raw debt)" and ?p = "unat (price_raw hi)"
  from plan_partial_size[OF assms] have D: "?D < 2 ^ 32" "1 \<le> ?n" "?n < ?D" and edge: "?n + 1 = ?D \<or> \<not> pp_fits debt coll hi (?n + 1)"
    and res: "residual = Sats (max (fst (pp_band debt hi ?n)) (sat_sub (sats_raw coll) (pp_cap hi ?n)))"
      "sats_raw residual \<le> snd (pp_band debt hi ?n)" by auto
  have fit: "sizes debt coll hi ?n residual"
    using res by (auto simp: sizes_def pp_band_def pp_cap_def Let_def less_eq_sats_def max_def word_le_nat_alt)
  have least: "residual \<le> r" if "coll_at_cr (of_nat (?D - ?n)) hi K_HEAL_LO \<le> r" "sizes debt coll hi ?n r" for r
    using that res(1) by (auto simp: sizes_def pp_band_def pp_cap_def Let_def less_eq_sats_def word_le_nat_alt max_def)
  have near: "(d - ?n - 1) * 220000 < ?p" "d \<noteq> ?n + 1" if d: "0 < d" "d < ?D" "sizes debt coll hi d r" "?n < d" for d r
  proof -
    have fd: "pp_fits debt coll hi d" using d(3) pp_fits_iff by blast
    with edge d(2) show "d \<noteq> ?n + 1" by auto
    have "\<not> pp_fits debt coll hi (?n + 1)" using edge d(2,4) by auto
    with fd D d have "\<not> coll_nat d ?p 230000000 + coll_nat (?D - d) ?p 274000000
        \<le> coll_nat (?n + 1) ?p 230000000 + coll_nat (?D - (?n + 1)) ?p 274000000"
      by (simp add: pp_fits_nat)
    with room_falls[of "?n + 1" d ?D ?p] d(2,4) have "\<not> ?p \<le> (d - (?n + 1)) * 220000" by linarith
    then show "(d - ?n - 1) * 220000 < ?p" by simp
  qed
  have close: "d \<le> ?n \<or> (d - ?n - 1) * 220000 < ?p" if "0 < d" "d < ?D" "sizes debt coll hi d r" for d r
    using near(1)[OF that] by linarith
  have small: "d \<le> ?n" if "price_raw hi \<le> 220000" "0 < d" "d < ?D" "sizes debt coll hi d r" for d r
  proof (rule ccontr)
    assume "\<not> d \<le> ?n"
    with near[OF that(2-4)] that(1) show False by (simp add: word_le_nat_alt)
  qed
  have "0 < ?n" "dd < debt" using D by (simp_all add: less_obol_def word_less_nat_alt)
  with fit least close small show ?thesis by blast
qed

theorem partial_nearly_largest_witness:
  "plan_partial (Obol 10) (Sats 12500000) (Price 1) (Sats 1000) = Some (Obol 5, Sats 6750000) \<and>
   sizes (Obol 10) (Sats 12500000) (Price 1) 5 (Sats 6750000) \<and>
   \<not> sizes (Obol 10) (Sats 12500000) (Price 1) 6 (Sats 5480000)"
  using partial_nearly_largest[OF small_plan] small_plan by (auto dest!: spec[of _ 6])

section \<open>Above 220000 the plan is not the largest\<close>

definition jitter_vault :: vault_utxo where
  "jitter_vault = \<lparr>oc_state = \<lparr>vs_debt = Obol 10, vs_owner = 9, vs_last_height = BlockHeight 1\<rparr>,
     oc_outpoint = OutPoint 5 0, oc_value = Sats 34\<rparr>"

abbreviation jitter_tick :: oracle_tick where
  "jitter_tick \<equiv> sample_tick 100 362000 362000 362000"

definition jitter_liquidate :: liquidate_intent where
  "jitter_liquidate = \<lparr>lq_dd = Obol 6, lq_residual = Sats 15, lq_keeper = ladder_coin, lq_keeper_spk = [0], lq_obol_change_spk = [0],
     lq_tick = jitter_tick, lq_fee = Sats 1\<rparr>"

abbreviation jitter_fits :: "nat \<Rightarrow> bool" where
  "jitter_fits \<equiv> pp_fits (Obol 10) (Sats 34) (Price 362000)"

lemma jitter_fits: "jitter_fits 1" "\<not> jitter_fits 5" "jitter_fits 3" "jitter_fits 4" "jitter_fits 6"
  by (simp_all add: pp_fits_def pp_cap_def pp_band_def Let_def to_nat word_le_nat_alt)

lemma jitter_search: "search_edge jitter_fits 1 9 = 4"
proof -
  have "search_edge jitter_fits 1 9 = search_edge jitter_fits 1 4" using search_edge_rec(3)[of 1 9 jitter_fits] jitter_fits by simp
  also have "\<dots> = search_edge jitter_fits 3 4" using search_edge_rec(2)[of 1 4 jitter_fits] jitter_fits by (simp add: numeral_3_eq_3)
  also have "\<dots> = search_edge jitter_fits 4 4" using search_edge_rec(2)[of 3 4 jitter_fits] jitter_fits by simp
  also have "\<dots> = 4" by (simp add: search_edge_rec(1))
  finally show ?thesis .
qed

lemma jitter_decide: "decide jitter_vault jitter_tick (BlockHeight 1) 10 (Sats 1) = Partial (Obol 4) (Sats 22)"
proof -
  have cents: "covenant_cents (Obol 10) = Inr 10" by (simp add: covenant_cents_Inr_iff)
  have walk: "walk_tail jitter_fits 10 4 = 4" by (subst walk_tail.simps) (simp add: jitter_fits)
  have raw: "sats_raw (coll_at_cr 6 (Price 362000) K_HEAL_LO) = 21" "sats_raw (coll_at_cr 6 (Price 362000) K_HEAL_HI) = 22"
    "sats_raw (coll_at_cr 4 (Price 362000) K_FULL_LIQ_CAP) = 12" "sats_raw (coll_at_cr 4 (Price 362000) K_RESERVE_SHARE) = 0"
    by (simp_all add: word_unat_eq_iff to_nat)
  have "plan_partial (Obol 10) (Sats 34) (Price 362000) (Sats 1) = Some (Obol 4, Sats 22)"
    using jitter_fits(1) jitter_search
    by (simp add: plan_partial_def cents walk pp_band_def pp_cap_def raw sat_sub_def Let_def word_le_nat_alt)
  then show ?thesis
    by (simp add: decide_def jitter_vault_def cents sample_tick_range sample_tick_sel Let_def to_nat)
qed

lemma jitter_accepted: "\<exists>b. liquidate L c ps jitter_vault jitter_liquidate = Inr b"
proof -
  have "covenant_cents (Obol 10) = Inr 10" "covenant_cents (Obol 6) = Inr 6" by (simp_all add: covenant_cents_Inr_iff)
  then show ?thesis
    by (simp add: liquidate_Inr_iff jitter_vault_def jitter_liquidate_def ladder_coin_def sample_tick_range sample_tick_sel to_nat
        less_obol_def less_eq_obol_def obol_ZERO_def)
      (rule exI[of _ 4], simp)
qed

text \<open>
  C32 (walk_claims_nothing): the linear walk after the binary search never moves, for any debt,
  collateral and price that reach it: the search already ends at a value whose successor does not
  fit. So what rounding re-opens past the edge is not claimed, and above 220000 the planned size need
  not be the largest: at a price of 362000 the keeper plans to repay 4 of 10 cents of a vault, and
  the checked builder accepts 6 with the same tick, fee and coin.
\<close>

theorem walk_claims_nothing:
  "(2 \<le> unat (obol_raw debt) \<longrightarrow>
      walk_tail (pp_fits debt coll hi) (unat (obol_raw debt)) (search_edge (pp_fits debt coll hi) 1 (unat (obol_raw debt) - 1)) =
      search_edge (pp_fits debt coll hi) 1 (unat (obol_raw debt) - 1)) \<and>
   decide jitter_vault jitter_tick (BlockHeight 1) 10 (Sats 1) = Partial (Obol 4) (Sats 22) \<and>
   (\<exists>b. liquidate L c ps jitter_vault jitter_liquidate = Inr b \<and> lq_dd jitter_liquidate = Obol 6)"
  using walk_tail_idle[of "unat (obol_raw debt)" "pp_fits debt coll hi"] jitter_decide jitter_accepted[of L c ps]
  by (auto simp: jitter_liquidate_def)

theorem walk_claims_nothing_witness:
  "walk_tail (pp_fits (Obol 10) (Sats 34) (Price 362000)) 10 (search_edge (pp_fits (Obol 10) (Sats 34) (Price 362000)) 1 9) = 4 \<and>
   pp_fits (Obol 10) (Sats 34) (Price 362000) 6"
  using walk_claims_nothing[of "Obol 10" "Sats 34" "Price 362000" sample_library sample_ctx ladder_ps] jitter_search jitter_fits(5) by simp

end
