(* ===== verification/Styx_Keeper.thy ===== *)
theory Styx_Keeper
  imports Styx_Ops Styx_Decide
begin

text \<open>
  The keeper (\<open>styx-keeper/src/keeper.rs\<close>): a wallet (the purse), a book of verified quotes and
  one step per tick. Everything it sends goes through the purse's operations. Here the purse is the
  keeper's own (the daemon holds the only handle), so that nothing changes it between two locks;
  the keeper on a purse it shares is the subject of \<open>Styx_Shared\<close>.
  The size of a transaction in virtual bytes comes from the transaction library.
\<close>

section \<open>The network fee\<close>

definition HEADROOM :: u64 where "HEADROOM = 2"
definition FLOOR :: u64 where "FLOOR = 300"

definition network_fee :: "('p, 'f) wallet_env \<Rightarrow> u64 \<Rightarrow> ('p, 'f, sats) wop" where
  "network_fee E vsize =
     op_bind (relay_feerate E) (\<lambda>rate.
     op_ret (case rate of
        None \<Rightarrow> FEE
      | Some rate_kvb \<Rightarrow>
          let base = div_ceil (sat_mul rate_kvb vsize) 1000
          in Sats (min (max (sat_mul base HEADROOM) FLOOR) (sats_raw FEE))))"

type_synonym ('p, 'f) plan_at = "sats \<Rightarrow> ('p, 'f) wallet \<Rightarrow> wallet_error + tx_plan"

definition signed_at :: "('p, 'f) wallet_env \<Rightarrow> ('p, 'f) plan_at \<Rightarrow> sats \<Rightarrow> ('p, 'f) wallet \<Rightarrow> wallet_error + transaction" where
  "signed_at E build_plan fee w = bind_res (build_plan fee w) (\<lambda>p. wallet_sign E p w)"

definition broadcast_estimated ::
  "('p, 'f) wallet_env \<Rightarrow> (transaction \<Rightarrow> u64) \<Rightarrow> ('p, 'f) plan_at \<Rightarrow> ('p, 'f, txid) wop" where
  "broadcast_estimated E vsize build_plan =
     op_bind (\<lambda>w. (signed_at E build_plan FEE w, w)) (\<lambda>provisional.
     op_bind (network_fee E (vsize provisional)) (\<lambda>fee.
     if sats_raw FEE \<le> sats_raw fee then broadcast E provisional
     else op_bind (op_gets (signed_at E build_plan fee)) (\<lambda>r.
       case r of Inr tx \<Rightarrow> broadcast E tx | Inl _ \<Rightarrow> broadcast E provisional)))"

section \<open>State\<close>

datatype performed =
    Poked txid
  | Refreshed outpoint txid
  | PartialLiq outpoint obol txid
  | FullLiquidated outpoint txid
  | BadDebtCleared outpoint txid
  | ResolvedElsewhere outpoint

datatype keeper_error =
    KWallet wallet_error
  | KRejected string string
  | KConflictExhausted string nat

definition REJECTED_EXIT :: int where "REJECTED_EXIT = 65"
definition ACTED_RETRY_BLOCKS :: u32 where "ACTED_RETRY_BLOCKS = 6"

record ('p, 'f) keeper =
  kp_purse :: "('p, 'f) wallet"
  kp_book :: quote_book
  kp_opts :: keeper_opts
  kp_acted :: "(outpoint, u32) fmap"
  kp_poked :: "(block_height \<times> u32) option"
  kp_last_acted_height :: "u32 option"

definition keeper_new :: "('p, 'f) wallet \<Rightarrow> keeper_opts \<Rightarrow> ('p, 'f) keeper" where
  "keeper_new purse opts =
     \<lparr>kp_purse = purse, kp_book = book_new (pr_oracle_pks (cx_params (wl_ctx purse))), kp_opts = opts,
      kp_acted = fmempty, kp_poked = None, kp_last_acted_height = None\<rparr>"

text \<open>A quote with a malformed signature string panics in the book; every other refusal drops it.\<close>

definition absorb :: "('p, 'f) wallet_env \<Rightarrow> wire_quote \<Rightarrow> ('p, 'f) keeper \<Rightarrow> ('p, 'f) keeper option" where
  "absorb E quote k =
     (case book_insert (lb_sha256 (we_lib E)) (we_prover E) (kp_book k) quote (BlockHeight (ix_height (wl_state (kp_purse k)))) of
        Inr book \<Rightarrow> Some (k\<lparr>kp_book := book\<rparr>)
      | Inl (QuoteErr _) \<Rightarrow> Some k
      | Inl QuotePanic \<Rightarrow> None)"

text \<open>The quotes one drain receives before the transport is idle or fails.\<close>

fun drain :: "('p, 'f) wallet_env \<Rightarrow> wire_quote list \<Rightarrow> ('p, 'f) keeper \<Rightarrow> ('p, 'f) keeper option" where
  "drain E [] k = Some k"
| "drain E (q # qs) k = Option.bind (absorb E q k) (drain E qs)"

fun find_map :: "('a \<Rightarrow> 'b option) \<Rightarrow> 'a list \<Rightarrow> 'b option" where
  "find_map f [] = None"
| "find_map f (x # xs) = (case f x of Some y \<Rightarrow> Some y | None \<Rightarrow> find_map f xs)"

definition keeper_assemble :: "('p, 'f) keeper \<Rightarrow> oracle_tick option" where
  "keeper_assemble k =
     (let tip = ix_height (wl_state (kp_purse k)); low = sat_sub tip (ko_walkback (kp_opts k))
      in find_map (\<lambda>h. assemble_tick (kp_book k) (BlockHeight (of_nat h))) (rev [unat low..<Suc (unat tip)]))"

definition known_vaults :: "('p, 'f) keeper \<Rightarrow> vault_utxo list" where
  "known_vaults k = somes (map (\<lambda>(op, v). tv_known v op) (vault_entries (wl_state (kp_purse k))))"

definition vault_at :: "outpoint \<Rightarrow> ('p, 'f) wallet \<Rightarrow> wallet_error + vault_utxo" where
  "vault_at op w =
     (case Option.bind (fmlookup (ix_vaults (wl_state w)) op) (\<lambda>v. tv_known v op) of
        None \<Rightarrow> Inl (VaultNotFound op) | Some v \<Rightarrow> Inr v)"

section \<open>The attempts\<close>

definition liquidate_intent_of ::
  "('p, 'f) wallet_env \<Rightarrow> ('p, 'f) wallet \<Rightarrow> obol \<Rightarrow> sats \<Rightarrow> outpoint \<times> u64 \<Rightarrow> oracle_tick \<Rightarrow> sats \<Rightarrow> liquidate_intent" where
  "liquidate_intent_of E w dd residual coin tick fee =
     \<lparr>lq_dd = dd, lq_residual = residual, lq_keeper = obol_coin_of E w coin, lq_keeper_spk = funding_spk E w,
      lq_obol_change_spk = funding_spk E w, lq_tick = tick, lq_fee = fee\<rparr>"

definition full_liq_intent_of ::
  "('p, 'f) wallet_env \<Rightarrow> ('p, 'f) wallet \<Rightarrow> outpoint \<times> u64 \<Rightarrow> oracle_tick \<Rightarrow> sats \<Rightarrow> full_liq_intent" where
  "full_liq_intent_of E w coin tick fee =
     \<lparr>fl_keeper = obol_coin_of E w coin, fl_keeper_spk = funding_spk E w, fl_obol_change_spk = funding_spk E w,
      fl_tick = tick, fl_fee = fee\<rparr>"

definition bad_debt_intent_of ::
  "('p, 'f) wallet_env \<Rightarrow> ('p, 'f) wallet \<Rightarrow> outpoint \<times> u64 \<Rightarrow> outpoint \<times> u64 \<Rightarrow> oracle_tick \<Rightarrow> sats \<Rightarrow> bad_debt_intent" where
  "bad_debt_intent_of E w coin fee_coin tick fee =
     \<lparr>bd_keeper = obol_coin_of E w coin, bd_keeper_spk = funding_spk E w, bd_obol_change_spk = funding_spk E w,
      bd_fee_coin = funding_coin_of E w fee_coin, bd_change_spk = funding_spk E w, bd_tick = tick, bd_fee = fee\<rparr>"

definition poke_intent_of ::
  "('p, 'f) wallet_env \<Rightarrow> ('p, 'f) wallet \<Rightarrow> outpoint \<times> u64 \<Rightarrow> oracle_tick \<Rightarrow> sats \<Rightarrow> poke_intent" where
  "poke_intent_of E w coin tick fee =
     \<lparr>pk_tick = tick, pk_funding = funding_coin_of E w coin, pk_change_spk = funding_spk E w, pk_fee = fee\<rparr>"

definition plan_of :: "build_error + 'd built \<Rightarrow> wallet_error + tx_plan" where
  "plan_of r = map_err WBuild (map_sum id bt_plan r)"

definition replan ::
  "vault_utxo \<Rightarrow> oracle_tick \<Rightarrow> block_height \<Rightarrow> u32 \<Rightarrow> outpoint \<Rightarrow> sats \<Rightarrow> wallet_error + obol \<times> sats" where
  "replan v tick anchor refresh_lag vault fee =
     (case decide v tick anchor refresh_lag fee of
        Partial dd residual \<Rightarrow> Inr (dd, residual)
      | _ \<Rightarrow> Inl (VaultNotFound vault))"

text \<open>
  An attempt on a vault takes the purse's lock twice: once to read the vault again, and once for
  everything that follows. What happens under the second lock is a definition of its own.
\<close>

definition partial_locked ::
  "('p, 'f) wallet_env \<Rightarrow> (transaction \<Rightarrow> u64) \<Rightarrow> u32 \<Rightarrow> outpoint \<Rightarrow> oracle_tick \<Rightarrow> vault_utxo \<Rightarrow> ('p, 'f, txid) wop" where
  "partial_locked E vsize refresh_lag vault tick v =
     op_bind (\<lambda>w. (protocol w, w)) (\<lambda>ps.
     let anchor = is_last_mint_height (oc_state (ps_issuer ps)) in
     op_bind (op_lift (replan v tick anchor refresh_lag vault FEE)) (\<lambda>(dd0, _).
     op_bind (ensure_obol E (obol_raw dd0)) (\<lambda>coin.
     broadcast_estimated E vsize (\<lambda>fee w.
       bind_res (replan v tick anchor refresh_lag vault fee) (\<lambda>(dd, residual).
       plan_of (liquidate (we_lib E) (wl_ctx w) ps v (liquidate_intent_of E w dd residual coin tick fee)))))))"

definition full_liq_locked ::
  "('p, 'f) wallet_env \<Rightarrow> (transaction \<Rightarrow> u64) \<Rightarrow> oracle_tick \<Rightarrow> vault_utxo \<Rightarrow> ('p, 'f, txid) wop" where
  "full_liq_locked E vsize tick v =
     op_bind (\<lambda>w. (protocol w, w)) (\<lambda>ps.
     op_bind (ensure_obol E (obol_raw (vs_debt (oc_state v)) + 1)) (\<lambda>coin.
     broadcast_estimated E vsize (\<lambda>fee w.
       plan_of (full_liq (we_lib E) (wl_ctx w) ps v (full_liq_intent_of E w coin tick fee)))))"

definition bad_debt_locked ::
  "('p, 'f) wallet_env \<Rightarrow> (transaction \<Rightarrow> u64) \<Rightarrow> oracle_tick \<Rightarrow> vault_utxo \<Rightarrow> ('p, 'f, txid) wop" where
  "bad_debt_locked E vsize tick v =
     op_bind (\<lambda>w. (protocol w, w)) (\<lambda>ps.
     op_bind (ensure_obol E (obol_raw (vs_debt (oc_state v)))) (\<lambda>coin.
     op_bind (pick_lbtc E FEE_COIN_MIN) (\<lambda>fee_coin.
     broadcast_estimated E vsize (\<lambda>fee w.
       plan_of (bad_debt (we_lib E) (wl_ctx w) ps v (bad_debt_intent_of E w coin fee_coin tick fee))))))"

definition refresh_locked ::
  "('p, 'f) wallet_env \<Rightarrow> (transaction \<Rightarrow> u64) \<Rightarrow> oracle_tick \<Rightarrow> vault_utxo \<Rightarrow> ('p, 'f, txid) wop" where
  "refresh_locked E vsize tick v =
     op_bind (pick_lbtc E FEE_COIN_MIN) (\<lambda>fee_coin.
     broadcast_estimated E vsize (\<lambda>fee w.
       plan_of (refresh (we_lib E) (wl_ctx w) v (refresh_intent_of E w tick fee_coin fee))))"

definition attempt_partial ::
  "('p, 'f) wallet_env \<Rightarrow> (transaction \<Rightarrow> u64) \<Rightarrow> u32 \<Rightarrow> outpoint \<Rightarrow> oracle_tick \<Rightarrow> ('p, 'f, txid) wop" where
  "attempt_partial E vsize refresh_lag vault tick = op_bind (\<lambda>w. (vault_at vault w, w)) (partial_locked E vsize refresh_lag vault tick)"

definition attempt_full_liq ::
  "('p, 'f) wallet_env \<Rightarrow> (transaction \<Rightarrow> u64) \<Rightarrow> outpoint \<Rightarrow> oracle_tick \<Rightarrow> ('p, 'f, txid) wop" where
  "attempt_full_liq E vsize vault tick = op_bind (\<lambda>w. (vault_at vault w, w)) (full_liq_locked E vsize tick)"

definition attempt_bad_debt ::
  "('p, 'f) wallet_env \<Rightarrow> (transaction \<Rightarrow> u64) \<Rightarrow> outpoint \<Rightarrow> oracle_tick \<Rightarrow> ('p, 'f, txid) wop" where
  "attempt_bad_debt E vsize vault tick = op_bind (\<lambda>w. (vault_at vault w, w)) (bad_debt_locked E vsize tick)"

definition attempt_refresh ::
  "('p, 'f) wallet_env \<Rightarrow> (transaction \<Rightarrow> u64) \<Rightarrow> outpoint \<Rightarrow> oracle_tick \<Rightarrow> ('p, 'f, txid) wop" where
  "attempt_refresh E vsize vault tick = op_bind (\<lambda>w. (vault_at vault w, w)) (refresh_locked E vsize tick)"

definition build_poke ::
  "('p, 'f) wallet_env \<Rightarrow> (transaction \<Rightarrow> u64) \<Rightarrow> oracle_tick \<Rightarrow> ('p, 'f, txid) wop" where
  "build_poke E vsize tick =
     op_bind (\<lambda>w. (protocol w, w)) (\<lambda>ps.
     op_bind (pick_lbtc E FEE_COIN_MIN) (\<lambda>coin.
     broadcast_estimated E vsize (\<lambda>fee w.
       plan_of (poke (we_lib E) (wl_ctx w) (ps_issuer ps) (poke_intent_of E w coin tick fee)))))"

fun keeper_error_of :: "wallet_error \<Rightarrow> keeper_error" where
  "keeper_error_of (WRejected what message) = KRejected what message"
| "keeper_error_of (ConflictExhausted what attempts) = KConflictExhausted what attempts"
| "keeper_error_of e = KWallet e"

text \<open>Every attempt works on the purse alone.\<close>

definition keeper_retry ::
  "('p, 'f) wallet_env \<Rightarrow> string \<Rightarrow> ('p, 'f, txid) wop \<Rightarrow> ('p, 'f) keeper \<Rightarrow> (keeper_error + txid option) \<times> ('p, 'f) keeper" where
  "keeper_retry E what f k =
     (case retry_conflicts what (resync E) f Benign (kp_purse k) of
        (r, w) \<Rightarrow> (map_err keeper_error_of r, k\<lparr>kp_purse := w\<rparr>))"

definition keeper_execute ::
  "('p, 'f) wallet_env \<Rightarrow> (transaction \<Rightarrow> u64) \<Rightarrow> outpoint \<Rightarrow> action \<Rightarrow> oracle_tick \<Rightarrow> ('p, 'f) keeper \<Rightarrow>
     (keeper_error + performed option) \<times> ('p, 'f) keeper" where
  "keeper_execute E vsize vault act tick k =
     (let finish = (\<lambda>(r, k'). \<lambda>report.
        (bind_res r (\<lambda>t. Inr (Some (case t of None \<Rightarrow> ResolvedElsewhere vault | Some txid \<Rightarrow> report txid))), k'))
      in case act of
        Partial dd _ \<Rightarrow> finish (keeper_retry E ''partial liquidate''
          (attempt_partial E vsize (ko_refresh_lag (kp_opts k)) vault tick) k) (PartialLiq vault dd)
      | FullLiq \<Rightarrow> finish (keeper_retry E ''full liquidate'' (attempt_full_liq E vsize vault tick) k) (FullLiquidated vault)
      | BadDebt \<Rightarrow> finish (keeper_retry E ''bad debt'' (attempt_bad_debt E vsize vault tick) k) (BadDebtCleared vault)
      | Refresh \<Rightarrow> finish (keeper_retry E ''refresh'' (attempt_refresh E vsize vault tick) k) (Refreshed vault)
      | NoAction \<Rightarrow> (Inr None, k))"

definition execute_tracked ::
  "('p, 'f) wallet_env \<Rightarrow> (transaction \<Rightarrow> u64) \<Rightarrow> outpoint \<Rightarrow> action \<Rightarrow> oracle_tick \<Rightarrow> u32 \<Rightarrow> ('p, 'f) keeper \<Rightarrow>
     (keeper_error + performed option) \<times> ('p, 'f) keeper" where
  "execute_tracked E vsize vault act tick height k =
     (case keeper_execute E vsize vault act tick k of
        (Inr (Some p), k') \<Rightarrow>
          (Inr (Some p), k'\<lparr>kp_acted := fmupd vault height (kp_acted k'), kp_last_acted_height := Some height\<rparr>)
      | res \<Rightarrow> res)"

section \<open>The step\<close>

fun rank :: "action \<Rightarrow> nat" where
  "rank BadDebt = 3"
| "rank FullLiq = 2"
| "rank (Partial _ _) = 1"
| "rank _ = 0"

text \<open>\<open>max_by_key\<close>: the last of the greatest.\<close>

fun max_by_rank :: "(vault_utxo \<times> action) list \<Rightarrow> (vault_utxo \<times> action) option" where
  "max_by_rank [] = None"
| "max_by_rank (x # xs) = Some (foldl (\<lambda>best y. if rank (snd best) \<le> rank (snd y) then y else best) x xs)"

definition retain_acted :: "outpoint fset \<Rightarrow> u32 \<Rightarrow> (outpoint, u32) fmap \<Rightarrow> (outpoint, u32) fmap" where
  "retain_acted indexed height acted =
     fmfilter (\<lambda>op. op |\<in>| indexed \<and>
       (case fmlookup acted op of None \<Rightarrow> False | Some acted_at \<Rightarrow> height < sat_add acted_at ACTED_RETRY_BLOCKS)) acted"

definition candidates :: "('p, 'f) keeper \<Rightarrow> vault_utxo list" where
  "candidates k = sort_key oc_outpoint (filter (\<lambda>v. fmlookup (kp_acted k) (oc_outpoint v) = None) (known_vaults k))"

definition verdict :: "('p, 'f) keeper \<Rightarrow> oracle_tick \<Rightarrow> block_height \<Rightarrow> vault_utxo \<Rightarrow> action" where
  "verdict k tick anchor v = decide v tick anchor (ko_refresh_lag (kp_opts k)) FEE"

definition urgent :: "('p, 'f) keeper \<Rightarrow> oracle_tick \<Rightarrow> block_height \<Rightarrow> (vault_utxo \<times> action) option" where
  "urgent k tick anchor =
     max_by_rank (filter (\<lambda>(_, a). 0 < rank a) (map (\<lambda>v. (v, verdict k tick anchor v)) (candidates k)))"

definition retain_poked :: "block_height \<Rightarrow> u32 \<Rightarrow> (block_height \<times> u32) option \<Rightarrow> (block_height \<times> u32) option" where
  "retain_poked anchor height poked =
     (case poked of
        None \<Rightarrow> None
      | Some (at_anchor, poked_at) \<Rightarrow>
          if at_anchor = anchor \<and> height < sat_add poked_at ACTED_RETRY_BLOCKS then poked else None)"

definition step_duties ::
  "('p, 'f) wallet_env \<Rightarrow> (transaction \<Rightarrow> u64) \<Rightarrow> oracle_tick \<Rightarrow> u32 \<Rightarrow> block_height \<Rightarrow> vault_utxo list \<Rightarrow> ('p, 'f) keeper \<Rightarrow>
     (keeper_error + performed option) \<times> ('p, 'f) keeper" where
  "step_duties E vsize tick height anchor vaults k0 =
     (let k = k0\<lparr>kp_poked := retain_poked anchor height (kp_poked k0)\<rparr> in
      if kp_poked k = None \<and> ko_poke_lag (kp_opts k) < sat_sub (height_raw (ot_height tick)) (height_raw anchor)
      then (case keeper_retry E ''poke'' (build_poke E vsize tick) k of
              (Inl e, k') \<Rightarrow> (Inl e, k')
            | (Inr None, k') \<Rightarrow> (Inr None, k')
            | (Inr (Some txid), k') \<Rightarrow>
                (Inr (Some (Poked txid)), k'\<lparr>kp_poked := Some (anchor, height), kp_last_acted_height := Some height\<rparr>))
      else (case find (\<lambda>v. verdict k tick anchor v = Refresh) vaults of
              Some v \<Rightarrow> execute_tracked E vsize (oc_outpoint v) Refresh tick height k
            | None \<Rightarrow> (Inr None, k)))"

definition keeper_act ::
  "('p, 'f) wallet_env \<Rightarrow> (transaction \<Rightarrow> u64) \<Rightarrow> oracle_tick \<Rightarrow> u32 \<Rightarrow> block_height \<Rightarrow> outpoint fset \<Rightarrow> ('p, 'f) keeper \<Rightarrow>
     (keeper_error + performed option) \<times> ('p, 'f) keeper" where
  "keeper_act E vsize tick height anchor indexed k0 =
     (let k = k0\<lparr>kp_acted := retain_acted indexed height (kp_acted k0)\<rparr> in
      case urgent k tick anchor of
        Some (v, act) \<Rightarrow> execute_tracked E vsize (oc_outpoint v) act tick height k
      | None \<Rightarrow> step_duties E vsize tick height anchor (candidates k) k)"

definition keeper_step ::
  "('p, 'f) wallet_env \<Rightarrow> (transaction \<Rightarrow> u64) \<Rightarrow> oracle_tick \<Rightarrow> ('p, 'f) keeper \<Rightarrow>
     (keeper_error + performed option) \<times> ('p, 'f) keeper" where
  "keeper_step E vsize tick k =
     (case sync E (kp_purse k) of
        (Inl e, w) \<Rightarrow> (Inl (KWallet e), k\<lparr>kp_purse := w\<rparr>)
      | (Inr _, w) \<Rightarrow>
          (case protocol w of
             Inl e \<Rightarrow> (Inl (KWallet e), k\<lparr>kp_purse := w\<rparr>)
           | Inr ps \<Rightarrow>
               let height = ix_height (wl_state w) in
               if kp_last_acted_height k = Some height then (Inr None, k\<lparr>kp_purse := w\<rparr>)
               else keeper_act E vsize tick height (is_last_mint_height (oc_state (ps_issuer ps)))
                      (fmdom (ix_vaults (wl_state w))) (k\<lparr>kp_purse := w\<rparr>)))"

section \<open>The daemon\<close>

text \<open>
  One turn of the loop of \<open>styx-keeper/src/main.rs\<close>, at the time \<open>now\<close> in milliseconds: what the
  transport delivers in the drain is the argument \<open>quotes\<close>; the turn either ends the process or
  leaves the keeper and the start of the current node outage.
\<close>

definition KEEPER_NODE_DOWN_FATAL :: nat where "KEEPER_NODE_DOWN_FATAL = 600 * 1000"

datatype keeper_exit = ExitCode int | NodeUnreachable nat | KeeperFatal wallet_error | KeeperPanic

definition keeper_poll ::
  "('p, 'f) wallet_env \<Rightarrow> (transaction \<Rightarrow> u64) \<Rightarrow> nat \<Rightarrow> wire_quote list \<Rightarrow> ('p, 'f) keeper \<times> nat option \<Rightarrow>
     keeper_exit + ('p, 'f) keeper \<times> nat option" where
  "keeper_poll E vsize now quotes s =
     (case s of (k, node_down_since) \<Rightarrow>
       (case sync E (kp_purse k) of
          (Inr _, w) \<Rightarrow>
            (case drain E quotes (k\<lparr>kp_purse := w\<rparr>) of
               None \<Rightarrow> Inl KeeperPanic
             | Some k1 \<Rightarrow>
                 (case keeper_assemble k1 of
                    None \<Rightarrow> Inr (k1, None)
                  | Some tick \<Rightarrow>
                      (case keeper_step E vsize tick k1 of
                         (Inl (KRejected _ _), _) \<Rightarrow> Inl (ExitCode REJECTED_EXIT)
                       | (_, k2) \<Rightarrow> Inr (k2, None))))
        | (Inl e, w) \<Rightarrow>
            if is_node_down e
            then let since = (case node_down_since of None \<Rightarrow> now | Some t \<Rightarrow> t) in
                 if KEEPER_NODE_DOWN_FATAL \<le> now - since then Inl (NodeUnreachable ((now - since) div 1000))
                 else Inr (k\<lparr>kp_purse := w\<rparr>, Some since)
            else Inl (KeeperFatal e)))"

section \<open>The fee\<close>

definition fee_ok :: "sats \<Rightarrow> bool" where
  "fee_ok fee \<longleftrightarrow> FLOOR \<le> sats_raw fee \<and> sats_raw fee \<le> sats_raw FEE"

lemma fee_ok_FEE [simp]: "fee_ok FEE"
  by (simp add: fee_ok_def FLOOR_def FEE_def)

lemma network_fee_ok:
  assumes "network_fee E vsize w = (r, w')"
  obtains fee n where "r = Inr fee" "fee_ok fee" "w' = w\<lparr>wl_clock := n\<rparr>"
proof -
  have "FLOOR \<le> min (max x FLOOR) (sats_raw FEE)" for x by (simp add: FLOOR_def FEE_def)
  with assms that show ?thesis
    by (auto simp: network_fee_def op_bind_def op_ret_def relay_feerate_def node_op_def fee_ok_def Let_def split: option.splits)
qed

lemma broadcast_sends:
  assumes "kept C w u" "\<And>t. P t tx"
  shows "sends C P w (broadcast E tx u)"
proof -
  obtain r u' where b: "broadcast E tx u = (r, u')" by force
  from broadcast_sent[OF b] assms show ?thesis by (cases r) (auto simp: b sends_def kept_def)
qed

lemma signed_at_Inr:
  "signed_at E build_plan fee w = Inr tx \<Longrightarrow> \<exists>p. build_plan fee w = Inr p \<and> strip tx = strip (pl_tx p)"
  by (auto simp: signed_at_def res_Inr dest: wallet_sign_body)

lemma estimated_sends:
  assumes u: "kept C w u"
    and P: "\<And>fee v p tx t. \<lbrakk>fee_ok fee; session_of v = session_of w; build_plan fee v = Inr p; strip tx = strip (pl_tx p)\<rbrakk> \<Longrightarrow> P t tx"
  shows "sends C P w (broadcast_estimated E vsize build_plan u)"
  unfolding broadcast_estimated_def
proof (rule prepared_sends)
  fix prov v assume v: "(signed_at E build_plan FEE u, u) = (Inr prov, v)" "kept C w v"
  then obtain p where "build_plan FEE u = Inr p" "strip prov = strip (pl_tx p)" by (auto dest: signed_at_Inr)
  then have prov: "P t prov" for t using P[of FEE u p prov] kept_session[OF u] by simp
  show "sends C P w (op_bind (network_fee E (vsize prov)) (\<lambda>fee. if sats_raw FEE \<le> sats_raw fee then broadcast E prov
     else op_bind (op_gets (signed_at E build_plan fee)) (\<lambda>r. case r of Inr tx \<Rightarrow> broadcast E tx | Inl _ \<Rightarrow> broadcast E prov)) v)"
  proof (rule prepared_sends)
    fix fee x assume n: "network_fee E (vsize prov) v = (Inr fee, x)" "kept C w x"
    then have fee: "fee_ok fee" using network_fee_ok[OF n(1)] by blast
    have est: "P t tx" if "signed_at E build_plan fee x = Inr tx" for t tx
      using signed_at_Inr[OF that] P[OF fee] kept_session[OF n(2)] by blast
    show "sends C P w ((if sats_raw FEE \<le> sats_raw fee then broadcast E prov
     else op_bind (op_gets (signed_at E build_plan fee)) (\<lambda>r. case r of Inr tx \<Rightarrow> broadcast E tx | Inl _ \<Rightarrow> broadcast E prov)) x)"
      using broadcast_sends[OF n(2)] prov est by (auto simp: op_bind_def op_gets_def split: sum.splits)
  next
    fix r x assume n: "network_fee E (vsize prov) v = (r, x)"
    then show "kept C w x" using network_fee_ok[OF n] kept_trans[OF v(2) kept_clock] by metis
  qed
qed (use u in auto)

section \<open>The transactions of a step\<close>

definition built_at :: "(build_error + 'd built) \<Rightarrow> transaction \<Rightarrow> bool" where
  "built_at r tx \<longleftrightarrow> (\<exists>b. r = Inr b \<and> strip tx = strip (pl_tx (bt_plan b)))"

lemma plan_of_Inr: "\<lbrakk>plan_of r = Inr p; strip tx = strip (pl_tx p)\<rbrakk> \<Longrightarrow> built_at r tx"
  by (cases r) (auto simp: plan_of_def built_at_def map_err_def)

text \<open>The transaction of a reported action: the checked builder's, at a fee in the allowed range, for the reported vault.\<close>

fun performed_tx :: "('p, 'f) wallet_env \<Rightarrow> u32 \<Rightarrow> oracle_tick \<Rightarrow> ('p, 'f) wallet \<Rightarrow> performed \<Rightarrow> transaction \<Rightarrow> bool" where
  "performed_tx E lag tick w (Poked t) tx \<longleftrightarrow>
     (\<exists>iu coin fee. fee_ok fee \<and> built_at (poke (we_lib E) (wl_ctx w) iu (poke_intent_of E w coin tick fee)) tx)"
| "performed_tx E lag tick w (Refreshed op t) tx \<longleftrightarrow>
     (\<exists>v coin fee. oc_outpoint v = op \<and> fee_ok fee \<and> built_at (refresh (we_lib E) (wl_ctx w) v (refresh_intent_of E w tick coin fee)) tx)"
| "performed_tx E lag tick w (PartialLiq op dd t) tx \<longleftrightarrow>
     (\<exists>v ps anchor dd' residual coin fee. oc_outpoint v = op \<and> fee_ok fee \<and> decide v tick anchor lag fee = Partial dd' residual \<and>
        built_at (liquidate (we_lib E) (wl_ctx w) ps v (liquidate_intent_of E w dd' residual coin tick fee)) tx)"
| "performed_tx E lag tick w (FullLiquidated op t) tx \<longleftrightarrow>
     (\<exists>v ps coin fee. oc_outpoint v = op \<and> fee_ok fee \<and> built_at (full_liq (we_lib E) (wl_ctx w) ps v (full_liq_intent_of E w coin tick fee)) tx)"
| "performed_tx E lag tick w (BadDebtCleared op t) tx \<longleftrightarrow>
     (\<exists>v ps coin fee_coin fee. oc_outpoint v = op \<and> fee_ok fee \<and>
        built_at (bad_debt (we_lib E) (wl_ctx w) ps v (bad_debt_intent_of E w coin fee_coin tick fee)) tx)"
| "performed_tx E lag tick w (ResolvedElsewhere op) tx \<longleftrightarrow> False"

lemma session_keeper_intents:
  assumes "session_of w' = session_of w"
  shows "poke_intent_of E w' = poke_intent_of E w" "liquidate_intent_of E w' = liquidate_intent_of E w"
    "full_liq_intent_of E w' = full_liq_intent_of E w" "bad_debt_intent_of E w' = bad_debt_intent_of E w"
  using session_views[OF assms]
  by (simp_all add: poke_intent_of_def liquidate_intent_of_def full_liq_intent_of_def bad_debt_intent_of_def fun_eq_iff)

lemma vault_at_outpoint: "vault_at op w = Inr v \<Longrightarrow> oc_outpoint v = op"
  by (auto simp: vault_at_def tv_known_def split: option.splits bind_splits)

lemma quiet_sends:
  assumes "quiet prep" "kept C w u" "\<And>a v. kept C w v \<Longrightarrow> sends C P w (f a v)"
  shows "sends C P w (op_bind prep f u)"
  by (rule prepared_sends) (use assms quiet_kept[OF assms(1,2)] in auto)

lemma reread_sends:
  assumes "kept C w u" "\<And>v. oc_outpoint v = vault \<Longrightarrow> sends C P w (f v u)"
  shows "sends C P w (op_bind (\<lambda>w. (vault_at vault w, w)) f u)"
  by (rule prepared_sends) (use assms in \<open>auto dest: vault_at_outpoint\<close>)

lemma refresh_locked_sends:
  assumes x: "oc_outpoint x = vault" and u: "kept C w u"
  shows "sends C (\<lambda>t. performed_tx E lag tick w (Refreshed vault t)) w (refresh_locked E vsize tick x u)"
  unfolding refresh_locked_def
proof (rule quiet_sends[OF _ u], simp, erule estimated_sends)
  fix fee_coin fee y p tx and t :: txid
  assume "fee_ok fee" "session_of y = session_of w" "strip tx = strip (pl_tx p)"
    "plan_of (refresh (we_lib E) (wl_ctx y) x (refresh_intent_of E y tick fee_coin fee)) = Inr p"
  then show "performed_tx E lag tick w (Refreshed vault t) tx"
    using x plan_of_Inr session_views(1)[of y w] session_intents(4)[of y w E] by (metis performed_tx.simps(2))
qed

lemma poke_attempt_sends:
  assumes u: "kept C w u"
  shows "sends C (\<lambda>t. performed_tx E lag tick w (Poked t)) w (build_poke E vsize tick u)"
  unfolding build_poke_def
proof (rule quiet_sends[OF _ u], simp, rule quiet_sends, simp, assumption, erule estimated_sends)
  fix ps coin fee v p tx and t :: txid
  assume "fee_ok fee" "session_of v = session_of w" "strip tx = strip (pl_tx p)"
    "plan_of (poke (we_lib E) (wl_ctx v) (ps_issuer ps) (poke_intent_of E v coin tick fee)) = Inr p"
  then show "performed_tx E lag tick w (Poked t) tx"
    using plan_of_Inr session_views(1)[of v w] session_keeper_intents(1)[of v w E] by (metis performed_tx.simps(1))
qed

lemma full_liq_locked_sends:
  assumes x: "oc_outpoint x = vault" and u: "merged E w u"
  shows "sends (consolidation E w) (\<lambda>t. performed_tx E lag tick w (FullLiquidated vault t)) w (full_liq_locked E vsize tick x u)"
  unfolding full_liq_locked_def
proof (rule quiet_sends[OF _ u], simp, rule merging_sends[OF merging_ensure], assumption, erule estimated_sends)
  fix ps coin fee v p tx and t :: txid
  assume "fee_ok fee" "session_of v = session_of w" "strip tx = strip (pl_tx p)"
    "plan_of (full_liq (we_lib E) (wl_ctx v) ps x (full_liq_intent_of E v coin tick fee)) = Inr p"
  then show "performed_tx E lag tick w (FullLiquidated vault t) tx"
    using x plan_of_Inr session_views(1)[of v w] session_keeper_intents(3)[of v w E] by (metis performed_tx.simps(4))
qed

lemma bad_debt_locked_sends:
  assumes x: "oc_outpoint x = vault" and u: "merged E w u"
  shows "sends (consolidation E w) (\<lambda>t. performed_tx E lag tick w (BadDebtCleared vault t)) w (bad_debt_locked E vsize tick x u)"
  unfolding bad_debt_locked_def
proof (rule quiet_sends[OF _ u], simp, rule merging_sends[OF merging_ensure], assumption, rule quiet_sends, simp, assumption,
    erule estimated_sends)
  fix ps coin fee_coin fee v p tx and t :: txid
  assume "fee_ok fee" "session_of v = session_of w" "strip tx = strip (pl_tx p)"
    "plan_of (bad_debt (we_lib E) (wl_ctx v) ps x (bad_debt_intent_of E v coin fee_coin tick fee)) = Inr p"
  then show "performed_tx E lag tick w (BadDebtCleared vault t) tx"
    using x plan_of_Inr session_views(1)[of v w] session_keeper_intents(4)[of v w E] by (metis performed_tx.simps(5))
qed

lemma replan_Inr: "replan v tick anchor lag vault fee = Inr (dd, residual) \<Longrightarrow> decide v tick anchor lag fee = Partial dd residual"
  by (auto simp: replan_def split: action.splits)

lemma partial_locked_sends:
  assumes x: "oc_outpoint x = vault" and u: "merged E w u"
  shows "sends (consolidation E w) (\<lambda>t. performed_tx E lag tick w (PartialLiq vault dd t)) w (partial_locked E vsize lag vault tick x u)"
  unfolding partial_locked_def
proof (rule quiet_sends[OF _ u], simp, unfold Let_def, rule quiet_sends, simp add: quiet_def op_lift_def, assumption,
    unfold case_prod_beta, rule merging_sends[OF merging_ensure], assumption, erule estimated_sends)
  fix ps coin fee v p tx and t :: txid
  assume a: "fee_ok fee" "session_of v = session_of w" "strip tx = strip (pl_tx p)"
    "bind_res (replan x tick (is_last_mint_height (oc_state (ps_issuer ps))) lag vault fee) (\<lambda>q.
       plan_of (liquidate (we_lib E) (wl_ctx v) ps x (liquidate_intent_of E v (fst q) (snd q) coin tick fee))) = Inr p"
  then obtain dd' residual where "decide x tick (is_last_mint_height (oc_state (ps_issuer ps))) lag fee = Partial dd' residual"
    "built_at (liquidate (we_lib E) (wl_ctx v) ps x (liquidate_intent_of E v dd' residual coin tick fee)) tx"
    by (auto simp: res_Inr dest!: replan_Inr plan_of_Inr[OF _ a(3)])
  then show "performed_tx E lag tick w (PartialLiq vault dd t) tx"
    using a(1) x session_views(1)[OF a(2)] session_keeper_intents(2)[OF a(2), of E] by (metis performed_tx.simps(3))
qed

lemma attempt_sends:
  "merged E w u \<Longrightarrow>
     sends (consolidation E w) (\<lambda>t. performed_tx E lag tick w (PartialLiq vault dd t)) w (attempt_partial E vsize lag vault tick u)"
  "merged E w u \<Longrightarrow>
     sends (consolidation E w) (\<lambda>t. performed_tx E lag tick w (FullLiquidated vault t)) w (attempt_full_liq E vsize vault tick u)"
  "merged E w u \<Longrightarrow>
     sends (consolidation E w) (\<lambda>t. performed_tx E lag tick w (BadDebtCleared vault t)) w (attempt_bad_debt E vsize vault tick u)"
  "merged E w u \<Longrightarrow>
     sends (consolidation E w) (\<lambda>t. performed_tx E lag tick w (Refreshed vault t)) w (attempt_refresh E vsize vault tick u)"
  unfolding attempt_partial_def attempt_full_liq_def attempt_bad_debt_def attempt_refresh_def
  by (rule reread_sends, assumption, rule partial_locked_sends, assumption+)
     (rule reread_sends, assumption, rule full_liq_locked_sends, assumption+,
      rule reread_sends, assumption, rule bad_debt_locked_sends, assumption+,
      rule reread_sends, assumption, rule refresh_locked_sends, assumption+)

section \<open>Every attempt meets the retry's contract\<close>

lemma attempt_contract:
  assumes "\<And>u. kept C w u \<Longrightarrow> sends C P w (f u)"
  shows "retried_op (resync E) f (kept C w) (kept C w) (\<lambda>t w'. sends C P w (Inr t, w'))"
proof
  fix u v v' m q e and t :: txid
  assume u: "kept C w u"
  note s = assms[OF u]
  { assume "f u = (Inl (WBroadcast (Conflict m)), v)" "resync E v = (Inr q, v')"
    then show "kept C w v'" using s kept_resync kept_trans by (fastforce simp: sends_def) }
  { assume "f u = (Inl (WBroadcast (Conflict m)), v)" "resync E v = (Inl e, v')"
    then show "kept C w v'" using s kept_resync kept_trans by (fastforce simp: sends_def) }
  { assume "f u = (Inr t, v)" then show "sends C P w (Inr t, v)" using s by simp }
  { assume "f u = (Inl e, v)" then show "kept C w v" using s by (simp add: sends_def) }
  show "kept C w u" by (rule u)
qed

interpretation partial_op: retried_op "resync E" "attempt_partial E vsize lag vault tick" "merged E w" "merged E w"
  "\<lambda>t w'. sends (consolidation E w) (\<lambda>t. performed_tx E lag tick w (PartialLiq vault dd t)) w (Inr t, w')" for E vsize lag vault tick w dd
  by (rule attempt_contract[OF attempt_sends(1)])

interpretation full_liq_op: retried_op "resync E" "attempt_full_liq E vsize vault tick" "merged E w" "merged E w"
  "\<lambda>t w'. sends (consolidation E w) (\<lambda>t. performed_tx E lag tick w (FullLiquidated vault t)) w (Inr t, w')" for E vsize lag vault tick w
  by (rule attempt_contract[OF attempt_sends(2)])

interpretation bad_debt_op: retried_op "resync E" "attempt_bad_debt E vsize vault tick" "merged E w" "merged E w"
  "\<lambda>t w'. sends (consolidation E w) (\<lambda>t. performed_tx E lag tick w (BadDebtCleared vault t)) w (Inr t, w')" for E vsize lag vault tick w
  by (rule attempt_contract[OF attempt_sends(3)])

interpretation refresh_op: retried_op "resync E" "attempt_refresh E vsize vault tick" "merged E w" "merged E w"
  "\<lambda>t w'. sends (consolidation E w) (\<lambda>t. performed_tx E lag tick w (Refreshed vault t)) w (Inr t, w')" for E vsize lag vault tick w
  by (rule attempt_contract[OF attempt_sends(4)])

interpretation poke_op: retried_op "resync E" "build_poke E vsize tick" "merged E w" "merged E w"
  "\<lambda>t w'. sends (consolidation E w) (\<lambda>t. performed_tx E lag tick w (Poked t)) w (Inr t, w')" for E vsize lag tick w
  by (rule attempt_contract[OF poke_attempt_sends])

section \<open>What a step does\<close>

text \<open>
  The transactions of a step: only merges of the purse's own coins when it reports nothing, an
  error or work resolved elsewhere, and after them exactly one transaction of the reported action
  otherwise.
\<close>

definition acts_once ::
  "('p, 'f) wallet_env \<Rightarrow> u32 \<Rightarrow> oracle_tick \<Rightarrow> ('p, 'f) wallet \<Rightarrow> (keeper_error + performed option) \<times> ('p, 'f) keeper \<Rightarrow> bool" where
  "acts_once E lag tick w res \<longleftrightarrow>
     (case res of
        (Inl _, k') \<Rightarrow> merged E w (kp_purse k')
      | (Inr None, k') \<Rightarrow> merged E w (kp_purse k')
      | (Inr (Some (ResolvedElsewhere _)), k') \<Rightarrow> merged E w (kp_purse k')
      | (Inr (Some p), k') \<Rightarrow> sends (consolidation E w) (performed_tx E lag tick w) w (Inr p, kp_purse k'))"

text \<open>The vault a report names.\<close>

fun performed_vault :: "performed \<Rightarrow> outpoint option" where
  "performed_vault (Poked t) = None"
| "performed_vault (Refreshed op t) = Some op"
| "performed_vault (PartialLiq op dd t) = Some op"
| "performed_vault (FullLiquidated op t) = Some op"
| "performed_vault (BadDebtCleared op t) = Some op"
| "performed_vault (ResolvedElsewhere op) = Some op"

lemma keeper_retry_fields:
  "keeper_retry E what f k = (r, k') \<Longrightarrow> k' = k\<lparr>kp_purse := kp_purse k'\<rparr>"
  by (auto simp: keeper_retry_def split: prod.splits)

lemma keeper_retry_post:
  assumes "retried_op (resync E) f (merged E w) (merged E w) (\<lambda>t w'. sends (consolidation E w) P w (Inr t, w'))"
    "merged E w (kp_purse k)" "keeper_retry E what f k = (r, k')"
  shows "case r of Inr (Some t) \<Rightarrow> sends (consolidation E w) P w (Inr t, kp_purse k') | _ \<Rightarrow> merged E w (kp_purse k')"
proof -
  obtain q u where q: "retry_conflicts what (resync E) f Benign (kp_purse k) = (q, u)" by force
  then have "r = map_err keeper_error_of q" "kp_purse k' = u" using assms(3) by (auto simp: keeper_retry_def)
  with retried_op.retry_conflicts_post[OF assms(1,2) q] show ?thesis
    by (cases q) (auto simp: map_err_def split: option.splits)
qed

lemma keeper_execute_cases:
  assumes "merged E w (kp_purse k)" "keeper_execute E vsize vault act tick k = (r, k')"
  shows "acts_once E (ko_refresh_lag (kp_opts k)) tick w (r, k') \<and> k' = k\<lparr>kp_purse := kp_purse k'\<rparr> \<and>
    (\<forall>p. r = Inr (Some p) \<longrightarrow> performed_vault p = Some vault)"
proof -
  have fin: "acts_once E lag tick w (r, k') \<and> k' = k\<lparr>kp_purse := kp_purse k'\<rparr> \<and> (\<forall>p. r = Inr (Some p) \<longrightarrow> performed_vault p = Some vault)"
    if f: "retried_op (resync E) f (merged E w) (merged E w)
        (\<lambda>t w'. sends (consolidation E w) (\<lambda>t. performed_tx E lag tick w (report t)) w (Inr t, w'))"
      and res: "(bind_res (fst (keeper_retry E what f k)) (\<lambda>t. Inr (Some (case t of None \<Rightarrow> ResolvedElsewhere vault | Some txid \<Rightarrow> report txid))),
        snd (keeper_retry E what f k)) = (r, k')"
      and rep: "\<And>t. performed_vault (report t) = Some vault" "\<And>t op. report t \<noteq> ResolvedElsewhere op"
    for f what report lag
  proof -
    obtain q k1 where q: "keeper_retry E what f k = (q, k1)" by force
    note post = keeper_retry_post[OF f assms(1) q] and fld = keeper_retry_fields[OF q]
    show ?thesis
    proof (cases q)
      case (Inl e)
      then show ?thesis using post fld res q by (auto simp: acts_once_def bind_res_def)
    next
      case (Inr t)
      show ?thesis
      proof (cases t)
        case None
        then show ?thesis using post fld res q Inr by (auto simp: acts_once_def bind_res_def)
      next
        case (Some txid)
        then have "r = Inr (Some (report txid))" "k1 = k'" using res q Inr by (auto simp: bind_res_def)
        then show ?thesis using post fld rep[of txid] Inr Some
          by (cases "report txid") (auto simp: acts_once_def sends_def)
      qed
    qed
  qed
  show ?thesis
  proof (cases act)
    case (Partial dd residual)
    show ?thesis by (rule fin[OF partial_op.retried_op_axioms[where dd = dd]])
       (use assms(2) Partial in \<open>auto simp: keeper_execute_def Let_def case_prod_beta\<close>)
  next
    case FullLiq
    show ?thesis by (rule fin[OF full_liq_op.retried_op_axioms])
       (use assms(2) FullLiq in \<open>auto simp: keeper_execute_def Let_def case_prod_beta\<close>)
  next
    case BadDebt
    show ?thesis by (rule fin[OF bad_debt_op.retried_op_axioms])
       (use assms(2) BadDebt in \<open>auto simp: keeper_execute_def Let_def case_prod_beta\<close>)
  next
    case Refresh
    show ?thesis by (rule fin[OF refresh_op.retried_op_axioms])
       (use assms(2) Refresh in \<open>auto simp: keeper_execute_def Let_def case_prod_beta\<close>)
  qed (use assms in \<open>auto simp: keeper_execute_def acts_once_def\<close>)
qed

lemma execute_tracked_cases:
  assumes "merged E w (kp_purse k)" "execute_tracked E vsize vault act tick height k = (r, k')"
  shows "acts_once E (ko_refresh_lag (kp_opts k)) tick w (r, k') \<and>
    (case r of
       Inr (Some p) \<Rightarrow> performed_vault p = Some vault \<and> kp_last_acted_height k' = Some height \<and> fmlookup (kp_acted k') vault = Some height
     | _ \<Rightarrow> kp_last_acted_height k' = kp_last_acted_height k)"
proof -
  obtain q k1 where q: "keeper_execute E vsize vault act tick k = (q, k1)" by force
  from keeper_execute_cases[OF assms(1) q]
  have c: "acts_once E (ko_refresh_lag (kp_opts k)) tick w (q, k1)" "kp_last_acted_height k1 = kp_last_acted_height k"
    "\<And>p. q = Inr (Some p) \<Longrightarrow> performed_vault p = Some vault" by (auto dest: arg_cong[where f = kp_last_acted_height])
  show ?thesis
  proof (cases "\<exists>p. q = Inr (Some p)")
    case True
    then obtain p where p: "q = Inr (Some p)" by blast
    with assms(2) q have "r = Inr (Some p)" "k' = k1\<lparr>kp_acted := fmupd vault height (kp_acted k1), kp_last_acted_height := Some height\<rparr>"
      by (auto simp: execute_tracked_def)
    then show ?thesis using c p by (cases p) (auto simp: acts_once_def)
  next
    case False
    then have "r = q" "k' = k1" using assms(2) q by (auto simp: execute_tracked_def split: sum.splits option.splits)
    then show ?thesis using c False by (auto split: sum.splits option.splits)
  qed
qed

text \<open>Whether a report is of the verdict: a liquidation reports the verdict's amount.\<close>

fun matches :: "action \<Rightarrow> performed \<Rightarrow> bool" where
  "matches Refresh (Refreshed _ _) = True"
| "matches (Partial dd _) (PartialLiq _ dd' _) = (dd = dd')"
| "matches FullLiq (FullLiquidated _ _) = True"
| "matches BadDebt (BadDebtCleared _ _) = True"
| "matches a (ResolvedElsewhere _) = (a \<noteq> NoAction)"
| "matches _ _ = False"

lemma keeper_execute_matches:
  assumes "keeper_execute E vsize vault act tick k = (Inr (Some p), k')" shows "matches act p"
proof -
  have report: "matches a p"
    if "bind_res r (\<lambda>t. Inr (Some (case t of None \<Rightarrow> ResolvedElsewhere vault | Some txid \<Rightarrow> report txid))) = Inr (Some p)"
      "a \<noteq> NoAction" "\<And>txid. matches a (report txid)" for a r report
    using that by (cases a) (auto simp: res_Inr split: option.splits)
  show ?thesis
    using assms unfolding keeper_execute_def Let_def case_prod_beta
    by (cases act) (auto elim!: report)
qed

lemma execute_tracked_matches:
  assumes "execute_tracked E vsize vault act tick height k = (Inr (Some p), k')" shows "matches act p"
proof -
  obtain q k1 where q: "keeper_execute E vsize vault act tick k = (q, k1)" by force
  with assms have "q = Inr (Some p)" by (auto simp: execute_tracked_def split: sum.splits option.splits)
  then show ?thesis using keeper_execute_matches q by blast
qed

lemma max_rank_foldl:
  "foldl (\<lambda>best y. if rank (snd best) \<le> rank (snd y) then y else best) x xs \<in> set (x # xs) \<and>
     (\<forall>y \<in> set (x # xs). rank (snd y) \<le> rank (snd (foldl (\<lambda>best y. if rank (snd best) \<le> rank (snd y) then y else best) x xs)))"
proof (induction xs arbitrary: x)
  case (Cons z zs)
  show ?case
  proof (cases "rank (snd x) \<le> rank (snd z)")
    case True
    then show ?thesis using Cons[of z] by (auto intro: order_trans)
  next
    case False
    then show ?thesis using Cons[of x] by (auto intro: order_trans[OF less_imp_le[OF not_le_imp_less]])
  qed
qed simp

lemma max_by_rank_Some:
  assumes "max_by_rank xs = Some x" shows "x \<in> set xs" "\<And>y. y \<in> set xs \<Longrightarrow> rank (snd y) \<le> rank (snd x)"
  using assms max_rank_foldl[of "hd xs" "tl xs"] by (cases xs; auto)+

lemma max_by_rank_None: "max_by_rank xs = None \<longleftrightarrow> xs = []"
  by (cases xs) auto

text \<open>The vaults a step considers: known, and not acted on within the retry window.\<close>

definition idle_vaults :: "('p, 'f) keeper \<Rightarrow> ('p, 'f) wallet \<Rightarrow> vault_utxo list" where
  "idle_vaults k w =
     filter (\<lambda>v. case fmlookup (kp_acted k) (oc_outpoint v) of
               None \<Rightarrow> True | Some acted_at \<Rightarrow> sat_add acted_at ACTED_RETRY_BLOCKS \<le> ix_height (wl_state w))
       (somes (map (\<lambda>(op, v). tv_known v op) (vault_entries (wl_state w))))"

lemma known_indexed:
  "v \<in> set (somes (map (\<lambda>(op, v). tv_known v op) (vault_entries st))) \<Longrightarrow> oc_outpoint v |\<in>| fmdom (ix_vaults st)"
  by (auto simp: set_somes vault_entries_def tv_known_def split: option.splits)

lemma candidates_idle:
  "set (candidates (k\<lparr>kp_purse := w, kp_acted := retain_acted (fmdom (ix_vaults (wl_state w))) (ix_height (wl_state w)) (kp_acted k)\<rparr>)) =
     set (idle_vaults k w)"
  using known_indexed[of _ "wl_state w"]
  by (auto simp: candidates_def idle_vaults_def known_vaults_def retain_acted_def not_less split: option.splits if_splits)

text \<open>The most severe of the verdicts is acted on; a poke and a refresh only when nothing is under water.\<close>

definition triaged :: "(vault_utxo \<Rightarrow> action) \<Rightarrow> vault_utxo list \<Rightarrow> performed \<Rightarrow> bool" where
  "triaged verd vs p \<longleftrightarrow>
     (case performed_vault p of
        None \<Rightarrow> list_all (\<lambda>v. rank (verd v) = 0) vs
      | Some op \<Rightarrow>
          list_ex (\<lambda>v. oc_outpoint v = op \<and> matches (verd v) p \<and> list_all (\<lambda>v'. rank (verd v') \<le> rank (verd v)) vs) vs)"

lemma triagedI:
  "\<lbrakk>performed_vault p = Some (oc_outpoint v); v \<in> set vs; matches (verd v) p; \<And>v'. v' \<in> set vs \<Longrightarrow> rank (verd v') \<le> rank (verd v)\<rbrakk> \<Longrightarrow>
     triaged verd vs p"
  by (auto simp: triaged_def list_ex_iff list_all_iff)

lemma triaged_cong: "set vs = set vs' \<Longrightarrow> triaged verd vs p = triaged verd vs' p"
  by (auto simp: triaged_def list_ex_iff list_all_iff split: option.splits)

lemma step_duties_cases:
  assumes "merged E w (kp_purse k)" "step_duties E vsize tick height anchor vs k = (r, k')"
  shows "acts_once E (ko_refresh_lag (kp_opts k)) tick w (r, k') \<and>
    (case r of
       Inr (Some p) \<Rightarrow> kp_last_acted_height k' = Some height \<and>
         (case performed_vault p of
            None \<Rightarrow> kp_poked k' = Some (anchor, height)
          | Some op \<Rightarrow> fmlookup (kp_acted k') op = Some height \<and>
              (\<exists>v \<in> set vs. oc_outpoint v = op \<and> verdict k tick anchor v = Refresh \<and> matches Refresh p))
     | _ \<Rightarrow> kp_last_acted_height k' = kp_last_acted_height k)"
proof -
  let ?k = "k\<lparr>kp_poked := retain_poked anchor height (kp_poked k)\<rparr>"
  have m: "merged E w (kp_purse ?k)" using assms(1) by simp
  show ?thesis
  proof (cases "kp_poked ?k = None \<and> ko_poke_lag (kp_opts ?k) < sat_sub (height_raw (ot_height tick)) (height_raw anchor)")
    case True
    obtain q k1 where q: "keeper_retry E ''poke'' (build_poke E vsize tick) ?k = (q, k1)" by force
    note post = keeper_retry_post[OF poke_op.retried_op_axioms[where lag = "ko_refresh_lag (kp_opts k)"] m q] and fld = keeper_retry_fields[OF q]
    have last: "kp_last_acted_height k1 = kp_last_acted_height k" using fld by (metis keeper.select_convs(6) keeper.surjective keeper.update_convs(1,5))
    have r: "step_duties E vsize tick height anchor vs k = (case q of
        Inl e \<Rightarrow> (Inl e, k1) | Inr None \<Rightarrow> (Inr None, k1)
      | Inr (Some txid) \<Rightarrow> (Inr (Some (Poked txid)), k1\<lparr>kp_poked := Some (anchor, height), kp_last_acted_height := Some height\<rparr>))"
      using True q by (simp add: step_duties_def Let_def split: sum.splits option.splits)
    show ?thesis
      using assms(2) post last unfolding r
      by (auto simp: acts_once_def sends_def simp del: performed_tx.simps split: sum.splits option.splits)
  next
    case False
    show ?thesis
    proof (cases "find (\<lambda>v. verdict ?k tick anchor v = Refresh) vs")
      case None
      then show ?thesis using assms False by (auto simp: step_duties_def Let_def acts_once_def)
    next
      case (Some v)
      then have v: "v \<in> set vs" "verdict k tick anchor v = Refresh" by (auto simp: find_Some_iff verdict_def)
      have ex: "execute_tracked E vsize (oc_outpoint v) Refresh tick height ?k = (r, k')"
        using assms(2) False Some by (auto simp: step_duties_def Let_def)
      from execute_tracked_cases[OF m ex] execute_tracked_matches[of E vsize "oc_outpoint v" Refresh tick height ?k _ k'] ex v
      show ?thesis by (auto split: sum.splits option.splits)
    qed
  qed
qed

lemma urgent_Some:
  assumes "urgent k tick anchor = Some (v, act)"
  shows "v \<in> set (candidates k)" "act = verdict k tick anchor v"
    "\<And>v'. v' \<in> set (candidates k) \<Longrightarrow> rank (verdict k tick anchor v') \<le> rank (verdict k tick anchor v)"
proof -
  note m = max_by_rank_Some[OF assms[unfolded urgent_def]]
  show v: "v \<in> set (candidates k)" "act = verdict k tick anchor v" using m(1) by auto
  fix v' assume "v' \<in> set (candidates k)"
  then show "rank (verdict k tick anchor v') \<le> rank (verdict k tick anchor v)"
    using m(2)[of "(v', verdict k tick anchor v')"] v by (cases "rank (verdict k tick anchor v') = 0") auto
qed

lemma urgent_None: "\<lbrakk>urgent k tick anchor = None; v \<in> set (candidates k)\<rbrakk> \<Longrightarrow> rank (verdict k tick anchor v) = 0"
  by (auto simp: urgent_def max_by_rank_None filter_empty_conv)

lemma keeper_act_cases:
  assumes "merged E w (kp_purse k0)" "keeper_act E vsize tick height anchor indexed k0 = (r, k')"
  defines "k \<equiv> k0\<lparr>kp_acted := retain_acted indexed height (kp_acted k0)\<rparr>"
  shows "acts_once E (ko_refresh_lag (kp_opts k0)) tick w (r, k') \<and>
    (case r of
       Inr (Some p) \<Rightarrow> kp_last_acted_height k' = Some height \<and> triaged (verdict k0 tick anchor) (candidates k) p \<and>
         (case performed_vault p of None \<Rightarrow> kp_poked k' = Some (anchor, height) | Some op \<Rightarrow> fmlookup (kp_acted k') op = Some height)
     | _ \<Rightarrow> kp_last_acted_height k' = kp_last_acted_height k0)"
proof -
  have m: "merged E w (kp_purse k)" and same: "verdict k tick anchor = verdict k0 tick anchor" "kp_opts k = kp_opts k0"
    "kp_last_acted_height k = kp_last_acted_height k0" using assms(1) by (simp_all add: k_def verdict_def fun_eq_iff)
  show ?thesis
  proof (cases "urgent k tick anchor")
    case (Some va)
    obtain v act where va: "va = (v, act)" by force
    have ex: "execute_tracked E vsize (oc_outpoint v) act tick height k = (r, k')"
      using assms(2) Some va by (simp add: keeper_act_def k_def[symmetric])
    note u = urgent_Some[OF Some[unfolded va]]
    have "triaged (verdict k0 tick anchor) (candidates k) p" if "r = Inr (Some p)" for p
      using execute_tracked_cases[OF m ex] execute_tracked_matches[of E vsize "oc_outpoint v" act tick height k p k'] ex that u same(1)
      by (intro triagedI[of _ v]) auto
    then show ?thesis using execute_tracked_cases[OF m ex] same by (auto split: sum.splits option.splits)
  next
    case None
    have ex: "step_duties E vsize tick height anchor (candidates k) k = (r, k')"
      using assms(2) None by (simp add: keeper_act_def k_def[symmetric])
    note d = step_duties_cases[OF m ex] and z = urgent_None[OF None]
    have "triaged (verdict k0 tick anchor) (candidates k) p" if r: "r = Inr (Some p)" for p
    proof (cases "performed_vault p")
      case None
      then show ?thesis using z same(1) by (simp add: triaged_def list_all_iff)
    next
      case (Some op)
      with d r obtain v where "v \<in> set (candidates k)" "oc_outpoint v = op" "verdict k tick anchor v = Refresh" "matches Refresh p" by auto
      then show ?thesis using z same(1) Some by (intro triagedI[of _ v]) auto
    qed
    then show ?thesis using d same by (auto split: sum.splits option.splits)
  qed
qed

section \<open>The amount of a partial liquidation does not depend on the fee\<close>

lemma plan_partial_lower_fee:
  assumes "plan_partial debt coll hi fee = Some q" "unat (sats_raw fee) < 2 ^ 63" "fee' \<le> fee"
  shows "plan_partial debt coll hi fee' = Some q"
proof -
  have le: "sats_raw (coll_at_cr x hi K_RESERVE_SHARE) + sats_raw fee' \<le> sats_raw (coll_at_cr x hi K_RESERVE_SHARE) + sats_raw fee" for x
  proof -
    have f: "unat (sats_raw fee') \<le> unat (sats_raw fee)" using assms(3) by (simp add: less_eq_sats_def word_le_nat_alt)
    then have "unat (sats_raw (coll_at_cr x hi K_RESERVE_SHARE) + sats_raw fee') = unat (sats_raw (coll_at_cr x hi K_RESERVE_SHARE)) + unat (sats_raw fee')"
      "unat (sats_raw (coll_at_cr x hi K_RESERVE_SHARE) + sats_raw fee) = unat (sats_raw (coll_at_cr x hi K_RESERVE_SHARE)) + unat (sats_raw fee)"
      using u32_price_le[of K_RESERVE_SHARE x hi] assms(2) by (auto intro!: unat_plus_exact)
    then show ?thesis using f by (simp add: word_le_nat_alt)
  qed
  from assms(1) show ?thesis
    unfolding plan_partial_def Let_def case_prod_beta
    by (auto simp del: max_less_iff_conj max.bounded_iff split: sum.splits if_splits dest: order_trans[OF _ le])
qed

text \<open>
  At every lower fee the verdict on a vault is the same partial liquidation, so that the rebuild at
  the estimated fee repays what the provisional build did.
\<close>

lemma partial_fee_stable:
  assumes "decide v tick anchor lag FEE = Partial dd residual" "fee_ok fee"
  shows "decide v tick anchor lag fee = Partial dd residual"
proof -
  have "unat (sats_raw FEE) < 2 ^ 63" "fee \<le> FEE" using assms(2) by (simp_all add: fee_ok_def less_eq_sats_def)
  with assms(1) plan_partial_lower_fee[of "vs_debt (oc_state v)" "oc_value v" "snd (price_range tick)" FEE "(dd, residual)" fee]
  show ?thesis by (auto simp: decide_def Let_def split: sum.splits if_splits option.splits)
qed

section \<open>Properties\<close>

text \<open>
  C8 (keeper_step_trace): whatever the node answers, a step of the keeper sends at most one protocol
  transaction, after merges of the purse's own OBOL coins and nothing else: one exactly when it
  reports an action with a transaction id, and then the body is the one the checked builder made
  for the reported vault (for a partial liquidation, with the amounts of a fresh verdict) at a
  network fee between 300 and the flat 10000 satoshis.
\<close>

theorem keeper_step_trace:
  "acts_once E (ko_refresh_lag (kp_opts k)) tick (kp_purse k) (keeper_step E vsize tick k)"
proof -
  obtain r w where s: "sync E (kp_purse k) = (r, w)" by force
  then have "resync E (kp_purse k) = (map_sum id (\<lambda>_. ()) r, w)"
    by (cases r) (auto simp: resync_def op_bind_def op_ret_def)
  then have m: "merged E (kp_purse k) (kp_purse (k\<lparr>kp_purse := w\<rparr>))" by (simp add: kept_resync)
  show ?thesis
  proof (cases r)
    case (Inl e)
    then show ?thesis using s m by (simp add: keeper_step_def acts_once_def)
  next
    case (Inr ns)
    show ?thesis
    proof (cases "protocol w")
      case (Inl e)
      then show ?thesis using s m Inr by (simp add: keeper_step_def acts_once_def)
    next
      case ps: (Inr ps)
      show ?thesis
      proof (cases "kp_last_acted_height k = Some (ix_height (wl_state w))")
        case True
        then show ?thesis using s m Inr ps by (simp add: keeper_step_def acts_once_def)
      next
        case False
        obtain q k' where q: "keeper_act E vsize tick (ix_height (wl_state w)) (is_last_mint_height (oc_state (ps_issuer ps)))
            (fmdom (ix_vaults (wl_state w))) (k\<lparr>kp_purse := w\<rparr>) = (q, k')" by force
        then have "keeper_step E vsize tick k = (q, k')" using s Inr ps False by (simp add: keeper_step_def Let_def)
        then show ?thesis using keeper_act_cases[OF m q] by simp
      qed
    qed
  qed
qed

text \<open>
  C9 (keeper_triage): a step that reports an action was taken at a height other than the one recorded
  at the last action, and records its own height (only the last one is kept, so a reorganisation back
  to an earlier height, or a conflict that resynced past the height the step began at, can lead to a
  second action at one height); the vault it names is known, was not acted on within the last six
  blocks and is now on the acted list; the action is the verdict on that vault, and no idle vault
  has a more severe one (a poke and a refresh only when no idle vault is to be liquidated). A step
  that reports none leaves the recorded height alone.
\<close>

theorem keeper_triage:
  "case keeper_step E vsize tick k of
     (Inr (Some p), k') \<Rightarrow>
       \<exists>ns w ps. sync E (kp_purse k) = (Inr ns, w) \<and> protocol w = Inr ps \<and>
         kp_last_acted_height k \<noteq> Some (ix_height (wl_state w)) \<and> kp_last_acted_height k' = Some (ix_height (wl_state w)) \<and>
         triaged (\<lambda>v. decide v tick (is_last_mint_height (oc_state (ps_issuer ps))) (ko_refresh_lag (kp_opts k)) FEE) (idle_vaults k w) p \<and>
         (case performed_vault p of
            None \<Rightarrow> kp_poked k' = Some (is_last_mint_height (oc_state (ps_issuer ps)), ix_height (wl_state w))
          | Some op \<Rightarrow> fmlookup (kp_acted k') op = Some (ix_height (wl_state w)))
   | (_, k') \<Rightarrow> kp_last_acted_height k' = kp_last_acted_height k"
proof -
  obtain r w where s: "sync E (kp_purse k) = (r, w)" by force
  show ?thesis
  proof (cases "\<exists>ns ps. r = Inr ns \<and> protocol w = Inr ps \<and> kp_last_acted_height k \<noteq> Some (ix_height (wl_state w))")
    case False
    then show ?thesis using s by (auto simp: keeper_step_def Let_def split: sum.splits)
  next
    case True
    then obtain ns ps where t: "r = Inr ns" "protocol w = Inr ps" "kp_last_acted_height k \<noteq> Some (ix_height (wl_state w))" by blast
    obtain q k' where q: "keeper_act E vsize tick (ix_height (wl_state w)) (is_last_mint_height (oc_state (ps_issuer ps)))
        (fmdom (ix_vaults (wl_state w))) (k\<lparr>kp_purse := w\<rparr>) = (q, k')" by force
    then have step: "keeper_step E vsize tick k = (q, k')" using s t by (simp add: keeper_step_def Let_def)
    have "merged E w (kp_purse (k\<lparr>kp_purse := w\<rparr>))" by simp
    note c = keeper_act_cases[OF this q]
    have verd: "verdict (k\<lparr>kp_purse := w\<rparr>) tick a = (\<lambda>v. decide v tick a (ko_refresh_lag (kp_opts k)) FEE)" for a
      by (simp add: verdict_def fun_eq_iff)
    show ?thesis
      using c s t step triaged_cong[OF candidates_idle[where k = k and w = w]] by (auto simp: verd split: sum.splits option.splits)
  qed
qed

text \<open>
  A node that cannot be reached at the moment of a broadcast is
  reported as a refusal of the transaction. The client turns every failure of the request, the
  transport's included, into an RPC error and classifies its message; a message that is neither a
  conflict nor an already known transaction is a rejection, which the keeper's retry turns into the
  alert that ends the daemon with exit code 65, and which is not among the errors tolerated as a
  node outage.
\<close>

lemma unreachable_node_alerts:
  assumes "classify_broadcast m = VerdictRejected" "\<And>n args. we_calls E n 0 ''sendrawtransaction'' args = Inl m"
    and "signed_at E build_plan FEE (kp_purse k) = Inr provisional"
  shows "fst (keeper_retry E what (broadcast_estimated E vsize build_plan) k) = Inl (KRejected what m) \<and>
    \<not> is_node_down (WBroadcast (Rejected m)) \<and> \<not> is_node_down (WRejected what m)"
proof -
  have send: "fst (broadcast E tx u) = Inl (WBroadcast (Rejected m))" for tx u
    using assms(1,2) by (simp add: broadcast_def node_op_def node_send_def rpc_def map_err_def)
  obtain fee n where net: "network_fee E (vsize provisional) (kp_purse k) = (Inr fee, (kp_purse k)\<lparr>wl_clock := n\<rparr>)"
    using network_fee_ok[of E "vsize provisional" "kp_purse k"] by (metis surj_pair)
  have "fst (broadcast_estimated E vsize build_plan (kp_purse k)) = Inl (WBroadcast (Rejected m))"
    using net assms(3) send by (simp add: broadcast_estimated_def op_bind_def op_gets_def split: sum.splits)
  then obtain u where "broadcast_estimated E vsize build_plan (kp_purse k) = (Inl (WBroadcast (Rejected m)), u)" by (metis prod.collapse)
  then have "retry_conflicts what (resync E) (broadcast_estimated E vsize build_plan) Benign (kp_purse k) = (Inl (WRejected what m), u)"
    by (simp add: retry_conflicts_def CONFLICT_ATTEMPTS_def numeral_3_eq_3 attempt_error_def)
  then show ?thesis by (simp add: keeper_retry_def map_err_def)
qed

lemma unreachable_node_alerts_sample:
  "fst (keeper_retry (sample_env (\<lambda>_ _ _ _. Inl ''Connection refused'')) ''poke''
     (broadcast_estimated (sample_env (\<lambda>_ _ _ _. Inl ''Connection refused'')) (\<lambda>_. 100)
        (\<lambda>_ _. Inr (consolidate_plan sample_params (0x51 # 0x20 # u256_be 2) sample_obol (OutPoint 7 2, 150000000))))
     (keeper_new sample_wallet keeper_opts_default)) = Inl (KRejected ''poke'' ''Connection refused'')"
proof -
  let ?E = "sample_env (\<lambda>_ _ _ _. Inl ''Connection refused'')" and ?k = "keeper_new sample_wallet keeper_opts_default"
  let ?b = "\<lambda>_ _. Inr (consolidate_plan sample_params (0x51 # 0x20 # u256_be 2) sample_obol (OutPoint 7 2, 150000000))"
  have "funding_spk ?E sample_wallet = 0x51 # 0x20 # u256_be 2" "sample_wallet\<lparr>wl_clock := wl_clock sample_wallet\<rparr> = sample_wallet"
    by (simp_all add: funding_spk_def sample_env_def sample_wallet_def)
  then obtain tx where "signed_at ?E ?b FEE (kp_purse ?k) = Inr tx"
    using sample_sign[of "\<lambda>_ _ _ _. Inl ''Connection refused''" "wl_clock sample_wallet"] by (auto simp: signed_at_def keeper_new_def bind_res_def)
  moreover have "classify_broadcast ''Connection refused'' = VerdictRejected" by code_simp
  moreover have "we_calls ?E n 0 ''sendrawtransaction'' args = Inl ''Connection refused''" for n args by (simp add: sample_env_def)
  ultimately show ?thesis using unreachable_node_alerts[of "''Connection refused''" ?E ?b ?k tx "''poke''" "\<lambda>_. 100"] by blast
qed

end
