(* ===== verification/Styx_Shared.thy ===== *)
theory Styx_Shared
  imports Styx_Keeper
begin

text \<open>
  The keeper on a purse it shares (\<open>styx-keeper/src/keeper.rs\<close> run by \<open>styx-app\<close>). The purse is a
  mutex: a turn of the keeper takes and releases it several times, and between two of its sections
  another thread may do anything with the wallet. A turn is therefore a machine whose program
  counter holds the local variables that live across a release, with one step per section.
\<close>

section \<open>The program counter\<close>

datatype attempt = TryPartial obol | TryFullLiq | TryBadDebt | TryRefresh

fun attempt_of :: "action \<Rightarrow> attempt option" where
  "attempt_of (Partial dd _) = Some (TryPartial dd)"
| "attempt_of FullLiq = Some TryFullLiq"
| "attempt_of BadDebt = Some TryBadDebt"
| "attempt_of Refresh = Some TryRefresh"
| "attempt_of NoAction = None"

text \<open>What is being retried, with the height (and the anchor) the turn started from.\<close>

datatype job = VaultJob outpoint attempt u32 | PokeJob block_height u32

fun job_what :: "job \<Rightarrow> string" where
  "job_what (VaultJob _ (TryPartial _) _) = ''partial liquidate''"
| "job_what (VaultJob _ TryFullLiq _) = ''full liquidate''"
| "job_what (VaultJob _ TryBadDebt _) = ''bad debt''"
| "job_what (VaultJob _ TryRefresh _) = ''refresh''"
| "job_what (PokeJob _ _) = ''poke''"

datatype keeper_pc =
    AtSync
  | AtVaults u32 block_height
  | AtVault outpoint attempt u32 nat
  | AtLocked outpoint attempt u32 nat vault_utxo
  | AtPoke block_height u32 nat
  | AtResync job nat
  | AtEnd "keeper_error + performed option"

fun job_begin :: "job \<Rightarrow> nat \<Rightarrow> keeper_pc" where
  "job_begin (VaultJob vault a height) n = AtVault vault a height n"
| "job_begin (PokeJob anchor height) n = AtPoke anchor height n"

section \<open>One section\<close>

fun try_locked ::
  "('p, 'f) wallet_env \<Rightarrow> (transaction \<Rightarrow> u64) \<Rightarrow> u32 \<Rightarrow> outpoint \<Rightarrow> oracle_tick \<Rightarrow> attempt \<Rightarrow> vault_utxo \<Rightarrow> ('p, 'f, txid) wop" where
  "try_locked E vsize lag vault tick (TryPartial _) = partial_locked E vsize lag vault tick"
| "try_locked E vsize lag vault tick TryFullLiq = full_liq_locked E vsize tick"
| "try_locked E vsize lag vault tick TryBadDebt = bad_debt_locked E vsize tick"
| "try_locked E vsize lag vault tick TryRefresh = refresh_locked E vsize tick"

fun try_report :: "attempt \<Rightarrow> outpoint \<Rightarrow> txid \<Rightarrow> performed" where
  "try_report (TryPartial dd) vault txid = PartialLiq vault dd txid"
| "try_report TryFullLiq vault txid = FullLiquidated vault txid"
| "try_report TryBadDebt vault txid = BadDebtCleared vault txid"
| "try_report TryRefresh vault txid = Refreshed vault txid"

text \<open>The end of a retry: what \<open>execute_tracked\<close> and the poke's branch of the step record.\<close>

fun job_done :: "job \<Rightarrow> keeper_error + txid option \<Rightarrow> ('p, 'f) keeper \<Rightarrow> keeper_pc \<times> ('p, 'f) keeper" where
  "job_done job (Inl e) k = (AtEnd (Inl e), k)"
| "job_done (VaultJob vault a height) (Inr t) k =
     (AtEnd (Inr (Some (case t of None \<Rightarrow> ResolvedElsewhere vault | Some txid \<Rightarrow> try_report a vault txid))),
      k\<lparr>kp_acted := fmupd vault height (kp_acted k), kp_last_acted_height := Some height\<rparr>)"
| "job_done (PokeJob anchor height) (Inr None) k = (AtEnd (Inr None), k)"
| "job_done (PokeJob anchor height) (Inr (Some txid)) k =
     (AtEnd (Inr (Some (Poked txid))), k\<lparr>kp_poked := Some (anchor, height), kp_last_acted_height := Some height\<rparr>)"

text \<open>The end of attempt \<open>n\<close> of a retry.\<close>

definition attempted ::
  "job \<Rightarrow> nat \<Rightarrow> ('p, 'f) keeper \<Rightarrow> (wallet_error + txid) \<times> ('p, 'f) wallet \<Rightarrow> keeper_pc \<times> ('p, 'f) keeper" where
  "attempted job n k res =
     (case res of
        (Inr t, w) \<Rightarrow> job_done job (Inr (Some t)) (k\<lparr>kp_purse := w\<rparr>)
      | (Inl (WBroadcast (Conflict m)), w) \<Rightarrow> (AtResync job n, k\<lparr>kp_purse := w\<rparr>)
      | (Inl e, w) \<Rightarrow> job_done job (map_err keeper_error_of (attempt_error (job_what job) Benign n e)) (k\<lparr>kp_purse := w\<rparr>))"

definition start_vault :: "vault_utxo \<Rightarrow> action \<Rightarrow> u32 \<Rightarrow> keeper_pc" where
  "start_vault v act height =
     (case attempt_of act of None \<Rightarrow> AtEnd (Inr None) | Some a \<Rightarrow> AtVault (oc_outpoint v) a height 0)"

fun keeper_section ::
  "('p, 'f) wallet_env \<Rightarrow> (transaction \<Rightarrow> u64) \<Rightarrow> oracle_tick \<Rightarrow> keeper_pc \<times> ('p, 'f) keeper \<Rightarrow> keeper_pc \<times> ('p, 'f) keeper" where
  "keeper_section E vsize tick (AtSync, k) =
     (case sync E (kp_purse k) of
        (Inl e, w) \<Rightarrow> (AtEnd (Inl (KWallet e)), k\<lparr>kp_purse := w\<rparr>)
      | (Inr _, w) \<Rightarrow>
          (case protocol w of
             Inl e \<Rightarrow> (AtEnd (Inl (KWallet e)), k\<lparr>kp_purse := w\<rparr>)
           | Inr ps \<Rightarrow>
               let height = ix_height (wl_state w) in
               if kp_last_acted_height k = Some height then (AtEnd (Inr None), k\<lparr>kp_purse := w\<rparr>)
               else (AtVaults height (is_last_mint_height (oc_state (ps_issuer ps))),
                     k\<lparr>kp_purse := w, kp_acted := retain_acted (fmdom (ix_vaults (wl_state w))) height (kp_acted k)\<rparr>)))"
| "keeper_section E vsize tick (AtVaults height anchor, k0) =
     (case urgent k0 tick anchor of
        Some (v, act) \<Rightarrow> (start_vault v act height, k0)
      | None \<Rightarrow>
          let k = k0\<lparr>kp_poked := retain_poked anchor height (kp_poked k0)\<rparr> in
          if kp_poked k = None \<and> ko_poke_lag (kp_opts k) < sat_sub (height_raw (ot_height tick)) (height_raw anchor)
          then (AtPoke anchor height 0, k)
          else (case find (\<lambda>v. verdict k tick anchor v = Refresh) (candidates k) of
                  Some v \<Rightarrow> (start_vault v Refresh height, k)
                | None \<Rightarrow> (AtEnd (Inr None), k)))"
| "keeper_section E vsize tick (AtVault vault a height n, k) =
     (case vault_at vault (kp_purse k) of
        Inl e \<Rightarrow> attempted (VaultJob vault a height) n k (Inl e, kp_purse k)
      | Inr v \<Rightarrow> (AtLocked vault a height n v, k))"
| "keeper_section E vsize tick (AtLocked vault a height n v, k) =
     attempted (VaultJob vault a height) n k
       (try_locked E vsize (ko_refresh_lag (kp_opts k)) vault tick a v (kp_purse k))"
| "keeper_section E vsize tick (AtPoke anchor height n, k) =
     attempted (PokeJob anchor height) n k (build_poke E vsize tick (kp_purse k))"
| "keeper_section E vsize tick (AtResync job n, k) =
     (case resync E (kp_purse k) of
        (Inl e, w) \<Rightarrow> (AtEnd (Inl (keeper_error_of e)), k\<lparr>kp_purse := w\<rparr>)
      | (Inr _, w) \<Rightarrow>
          (if Suc n < CONFLICT_ATTEMPTS then job_begin job (Suc n)
           else AtEnd (Inl (KConflictExhausted (job_what job) CONFLICT_ATTEMPTS)), k\<lparr>kp_purse := w\<rparr>))"
| "keeper_section E vsize tick (AtEnd r, k) = (AtEnd r, k)"

text \<open>
  A turn of \<open>n\<close> sections, where other threads change the purse from \<open>w\<close> to \<open>env i w\<close> before the
  section with \<open>i\<close> more to come; and what the turn's own sections sent, latest first.
\<close>

definition interfere :: "(('p, 'f) wallet \<Rightarrow> ('p, 'f) wallet) \<Rightarrow> keeper_pc \<times> ('p, 'f) keeper \<Rightarrow> keeper_pc \<times> ('p, 'f) keeper" where
  "interfere g s = (fst s, (snd s)\<lparr>kp_purse := g (kp_purse (snd s))\<rparr>)"

fun turn ::
  "('p, 'f) wallet_env \<Rightarrow> (transaction \<Rightarrow> u64) \<Rightarrow> oracle_tick \<Rightarrow> (nat \<Rightarrow> ('p, 'f) wallet \<Rightarrow> ('p, 'f) wallet) \<Rightarrow> nat \<Rightarrow>
     keeper_pc \<times> ('p, 'f) keeper \<Rightarrow> keeper_pc \<times> ('p, 'f) keeper" where
  "turn E vsize tick env 0 s = s"
| "turn E vsize tick env (Suc n) s = turn E vsize tick env n (keeper_section E vsize tick (interfere (env n) s))"

definition new_sent :: "('p, 'f) wallet \<Rightarrow> ('p, 'f) wallet \<Rightarrow> transaction list" where
  "new_sent w w' = take (length (wl_sent w') - length (wl_sent w)) (wl_sent w')"

fun turn_sent ::
  "('p, 'f) wallet_env \<Rightarrow> (transaction \<Rightarrow> u64) \<Rightarrow> oracle_tick \<Rightarrow> (nat \<Rightarrow> ('p, 'f) wallet \<Rightarrow> ('p, 'f) wallet) \<Rightarrow> nat \<Rightarrow>
     keeper_pc \<times> ('p, 'f) keeper \<Rightarrow> transaction list" where
  "turn_sent E vsize tick env 0 s = []"
| "turn_sent E vsize tick env (Suc n) s =
     (let u = interfere (env n) s; s' = keeper_section E vsize tick u
      in turn_sent E vsize tick env n s' @ new_sent (kp_purse (snd u)) (kp_purse (snd s')))"

section \<open>The sections that are left\<close>

text \<open>At most three attempts of three sections each, after the two that choose the work.\<close>

fun sections_left :: "keeper_pc \<Rightarrow> nat" where
  "sections_left AtSync = 11"
| "sections_left (AtVaults _ _) = 10"
| "sections_left (AtVault _ _ _ n) = 3 * (3 - n)"
| "sections_left (AtLocked _ _ _ n _) = 3 * (3 - n) - 1"
| "sections_left (AtPoke _ _ n) = 3 * (3 - n) - 1"
| "sections_left (AtResync _ n) = 3 * (3 - n) - 2"
| "sections_left (AtEnd _) = 0"

text \<open>An attempt number is below three; the vault of a locked section is the one of the job.\<close>

fun pc_ok :: "keeper_pc \<Rightarrow> bool" where
  "pc_ok (AtVault _ _ _ n) = (n < 3)"
| "pc_ok (AtLocked vault _ _ n v) = (n < 3 \<and> oc_outpoint v = vault)"
| "pc_ok (AtPoke _ _ n) = (n < 3)"
| "pc_ok (AtResync _ n) = (n < 3)"
| "pc_ok _ = True"

lemma job_begin_pc: "n < 3 \<Longrightarrow> pc_ok (job_begin job n) \<and> sections_left (job_begin job n) \<le> 3 * (3 - n)"
  by (cases job) auto

text \<open>What ends with \<open>job_done\<close> is over.\<close>

lemma job_done_end: "\<exists>r. fst (job_done job q k) = AtEnd r"
  by (cases "(job, q, k)" rule: job_done.cases) auto

lemma attempted_cases:
  assumes "attempted job n k (r, w) = s'"
  obtains t where "r = Inr t" "s' = job_done job (Inr (Some t)) (k\<lparr>kp_purse := w\<rparr>)"
  | m where "r = Inl (WBroadcast (Conflict m))" "s' = (AtResync job n, k\<lparr>kp_purse := w\<rparr>)"
  | e q where "r = Inl e" "\<And>m. e \<noteq> WBroadcast (Conflict m)" "q = map_err keeper_error_of (attempt_error (job_what job) Benign n e)"
      "s' = job_done job q (k\<lparr>kp_purse := w\<rparr>)" "\<And>t. q \<noteq> Inr (Some t)"
proof (cases r)
  case (Inr t)
  then show ?thesis using assms that(1) by (simp add: attempted_def)
next
  case (Inl e)
  have no: "map_err keeper_error_of (attempt_error what Benign n e) \<noteq> Inr (Some t)" for t what
    by (auto simp: attempt_error_def map_err_def split: wallet_error.splits broadcast_error.splits if_splits)
  show ?thesis
  proof (cases "\<exists>m. e = WBroadcast (Conflict m)")
    case True
    then show ?thesis using Inl assms that(2) by (auto simp: attempted_def)
  next
    case False
    then have "s' = job_done job (map_err keeper_error_of (attempt_error (job_what job) Benign n e)) (k\<lparr>kp_purse := w\<rparr>)"
      using Inl assms by (auto simp: attempted_def split: wallet_error.splits broadcast_error.splits)
    then show ?thesis using Inl False no that(3) by blast
  qed
qed

lemma attempted_pc:
  assumes "n < 3"
  shows "pc_ok (fst (attempted job n k res)) \<and> sections_left (fst (attempted job n k res)) \<le> 3 * (3 - n) - 2"
proof -
  obtain r w where res: "res = (r, w)" by force
  have over: "pc_ok (fst (job_done job q u)) \<and> sections_left (fst (job_done job q u)) = 0" for q u
    using job_done_end[of job q u] by auto
  obtain s' where s': "attempted job n k (r, w) = s'" by blast
  show ?thesis using over assms unfolding res s' by (cases rule: attempted_cases[OF s']) auto
qed

lemma start_vault_pc: "pc_ok (start_vault v act height) \<and> sections_left (start_vault v act height) \<le> 9"
  by (simp add: start_vault_def split: option.splits)

lemma section_progress:
  assumes "pc_ok pc"
  shows "pc_ok (fst (keeper_section E vsize tick (pc, k))) \<and>
    sections_left (fst (keeper_section E vsize tick (pc, k))) \<le> sections_left pc - 1"
proof (cases pc)
  case AtSync
  then show ?thesis by (auto simp: Let_def split: prod.splits sum.splits)
next
  case (AtVaults height anchor)
  then show ?thesis using start_vault_pc by (auto simp: Let_def le_SucI split: option.splits)
next
  case (AtVault vault a height n)
  with assms have "n < 3" by simp
  moreover have "m \<le> 3 * (3 - n) - 1" if "m \<le> 3 * (3 - n) - 2" for m using that by simp
  ultimately show ?thesis using attempted_pc[of n "VaultJob vault a height" k] AtVault
    by (auto simp: vault_at_outpoint simp del: One_nat_def split: sum.splits)
next
  case (AtLocked vault a height n v)
  with assms attempted_pc[of n "VaultJob vault a height" k] show ?thesis by (simp add: numeral_2_eq_2)
next
  case (AtPoke anchor height n)
  with assms attempted_pc[of n "PokeJob anchor height" k] show ?thesis by (simp add: numeral_2_eq_2)
next
  case (AtResync job n)
  with assms job_begin_pc[of "Suc n" job] show ?thesis by (auto simp: CONFLICT_ATTEMPTS_def split: prod.splits sum.splits)
qed simp

section \<open>What a section sends\<close>

lemma performed_tx_session:
  assumes "session_of w' = session_of w"
  shows "performed_tx E lag tick w' = performed_tx E lag tick w"
proof (intro ext)
  fix p tx
  show "performed_tx E lag tick w' p tx = performed_tx E lag tick w p tx"
    using session_views(1)[OF assms] session_keeper_intents[OF assms, of E] session_intents(4)[OF assms, of E] by (cases p) simp_all
qed

text \<open>The transactions that go with a report: merges only, or one transaction of the report after them.\<close>

fun reports_tx :: "performed \<Rightarrow> bool" where
  "reports_tx (ResolvedElsewhere _) = False"
| "reports_tx _ = True"

definition turn_trace ::
  "('p, 'f) wallet_env \<Rightarrow> u32 \<Rightarrow> oracle_tick \<Rightarrow> ('p, 'f) wallet \<Rightarrow> keeper_error + performed option \<Rightarrow> transaction list \<Rightarrow> bool" where
  "turn_trace E lag tick w result txs \<longleftrightarrow>
     (case result of
        Inr (Some p) \<Rightarrow>
          if reports_tx p then txs \<noteq> [] \<and> performed_tx E lag tick w p (hd txs) \<and> list_all (consolidation E w) (tl txs)
          else list_all (consolidation E w) txs
      | _ \<Rightarrow> list_all (consolidation E w) txs)"

fun pc_trace ::
  "('p, 'f) wallet_env \<Rightarrow> u32 \<Rightarrow> oracle_tick \<Rightarrow> ('p, 'f) wallet \<Rightarrow> keeper_pc \<Rightarrow> transaction list \<Rightarrow> bool" where
  "pc_trace E lag tick w (AtEnd result) txs = turn_trace E lag tick w result txs"
| "pc_trace E lag tick w pc txs = list_all (consolidation E w) txs"

lemma new_sent_kept: "kept C w w' \<Longrightarrow> list_all C (new_sent w w')"
  by (auto simp: kept_def new_sent_def list_all_iff)

lemma kept_grown: "kept C w w' \<Longrightarrow> wl_sent w' = new_sent w w' @ wl_sent w"
  by (auto simp: kept_def new_sent_def)

lemma turn_trace_merges: "turn_trace E lag tick w result txs \<Longrightarrow> list_all (consolidation E w) ms \<Longrightarrow> turn_trace E lag tick w result (txs @ ms)"
  by (cases txs) (auto simp: turn_trace_def split: sum.splits option.splits)

lemma pc_trace_merges: "\<lbrakk>pc_trace E lag tick w pc txs; list_all (consolidation E w) ms\<rbrakk> \<Longrightarrow> pc_trace E lag tick w pc (txs @ ms)"
  by (cases pc) (simp_all add: turn_trace_merges)

text \<open>The purse and the options after a job is done; the report of a job that did not succeed has no transaction.\<close>

lemma job_done_purse: "kp_purse (snd (job_done job q k)) = kp_purse k \<and> kp_opts (snd (job_done job q k)) = kp_opts k"
  by (cases "(job, q, k)" rule: job_done.cases) auto

lemma job_failed_trace:
  assumes "\<And>t. q \<noteq> Inr (Some t)" "list_all (consolidation E w) txs"
  shows "pc_trace E lag tick w (fst (job_done job q k)) txs"
  using assms by (cases "(job, q, k)" rule: job_done.cases) (auto simp: turn_trace_def split: option.splits)

text \<open>The body a job sends.\<close>

fun job_tx :: "('p, 'f) wallet_env \<Rightarrow> u32 \<Rightarrow> oracle_tick \<Rightarrow> ('p, 'f) wallet \<Rightarrow> job \<Rightarrow> txid \<Rightarrow> transaction \<Rightarrow> bool" where
  "job_tx E lag tick w (VaultJob vault a height) t = performed_tx E lag tick w (try_report a vault t)"
| "job_tx E lag tick w (PokeJob anchor height) t = performed_tx E lag tick w (Poked t)"

lemma job_succeeded_trace:
  assumes "txs \<noteq> []" "job_tx E lag tick w job t (hd txs)" "list_all (consolidation E w) (tl txs)"
  shows "pc_trace E lag tick w (fst (job_done job (Inr (Some t)) k)) txs"
proof (cases job)
  case (VaultJob vault a height)
  have "reports_tx (try_report a vault t)" by (cases a) simp_all
  with VaultJob assms show ?thesis by (simp add: turn_trace_def)
next
  case (PokeJob anchor height)
  with assms show ?thesis by (simp add: turn_trace_def)
qed

lemma attempted_trace:
  assumes "sends (consolidation E w) (job_tx E lag tick w job) w (r, w')" "s' = attempted job n k (r, w')"
  shows "pc_trace E lag tick w (fst s') (new_sent w w') \<and> kp_purse (snd s') = w' \<and> kp_opts (snd s') = kp_opts k \<and>
    session_of w' = session_of w \<and> wl_sent w' = new_sent w w' @ wl_sent w"
proof (cases rule: attempted_cases[OF assms(2)[symmetric]])
  case (1 t)
  with assms(1) obtain tx pre where tx: "wl_sent w' = tx # pre @ wl_sent w" "\<forall>tx \<in> set pre. consolidation E w tx"
    "job_tx E lag tick w job t tx" "session_of w' = session_of w" by (auto simp: sends_def)
  then have "new_sent w w' = tx # pre" by (simp add: new_sent_def)
  with 1 tx job_done_purse[of job "Inr (Some t)" "k\<lparr>kp_purse := w'\<rparr>"] job_succeeded_trace[of "tx # pre" E lag tick w job t]
  show ?thesis by (simp add: list_all_iff)
next
  case (2 m)
  with assms(1) new_sent_kept kept_session kept_grown show ?thesis by (auto simp: sends_def)
next
  case (3 e q)
  with assms(1) have "list_all (consolidation E w) (new_sent w w')" "session_of w' = session_of w" "wl_sent w' = new_sent w w' @ wl_sent w"
    by (auto simp: sends_def intro: new_sent_kept kept_session kept_grown)
  with 3 job_failed_trace[of q E w "new_sent w w'" lag tick job] job_done_purse[of job q "k\<lparr>kp_purse := w'\<rparr>"] show ?thesis by simp
qed

lemma job_tx_eta:
  "job_tx E lag tick w (VaultJob vault a height) = (\<lambda>t. performed_tx E lag tick w (try_report a vault t))"
  "job_tx E lag tick w (PokeJob anchor height) = (\<lambda>t. performed_tx E lag tick w (Poked t))"
  by (simp_all add: fun_eq_iff)

lemma try_locked_sends:
  assumes "oc_outpoint v = vault" "merged E w u"
  shows "sends (consolidation E w) (job_tx E lag tick w (VaultJob vault a height)) w (try_locked E vsize lag vault tick a v u)"
  using partial_locked_sends[OF assms] full_liq_locked_sends[OF assms] bad_debt_locked_sends[OF assms] refresh_locked_sends[OF assms]
  by (cases a) (simp_all add: job_tx_eta)

lemma sync_merged: "sync E w = (r, w') \<Longrightarrow> merged E w w'"
  using kept_resync[of E w "map_sum id (\<lambda>_. ()) r" w'] by (cases r) (auto simp: resync_def op_bind_def op_ret_def)

lemma kept_silent [simp]: "new_sent w w = []" "pc_trace E lag tick w pc [] \<longleftrightarrow> (\<forall>p. pc = AtEnd (Inr (Some p)) \<longrightarrow> \<not> reports_tx p)"
  by (simp add: new_sent_def) (cases pc; auto simp: turn_trace_def split: sum.splits option.splits)

lemma section_trace:
  assumes "pc_ok pc" "\<And>r. pc \<noteq> AtEnd r" "keeper_section E vsize tick (pc, k) = (pc', k')"
  shows "pc_trace E (ko_refresh_lag (kp_opts k)) tick (kp_purse k) pc' (new_sent (kp_purse k) (kp_purse k')) \<and>
    kp_opts k' = kp_opts k \<and> session_of (kp_purse k') = session_of (kp_purse k) \<and>
    wl_sent (kp_purse k') = new_sent (kp_purse k) (kp_purse k') @ wl_sent (kp_purse k)"
proof (cases pc)
  case AtSync
  then show ?thesis using assms(3)
    by (auto simp: Let_def turn_trace_def dest!: sync_merged split: prod.splits sum.splits if_splits intro: new_sent_kept kept_session kept_grown)
next
  case (AtVaults height anchor)
  then show ?thesis using assms(3)
    by (auto simp: Let_def turn_trace_def start_vault_def split: option.splits if_splits)
next
  case (AtVault vault a height n)
  show ?thesis
  proof (cases "vault_at vault (kp_purse k)")
    case (Inl e)
    have "sends (consolidation E (kp_purse k)) (job_tx E lag tick (kp_purse k) (VaultJob vault a height)) (kp_purse k) (Inl e, kp_purse k)" for lag
      by (simp add: sends_def)
    from attempted_trace[OF this refl, where n = n and k = k] Inl AtVault assms(3) show ?thesis by simp
  next
    case (Inr v)
    with AtVault assms(3) show ?thesis by auto
  qed
next
  case (AtLocked vault a height n v)
  obtain r w' where r: "try_locked E vsize (ko_refresh_lag (kp_opts k)) vault tick a v (kp_purse k) = (r, w')" by force
  have "oc_outpoint v = vault" using assms(1) AtLocked by simp
  from try_locked_sends[OF this kept_refl, of E "kp_purse k" "ko_refresh_lag (kp_opts k)" tick a height vsize]
  show ?thesis using attempted_trace[of E "kp_purse k" "ko_refresh_lag (kp_opts k)" tick "VaultJob vault a height" r w' "(pc', k')" n k]
      r AtLocked assms(3) by simp
next
  case (AtPoke anchor height n)
  obtain r w' where r: "build_poke E vsize tick (kp_purse k) = (r, w')" by force
  have "sends (consolidation E (kp_purse k)) (job_tx E (ko_refresh_lag (kp_opts k)) tick (kp_purse k) (PokeJob anchor height)) (kp_purse k)
      (build_poke E vsize tick (kp_purse k))"
    unfolding job_tx_eta by (rule poke_attempt_sends) simp
  then
  show ?thesis using attempted_trace[of E "kp_purse k" "ko_refresh_lag (kp_opts k)" tick "PokeJob anchor height" r w' "(pc', k')" n k]
      r AtPoke assms(3) by simp
next
  case (AtResync job n)
  then show ?thesis using assms(3) job_begin_pc
    by (cases job) (auto simp: turn_trace_def dest!: kept_resync[where C = "consolidation E (kp_purse k)"]
        split: prod.splits sum.splits if_splits intro: new_sent_kept kept_session kept_grown)
qed (use assms in auto)

lemma pc_trace_session:
  assumes "session_of w' = session_of w" shows "pc_trace E lag tick w' = pc_trace E lag tick w"
proof (intro ext)
  fix pc txs
  have "consolidation E w' = consolidation E w" using consolidation_session[OF assms] by (simp add: fun_eq_iff)
  then show "pc_trace E lag tick w' pc txs = pc_trace E lag tick w pc txs"
    using performed_tx_session[OF assms, of E lag tick] by (cases pc) (simp_all add: turn_trace_def cong: option.case_cong sum.case_cong)
qed

section \<open>A turn on a shared purse\<close>

definition keeps_session :: "(nat \<Rightarrow> ('p, 'f) wallet \<Rightarrow> ('p, 'f) wallet) \<Rightarrow> bool" where
  "keeps_session env \<longleftrightarrow> (\<forall>i w. session_of (env i w) = session_of w)"

lemma keeps_session_env: "keeps_session env \<Longrightarrow> session_of (env i w) = session_of w"
  by (simp add: keeps_session_def)

lemma turn_traced:
  assumes "keeps_session env"
  shows "\<lbrakk>pc_ok (fst s); sections_left (fst s) \<le> n; session_of (kp_purse (snd s)) = session_of w; kp_opts (snd s) = opts;
      pc_trace E (ko_refresh_lag opts) tick w (fst s) txs\<rbrakk> \<Longrightarrow>
    \<exists>result. fst (turn E vsize tick env n s) = AtEnd result \<and>
      turn_trace E (ko_refresh_lag opts) tick w result (turn_sent E vsize tick env n s @ txs)"
proof (induction n arbitrary: s txs)
  case 0
  then show ?case by (cases "fst s") auto
next
  case (Suc n)
  obtain pc k where s: "s = (pc, k)" by force
  let ?k = "k\<lparr>kp_purse := env n (kp_purse k)\<rparr>"
  have u: "interfere (env n) s = (pc, ?k)" by (simp add: interfere_def s)
  have sess: "session_of (kp_purse ?k) = session_of w" using Suc.prems(3) keeps_session_env[OF assms] by (simp add: s)
  obtain pc' k' where s': "keeper_section E vsize tick (pc, ?k) = (pc', k')" by force
  have next_state: "pc_ok pc'" "sections_left pc' \<le> n" using section_progress[of pc E vsize tick ?k] Suc.prems(1,2) s s' by auto
  show ?case
  proof (cases "\<exists>r. pc = AtEnd r")
    case True
    then have "pc' = pc" "k' = ?k" using s' by auto
    then show ?thesis using Suc.IH[of "(pc', k')" txs] Suc.prems s u s' sess next_state by simp
  next
    case False
    then have "list_all (consolidation E w) txs" using Suc.prems(5) s by (cases pc) auto
    moreover have "pc_trace E (ko_refresh_lag opts) tick w pc' (new_sent (kp_purse ?k) (kp_purse k'))" "kp_opts k' = opts"
      "session_of (kp_purse k') = session_of w"
      using section_trace[of pc E vsize tick ?k pc' k'] False Suc.prems(1,4) s s' sess pc_trace_session[OF sess] by auto
    ultimately show ?thesis
      using Suc.IH[of "(pc', k')" "new_sent (kp_purse ?k) (kp_purse k') @ txs"] next_state u s s'
        pc_trace_merges[of E "ko_refresh_lag opts" tick w pc' "new_sent (kp_purse ?k) (kp_purse k')" txs] by (simp add: Let_def)
  qed
qed

section \<open>Without interference\<close>

abbreviation alone :: "nat \<Rightarrow> ('p, 'f) wallet \<Rightarrow> ('p, 'f) wallet" where
  "alone i w \<equiv> w"

lemma interfere_alone [simp]: "interfere (\<lambda>w. w) s = s"
  by (cases s) (simp add: interfere_def)

lemma turn_add: "turn E vsize tick alone (m + n) s = turn E vsize tick alone n (turn E vsize tick alone m s)"
  by (induction m arbitrary: s) auto

lemma turn_snoc: "turn E vsize tick alone (Suc m) s = keeper_section E vsize tick (turn E vsize tick alone m s)"
  using turn_add[of E vsize tick m 1 s] by simp

lemma turn_end [simp]: "turn E vsize tick alone n (AtEnd r, k) = (AtEnd r, k)"
  by (induction n) auto

fun job_attempt ::
  "('p, 'f) wallet_env \<Rightarrow> (transaction \<Rightarrow> u64) \<Rightarrow> u32 \<Rightarrow> oracle_tick \<Rightarrow> job \<Rightarrow> ('p, 'f, txid) wop" where
  "job_attempt E vsize lag tick (VaultJob vault a height) =
     op_bind (\<lambda>w. (vault_at vault w, w)) (try_locked E vsize lag vault tick a)"
| "job_attempt E vsize lag tick (PokeJob anchor height) = build_poke E vsize tick"

text \<open>One attempt is one or two sections.\<close>

lemma job_attempt_sections:
  "\<exists>m \<le> 2. turn E vsize tick alone m (job_begin job n, k) =
     attempted job n k (job_attempt E vsize (ko_refresh_lag (kp_opts k)) tick job (kp_purse k))"
proof (cases job)
  case (VaultJob vault a height)
  show ?thesis
  proof (cases "vault_at vault (kp_purse k)")
    case (Inl e)
    then show ?thesis by (intro exI[of _ 1]) (simp add: VaultJob op_bind_def)
  next
    case (Inr v)
    then show ?thesis by (intro exI[of _ 2]) (simp add: VaultJob op_bind_def numeral_2_eq_2)
  qed
qed (auto intro!: exI[of _ 1])

lemma retry_sections:
  "\<exists>m \<le> 3 * j. j + n = 3 \<longrightarrow> 0 < j \<longrightarrow> turn E vsize tick alone m (job_begin job n, k) =
     (case retry_from (job_what job) (resync E) (job_attempt E vsize (ko_refresh_lag (kp_opts k)) tick job) Benign n j (kp_purse k) of
        (r, w) \<Rightarrow> job_done job (map_err keeper_error_of r) (k\<lparr>kp_purse := w\<rparr>))"
proof (induction j arbitrary: n k)
  case (Suc j)
  let ?f = "job_attempt E vsize (ko_refresh_lag (kp_opts k)) tick job"
  obtain m where m: "m \<le> 2" "turn E vsize tick alone m (job_begin job n, k) = attempted job n k (?f (kp_purse k))"
    using job_attempt_sections by blast
  obtain r w where f: "?f (kp_purse k) = (r, w)" by force
  obtain s' where s': "attempted job n k (r, w) = s'" by blast
  show ?case
  proof (cases rule: attempted_cases[OF s'])
    case (1 t)
    then show ?thesis using m f s' by (intro exI[of _ m]) (auto simp: map_err_def)
  next
    case (3 e q)
    then show ?thesis using m f s' by (intro exI[of _ m]) (auto split: wallet_error.splits broadcast_error.splits)
  next
    case (2 c)
    obtain q v where q: "resync E w = (q, v)" by force
    show ?thesis
    proof (cases q)
      case (Inl e)
      then show ?thesis using m f s' 2 q by (intro exI[of _ "Suc m"]) (auto simp: turn_snoc map_err_def simp del: turn.simps(2))
    next
      case (Inr x)
      obtain m' where m': "m' \<le> 3 * j" "j + Suc n = 3 \<longrightarrow> 0 < j \<longrightarrow> turn E vsize tick alone m' (job_begin job (Suc n), k\<lparr>kp_purse := v\<rparr>) =
         (case retry_from (job_what job) (resync E) ?f Benign (Suc n) j v of
           (r, w) \<Rightarrow> job_done job (map_err keeper_error_of r) (k\<lparr>kp_purse := w\<rparr>))"
        using Suc.IH[of "Suc n" "k\<lparr>kp_purse := v\<rparr>"] by auto
      show ?thesis
      proof (cases "j = 0")
        case True
        then show ?thesis using m f s' 2 q Inr
          by (intro exI[of _ "Suc m"]) (auto simp: turn_snoc map_err_def CONFLICT_ATTEMPTS_def simp del: turn.simps(2))
      next
        case False
        then show ?thesis using m m' f s' 2 q Inr
          by (intro exI[of _ "Suc m + m'"]) (auto simp: turn_add turn_snoc CONFLICT_ATTEMPTS_def simp del: turn.simps(2) add_Suc)
      qed
    qed
  qed
qed simp


text \<open>The attempts of \<open>Styx_Keeper\<close> are these jobs.\<close>

lemma job_attempt_names:
  "job_attempt E vsize lag tick (VaultJob vault (TryPartial dd) height) = attempt_partial E vsize lag vault tick"
  "job_attempt E vsize lag tick (VaultJob vault TryFullLiq height) = attempt_full_liq E vsize vault tick"
  "job_attempt E vsize lag tick (VaultJob vault TryBadDebt height) = attempt_bad_debt E vsize vault tick"
  "job_attempt E vsize lag tick (VaultJob vault TryRefresh height) = attempt_refresh E vsize vault tick"
  by (simp_all add: attempt_partial_def attempt_full_liq_def attempt_bad_debt_def attempt_refresh_def)

lemma turn_enough:
  assumes "turn E vsize tick alone m s = (AtEnd r, k)" "m \<le> n" shows "turn E vsize tick alone n s = (AtEnd r, k)"
  using turn_add[of E vsize tick m "n - m" s] assms by simp

definition ended :: "(keeper_error + performed option) \<times> ('p, 'f) keeper \<Rightarrow> keeper_pc \<times> ('p, 'f) keeper" where
  "ended res = (AtEnd (fst res), snd res)"

lemma job_done_retry:
  "turn E vsize tick alone 9 (job_begin job 0, k) =
     (case keeper_retry E (job_what job) (job_attempt E vsize (ko_refresh_lag (kp_opts k)) tick job) k of (r, k') \<Rightarrow> job_done job r k')"
proof -
  let ?f = "job_attempt E vsize (ko_refresh_lag (kp_opts k)) tick job"
  obtain r w where r: "retry_conflicts (job_what job) (resync E) ?f Benign (kp_purse k) = (r, w)" by force
  obtain m where m: "m \<le> 9" "turn E vsize tick alone m (job_begin job 0, k) = job_done job (map_err keeper_error_of r) (k\<lparr>kp_purse := w\<rparr>)"
    using retry_sections[of 3 0 E vsize tick job k] r by (auto simp: retry_conflicts_def CONFLICT_ATTEMPTS_def)
  obtain q k' where q: "job_done job (map_err keeper_error_of r) (k\<lparr>kp_purse := w\<rparr>) = (AtEnd q, k')"
    using job_done_end by (metis prod.collapse)
  show ?thesis using turn_enough[OF m(2)[unfolded q] m(1)] r q by (simp add: keeper_retry_def)
qed

lemma start_vault_tracked:
  "turn E vsize tick alone 9 (start_vault v act height, k) = ended (execute_tracked E vsize (oc_outpoint v) act tick height k)"
proof (cases "attempt_of act")
  case None
  then have "act = NoAction" by (cases act) simp_all
  then show ?thesis by (simp add: start_vault_def ended_def execute_tracked_def keeper_execute_def)
next
  case (Some a)
  obtain r k' where r: "keeper_retry E (job_what (VaultJob (oc_outpoint v) a height))
      (job_attempt E vsize (ko_refresh_lag (kp_opts k)) tick (VaultJob (oc_outpoint v) a height)) k = (r, k')" by force
  have "turn E vsize tick alone 9 (start_vault v act height, k) = job_done (VaultJob (oc_outpoint v) a height) r k'"
    using job_done_retry[of E vsize tick "VaultJob (oc_outpoint v) a height" k] r Some by (simp add: start_vault_def)
  also have "\<dots> = ended (execute_tracked E vsize (oc_outpoint v) act tick height k)"
    using r Some unfolding ended_def execute_tracked_def keeper_execute_def
    by (cases act; cases r) (auto simp: bind_res_def job_attempt_names simp del: job_attempt.simps split: option.splits)
  finally show ?thesis .
qed

lemma vaults_section_act:
  "turn E vsize tick alone 10 (AtVaults height anchor, k\<lparr>kp_acted := retain_acted indexed height (kp_acted k)\<rparr>) =
     ended (keeper_act E vsize tick height anchor indexed k)"
proof -
  let ?k = "k\<lparr>kp_acted := retain_acted indexed height (kp_acted k)\<rparr>"
  have step: "turn E vsize tick alone 10 s = turn E vsize tick alone 9 (keeper_section E vsize tick s)" for s
    using turn_add[of E vsize tick 1 9 s] by simp
  show ?thesis
  proof (cases "urgent ?k tick anchor")
    case (Some va)
    then show ?thesis by (cases va) (simp add: step start_vault_tracked keeper_act_def)
  next
    case None
    let ?p = "?k\<lparr>kp_poked := retain_poked anchor height (kp_poked k)\<rparr>"
    have cand: "candidates ?p = candidates ?k" by (simp add: candidates_def known_vaults_def)
    show ?thesis
    proof (cases "kp_poked ?p = None \<and> ko_poke_lag (kp_opts k) < sat_sub (height_raw (ot_height tick)) (height_raw anchor)")
      case True
      obtain r k' where r: "keeper_retry E ''poke'' (build_poke E vsize tick) ?p = (r, k')" by force
      have "turn E vsize tick alone 9 (AtPoke anchor height 0, ?p) = job_done (PokeJob anchor height) r k'"
        using job_done_retry[of E vsize tick "PokeJob anchor height" ?p] r by simp
      then show ?thesis using True None r
        by (cases r) (auto simp: step keeper_act_def step_duties_def ended_def split: option.splits)
    next
      case False
      then show ?thesis using None cand
        by (auto simp: step keeper_act_def step_duties_def start_vault_tracked Let_def ended_def split: option.splits)
    qed
  qed
qed

section \<open>Properties\<close>

text \<open>
  C15 (shared_turn_ends): whatever other threads do to the purse between the sections of a turn, as long
  as the session stays the same, and whatever the node answers, the turn is over after at most
  eleven sections; its own transactions are merges of the purse's OBOL coins and, exactly when it
  reports an action with a transaction id, one last transaction whose body the checked builder made
  for the reported vault at a fee in the allowed range.
\<close>

theorem shared_turn_ends:
  assumes "keeps_session env"
  shows "\<exists>result. fst (turn E vsize tick env 11 (AtSync, k)) = AtEnd result \<and>
    turn_trace E (ko_refresh_lag (kp_opts k)) tick (kp_purse k) result (turn_sent E vsize tick env 11 (AtSync, k))"
  using turn_traced[OF assms, of "(AtSync, k)" 11 "kp_purse k" "kp_opts k" E tick "[]" vsize] by simp

theorem shared_turn_ends_witness:
  "\<exists>result. fst (turn (sample_env (\<lambda>_ _ _ _. Inl ''Connection refused'')) (\<lambda>_. 100) (sample_tick 100 1 1 1)
     (\<lambda>i w. w\<lparr>wl_clock := wl_clock w + i\<rparr>) 11 (AtSync, keeper_new sample_wallet keeper_opts_default)) = AtEnd result"
  using shared_turn_ends[of "\<lambda>i w. w\<lparr>wl_clock := wl_clock w + i\<rparr>" "sample_env (\<lambda>_ _ _ _. Inl ''Connection refused'')" "\<lambda>_. 100"
      "sample_tick 100 1 1 1" "keeper_new sample_wallet keeper_opts_default"]
  by (auto simp: keeps_session_def session_of_def)

text \<open>
  When nobody else touches the purse, the sections of a turn amount to the atomic
  step of the daemon's keeper: same result, same keeper, same purse.
\<close>

lemma alone_is_step:
  "turn E vsize tick alone 11 (AtSync, k) = (AtEnd (fst (keeper_step E vsize tick k)), snd (keeper_step E vsize tick k))"
proof -
  have "turn E vsize tick alone 11 (AtSync, k) = turn E vsize tick alone 10 (keeper_section E vsize tick (AtSync, k))"
    using turn_add[of E vsize tick 1 10 "(AtSync, k)"] by simp
  then show ?thesis
    using vaults_section_act[of E vsize tick _ _ _ "k\<lparr>kp_purse := w\<rparr>" for w]
    by (auto simp: keeper_step_def Let_def ended_def split: prod.splits sum.splits)
qed

end
