(* ===== verification/Styx_Gate.thy ===== *)
theory Styx_Gate
  imports Styx_Config
begin

text \<open>
  What stands in front of the application's API (\<open>styx-app/src/config.rs\<close>, \<open>auth.rs\<close> and
  \<open>ui.rs\<close>): where the server listens, the request gate, and the pages it serves.

  Parameters: the TOML reader, the parser of a socket address, the random bytes of the token, the
  hash, the decoding of a header value to text, and the files embedded in the binary.
\<close>

section \<open>Addresses\<close>

datatype socket_addr =
    SocketV4 u8 u8 u8 u8 u16
  | SocketV6 "128 word" u32 u16

fun is_loopback :: "socket_addr \<Rightarrow> bool" where
  "is_loopback (SocketV4 a _ _ _ _) = (a = 127)"
| "is_loopback (SocketV6 ip _ _) = (ip = 1)"

fun addr_port :: "socket_addr \<Rightarrow> u16" where
  "addr_port (SocketV4 _ _ _ _ p) = p"
| "addr_port (SocketV6 _ _ p) = p"

text \<open>The text of a loopback address; the IPv6 one carries its scope when it has one.\<close>

fun show_loopback :: "socket_addr \<Rightarrow> string" where
  "show_loopback (SocketV4 a b c d p) =
     dec_str (unat a) @ ''.'' @ dec_str (unat b) @ ''.'' @ dec_str (unat c) @ ''.'' @ dec_str (unat d) @ '':'' @ dec_str (unat p)"
| "show_loopback (SocketV6 _ scope p) =
     ''[::1'' @ (if scope = 0 then '''' else ''%'' @ dec_str (unat scope)) @ '']:'' @ dec_str (unat p)"

section \<open>The configuration\<close>

datatype app_config_error =
    AppConfigIo
  | AppConfigToml string
  | AppListen string
  | NonLoopback socket_addr

record proxy_config =
  px_bind :: string
  px_allow_hosts :: "string list"
  px_allow_origins :: "string list"

record keeper_section_config =
  ks_poke_lag :: u32
  ks_refresh_lag :: u32

record app_config =
  ac_purse :: wallet_config
  ac_listen :: string
  ac_keeper :: keeper_section_config
  ac_poll_ms :: u64
  ac_proxy :: "proxy_config option"

definition default_listen :: string where "default_listen = ''127.0.0.1:9780''"
definition default_poll_ms :: u64 where "default_poll_ms = 2000"
definition default_poke_lag :: u32 where "default_poke_lag = 4"
definition default_refresh_lag :: u32 where "default_refresh_lag = 16"

definition keeper_section_default :: keeper_section_config where
  "keeper_section_default = \<lparr>ks_poke_lag = default_poke_lag, ks_refresh_lag = default_refresh_lag\<rparr>"

definition keeper_section_opts :: "keeper_section_config \<Rightarrow> keeper_opts" where
  "keeper_section_opts ks =
     keeper_opts_default\<lparr>ko_poke_lag := ks_poke_lag ks, ko_refresh_lag := ks_refresh_lag ks\<rparr>"

definition resolve_listen ::
  "(string \<Rightarrow> socket_addr option) \<Rightarrow> app_config \<Rightarrow> string option \<Rightarrow> app_config_error + socket_addr" where
  "resolve_listen parse_addr cfg env =
     (let raw = (case env of Some e \<Rightarrow> e | None \<Rightarrow> ac_listen cfg) in
      case parse_addr raw of
        None \<Rightarrow> Inl (AppListen raw)
      | Some addr \<Rightarrow> if \<not> is_loopback addr then Inl (NonLoopback addr) else Inr addr)"

definition app_bind ::
  "(string \<Rightarrow> socket_addr option) \<Rightarrow> string option \<Rightarrow> app_config \<Rightarrow> app_config_error + socket_addr \<times> string list \<times> string list" where
  "app_bind parse_addr env cfg =
     (case ac_proxy cfg of
        Some proxy \<Rightarrow>
          (case parse_addr (px_bind proxy) of
             None \<Rightarrow> Inl (AppListen (px_bind proxy))
           | Some addr \<Rightarrow> Inr (addr, px_allow_hosts proxy, px_allow_origins proxy))
      | None \<Rightarrow> bind_res (resolve_listen parse_addr cfg env) (\<lambda>addr. Inr (addr, [], [])))"

definition app_config_parse ::
  "(string \<Rightarrow> string + app_config) \<Rightarrow> (string \<Rightarrow> socket_addr option) \<Rightarrow> string option \<Rightarrow> string \<Rightarrow> app_config_error + app_config" where
  "app_config_parse from_toml parse_addr env text =
     bind_res (map_err AppConfigToml (from_toml text)) (\<lambda>cfg.
     bind_res (app_bind parse_addr env cfg) (\<lambda>_. Inr cfg))"

definition app_config_load ::
  "(string \<Rightarrow> string + app_config) \<Rightarrow> (string \<Rightarrow> socket_addr option) \<Rightarrow> string option \<Rightarrow> (string \<Rightarrow> string option) \<Rightarrow> string \<Rightarrow>
     app_config_error + app_config" where
  "app_config_load from_toml parse_addr env read path =
     (case read path of None \<Rightarrow> Inl AppConfigIo | Some text \<Rightarrow> app_config_parse from_toml parse_addr env text)"

section \<open>The gate\<close>

definition TOKEN_HEADER :: string where "TOKEN_HEADER = ''x-styx-token''"

datatype gate_error = Unauthorized | ForbiddenHost | ForbiddenOrigin

fun gate_status :: "gate_error \<Rightarrow> nat" where
  "gate_status Unauthorized = 401"
| "gate_status ForbiddenHost = 403"
| "gate_status ForbiddenOrigin = 403"

record gate =
  gt_token :: string
  gt_hosts :: "string list"
  gt_proxy_hosts :: "string list"
  gt_proxy_origins :: "string list"

definition mint_proxied :: "bytes \<Rightarrow> socket_addr \<Rightarrow> string list \<Rightarrow> string list \<Rightarrow> gate" where
  "mint_proxied rnd addr proxy_hosts proxy_origins =
     \<lparr>gt_token = hex_str rnd,
      gt_hosts = (if is_loopback addr then [show_loopback addr, ''localhost:'' @ dec_str (unat (addr_port addr))] else []),
      gt_proxy_hosts = proxy_hosts, gt_proxy_origins = proxy_origins\<rparr>"

definition mint :: "bytes \<Rightarrow> socket_addr \<Rightarrow> gate" where
  "mint rnd addr = mint_proxied rnd addr [] []"

definition host_ok :: "gate \<Rightarrow> string \<Rightarrow> bool" where
  "host_ok g host \<longleftrightarrow> list_ex (\<lambda>h. h = host) (gt_hosts g) \<or> list_ex (\<lambda>h. h = host) (gt_proxy_hosts g)"

fun strip_prefix :: "string \<Rightarrow> string \<Rightarrow> string option" where
  "strip_prefix [] s = Some s"
| "strip_prefix (c # cs) (d # ds) = (if c = d then strip_prefix cs ds else None)"
| "strip_prefix (c # cs) [] = None"

definition origin_ok :: "gate \<Rightarrow> string \<Rightarrow> bool" where
  "origin_ok g origin \<longleftrightarrow>
     (case strip_prefix ''http://'' origin of Some rest \<Rightarrow> list_ex (\<lambda>h. h = rest) (gt_hosts g) | None \<Rightarrow> False) \<or>
     list_ex (\<lambda>o'. o' = origin) (gt_proxy_origins g)"

text \<open>A header map gives the first value of a name; a value that does not decode to text counts as absent.\<close>

type_synonym headers = "(string \<times> bytes) list"

definition header_text :: "(bytes \<Rightarrow> string option) \<Rightarrow> headers \<Rightarrow> string \<Rightarrow> string option" where
  "header_text to_str hs name = Option.bind (map_of hs name) to_str"

definition check_page :: "(bytes \<Rightarrow> string option) \<Rightarrow> gate \<Rightarrow> headers \<Rightarrow> gate_error + unit" where
  "check_page to_str g hs =
     (case header_text to_str hs ''sec-fetch-site'' of
        Some site \<Rightarrow> refuse_if (site = ''cross-site'' \<or> site = ''same-site'') ForbiddenOrigin
      | None \<Rightarrow> (\<lambda>r. r))
     (let host = (case header_text to_str hs ''host'' of Some h \<Rightarrow> h | None \<Rightarrow> '''') in
      refuse_if (\<not> host_ok g host) ForbiddenHost
     ((case header_text to_str hs ''origin'' of
        Some origin \<Rightarrow> refuse_if (\<not> origin_ok g origin) ForbiddenOrigin
      | None \<Rightarrow> (\<lambda>r. r))
      (Inr ())))"

definition ascii_bytes :: "string \<Rightarrow> bytes" where
  "ascii_bytes s = map (\<lambda>c. of_nat (of_char c)) s"

definition token_eq :: "(bytes \<Rightarrow> bytes) \<Rightarrow> string \<Rightarrow> string \<Rightarrow> bool" where
  "token_eq sha256 a b \<longleftrightarrow> sha256 (ascii_bytes a) = sha256 (ascii_bytes b)"

definition gate_check :: "(bytes \<Rightarrow> bytes) \<Rightarrow> (bytes \<Rightarrow> string option) \<Rightarrow> gate \<Rightarrow> headers \<Rightarrow> gate_error + unit" where
  "gate_check sha256 to_str g hs =
     bind_res (check_page to_str g hs) (\<lambda>_.
     case header_text to_str hs TOKEN_HEADER of
       Some t \<Rightarrow> if token_eq sha256 t (gt_token g) then Inr () else Inl Unauthorized
     | None \<Rightarrow> Inl Unauthorized)"

text \<open>The two middlewares: the next handler runs only behind a check that passed.\<close>

definition gated :: "gate_error + unit \<Rightarrow> (nat \<times> 'b) \<Rightarrow> (gate_error \<Rightarrow> 'b) \<Rightarrow> nat \<times> 'b" where
  "gated chk response refusal = (case chk of Inr _ \<Rightarrow> response | Inl e \<Rightarrow> (gate_status e, refusal e))"

section \<open>The pages\<close>

definition CSP :: string where
  "CSP = ''default-src 'none'; script-src 'self'; style-src 'self'; font-src 'self'; '' @
     ''connect-src 'self'; img-src 'self'; form-action 'self'; base-uri 'none'; '' @
     ''frame-ancestors '' @ [CHR 0x27] @ ''none'' @ [CHR 0x27]"

definition harden :: "(string \<times> string) list" where
  "harden = [(''content-security-policy'', CSP), (''x-frame-options'', ''DENY''), (''x-content-type-options'', ''nosniff'')]"

record page =
  pg_headers :: "(string \<times> string) list"
  pg_body :: string

record ui_assets =
  ua_index :: string
  ua_css :: string
  ua_js :: string
  ua_favicon :: string
  ua_fonts :: "string \<Rightarrow> string"

definition index_page :: "ui_assets \<Rightarrow> page" where
  "index_page A =
     \<lparr>pg_headers = [(''content-type'', ''text/html; charset=utf-8''), (''cache-control'', ''no-store'')] @ harden, pg_body = ua_index A\<rparr>"

definition session_page :: "gate \<Rightarrow> page" where
  "session_page g =
     \<lparr>pg_headers = [(''content-type'', ''text/javascript''), (''cache-control'', ''no-store'')] @ harden,
      pg_body = ''window.STYX_TOKEN='' @ [CHR 0x22] @ gt_token g @ [CHR 0x22] @ '';''\<rparr>"

definition asset :: "string \<Rightarrow> string \<Rightarrow> page" where
  "asset body mime = \<lparr>pg_headers = (''content-type'', mime) # harden, pg_body = body\<rparr>"

definition FONTS :: "string list" where
  "FONTS = [''/fonts/didot-latin.woff2'', ''/fonts/didot-greek.woff2'', ''/fonts/plex-mono-400.woff2'', ''/fonts/plex-mono-500.woff2'']"

definition ui_route :: "ui_assets \<Rightarrow> gate \<Rightarrow> string \<Rightarrow> page option" where
  "ui_route A g path =
     (if path = ''/'' then Some (index_page A)
      else if path = ''/session.js'' then Some (session_page g)
      else if path = ''/app.css'' then Some (asset (ua_css A) ''text/css'')
      else if path = ''/app.js'' then Some (asset (ua_js A) ''text/javascript'')
      else if path = ''/favicon.svg'' then Some (asset (ua_favicon A) ''image/svg+xml'')
      else if path \<in> set FONTS then Some (asset (ua_fonts A path) ''font/woff2'')
      else None)"

text \<open>A page request on a route, behind the page tier of the gate; \<open>None\<close> when there is no such route.\<close>

definition ui_get ::
  "(bytes \<Rightarrow> string option) \<Rightarrow> ui_assets \<Rightarrow> gate \<Rightarrow> headers \<Rightarrow> string \<Rightarrow> (nat \<times> (gate_error + page)) option" where
  "ui_get to_str A g hs path =
     map_option (\<lambda>p. gated (check_page to_str g hs) (200, Inr p) Inl) (ui_route A g path)"

section \<open>What the gate lets through\<close>

lemma refuse_if_Inr_iff: "refuse_if b e r = Inr a \<longleftrightarrow> \<not> b \<and> r = Inr a"
  by (simp add: refuse_if_def)

lemma check_page_Inr:
  "check_page to_str g hs = Inr () \<longleftrightarrow>
     header_text to_str hs ''sec-fetch-site'' \<notin> {Some ''cross-site'', Some ''same-site''} \<and>
     host_ok g (case header_text to_str hs ''host'' of Some h \<Rightarrow> h | None \<Rightarrow> '''') \<and>
     (\<forall>origin. header_text to_str hs ''origin'' = Some origin \<longrightarrow> origin_ok g origin)"
  by (auto simp: check_page_def Let_def refuse_if_Inr_iff split: option.splits)

lemma gate_check_Inr:
  "gate_check sha256 to_str g hs = Inr () \<longleftrightarrow>
     check_page to_str g hs = Inr () \<and>
     (\<exists>t. header_text to_str hs TOKEN_HEADER = Some t \<and> sha256 (ascii_bytes t) = sha256 (ascii_bytes (gt_token g)))"
  by (auto simp: gate_check_def res_Inr token_eq_def split: option.splits)

lemma strip_prefix_Some: "strip_prefix p s = Some r \<longleftrightarrow> s = p @ r"
  by (induction p s rule: strip_prefix.induct) auto

lemma origin_ok_iff: "origin_ok g origin \<longleftrightarrow> (\<exists>h \<in> set (gt_hosts g). origin = ''http://'' @ h) \<or> origin \<in> set (gt_proxy_origins g)"
proof -
  have "(case strip_prefix ''http://'' origin of Some rest \<Rightarrow> list_ex (\<lambda>h. h = rest) (gt_hosts g) | None \<Rightarrow> False) \<longleftrightarrow>
    (\<exists>rest. strip_prefix ''http://'' origin = Some rest \<and> rest \<in> set (gt_hosts g))"
    by (auto simp: list_ex_iff split: option.splits)
  then show ?thesis by (auto simp: origin_ok_def strip_prefix_Some list_ex_iff)
qed

lemma resolve_listen_loopback: "resolve_listen parse_addr cfg env = Inr addr \<Longrightarrow> is_loopback addr"
  by (auto simp: resolve_listen_def Let_def split: option.splits if_splits)

lemma app_bind_cases:
  assumes "app_bind parse_addr env cfg = Inr (addr, hosts, origins)"
  shows "(ac_proxy cfg = None \<and> is_loopback addr \<and> hosts = [] \<and> origins = []) \<or>
    (\<exists>px. ac_proxy cfg = Some px \<and> hosts = px_allow_hosts px \<and> origins = px_allow_origins px)"
  using assms by (auto simp: app_bind_def res_Inr resolve_listen_loopback split: option.splits)

text \<open>The hosts and origins of a configuration that may talk to a server bound to \<open>addr\<close>.\<close>

definition own_hosts :: "socket_addr \<Rightarrow> string list" where
  "own_hosts addr = (if is_loopback addr then [show_loopback addr, ''localhost:'' @ dec_str (unat (addr_port addr))] else [])"

definition allowed_hosts :: "app_config \<Rightarrow> socket_addr \<Rightarrow> string list" where
  "allowed_hosts cfg addr = own_hosts addr @ (case ac_proxy cfg of None \<Rightarrow> [] | Some px \<Rightarrow> px_allow_hosts px)"

definition allowed_origins :: "app_config \<Rightarrow> socket_addr \<Rightarrow> string list" where
  "allowed_origins cfg addr = map (\<lambda>h. ''http://'' @ h) (own_hosts addr) @ (case ac_proxy cfg of None \<Rightarrow> [] | Some px \<Rightarrow> px_allow_origins px)"

lemma minted: "gt_hosts (mint_proxied rnd addr hosts origins) = own_hosts addr"
    "gt_proxy_hosts (mint_proxied rnd addr hosts origins) = hosts" "gt_proxy_origins (mint_proxied rnd addr hosts origins) = origins"
  by (simp_all add: mint_proxied_def own_hosts_def)

lemma minted_gate:
  assumes "app_bind parse_addr env cfg = Inr (addr, hosts, origins)"
  shows "host_ok (mint_proxied rnd addr hosts origins) h \<longleftrightarrow> h \<in> set (allowed_hosts cfg addr)"
    "origin_ok (mint_proxied rnd addr hosts origins) o' \<longleftrightarrow> o' \<in> set (allowed_origins cfg addr)"
  unfolding host_ok_def origin_ok_iff minted list_ex_iff allowed_hosts_def allowed_origins_def
  using app_bind_cases[OF assms] by (auto simp del: append_Cons)

text \<open>The token is made of hexadecimal digits, so that the script that carries it has no quote to escape.\<close>

lemma hex_digit_plain: "n < 16 \<Longrightarrow> hex_digit n \<noteq> CHR 0x22 \<and> hex_digit n \<noteq> CHR 0x5C"
proof -
  assume "n < 16"
  then have "of_char (hex_digit n) \<noteq> (34 :: nat)" "of_char (hex_digit n) \<noteq> (92 :: nat)" by (auto simp: hex_digit_def)
  then show ?thesis by auto
qed

lemma hex_str_plain: "c \<in> set (hex_str bs) \<Longrightarrow> c \<noteq> CHR 0x22 \<and> c \<noteq> CHR 0x5C"
proof (induction bs)
  case (Cons b bs)
  have "unat b div 16 < 16" using unsigned_less[of b, where ?'a = nat] by (simp add: less_mult_imp_div_less)
  with Cons hex_digit_plain[of "unat b div 16"] hex_digit_plain[of "unat b mod 16"] show ?case
    by (auto simp: hex_str_def hex_byte_def)
qed (simp add: hex_str_def)

section \<open>Properties\<close>

text \<open>
  C16 (gate_exact): with the configuration the server was started with, a request reaches an API
  handler exactly when its Host is the bound loopback address, \<open>localhost\<close> with the port, or a
  configured proxy host; its Origin, when it sends a readable one, is plain http to such a bound
  host or a configured proxy origin; the browser does not mark it as cross-site or same-site; and
  its token has the digest of the session's. Without a proxy section the server is bound to a
  loopback address, and with one that is not loopback nothing but the configured hosts is answered.
\<close>

theorem gate_exact:
  assumes "app_bind parse_addr env cfg = Inr (addr, hosts, origins)"
  shows "(gate_check sha256 to_str (mint_proxied rnd addr hosts origins) hs = Inr () \<longleftrightarrow>
      (case header_text to_str hs ''host'' of Some h \<Rightarrow> h | None \<Rightarrow> '''') \<in> set (allowed_hosts cfg addr) \<and>
      (\<forall>origin. header_text to_str hs ''origin'' = Some origin \<longrightarrow> origin \<in> set (allowed_origins cfg addr)) \<and>
      header_text to_str hs ''sec-fetch-site'' \<notin> {Some ''cross-site'', Some ''same-site''} \<and>
      (\<exists>t. header_text to_str hs TOKEN_HEADER = Some t \<and> sha256 (ascii_bytes t) = sha256 (ascii_bytes (hex_str rnd)))) \<and>
    (ac_proxy cfg = None \<longrightarrow> is_loopback addr) \<and>
    (\<not> is_loopback addr \<longrightarrow> (\<exists>px. ac_proxy cfg = Some px \<and> allowed_hosts cfg addr = px_allow_hosts px \<and> allowed_origins cfg addr = px_allow_origins px))"
proof -
  have tok: "gt_token (mint_proxied rnd addr hosts origins) = hex_str rnd" by (simp add: mint_proxied_def)
  show ?thesis
    using app_bind_cases[OF assms]
    by (auto simp: gate_check_Inr check_page_Inr minted_gate[OF assms] tok allowed_hosts_def allowed_origins_def own_hosts_def split: option.splits)
qed

definition sample_app_config :: app_config where
  "sample_app_config =
     \<lparr>ac_purse = \<lparr>wc_styxnet = ''styxnet.toml'', wc_rpc_url = '''', wc_rpc_user = None, wc_rpc_password = None, wc_rpc_cookie = Some ''c'',
        wc_snapshot = ''s'', wc_owner_seckey = '''', wc_funding_seckey = ''''\<rparr>,
      ac_listen = default_listen, ac_keeper = keeper_section_default, ac_poll_ms = default_poll_ms, ac_proxy = None\<rparr>"

theorem gate_exact_witness:
  "gate_check (\<lambda>b. b) (\<lambda>b. Some (map (\<lambda>x. char_of (unat x)) b)) (mint_proxied [0xAB] (SocketV4 127 0 0 1 80) [] [])
     [(''host'', ascii_bytes ''localhost:80''), (TOKEN_HEADER, ascii_bytes ''ab'')] = Inr ()"
proof -
  let ?parse = "\<lambda>_. Some (SocketV4 127 0 0 1 80)" and ?str = "\<lambda>b :: bytes. Some (map (\<lambda>x. char_of (unat x)) b)"
  let ?hs = "[(''host'', ascii_bytes ''localhost:80''), (TOKEN_HEADER, ascii_bytes ''ab'')]"
  have bind: "app_bind ?parse None sample_app_config = Inr (SocketV4 127 0 0 1 80, [], [])"
    by (simp add: app_bind_def sample_app_config_def resolve_listen_def bind_res_def)
  have hdr: "header_text ?str ?hs ''host'' = Some ''localhost:80''" "header_text ?str ?hs ''origin'' = None"
    "header_text ?str ?hs ''sec-fetch-site'' = None" "header_text ?str ?hs TOKEN_HEADER = Some ''ab''"
    by (simp_all add: header_text_def TOKEN_HEADER_def ascii_bytes_def) code_simp+
  have "''localhost:80'' \<in> set (allowed_hosts sample_app_config (SocketV4 127 0 0 1 80))" "ascii_bytes ''ab'' = ascii_bytes (hex_str [0xAB])"
    by code_simp+
  with gate_exact[OF bind, of "\<lambda>b. b" ?str "[0xAB]" ?hs] hdr show ?thesis by simp
qed

end
