(* ===== verification/Styx_App.thy ===== *)
theory Styx_App
  imports Styx_Shared Styx_Gate Styx_Transport
begin

text \<open>
  The application server (\<open>styx-app/src/api.rs\<close> and \<open>main.rs\<close>): one wallet behind a mutex, the HTTP
  handlers, the keeper loop and the tick loop, all running at the same time.

  A handler has a part that runs at once (it reads the tick and parses the request) and a job on
  the blocking pool, which waits for the wallet's lock; a job is one step per lock section. The
  keeper loop takes one step per section of its turn (\<open>Styx_Shared\<close>). The state of the server is
  one record, and a run of the server is any interleaving of these steps, of passing time and of
  rounds of the tick loop.

  An error's text is not modelled: an answer or an event carries the error itself. The parser of an
  outpoint comes from the elements library.
\<close>

section \<open>State\<close>

definition TICK_MAX_AGE :: nat where "TICK_MAX_AGE = 180 * 10 ^ 9"
definition PENDING_CAP :: nat where "PENDING_CAP = 32"

datatype event_detail =
    EvText string
  | EvFailed string wallet_error
  | EvKeeperError keeper_error
  | EvPerformed performed
  | EvHeight u32

type_synonym app_event = "string \<times> event_detail"

datatype keeper_mode = KmIdle | KmRunning | KmAlert keeper_error

text \<open>The calls of the wallet that \<open>run_op\<close> makes.\<close>

datatype wallet_call =
    CallOpen obol sats oracle_tick
  | CallRepay "outpoint option" obol
  | CallDraw "outpoint option" obol oracle_tick
  | CallRefresh "outpoint option" oracle_tick
  | CallClose "outpoint option"
  | CallRedeem "outpoint option" obol oracle_tick

datatype app_job =
    JobStatus keeper_mode "oracle_tick option"
  | JobOp wallet_call
  | JobExport string "outpoint option" "obol option" "oracle_tick option"
  | JobApply string string
  | JobApplySend string string tx_plan

text \<open>The keeper's thread, which holds the number of its stop flag and its own keeper.\<close>

datatype ('p, 'f) keeper_loop =
    LoopNew nat
  | LoopHead nat "('p, 'f) keeper"
  | LoopTurn nat "('p, 'f) keeper" oracle_tick keeper_pc
  | LoopAlert nat keeper_error
  | LoopStop nat

record ('p, 'f) app_state =
  ap_wallet :: "('p, 'f) wallet"
  ap_events :: "app_event list"
  ap_tick :: "(oracle_tick \<times> nat) option"
  ap_mode :: keeper_mode
  ap_stop :: "nat option"
  ap_flags :: "bool list"
  ap_opts :: keeper_opts
  ap_pending :: "(string \<times> tx_plan) list"
  ap_jobs :: "app_job list"
  ap_loops :: "('p, 'f) keeper_loop list"
  ap_now :: nat

definition app_new :: "('p, 'f) wallet \<Rightarrow> keeper_opts \<Rightarrow> ('p, 'f) app_state" where
  "app_new w opts =
     \<lparr>ap_wallet = w, ap_events = [], ap_tick = None, ap_mode = KmIdle, ap_stop = None, ap_flags = [], ap_opts = opts,
      ap_pending = [], ap_jobs = [], ap_loops = [], ap_now = 0\<rparr>"

definition stash_pending :: "string \<Rightarrow> tx_plan \<Rightarrow> (string \<times> tx_plan) list \<Rightarrow> (string \<times> tx_plan) list" where
  "stash_pending txid plan q =
     (let q1 = filter (\<lambda>(t, _). t \<noteq> txid) q @ [(txid, plan)] in drop (length q1 - PENDING_CAP) q1)"

definition take_pending :: "string \<Rightarrow> (string \<times> tx_plan) list \<Rightarrow> tx_plan option" where
  "take_pending txid q = map_option snd (find (\<lambda>(t, _). t = txid) q)"

definition drop_pending :: "string \<Rightarrow> (string \<times> tx_plan) list \<Rightarrow> (string \<times> tx_plan) list" where
  "drop_pending txid q = filter (\<lambda>(t, _). t \<noteq> txid) q"

definition emit :: "string \<Rightarrow> event_detail \<Rightarrow> ('p, 'f) app_state \<Rightarrow> ('p, 'f) app_state" where
  "emit kind detail s = s\<lparr>ap_events := (kind, detail) # ap_events s\<rparr>"

definition set_tick :: "oracle_tick \<Rightarrow> ('p, 'f) app_state \<Rightarrow> ('p, 'f) app_state" where
  "set_tick t s = s\<lparr>ap_tick := Some (t, ap_now s)\<rparr>"

definition app_tick :: "('p, 'f) app_state \<Rightarrow> oracle_tick option" where
  "app_tick s =
     (case ap_tick s of
        None \<Rightarrow> None
      | Some (t, since) \<Rightarrow> if ap_now s - since \<le> TICK_MAX_AGE then Some t else None)"

text \<open>A stop request sets the flag of a running loop, and acknowledges an alert.\<close>

definition request_keeper_stop :: "('p, 'f) app_state \<Rightarrow> string \<times> ('p, 'f) app_state" where
  "request_keeper_stop s =
     (case (ap_mode s, ap_stop s) of
        (KmRunning, Some f) \<Rightarrow> (''stopping'', s\<lparr>ap_flags := (ap_flags s)[f := True]\<rparr>)
      | (KmAlert _, _) \<Rightarrow> (''idle'', s\<lparr>ap_mode := KmIdle\<rparr>)
      | _ \<Rightarrow> (''idle'', s))"

section \<open>Answers\<close>

datatype api_error =
    ApiWallet wallet_error
  | NoQuorum
  | BadRequest string
  | BadSigning signing_error
  | ApiStale string
  | InternalSigning signing_error

fun is_refusal :: "wallet_error \<Rightarrow> bool" where
  "is_refusal (WBuild _) = True"
| "is_refusal (WMath _) = True"
| "is_refusal NotLive = True"
| "is_refusal (VaultNotFound _) = True"
| "is_refusal (VaultNotMine _) = True"
| "is_refusal (InsufficientLbtc _ _) = True"
| "is_refusal (InsufficientObol _ _) = True"
| "is_refusal (AmbiguousVault _) = True"
| "is_refusal NoVault = True"
| "is_refusal (ConflictExhausted _ _) = True"
| "is_refusal _ = False"

fun api_status :: "api_error \<Rightarrow> nat" where
  "api_status (ApiWallet e) = (if is_refusal e then 409 else 500)"
| "api_status NoQuorum = 409"
| "api_status (BadRequest _) = 400"
| "api_status (BadSigning _) = 400"
| "api_status (ApiStale _) = 409"
| "api_status (InternalSigning _) = 500"

record vault_view =
  vv_outpoint :: outpoint
  vv_debt_units :: u64
  vv_collateral_sats :: u64
  vv_last_height :: u32
  vv_cr_percent :: "u32 option"

record app_protocol =
  av_pot_units :: u64
  av_reserve_sats :: u64
  av_issuer_anchor :: u32

record app_status =
  sv_height :: u32
  sv_funding_spk :: script
  sv_lbtc_sats :: u64
  sv_obol_units :: u64
  sv_vaults :: "vault_view list"
  sv_protocol :: "app_protocol option"
  sv_tick :: "(u32 \<times> price \<times> price) option"
  sv_keeper :: keeper_mode

datatype api_answer =
    AnsStatus app_status
  | AnsOp txid "vault_view option"
  | AnsText string
  | AnsRequest owner_signing_request

text \<open>Collateral in percent of the par value of the debt; nothing without a price, a debt or a value above \<open>u32::MAX\<close>.\<close>

definition cr_percent :: "obol \<Rightarrow> sats \<Rightarrow> price option \<Rightarrow> u32 option" where
  "cr_percent debt coll hi =
     (case hi of
        None \<Rightarrow> None
      | Some p \<Rightarrow>
          (case covenant_cents debt of
             Inl _ \<Rightarrow> None
           | Inr cents \<Rightarrow>
               if cents = 0 then None
               else let par = sats_raw (coll_at_cr cents p K_PAR) in
                    if par = 0 then None
                    else let q = sat_mul (sats_raw coll) 100 div par in
                         if unat q < 2 ^ 32 then Some (ucast q) else None))"

definition vault_view_of :: "price option \<Rightarrow> vault_utxo \<Rightarrow> vault_view" where
  "vault_view_of hi v =
     \<lparr>vv_outpoint = oc_outpoint v, vv_debt_units = obol_raw (vs_debt (oc_state v)), vv_collateral_sats = sats_raw (oc_value v),
      vv_last_height = height_raw (vs_last_height (oc_state v)), vv_cr_percent = cr_percent (vs_debt (oc_state v)) (oc_value v) hi\<rparr>"

definition app_protocol_of :: "protocol_state \<Rightarrow> app_protocol" where
  "app_protocol_of ps =
     \<lparr>av_pot_units = obol_raw (oc_value (ps_pot ps)), av_reserve_sats = sats_raw (oc_value (ps_reserve ps)),
      av_issuer_anchor = height_raw (is_last_mint_height (oc_state (ps_issuer ps)))\<rparr>"

section \<open>Requests\<close>

datatype api_request =
    ReqStatus
  | ReqOpen u64 "u64 option" "u32 option"
  | ReqRepay "string option" u64
  | ReqDraw "string option" u64
  | ReqRefresh "string option"
  | ReqClose "string option"
  | ReqRedeem "string option" u64
  | ReqKeeperStart
  | ReqKeeperStop
  | ReqExport string "string option" "u64 option"
  | ReqApply string string

text \<open>What a handler's first part decides: an answer, or a job for the blocking pool.\<close>

datatype outcome = Answer "api_error + api_answer" | Spawn app_job

definition current_tick :: "('p, 'f) app_state \<Rightarrow> api_error + oracle_tick" where
  "current_tick s = (case app_tick s of None \<Rightarrow> Inl NoQuorum | Some t \<Rightarrow> Inr t)"

definition vault_arg :: "(string \<Rightarrow> outpoint option) \<Rightarrow> string option \<Rightarrow> api_error + outpoint option" where
  "vault_arg parse v =
     (case v of
        None \<Rightarrow> Inr None
      | Some txt \<Rightarrow>
          (case parse txt of
             None \<Rightarrow> Inl (BadRequest (''vault: expected txid:vout, got '' @ txt))
           | Some op \<Rightarrow> Inr (Some op)))"

definition spawning :: "api_error + app_job \<Rightarrow> outcome" where
  "spawning r = (case r of Inl e \<Rightarrow> Answer (Inl e) | Inr job \<Rightarrow> Spawn job)"

definition open_collateral :: "obol \<Rightarrow> oracle_tick \<Rightarrow> u64 option \<Rightarrow> u32 option \<Rightarrow> api_error + sats" where
  "open_collateral prin tick collateral cr =
     (case (collateral, cr) of
        (Some v, None) \<Rightarrow> Inr (Sats v)
      | (None, _) \<Rightarrow> map_err ApiWallet (collateral_for prin tick cr)
      | (Some _, Some _) \<Rightarrow> Inl (BadRequest ''collateral and cr_percent are exclusive''))"

definition start_keeper :: "('p, 'f) app_state \<Rightarrow> (api_error + unit) \<times> ('p, 'f) app_state" where
  "start_keeper s =
     (if ap_mode s = KmRunning then (Inl (BadRequest ''the keeper is already running''), s)
      else let f = length (ap_flags s) in
           (Inr (), s\<lparr>ap_mode := KmRunning, ap_stop := Some f, ap_flags := ap_flags s @ [False], ap_loops := ap_loops s @ [LoopNew f]\<rparr>))"

fun accept :: "(string \<Rightarrow> outpoint option) \<Rightarrow> api_request \<Rightarrow> ('p, 'f) app_state \<Rightarrow> outcome \<times> ('p, 'f) app_state" where
  "accept parse ReqStatus s = (Spawn (JobStatus (ap_mode s) (app_tick s)), s)"
| "accept parse (ReqOpen prin collateral cr) s =
     (spawning (bind_res (current_tick s) (\<lambda>tick.
        bind_res (open_collateral (Obol prin) tick collateral cr) (\<lambda>coll. Inr (JobOp (CallOpen (Obol prin) coll tick))))), s)"
| "accept parse (ReqRepay vault amount) s =
     (spawning (bind_res (vault_arg parse vault) (\<lambda>which. Inr (JobOp (CallRepay which (Obol amount))))), s)"
| "accept parse (ReqDraw vault amount) s =
     (spawning (bind_res (current_tick s) (\<lambda>tick.
        bind_res (vault_arg parse vault) (\<lambda>which. Inr (JobOp (CallDraw which (Obol amount) tick))))), s)"
| "accept parse (ReqRefresh vault) s =
     (spawning (bind_res (current_tick s) (\<lambda>tick.
        bind_res (vault_arg parse vault) (\<lambda>which. Inr (JobOp (CallRefresh which tick))))), s)"
| "accept parse (ReqClose vault) s =
     (spawning (bind_res (vault_arg parse vault) (\<lambda>which. Inr (JobOp (CallClose which)))), s)"
| "accept parse (ReqRedeem vault amount) s =
     (spawning (bind_res (current_tick s) (\<lambda>tick.
        bind_res (vault_arg parse vault) (\<lambda>which. Inr (JobOp (CallRedeem which (Obol amount) tick))))), s)"
| "accept parse ReqKeeperStart s =
     (case start_keeper s of (r, s') \<Rightarrow> (Answer (bind_res r (\<lambda>_. Inr (AnsText ''running''))), s'))"
| "accept parse ReqKeeperStop s = (case request_keeper_stop s of (msg, s') \<Rightarrow> (Answer (Inr (AnsText msg)), s'))"
| "accept parse (ReqExport op vault amount) s =
     (spawning (bind_res (vault_arg parse vault) (\<lambda>which.
        if op = ''draw''
        then bind_res (current_tick s) (\<lambda>tick. Inr (JobExport op which (map_option Obol amount) (Some tick)))
        else Inr (JobExport op which (map_option Obol amount) None))), s)"
| "accept parse (ReqApply txid owner_sig) s = (Spawn (JobApply txid owner_sig), s)"

section \<open>Jobs\<close>

fun call_kind :: "wallet_call \<Rightarrow> string" where
  "call_kind (CallOpen _ _ _) = ''open''"
| "call_kind (CallRepay _ _) = ''repay''"
| "call_kind (CallDraw _ _ _) = ''draw''"
| "call_kind (CallRefresh _ _) = ''refresh''"
| "call_kind (CallClose _) = ''close''"
| "call_kind (CallRedeem _ _ _) = ''redeem''"

fun run_call :: "('p, 'f) wallet_env \<Rightarrow> wallet_call \<Rightarrow> ('p, 'f, op_report) wop" where
  "run_call E (CallOpen prin collateral tick) = wallet_open E prin collateral tick"
| "run_call E (CallRepay which amount) = wallet_repay E which amount"
| "run_call E (CallDraw which amount tick) = wallet_draw E which amount tick"
| "run_call E (CallRefresh which tick) = wallet_refresh E which tick"
| "run_call E (CallClose which) = wallet_close E which"
| "run_call E (CallRedeem which amount tick) = wallet_redeem E which amount tick"

definition run_op :: "('p, 'f) wallet_env \<Rightarrow> wallet_call \<Rightarrow> ('p, 'f) app_state \<Rightarrow> (api_error + api_answer) \<times> ('p, 'f) app_state" where
  "run_op E call s =
     (case op_bind (sync E) (\<lambda>_. run_call E call) (ap_wallet s) of
        (Inl e, w) \<Rightarrow>
          (Inl (ApiWallet e),
           emit (if is_refusal e then ''rejected'' else ''op_error'') (EvFailed (call_kind call) e) (s\<lparr>ap_wallet := w\<rparr>))
      | (Inr rep, w) \<Rightarrow>
          (Inr (AnsOp (or_txid rep) (map_option (vault_view_of None) (or_vault rep))),
           emit (call_kind call) (EvText (txid_display (or_txid rep))) (s\<lparr>ap_wallet := w\<rparr>)))"

definition status_of :: "('p, 'f) wallet_env \<Rightarrow> keeper_mode \<Rightarrow> oracle_tick option \<Rightarrow> ('p, 'f, app_status) wop" where
  "status_of E mode tick =
     op_bind (sync E) (\<lambda>_.
     op_bind (op_gets (\<lambda>w. w)) (\<lambda>w.
     op_bind (lbtc_coins E) (\<lambda>lbtc.
     op_bind (obol_coins E) (\<lambda>obol.
     op_ret
       \<lparr>sv_height = ix_height (wl_state w), sv_funding_spk = funding_spk E w, sv_lbtc_sats = coins_sum lbtc,
        sv_obol_units = coins_sum obol,
        sv_vaults = map (vault_view_of (map_option (\<lambda>t. snd (price_range t)) tick)) (my_vaults E w),
        sv_protocol = (case protocol w of Inl _ \<Rightarrow> None | Inr ps \<Rightarrow> Some (app_protocol_of ps)),
        sv_tick = map_option (\<lambda>t. (height_raw (ot_height t), price_range t)) tick, sv_keeper = mode\<rparr>))))"

definition run_status ::
  "('p, 'f) wallet_env \<Rightarrow> keeper_mode \<Rightarrow> oracle_tick option \<Rightarrow> ('p, 'f) app_state \<Rightarrow> (api_error + api_answer) \<times> ('p, 'f) app_state" where
  "run_status E mode tick s =
     (case status_of E mode tick (ap_wallet s) of
        (Inl e, w) \<Rightarrow> (Inl (ApiWallet e), s\<lparr>ap_wallet := w\<rparr>)
      | (Inr st, w) \<Rightarrow> (Inr (AnsStatus st), emit ''status'' (EvHeight (sv_height st)) (s\<lparr>ap_wallet := w\<rparr>)))"

text \<open>The unsigned plan of an export; a refusal before the wallet is touched is an answer of its own.\<close>

definition miss :: "string \<Rightarrow> api_error" where
  "miss field = BadRequest (field @ '' is required for this op'')"

definition export_plan ::
  "('p, 'f) wallet_env \<Rightarrow> string \<Rightarrow> outpoint option \<Rightarrow> obol option \<Rightarrow> oracle_tick option \<Rightarrow> ('p, 'f) wallet \<Rightarrow>
     (api_error + tx_plan) \<times> ('p, 'f) wallet" where
  "export_plan E op which amount tick w =
     (let built = (\<lambda>(r, w'). (map_err ApiWallet r, w')) in
      if op = ''close'' then built (close_unsigned E which w)
      else if op = ''repay'' then
        (case amount of None \<Rightarrow> (Inl (miss ''amount''), w) | Some a \<Rightarrow> built (repay_unsigned E which a w))
      else if op = ''draw'' then
        (case tick of
           None \<Rightarrow> (Inl NoQuorum, w)
         | Some t \<Rightarrow> (case amount of None \<Rightarrow> (Inl (miss ''amount''), w) | Some a \<Rightarrow> built (draw_unsigned E which a t w)))
      else (Inl (BadRequest (''not an owner op: '' @ op)), w))"

definition run_export ::
  "('p, 'f) wallet_env \<Rightarrow> string \<Rightarrow> outpoint option \<Rightarrow> obol option \<Rightarrow> oracle_tick option \<Rightarrow> ('p, 'f) app_state \<Rightarrow>
     (api_error + api_answer) \<times> ('p, 'f) app_state" where
  "run_export E op which amount tick s =
     (case export_plan E op which amount tick (ap_wallet s) of
        (Inl e, w) \<Rightarrow> (Inl e, s\<lparr>ap_wallet := w\<rparr>)
      | (Inr plan, w) \<Rightarrow>
          (case owner_signing_request (we_lib E) (we_prover E) (wl_ctx w) plan of
             Inl e \<Rightarrow> (Inl (InternalSigning e), s\<lparr>ap_wallet := w\<rparr>)
           | Inr req \<Rightarrow>
               (Inr (AnsRequest req),
                emit ''export'' (EvText (sr_txid req))
                  (s\<lparr>ap_wallet := w, ap_pending := stash_pending (sr_txid req) plan (ap_pending s)\<rparr>))))"

definition run_apply ::
  "('p, 'f) wallet_env \<Rightarrow> string \<Rightarrow> string \<Rightarrow> tx_plan \<Rightarrow> ('p, 'f) app_state \<Rightarrow> (api_error + api_answer) \<times> ('p, 'f) app_state" where
  "run_apply E txid owner_sig plan s =
     (case apply_owner_sig (we_lib E) (we_prover E) (wl_ctx (ap_wallet s)) plan owner_sig of
        Inl e \<Rightarrow> (Inl (BadSigning e), s)
      | Inr plan1 \<Rightarrow>
          (case finalize_broadcast E plan1 (ap_wallet s) of
             (Inr t, w) \<Rightarrow>
               (Inr (AnsOp t None),
                emit ''apply'' (EvText (txid_display t)) (s\<lparr>ap_wallet := w, ap_pending := drop_pending txid (ap_pending s)\<rparr>))
           | (Inl (WBroadcast (Conflict m)), w) \<Rightarrow>
               (Inl (ApiStale m), s\<lparr>ap_wallet := w, ap_pending := drop_pending txid (ap_pending s)\<rparr>)
           | (Inl e, w) \<Rightarrow> (Inl (ApiWallet e), s\<lparr>ap_wallet := w\<rparr>)))"

text \<open>One section of a job: its answer, or the job that is left. Applying a signature looks the plan up before it has the wallet.\<close>

fun run_job :: "('p, 'f) wallet_env \<Rightarrow> app_job \<Rightarrow> ('p, 'f) app_state \<Rightarrow> outcome \<times> ('p, 'f) app_state" where
  "run_job E (JobStatus mode tick) s = apfst Answer (run_status E mode tick s)"
| "run_job E (JobOp call) s = apfst Answer (run_op E call s)"
| "run_job E (JobExport op which amount tick) s = apfst Answer (run_export E op which amount tick s)"
| "run_job E (JobApply txid owner_sig) s =
     (case take_pending txid (ap_pending s) of
        None \<Rightarrow> (Answer (Inl (BadRequest (''no pending plan for '' @ txid))), s)
      | Some plan \<Rightarrow> (Spawn (JobApplySend txid owner_sig plan), s))"
| "run_job E (JobApplySend txid owner_sig plan) s = apfst Answer (run_apply E txid owner_sig plan s)"

section \<open>The keeper's thread\<close>

definition loop_end ::
  "nat \<Rightarrow> ('p, 'f) keeper \<Rightarrow> keeper_error + performed option \<Rightarrow> ('p, 'f) app_state \<Rightarrow> ('p, 'f) keeper_loop list \<times> ('p, 'f) app_state" where
  "loop_end f k r s =
     (case r of
        Inr (Some p) \<Rightarrow> ([LoopHead f k], emit ''performed'' (EvPerformed p) s)
      | Inr None \<Rightarrow> ([LoopHead f k], s)
      | Inl (KRejected what m) \<Rightarrow> ([LoopAlert f (KRejected what m)], emit ''rejected'' (EvKeeperError (KRejected what m)) s)
      | Inl e \<Rightarrow> ([LoopHead f k], emit ''keeper_error'' (EvKeeperError e) s))"

text \<open>One step of the thread: what is left of it (nothing when it has returned) and the state.\<close>

fun loop_run ::
  "('p, 'f) wallet_env \<Rightarrow> (transaction \<Rightarrow> u64) \<Rightarrow> ('p, 'f) keeper_loop \<Rightarrow> ('p, 'f) app_state \<Rightarrow>
     ('p, 'f) keeper_loop list \<times> ('p, 'f) app_state" where
  "loop_run E vsize (LoopNew f) s =
     ([LoopHead f (keeper_new (ap_wallet s) (ap_opts s))], emit ''keeper'' (EvText ''started'') s)"
| "loop_run E vsize (LoopHead f k) s =
     (if ap_flags s ! f then ([LoopStop f], s)
      else case app_tick s of
             None \<Rightarrow> ([LoopHead f k], s)
           | Some t \<Rightarrow> ([LoopTurn f k t AtSync], s))"
| "loop_run E vsize (LoopTurn f k t pc) s =
     (case keeper_section E vsize t (pc, k\<lparr>kp_purse := ap_wallet s\<rparr>) of
        (AtEnd r, k') \<Rightarrow> loop_end f k' r (s\<lparr>ap_wallet := kp_purse k'\<rparr>)
      | (pc', k') \<Rightarrow> ([LoopTurn f k' t pc'], s\<lparr>ap_wallet := kp_purse k'\<rparr>))"
| "loop_run E vsize (LoopAlert f e) s = ([], s\<lparr>ap_mode := KmAlert e, ap_stop := None\<rparr>)"
| "loop_run E vsize (LoopStop f) s = ([], emit ''keeper'' (EvText ''stopped'') (s\<lparr>ap_mode := KmIdle, ap_stop := None\<rparr>))"

section \<open>The tick loop\<close>

text \<open>One round: the height the node reports (or nothing) and the walk back over what the relays hold. \<open>None\<close>: a panic.\<close>

definition tick_round ::
  "('p, 'f) wallet_env \<Rightarrow> (u32 \<Rightarrow> transport_error + wire_quote list) \<Rightarrow> xonly list \<Rightarrow> u32 option \<Rightarrow> ('p, 'f) app_state \<Rightarrow>
     ('p, 'f) app_state option" where
  "tick_round E fetch pks tip s =
     (case tip of
        None \<Rightarrow> Some s
      | Some h \<Rightarrow>
          (case app_walk fetch (lb_sha256 (we_lib E)) (we_prover E) (BlockHeight h) (walk_heights h) (book_new pks) of
             Inl _ \<Rightarrow> None
           | Inr None \<Rightarrow> Some s
           | Inr (Some (h', t)) \<Rightarrow> Some (emit ''tick'' (EvHeight h') (set_tick t s))))"

section \<open>The server\<close>

text \<open>One step of the server; the relays, the node and the requests are arbitrary.\<close>

inductive app_step :: "('p, 'f) wallet_env \<Rightarrow> (transaction \<Rightarrow> u64) \<Rightarrow> (string \<Rightarrow> outpoint option) \<Rightarrow> ('p, 'f) app_state \<Rightarrow> ('p, 'f) app_state \<Rightarrow> bool"
  for E vsize parse where
  answered: "accept parse req s = (Answer a, s') \<Longrightarrow> app_step E vsize parse s s'"
| spawned: "accept parse req s = (Spawn job, s') \<Longrightarrow> app_step E vsize parse s (s'\<lparr>ap_jobs := ap_jobs s' @ [job]\<rparr>)"
| job_done: "\<lbrakk>ap_jobs s = pre @ job # post; run_job E job s = (Answer a, s')\<rbrakk> \<Longrightarrow> app_step E vsize parse s (s'\<lparr>ap_jobs := pre @ post\<rparr>)"
| job_on: "\<lbrakk>ap_jobs s = pre @ job # post; run_job E job s = (Spawn job', s')\<rbrakk> \<Longrightarrow>
    app_step E vsize parse s (s'\<lparr>ap_jobs := pre @ job' # post\<rparr>)"
| keeper: "\<lbrakk>ap_loops s = pre @ l # post; loop_run E vsize l s = (ls, s')\<rbrakk> \<Longrightarrow> app_step E vsize parse s (s'\<lparr>ap_loops := pre @ ls @ post\<rparr>)"
| ticked: "tick_round E fetch (pr_oracle_pks (cx_params (wl_ctx (ap_wallet s)))) tip s = Some s' \<Longrightarrow> app_step E vsize parse s s'"
| passed: "app_step E vsize parse s (s\<lparr>ap_now := ap_now s + d\<rparr>)"

inductive app_run :: "('p, 'f) wallet_env \<Rightarrow> (transaction \<Rightarrow> u64) \<Rightarrow> (string \<Rightarrow> outpoint option) \<Rightarrow> ('p, 'f) app_state \<Rightarrow> ('p, 'f) app_state \<Rightarrow> bool"
  for E vsize parse s0 where
  start: "app_run E vsize parse s0 s0"
| step: "\<lbrakk>app_run E vsize parse s0 s; app_step E vsize parse s s'\<rbrakk> \<Longrightarrow> app_run E vsize parse s0 s'"


section \<open>What may be sent\<close>

abbreviation oracle_keys :: "('p, 'f) wallet \<Rightarrow> xonly list" where
  "oracle_keys w \<equiv> pr_oracle_pks (cx_params (wl_ctx w))"

text \<open>A tick that carries a quorum of quotes signed by the deployment's oracles.\<close>

definition authentic :: "('p, 'f) wallet_env \<Rightarrow> ('p, 'f) wallet \<Rightarrow> oracle_tick \<Rightarrow> bool" where
  "authentic E w t \<longleftrightarrow> tick_from (lb_sha256 (we_lib E)) (we_prover E) (oracle_keys w) [height_raw (ot_height t)] t"

text \<open>The unsigned plans the session exports: the checked builders', for a vault of the wallet's own key.\<close>

inductive exported :: "('p, 'f) wallet_env \<Rightarrow> ('p, 'f) wallet \<Rightarrow> tx_plan \<Rightarrow> bool" for E w where
  exp_close: "\<lbrakk>vs_owner (oc_state v) = owner_pk E w; close (we_lib E) (wl_ctx w) pot v (close_intent_of E w payer) = Inr b\<rbrakk> \<Longrightarrow>
    exported E w (bt_plan b)"
| exp_repay: "\<lbrakk>vs_owner (oc_state v) = owner_pk E w; repay (we_lib E) (wl_ctx w) pot v (repay_intent_of E w amount payer fee_coin) = Inr b\<rbrakk> \<Longrightarrow>
    exported E w (bt_plan b)"
| exp_draw: "\<lbrakk>vs_owner (oc_state v) = owner_pk E w; authentic E w t; draw (we_lib E) (wl_ctx w) ps v (draw_intent_of E w amount t) = Inr b\<rbrakk> \<Longrightarrow>
    exported E w (bt_plan b)"

text \<open>
  The transactions the server may send: self-spends that merge or shape coins, the checked builders'
  transactions for the session's own vaults at an authentic tick, the keeper's, and the bodies of
  exported plans.
\<close>

inductive justified :: "('p, 'f) wallet_env \<Rightarrow> ('p, 'f) wallet \<Rightarrow> transaction \<Rightarrow> bool" for E w where
  just_merge: "consolidation E w tx \<Longrightarrow> justified E w tx"
| just_shape: "shaping_tx E need w tx \<Longrightarrow> justified E w tx"
| just_open: "\<lbrakk>authentic E w t; opened E prin collateral t w rep tx\<rbrakk> \<Longrightarrow> justified E w tx"
| just_repay: "repaid E which amount w rep tx \<Longrightarrow> justified E w tx"
| just_draw: "\<lbrakk>authentic E w t; drawn E which amount t w rep tx\<rbrakk> \<Longrightarrow> justified E w tx"
| just_refresh: "\<lbrakk>authentic E w t; refreshed E which t w rep tx\<rbrakk> \<Longrightarrow> justified E w tx"
| just_close: "vault_closed E which w rep tx \<Longrightarrow> justified E w tx"
| just_redeem: "\<lbrakk>authentic E w t; redeemed E which amount t w rep tx\<rbrakk> \<Longrightarrow> justified E w tx"
| just_keeper: "\<lbrakk>authentic E w t; performed_tx E lag t w p tx\<rbrakk> \<Longrightarrow> justified E w tx"
| just_apply: "\<lbrakk>exported E w plan; strip tx = strip (pl_tx plan)\<rbrakk> \<Longrightarrow> justified E w tx"

text \<open>All of it depends on the session alone.\<close>

lemma authentic_session: "session_of w' = session_of w \<Longrightarrow> authentic E w' t = authentic E w t"
  using session_views(1)[of w' w] by (simp add: authentic_def)

lemma exported_session: "session_of w' = session_of w \<Longrightarrow> exported E w' plan = exported E w plan"
  using session_views(1)[of w' w] session_views(2)[of w' w E] session_intents[of w' w E] authentic_session[of w' w E]
  by (simp add: exported.simps)

lemma op_tx_session:
  assumes "session_of w' = session_of w"
  shows "vault_closed E which w' = vault_closed E which w" "repaid E which amount w' = repaid E which amount w"
    "redeemed E which amount t w' = redeemed E which amount t w"
    "drawn E which amount t w' = drawn E which amount t w" "refreshed E which t w' = refreshed E which t w" "opened E prin collateral t w' = opened E prin collateral t w"
  using session_views[OF assms] session_intents[OF assms, of E] picked_session[OF assms, of E]
  by (simp_all add: vault_closed_def repaid_def redeemed_def drawn_def refreshed_def opened_def fun_eq_iff)

lemma justified_session:
  assumes "session_of w' = session_of w" shows "justified E w' tx = justified E w tx"
  unfolding justified.simps authentic_session[OF assms] exported_session[OF assms] op_tx_session[OF assms] performed_tx_session[OF assms]
    consolidation_session[OF assms] shaping_tx_session[OF assms] ..

text \<open>An operation that keeps the session, and sends only justified transactions.\<close>

lemma justified_trans:
  assumes "kept (justified E w) w u" "kept (justified E u) u v" shows "kept (justified E w) w v"
  using assms justified_session[OF kept_session[OF assms(1)], of E] by (auto simp: kept_def)

lemma kept_weaken: "\<lbrakk>kept C w u; \<And>tx. C tx \<Longrightarrow> D tx\<rbrakk> \<Longrightarrow> kept D w u"
  by (auto simp: kept_def)

lemma sends_kept:
  assumes "sends C P w (r, w')" "\<And>tx. C tx \<Longrightarrow> D tx" "\<And>rep tx. P rep tx \<Longrightarrow> D tx" shows "kept D w w'"
  using assms by (cases r) (auto simp: sends_def kept_def)

fun call_tick :: "wallet_call \<Rightarrow> oracle_tick option" where
  "call_tick (CallOpen _ _ t) = Some t"
| "call_tick (CallDraw _ _ t) = Some t"
| "call_tick (CallRefresh _ t) = Some t"
| "call_tick (CallRedeem _ _ t) = Some t"
| "call_tick _ = None"

definition tick_opt_ok :: "('p, 'f) wallet_env \<Rightarrow> ('p, 'f) wallet \<Rightarrow> oracle_tick option \<Rightarrow> bool" where
  "tick_opt_ok E w t \<longleftrightarrow> (case t of None \<Rightarrow> True | Some t \<Rightarrow> authentic E w t)"

lemma wallet_open_kept:
  assumes "wallet_open E prin collateral t w = (r, w')" "authentic E w t"
  shows "kept (justified E w) w w'"
  using wallet_open_post[where E = E and prin = prin and collateral = collateral and tick = t and w = w] assms
  by (auto simp: kept_def shaping_trace_def split: sum.splits intro: just_shape just_open)

lemma run_call_kept:
  assumes "run_call E call w = (r, w')" "tick_opt_ok E w (call_tick call)"
  shows "kept (justified E w) w w'"
proof (cases call)
  case (CallOpen prin collateral t)
  then show ?thesis using assms wallet_open_kept by (simp add: tick_opt_ok_def)
next
  case (CallRepay which amount)
  then show ?thesis using assms owner_ops_send(2)[of E w which amount] by (auto intro: sends_kept just_merge just_repay)
next
  case (CallDraw which amount t)
  then show ?thesis using assms owner_ops_send(4)[of E which amount t w] by (auto simp: tick_opt_ok_def intro: sends_kept just_draw)
next
  case (CallRefresh which t)
  then show ?thesis using assms owner_ops_send(5)[of E which t w] by (auto simp: tick_opt_ok_def intro: sends_kept just_refresh)
next
  case (CallClose which)
  then show ?thesis using assms owner_ops_send(1)[of E w which] by (auto intro: sends_kept just_merge just_close)
next
  case (CallRedeem which amount t)
  then show ?thesis using assms owner_ops_send(3)[of E w which amount t] by (auto simp: tick_opt_ok_def intro: sends_kept just_merge just_redeem)
qed

lemma merged_justified: "merged E w u \<Longrightarrow> kept (justified E w) w u"
  by (erule kept_weaken) (rule just_merge)

lemma synced_op_kept:
  assumes "op_bind (sync E) (\<lambda>_. m) w = (r, w')" "\<And>u r v. \<lbrakk>session_of u = session_of w; m u = (r, v)\<rbrakk> \<Longrightarrow> kept (justified E u) u v"
  shows "kept (justified E w) w w'"
proof -
  obtain q u where q: "sync E w = (q, u)" by force
  then have u: "kept (justified E w) w u" by (intro merged_justified sync_merged)
  then show ?thesis using assms q justified_trans[OF u] kept_session[OF u] by (cases q) (auto simp: op_bind_def)
qed

section \<open>Exports\<close>

lemma merging_sync: "merging E (sync E)"
  by (auto simp: merging_def intro: sync_merged)

lemma target_mine: "target E which u = (Inr (ps, v), u') \<Longrightarrow> vs_owner (oc_state v) = owner_pk E u \<and> u' = u"
  using target_owner[of E which u ps v u' "\<lambda>_. True" u] by (auto simp: target_def)

definition exporting :: "('p, 'f) wallet_env \<Rightarrow> ('p, 'f) wallet \<Rightarrow> (wallet_error + tx_plan) \<times> ('p, 'f) wallet \<Rightarrow> bool" where
  "exporting E w res \<longleftrightarrow> merged E w (snd res) \<and> (\<forall>plan. fst res = Inr plan \<longrightarrow> exported E w plan)"

lemma exporting_bind:
  assumes "merging E prep" "merged E w u" "\<And>a v. \<lbrakk>prep u = (Inr a, v); merged E w v\<rbrakk> \<Longrightarrow> exporting E w (f a v)"
  shows "exporting E w (op_bind prep f u)"
proof -
  obtain r v where r: "prep u = (r, v)" by force
  with merging_kept[OF assms(1,2)] assms(3) show ?thesis by (cases r) (auto simp: op_bind_def exporting_def)
qed

lemma exporting_built:
  assumes "merged E w u" "\<And>b. r = Inr b \<Longrightarrow> exported E w (bt_plan b)"
  shows "exporting E w (built_plan r u)"
  using assms by (cases r) (auto simp: exporting_def built_plan_def op_lift_def map_err_def)

text \<open>An unsigned operation on a vault of ours, after the sync.\<close>

lemma exporting_target:
  assumes "\<And>ps v u. \<lbrakk>vs_owner (oc_state v) = owner_pk E w; merged E w u\<rbrakk> \<Longrightarrow> exporting E w (f (ps, v) u)"
  shows "exporting E w (op_bind (sync E) (\<lambda>_. op_bind (target E which) f) w)"
proof (rule exporting_bind[OF merging_sync kept_refl], rule exporting_bind)
  fix a u v assume u: "merged E w u" and t: "target E which u = (Inr a, v)"
  then show "exporting E w (f a v)"
    using assms[of "snd a" u "fst a"] target_mine[of E which u "fst a" "snd a" v] session_views(2)[OF kept_session[OF u], of E] by simp
qed (auto simp: merging_basic)

lemma unsigned_exporting:
  "exporting E w (close_unsigned E which w)"
  "exporting E w (repay_unsigned E which amount w)"
  "authentic E w t \<Longrightarrow> exporting E w (draw_unsigned E which amount t w)"
proof -
  show "exporting E w (close_unsigned E which w)"
    unfolding close_unsigned_def
  proof (rule exporting_target, unfold prod.case, rule exporting_bind[OF merging_ensure], assumption, rule exporting_built, assumption)
    fix v u b and ps :: protocol_state and payer y assume "vs_owner (oc_state v) = owner_pk E w" and y: "merged E w y"
      and b: "close (we_lib E) (wl_ctx y) (ps_pot ps) v (close_intent_of E y payer) = Inr b"
    then show "exported E w (bt_plan b)"
      using session_views(1)[OF kept_session[OF y]] session_intents(5)[OF kept_session[OF y], of E] by (auto intro: exp_close)
  qed
  show "exporting E w (repay_unsigned E which amount w)"
    unfolding repay_unsigned_def
  proof (rule exporting_target, unfold prod.case, rule exporting_bind[OF merging_repay_coins], assumption, unfold case_prod_beta, rule exporting_built, assumption)
    fix v u b and ps :: protocol_state and c y assume "vs_owner (oc_state v) = owner_pk E w" and y: "merged E w y"
      and b: "repay (we_lib E) (wl_ctx y) (ps_pot ps) v (repay_intent_of E y amount (fst c) (snd c)) = Inr b"
    then show "exported E w (bt_plan b)"
      using session_views(1)[OF kept_session[OF y]] session_intents(2)[OF kept_session[OF y], of E] by (auto intro: exp_repay)
  qed
  assume t: "authentic E w t"
  show "exporting E w (draw_unsigned E which amount t w)"
    unfolding draw_unsigned_def
  proof (rule exporting_target, unfold prod.case, rule exporting_built, assumption)
    fix v b and ps :: protocol_state and y assume "vs_owner (oc_state v) = owner_pk E w" and y: "merged E w y"
      and b: "draw (we_lib E) (wl_ctx y) ps v (draw_intent_of E y amount t) = Inr b"
    then show "exported E w (bt_plan b)"
      using t session_views(1)[OF kept_session[OF y]] session_intents(3)[OF kept_session[OF y], of E] by (auto intro: exp_draw)
  qed
qed

lemma export_plan_ok:
  assumes "export_plan E op which amount tick w = (r, w')" "tick_opt_ok E w tick"
  shows "merged E w w' \<and> (\<forall>plan. r = Inr plan \<longrightarrow> exported E w plan)"
proof -
  have built: "merged E w w' \<and> (\<forall>plan. r = Inr plan \<longrightarrow> exported E w plan)"
    if "exporting E w res" "(\<lambda>(r, w'). (map_err ApiWallet r, w')) res = (r, w')" for res
    using that by (auto simp: exporting_def split: prod.splits)
  show ?thesis
    using assms built[OF unsigned_exporting(1)] built[OF unsigned_exporting(2)] built[OF unsigned_exporting(3)]
    by (auto simp: export_plan_def Let_def tick_opt_ok_def split: if_splits option.splits)
qed

lemma apply_owner_sig_body: "apply_owner_sig L S c plan sig = Inr plan' \<Longrightarrow> pl_tx plan' = pl_tx plan"
  by (auto simp: apply_owner_sig_def res_Inr install_owner_sig_def split: option.splits)

section \<open>The invariant of the session\<close>

fun job_ok :: "('p, 'f) wallet_env \<Rightarrow> ('p, 'f) wallet \<Rightarrow> app_job \<Rightarrow> bool" where
  "job_ok E w (JobStatus mode tick) = tick_opt_ok E w tick"
| "job_ok E w (JobOp call) = tick_opt_ok E w (call_tick call)"
| "job_ok E w (JobExport op which amount tick) = tick_opt_ok E w tick"
| "job_ok E w (JobApply txid owner_sig) = True"
| "job_ok E w (JobApplySend txid owner_sig plan) = exported E w plan"

fun loop_ok :: "('p, 'f) wallet_env \<Rightarrow> ('p, 'f) wallet \<Rightarrow> ('p, 'f) keeper_loop \<Rightarrow> bool" where
  "loop_ok E w (LoopTurn f k t pc) = (authentic E w t \<and> pc_ok pc)"
| "loop_ok E w _ = True"

definition app_ok :: "('p, 'f) wallet_env \<Rightarrow> ('p, 'f) wallet \<Rightarrow> ('p, 'f) app_state \<Rightarrow> bool" where
  "app_ok E w s \<longleftrightarrow>
     kept (justified E w) w (ap_wallet s) \<and> tick_opt_ok E w (map_option fst (ap_tick s)) \<and>
     list_all (job_ok E w) (ap_jobs s) \<and> list_all (loop_ok E w) (ap_loops s) \<and> list_all (\<lambda>(_, plan). exported E w plan) (ap_pending s)"

lemma app_tick_ok: "app_ok E w s \<Longrightarrow> tick_opt_ok E w (app_tick s)"
  by (auto simp: app_ok_def app_tick_def tick_opt_ok_def split: option.splits)

text \<open>An update that touches the wallet and the events only.\<close>

lemma app_ok_wallet:
  assumes "app_ok E w s" "kept (justified E (ap_wallet s)) (ap_wallet s) u"
  shows "app_ok E w (s\<lparr>ap_wallet := u\<rparr>)" "app_ok E w (emit kind d (s\<lparr>ap_wallet := u\<rparr>))"
  using assms justified_trans by (auto simp: app_ok_def emit_def)

lemma list_all_drop: "list_all P xs \<Longrightarrow> list_all P (drop n xs)"
  by (auto simp: list_all_iff dest: in_set_dropD)

lemma accept_ok:
  assumes "app_ok E w s" "accept parse req s = (out, s')"
  shows "app_ok E w s' \<and> (\<forall>job. out = Spawn job \<longrightarrow> job_ok E w job)"
proof -
  have t: "tick_opt_ok E w (Some t)" if "current_tick s = Inr t" for t
    using that app_tick_ok[OF assms(1)] by (auto simp: current_tick_def split: option.splits)
  show ?thesis
  proof (cases req)
    case ReqKeeperStart
    then show ?thesis using assms by (auto simp: start_keeper_def Let_def app_ok_def split: if_splits)
  next
    case ReqKeeperStop
    then show ?thesis using assms by (auto simp: request_keeper_stop_def app_ok_def split: keeper_mode.splits option.splits)
  qed (use assms t app_tick_ok[OF assms(1)] in \<open>auto simp: spawning_def res_Inr tick_opt_ok_def split: sum.splits if_splits\<close>)
qed

lemma status_merging: "merging E (status_of E mode tick)"
  unfolding status_of_def by (intro merging_bind merging_sync merging_scan) (simp_all add: merging_def op_gets_def op_ret_def)

lemma run_apply_ok:
  assumes ok: "app_ok E w s" and plan: "exported E w plan" and r: "run_apply E txid owner_sig plan s = (r, s')"
  shows "app_ok E w s'"
proof (cases "apply_owner_sig (we_lib E) (we_prover E) (wl_ctx (ap_wallet s)) plan owner_sig")
  case (Inl e)
  then show ?thesis using r ok by (simp add: run_apply_def)
next
  case (Inr plan1)
  obtain q u where q: "sign_and_broadcast E plan1 (ap_wallet s) = (q, u)" by force
  have ses: "session_of (ap_wallet s) = session_of w" using ok by (simp add: app_ok_def kept_def)
  have "justified E (ap_wallet s) tx" if "wallet_sign E plan1 (ap_wallet s) = Inr tx" for tx
    using wallet_sign_body[OF that] apply_owner_sig_body[OF Inr] plan exported_session[OF ses] by (auto intro: just_apply)
  then have "kept (justified E (ap_wallet s)) (ap_wallet s) u"
    using sign_and_broadcast_sent[OF q] by (cases q) (auto simp: kept_def)
  from app_ok_wallet(1)[OF ok this] have u: "app_ok E w (s\<lparr>ap_wallet := u\<rparr>)" .
  then have "app_ok E w (s\<lparr>ap_wallet := u, ap_pending := drop_pending txid (ap_pending s)\<rparr>)"
    by (auto simp: app_ok_def drop_pending_def list_all_iff)
  then show ?thesis using r Inr q u
    by (auto simp: run_apply_def finalize_broadcast_def emit_def app_ok_def split: sum.splits wallet_error.splits broadcast_error.splits)
qed

lemma run_export_ok:
  assumes ok: "app_ok E w s" and t: "tick_opt_ok E w tick" and r: "run_export E op which amount tick s = (r, s')"
  shows "app_ok E w s'"
proof -
  obtain q u where q: "export_plan E op which amount tick (ap_wallet s) = (q, u)" by force
  have ses: "session_of (ap_wallet s) = session_of w" using ok by (simp add: app_ok_def kept_def)
  have "tick_opt_ok E (ap_wallet s) tick" using t authentic_session[OF ses, of E] by (simp add: tick_opt_ok_def split: option.splits)
  from export_plan_ok[OF q this] have m: "merged E (ap_wallet s) u" and plan: "\<And>plan. q = Inr plan \<Longrightarrow> exported E w plan"
    using exported_session[OF ses, of E] by auto
  note u = app_ok_wallet(1)[OF ok merged_justified[OF m]]
  have "app_ok E w (s\<lparr>ap_wallet := u, ap_pending := stash_pending x plan (ap_pending s)\<rparr>)" if "q = Inr plan" for x plan
    using u plan[OF that] unfolding app_ok_def
    by (auto simp: stash_pending_def Let_def list_all_iff dest!: in_set_dropD)
  then show ?thesis using r q u by (auto simp: run_export_def emit_def app_ok_def split: sum.splits)
qed

lemma run_job_ok:
  assumes "app_ok E w s" "job_ok E w job" "run_job E job s = (out, s')"
  shows "app_ok E w s' \<and> (\<forall>job'. out = Spawn job' \<longrightarrow> job_ok E w job')"
proof (cases job)
  case (JobStatus mode tick)
  obtain r u where "status_of E mode tick (ap_wallet s) = (r, u)" by force
  moreover from this have "merged E (ap_wallet s) u" using status_merging[of E mode tick] unfolding merging_def by blast
  ultimately show ?thesis
    using assms app_ok_wallet[OF assms(1) merged_justified] JobStatus by (auto simp: run_status_def split: sum.splits)
next
  case (JobOp call)
  obtain r u where r: "op_bind (sync E) (\<lambda>_. run_call E call) (ap_wallet s) = (r, u)" by force
  have ses: "session_of (ap_wallet s) = session_of w" using assms(1) by (simp add: app_ok_def kept_def)
  have "kept (justified E (ap_wallet s)) (ap_wallet s) u"
  proof (rule synced_op_kept[OF r])
    fix v q v' assume "session_of v = session_of (ap_wallet s)" "run_call E call v = (q, v')"
    then show "kept (justified E v) v v'"
      using run_call_kept[of E call v q v'] assms(2) JobOp authentic_session[of v w E] ses by (auto simp: tick_opt_ok_def split: option.splits)
  qed
  then show ?thesis using assms app_ok_wallet[OF assms(1)] JobOp r by (auto simp: run_op_def split: sum.splits)
next
  case (JobExport op which amount tick)
  then show ?thesis using assms run_export_ok by (auto simp: apfst_def map_prod_def split: prod.splits)
next
  case (JobApply txid owner_sig)
  then show ?thesis using assms by (auto simp: take_pending_def find_Some_iff app_ok_def list_all_iff split: option.splits dest!: nth_mem)
next
  case (JobApplySend txid owner_sig plan)
  then show ?thesis using assms run_apply_ok by (auto simp: apfst_def map_prod_def split: prod.splits)
qed

text \<open>The transactions of a section are justified.\<close>

lemma pc_trace_justified:
  assumes "pc_trace E lag t w pc txs" "authentic E w t" "tx \<in> set txs" shows "justified E w tx"
proof -
  have "txs = hd txs # tl txs" using assms(3) by (cases txs) auto
  then have "(\<exists>p. performed_tx E lag t w p tx) \<or> consolidation E w tx"
    using assms(1,3) by (cases pc; cases txs) (auto simp: turn_trace_def list_all_iff split: sum.splits option.splits if_splits)
  then show ?thesis using assms(2) by (auto intro: just_merge just_keeper)
qed

lemma section_kept:
  assumes "keeper_section E vsize t (pc, k) = (pc', k')" "pc_ok pc" "authentic E (kp_purse k) t"
  shows "kept (justified E (kp_purse k)) (kp_purse k) (kp_purse k')"
proof (cases "\<exists>r. pc = AtEnd r")
  case True
  then show ?thesis using assms(1) by auto
next
  case False
  then have tr: "pc_trace E (ko_refresh_lag (kp_opts k)) t (kp_purse k) pc' (new_sent (kp_purse k) (kp_purse k'))"
    "session_of (kp_purse k') = session_of (kp_purse k)" "wl_sent (kp_purse k') = new_sent (kp_purse k) (kp_purse k') @ wl_sent (kp_purse k)"
    using section_trace[OF assms(2) _ assms(1)] by auto
  then show ?thesis using pc_trace_justified[OF tr(1) assms(3)] unfolding kept_def by blast
qed

lemma loop_run_ok:
  assumes "app_ok E w s" "loop_ok E w l" "loop_run E vsize l s = (ls, s')"
  shows "app_ok E w s' \<and> list_all (loop_ok E w) ls"
proof (cases l)
  case (LoopTurn f k t pc)
  let ?k = "k\<lparr>kp_purse := ap_wallet s\<rparr>"
  obtain pc' k' where sec: "keeper_section E vsize t (pc, ?k) = (pc', k')" by force
  have ses: "session_of (ap_wallet s) = session_of w" using assms(1) by (simp add: app_ok_def kept_def)
  have "kept (justified E (ap_wallet s)) (ap_wallet s) (kp_purse k')"
    using section_kept[OF sec] assms(2) LoopTurn authentic_session[OF ses] by simp
  note u = app_ok_wallet[OF assms(1) this]
  have "pc_ok pc'" using section_progress[of pc E vsize t ?k] assms(2) LoopTurn sec by simp
  then show ?thesis
    using u assms(2,3) LoopTurn sec by (cases pc') (auto simp: loop_end_def split: sum.splits option.splits keeper_error.splits)
next
  case (LoopHead f k)
  then show ?thesis using assms app_tick_ok[OF assms(1)] by (auto simp: tick_opt_ok_def split: if_splits option.splits)
qed (use assms in \<open>auto simp: app_ok_def emit_def\<close>)

lemma tick_round_ok:
  assumes "app_ok E w s" "tick_round E fetch (oracle_keys (ap_wallet s)) tip s = Some s'"
  shows "app_ok E w s'"
proof -
  have ses: "session_of (ap_wallet s) = session_of w" using assms(1) by (simp add: app_ok_def kept_def)
  have "authentic E w t" if "app_walk fetch (lb_sha256 (we_lib E)) (we_prover E) tip hs (book_new (oracle_keys (ap_wallet s))) = Inr (Some (h, t))" for tip hs h t
    using app_walk_tick[OF that book_start[of "lb_sha256 (we_lib E)" "we_prover E" _ DEFAULT_HORIZON DEFAULT_DRIFT, folded book_new_def]]
      session_views(1)[OF ses] by (auto simp: authentic_def tick_from_def book_new_def book_with_window_def)
  then show ?thesis using assms
    by (auto simp: tick_round_def set_tick_def emit_def app_ok_def tick_opt_ok_def split: option.splits sum.splits)
qed

lemma app_step_ok: "\<lbrakk>app_step E vsize parse s s'; app_ok E w s\<rbrakk> \<Longrightarrow> app_ok E w s'"
proof (induction rule: app_step.induct)
  case (answered req s a s')
  then show ?case using accept_ok by blast
next
  case (spawned req s job s')
  then show ?case using accept_ok[of E w s parse req "Spawn job" s'] by (simp add: app_ok_def)
next
  case (job_done s pre job post a s')
  then show ?case using run_job_ok[of E w s job "Answer a" s'] by (simp add: app_ok_def)
next
  case (job_on s pre job post job' s')
  then show ?case using run_job_ok[of E w s job "Spawn job'" s'] by (simp add: app_ok_def)
next
  case (keeper s pre l post ls s')
  then show ?case using loop_run_ok[of E w s l vsize ls s'] by (simp add: app_ok_def)
next
  case (ticked fetch s tip s')
  then show ?case using tick_round_ok by blast
qed (simp add: app_ok_def)

section \<open>One keeper, a bounded queue\<close>

fun loop_flag :: "('p, 'f) keeper_loop \<Rightarrow> nat" where
  "loop_flag (LoopNew f) = f"
| "loop_flag (LoopHead f k) = f"
| "loop_flag (LoopTurn f k t pc) = f"
| "loop_flag (LoopAlert f e) = f"
| "loop_flag (LoopStop f) = f"

text \<open>The mode is running exactly while there is a thread, and then there is one, stopped by the recorded flag.\<close>

definition keeper_inv :: "('p, 'f) app_state \<Rightarrow> bool" where
  "keeper_inv s \<longleftrightarrow>
     (if ap_mode s = KmRunning
      then \<exists>l. ap_loops s = [l] \<and> ap_stop s = Some (loop_flag l) \<and> loop_flag l < length (ap_flags s)
      else ap_loops s = [] \<and> ap_stop s = None)"

definition pending_inv :: "(string \<times> tx_plan) list \<Rightarrow> bool" where
  "pending_inv q \<longleftrightarrow> length q \<le> PENDING_CAP \<and> distinct (map fst q)"

lemma distinct_map_filter_fst: "distinct (map fst q) \<Longrightarrow> distinct (map fst (filter P q))"
  by (induction q) auto

lemma stash_pending_inv: "pending_inv q \<Longrightarrow> pending_inv (stash_pending txid plan q)"
  by (auto simp: pending_inv_def stash_pending_def Let_def drop_map[symmetric] distinct_map_filter_fst PENDING_CAP_def dest!: in_set_dropD)

lemma drop_pending_inv: "pending_inv q \<Longrightarrow> pending_inv (drop_pending txid q)"
  by (auto simp: pending_inv_def drop_pending_def distinct_map_filter_fst intro: order_trans[OF length_filter_le])

text \<open>What the jobs and the ticks leave alone.\<close>

definition same_keeper :: "('p, 'f) app_state \<Rightarrow> ('p, 'f) app_state \<Rightarrow> bool" where
  "same_keeper s s' \<longleftrightarrow> ap_mode s' = ap_mode s \<and> ap_stop s' = ap_stop s \<and> ap_flags s' = ap_flags s \<and> ap_loops s' = ap_loops s"

lemma same_keeper_inv: "same_keeper s s' \<Longrightarrow> keeper_inv s' = keeper_inv s"
  by (simp add: same_keeper_def keeper_inv_def)

lemma keeper_inv_jobs [simp]: "keeper_inv (s\<lparr>ap_jobs := js\<rparr>) = keeper_inv s"
  by (simp add: keeper_inv_def)

lemma run_job_same: "run_job E job s = (out, s') \<Longrightarrow> same_keeper s s'"
  by (cases job)
    (auto simp: run_status_def run_op_def run_export_def run_apply_def emit_def same_keeper_def
      split: prod.splits sum.splits option.splits wallet_error.splits broadcast_error.splits)

lemma run_job_keeper:
  assumes "run_job E job s = (out, s')" "pending_inv (ap_pending s)"
  shows "same_keeper s s' \<and> pending_inv (ap_pending s')"
  using assms stash_pending_inv drop_pending_inv run_job_same[OF assms(1)]
  by (cases job)
    (auto simp: run_status_def run_op_def run_export_def run_apply_def emit_def
      split: prod.splits sum.splits option.splits wallet_error.splits broadcast_error.splits)

lemma loop_run_keeper:
  assumes "loop_run E vsize l s = (ls, s')"
  shows "ap_flags s' = ap_flags s \<and> ap_pending s' = ap_pending s \<and>
    (if ls = [] then ap_mode s' \<noteq> KmRunning \<and> ap_stop s' = None
     else ap_mode s' = ap_mode s \<and> ap_stop s' = ap_stop s \<and> (\<exists>l'. ls = [l'] \<and> loop_flag l' = loop_flag l))"
proof (cases l)
  case (LoopTurn f k t pc)
  obtain pc' k' where "keeper_section E vsize t (pc, k\<lparr>kp_purse := ap_wallet s\<rparr>) = (pc', k')" by force
  then show ?thesis using assms LoopTurn
    by (cases pc') (auto simp: loop_end_def emit_def split: sum.splits option.splits keeper_error.splits)
qed (use assms in \<open>auto simp: emit_def split: if_splits option.splits\<close>)

lemma app_step_keeper:
  "\<lbrakk>app_step E vsize parse s s'; keeper_inv s; pending_inv (ap_pending s)\<rbrakk> \<Longrightarrow> keeper_inv s' \<and> pending_inv (ap_pending s')"
proof (induction rule: app_step.induct)
  case (answered req s a s')
  then show ?case
    by (cases req) (auto simp: start_keeper_def request_keeper_stop_def keeper_inv_def Let_def spawning_def
        split: if_splits keeper_mode.splits option.splits sum.splits)
next
  case (spawned req s job s')
  then have "s' = s" by (cases req) (auto split: prod.splits)
  with spawned show ?case by (simp add: keeper_inv_def)
next
  case (job_done s pre job post a s')
  then show ?case using run_job_keeper[of E job s "Answer a" s'] same_keeper_inv[of s s'] by simp
next
  case (job_on s pre job post job' s')
  then show ?case using run_job_keeper[of E job s "Spawn job'" s'] same_keeper_inv[of s s'] by simp
next
  case (keeper s pre l post ls s')
  have "ap_mode s = KmRunning" "pre = []" "post = []" "ap_stop s = Some (loop_flag l)" "loop_flag l < length (ap_flags s)"
    using keeper by (auto simp: keeper_inv_def append_eq_Cons_conv split: if_splits)
  then show ?case using loop_run_keeper[OF keeper(2)] keeper by (auto simp: keeper_inv_def split: if_splits)
next
  case (ticked fetch s tip s')
  then have "same_keeper s s'" "ap_pending s' = ap_pending s"
    by (auto simp: tick_round_def set_tick_def emit_def same_keeper_def split: option.splits sum.splits)
  with ticked same_keeper_inv[of s s'] show ?case by simp
qed (simp add: keeper_inv_def)

section \<open>Stopping the keeper\<close>

text \<open>The steps a thread whose flag is set has left.\<close>

fun loop_left :: "('p, 'f) keeper_loop \<Rightarrow> nat" where
  "loop_left (LoopNew f) = 3"
| "loop_left (LoopHead f k) = 2"
| "loop_left (LoopTurn f k t pc) = sections_left pc + 2"
| "loop_left (LoopAlert f e) = 1"
| "loop_left (LoopStop f) = 1"

fun loop_wf :: "('p, 'f) keeper_loop \<Rightarrow> bool" where
  "loop_wf (LoopTurn f k t pc) = (pc_ok pc \<and> 0 < sections_left pc)"
| "loop_wf _ = True"

lemma sections_left_pos: "pc_ok pc \<Longrightarrow> (\<And>r. pc \<noteq> AtEnd r) \<Longrightarrow> 0 < sections_left pc"
  by (cases pc) auto

lemma loop_wf_bound: "loop_wf l \<Longrightarrow> loop_left l \<le> 13"
proof (cases l)
  case (LoopTurn f k t pc)
  then show ?thesis by (cases pc) auto
qed auto

lemma loop_run_wf:
  assumes "loop_wf l" "loop_run E vsize l s = (ls, s')" "ls = [l']" shows "loop_wf l'"
proof (cases l)
  case (LoopTurn f k t pc)
  obtain pc' k' where sec: "keeper_section E vsize t (pc, k\<lparr>kp_purse := ap_wallet s\<rparr>) = (pc', k')" by force
  then have "pc_ok pc'" using section_progress[of pc E vsize t "k\<lparr>kp_purse := ap_wallet s\<rparr>"] assms(1) LoopTurn by simp
  then show ?thesis using assms LoopTurn sec sections_left_pos[of pc']
    by (cases pc') (auto simp: loop_end_def split: sum.splits option.splits keeper_error.splits)
qed (use assms in \<open>auto split: if_splits option.splits\<close>)

lemma loop_run_stopping:
  assumes "loop_wf l" "ap_flags s ! loop_flag l" "loop_run E vsize l s = (ls, s')" "ls = [l']"
  shows "loop_left l' < loop_left l"
proof (cases l)
  case (LoopTurn f k t pc)
  obtain pc' k' where sec: "keeper_section E vsize t (pc, k\<lparr>kp_purse := ap_wallet s\<rparr>) = (pc', k')" by force
  then have "sections_left pc' < sections_left pc"
    using section_progress[of pc E vsize t "k\<lparr>kp_purse := ap_wallet s\<rparr>"] assms(1) LoopTurn by auto
  then show ?thesis using assms LoopTurn sec
    by (cases pc') (auto simp: loop_end_def split: sum.splits option.splits keeper_error.splits)
qed (use assms in \<open>auto split: if_splits option.splits\<close>)

text \<open>The thread's own steps, while everyone else turns the state from \<open>s\<close> into \<open>env i s\<close> before each.\<close>

fun loop_steps ::
  "('p, 'f) wallet_env \<Rightarrow> (transaction \<Rightarrow> u64) \<Rightarrow> (nat \<Rightarrow> ('p, 'f) app_state \<Rightarrow> ('p, 'f) app_state) \<Rightarrow> nat \<Rightarrow>
     ('p, 'f) keeper_loop list \<times> ('p, 'f) app_state \<Rightarrow> ('p, 'f) keeper_loop list \<times> ('p, 'f) app_state" where
  "loop_steps E vsize env 0 x = x"
| "loop_steps E vsize env (Suc n) ([], s) = ([], s)"
| "loop_steps E vsize env (Suc n) (l # ls, s) = loop_steps E vsize env n (loop_run E vsize l (env n s))"

definition keeps_flag :: "nat \<Rightarrow> (nat \<Rightarrow> ('p, 'f) app_state \<Rightarrow> ('p, 'f) app_state) \<Rightarrow> bool" where
  "keeps_flag f env \<longleftrightarrow> (\<forall>i s. ap_flags s ! f \<longrightarrow> ap_flags (env i s) ! f)"

lemma loop_steps_stop:
  assumes "keeps_flag f env"
  shows "\<lbrakk>loop_wf l; loop_flag l = f; loop_left l \<le> n; ap_flags s ! f\<rbrakk> \<Longrightarrow> fst (loop_steps E vsize env n ([l], s)) = []"
proof (induction n arbitrary: l s)
  case 0
  then show ?case by (cases l) auto
next
  case (Suc n)
  obtain ls s' where r: "loop_run E vsize l (env n s) = (ls, s')" by force
  have flag: "ap_flags (env n s) ! f" using assms Suc.prems(4) by (simp add: keeps_flag_def)
  show ?case
  proof (cases ls)
    case Nil
    then show ?thesis using r by (cases n) auto
  next
    case (Cons l' rest)
    then have l': "ls = [l']" "loop_flag l' = f" "ap_flags s' = ap_flags (env n s)" using loop_run_keeper[OF r] Suc.prems(2) by auto
    then show ?thesis
      using Suc.IH[of l' s'] loop_run_wf[OF Suc.prems(1) r l'(1)] loop_run_stopping[OF Suc.prems(1) _ r l'(1)] Suc.prems(2,3) flag r by simp
  qed
qed

lemma nth_list_update': "i < length xs \<Longrightarrow> xs[j := x] ! i = (if i = j then x else xs ! i)"
  by (cases "j < length xs") (auto simp: nth_list_update)

text \<open>A flag once set stays set, whatever the server does.\<close>

lemma app_step_flag:
  "\<lbrakk>app_step E vsize parse s s'; f < length (ap_flags s); ap_flags s ! f\<rbrakk> \<Longrightarrow> f < length (ap_flags s') \<and> ap_flags s' ! f"
proof (induction rule: app_step.induct)
  case (answered req s a s')
  then show ?case
    by (cases req) (auto simp: start_keeper_def request_keeper_stop_def Let_def nth_append nth_list_update'
        split: if_splits keeper_mode.splits option.splits)
next
  case (spawned req s job s')
  then have "s' = s" by (cases req) (auto split: prod.splits)
  with spawned show ?case by simp
next
  case (job_done s pre job post a s')
  then show ?case using run_job_same[of E job s "Answer a" s'] by (simp add: same_keeper_def)
next
  case (job_on s pre job post job' s')
  then show ?case using run_job_same[of E job s "Spawn job'" s'] by (simp add: same_keeper_def)
next
  case (keeper s pre l post ls s')
  then show ?case using loop_run_keeper[OF keeper(2)] by simp
next
  case (ticked fetch s tip s')
  then show ?case by (auto simp: tick_round_def set_tick_def emit_def split: option.splits sum.splits)
qed simp

lemma loop_ok_wf_run:
  assumes "app_run E vsize parse (app_new w opts) s" shows "app_ok E w s" "keeper_inv s" "pending_inv (ap_pending s)" "list_all loop_wf (ap_loops s)"
proof -
  have "app_ok E w s \<and> keeper_inv s \<and> pending_inv (ap_pending s) \<and> list_all loop_wf (ap_loops s)" using assms
  proof (induction rule: app_run.induct)
    case start
    then show ?case by (simp add: app_ok_def app_new_def keeper_inv_def pending_inv_def tick_opt_ok_def)
  next
    case (step s s')
    have "list_all loop_wf (ap_loops s')"
      using step(2) step.IH
    proof (cases rule: app_step.cases)
      case (answered req a)
      then show ?thesis using step.IH
        by (cases req) (auto simp: start_keeper_def request_keeper_stop_def Let_def split: if_splits keeper_mode.splits option.splits)
    next
      case (spawned req job s1)
      then have "s1 = s" by (cases req) (auto split: prod.splits)
      then show ?thesis using step.IH spawned by simp
    next
      case (job_done pre job post a s1)
      then show ?thesis using step.IH run_job_keeper[of E job s "Answer a" s1] by (simp add: same_keeper_def)
    next
      case (job_on pre job post job' s1)
      then show ?thesis using step.IH run_job_keeper[of E job s "Spawn job'" s1] by (simp add: same_keeper_def)
    next
      case (keeper pre l post ls s1)
      then show ?thesis using step.IH loop_run_wf[of l E vsize s ls s1] loop_run_keeper[OF keeper(3)] by (auto split: if_splits)
    next
      case (ticked fetch tip)
      then show ?thesis using step.IH by (auto simp: tick_round_def set_tick_def emit_def split: option.splits sum.splits)
    next
      case (passed d)
      then show ?thesis using step.IH by simp
    qed
    then show ?case using step app_step_ok[OF step(2)] app_step_keeper[OF step(2)] by blast
  qed
  then show "app_ok E w s" "keeper_inv s" "pending_inv (ap_pending s)" "list_all loop_wf (ap_loops s)" by blast+
qed


section \<open>Exports come back\<close>

text \<open>The text is a well-formed signature by the owner of the request over its digest.\<close>

definition signed_for :: "'p prover \<Rightarrow> owner_signing_request \<Rightarrow> string \<Rightarrow> bool" where
  "signed_for S req sg \<longleftrightarrow>
     (\<exists>bytes digest owner. decode_64 sg = Inr bytes \<and> pv_sig_ok S bytes \<and> sr_sighash req = hex_str digest \<and>
        sr_owner req = hex_str (u256_be owner) \<and> pv_verify S bytes digest owner)"

lemma hex_str_inject: "hex_str a = hex_str b \<longleftrightarrow> a = b"
proof
  assume "hex_str a = hex_str b"
  then have "sig_pairs (hex_str a) = sig_pairs (hex_str b)" by (rule arg_cong)
  then show "a = b" unfolding sig_pairs_hex by simp
qed simp

text \<open>A request is answered exactly by such a signature, which is then installed into the plan.\<close>

lemma request_signed:
  assumes "owner_signing_request L S c plan = Inr req"
  shows "signed_for S req sg \<Longrightarrow> \<exists>bytes. decode_64 sg = Inr bytes \<and> apply_owner_sig L S c plan sg = Inr (install_owner_sig plan bytes)"
    "\<not> signed_for S req sg \<Longrightarrow> \<exists>e. apply_owner_sig L S c plan sg = Inl e"
proof -
  obtain owner digest where o: "find_owner (pl_slots plan) = Some owner" "vault_sighash L S c plan = Inr digest"
    and req: "sr_sighash req = hex_str digest" "sr_owner req = hex_str (u256_be owner)"
    using assms by (auto simp: owner_signing_request_def res_Inr split: option.splits)
  show "\<exists>bytes. decode_64 sg = Inr bytes \<and> apply_owner_sig L S c plan sg = Inr (install_owner_sig plan bytes)" if "signed_for S req sg"
  proof -
    from that[unfolded signed_for_def req hex_str_inject u256_be_inject] obtain bytes where
      "decode_64 sg = Inr bytes" "pv_sig_ok S bytes" "pv_verify S bytes digest owner" by blast
    with o show ?thesis by (simp add: apply_owner_sig_def bind_res_def map_err_def refuse_if_def)
  qed
  show "\<exists>e. apply_owner_sig L S c plan sg = Inl e" if "\<not> signed_for S req sg"
  proof (cases "apply_owner_sig L S c plan sg")
    case (Inr plan')
    then have "signed_for S req sg" unfolding signed_for_def using o req by (auto simp: apply_owner_sig_def res_Inr)
    with that show ?thesis by simp
  qed simp
qed

lemma drop_pending_gone: "take_pending txid (drop_pending txid q) = None"
  by (induction q) (auto simp: take_pending_def drop_pending_def)

text \<open>What applying a signature to a plan does, by the outcome of broadcasting the signed plan.\<close>

definition apply_sends :: "('p, 'f) wallet_env \<Rightarrow> string \<Rightarrow> string \<Rightarrow> tx_plan \<Rightarrow> bytes \<Rightarrow> ('p, 'f) app_state \<Rightarrow> bool" where
  "apply_sends E txid sg plan bytes s \<longleftrightarrow>
     (case finalize_broadcast E (install_owner_sig plan bytes) (ap_wallet s) of
        (Inr t, w) \<Rightarrow> \<exists>s3 tx. run_apply E txid sg plan s = (Inr (AnsOp t None), s3) \<and> ap_wallet s3 = w \<and>
          wl_sent w = tx # wl_sent (ap_wallet s) \<and> strip tx = strip (pl_tx plan) \<and> take_pending txid (ap_pending s3) = None
      | (Inl (WBroadcast (Conflict m)), w) \<Rightarrow> \<exists>s3. run_apply E txid sg plan s = (Inl (ApiStale m), s3) \<and> ap_wallet s3 = w \<and>
          wl_sent w = wl_sent (ap_wallet s) \<and> take_pending txid (ap_pending s3) = None
      | (Inl e, w) \<Rightarrow> \<exists>s3. run_apply E txid sg plan s = (Inl (ApiWallet e), s3) \<and> ap_wallet s3 = w \<and>
          wl_sent w = wl_sent (ap_wallet s) \<and> ap_pending s3 = ap_pending s)"

lemma signed_apply_sends:
  assumes b: "apply_owner_sig (we_lib E) (we_prover E) (wl_ctx (ap_wallet s)) plan sg = Inr (install_owner_sig plan bytes)"
  shows "apply_sends E txid sg plan bytes s"
proof -
  obtain q u where q: "sign_and_broadcast E (install_owner_sig plan bytes) (ap_wallet s) = (q, u)" by force
  then have fb: "finalize_broadcast E (install_owner_sig plan bytes) (ap_wallet s) = (q, u)" by (simp add: finalize_broadcast_def)
  note ra = run_apply_def[of E txid sg plan s] b fb sum.case prod.case and sent = sign_and_broadcast_sent[OF q]
  show ?thesis
  proof (cases q)
    case (Inr t)
    with sent obtain tx where "wl_sent u = tx # wl_sent (ap_wallet s)" "wallet_sign E (install_owner_sig plan bytes) (ap_wallet s) = Inr tx"
      by auto
    with apply_owner_sig_body[OF b] wallet_sign_body[of E "install_owner_sig plan bytes" "ap_wallet s" tx] Inr show ?thesis
      unfolding apply_sends_def by (simp add: ra emit_def drop_pending_gone)
  next
    case (Inl e)
    then have u: "wl_sent u = wl_sent (ap_wallet s)" using sent by auto
    show ?thesis
    proof (cases "\<exists>m. e = WBroadcast (Conflict m)")
      case True
      then obtain m where "e = WBroadcast (Conflict m)" by blast
      with Inl u show ?thesis unfolding apply_sends_def by (simp add: ra drop_pending_gone)
    next
      case False
      have "run_apply E txid sg plan s = (Inl (ApiWallet e), s\<lparr>ap_wallet := u\<rparr>)"
        unfolding ra Inl using False by (cases e) (simp_all split: broadcast_error.split)
      with False u show ?thesis unfolding apply_sends_def fb Inl by (cases e) (simp_all split: broadcast_error.split)
    qed
  qed
qed

text \<open>
  What later exports do to an earlier one. The entries behind it are exactly the other ids exported
  since, each once; it is evicted when they are 32.
\<close>

definition held :: "string \<Rightarrow> tx_plan \<Rightarrow> string set \<Rightarrow> (string \<times> tx_plan) list \<Rightarrow> bool" where
  "held txid plan ids q \<longleftrightarrow> (\<exists>pre suf. q = pre @ (txid, plan) # suf \<and> txid \<notin> fst ` set pre \<and> txid \<notin> fst ` set suf \<and>
     distinct (map fst suf) \<and> fst ` set suf = ids \<and> length suf < PENDING_CAP)"

lemma held_take: "held txid plan ids q \<Longrightarrow> take_pending txid q = Some plan \<and> card ids < PENDING_CAP"
proof -
  assume "held txid plan ids q"
  then obtain pre suf where q: "q = pre @ (txid, plan) # suf" "txid \<notin> fst ` set pre" "distinct (map fst suf)" "fst ` set suf = ids"
    "length suf < PENDING_CAP" unfolding held_def by blast
  have "find (\<lambda>(t, _). t = txid) (xs @ (txid, plan) # suf) = Some (txid, plan)" if "txid \<notin> fst ` set xs" for xs
    using that by (induction xs) auto
  moreover have "card ids = length suf" using distinct_card[OF q(3)] q(4) by simp
  ultimately show ?thesis using q by (simp add: take_pending_def)
qed

lemma held_stash: "held txid plan {} (stash_pending txid plan q)"
proof -
  let ?q = "filter (\<lambda>(t, _). t \<noteq> txid) q"
  have "stash_pending txid plan q = drop (length ?q + 1 - PENDING_CAP) ?q @ [(txid, plan)]"
    by (simp add: stash_pending_def Let_def PENDING_CAP_def)
  moreover have "txid \<notin> fst ` set (drop n ?q)" for n by (auto dest!: in_set_dropD)
  ultimately show ?thesis unfolding held_def by (intro exI[of _ "drop (length ?q + 1 - PENDING_CAP) ?q"] exI[of _ "[]"]) (simp add: PENDING_CAP_def)
qed

lemma stash_behind:
  assumes "held txid plan ids q" "t \<noteq> txid"
  shows "held txid plan (insert t ids) (stash_pending t p q) \<or>
    PENDING_CAP \<le> card (insert t ids) \<and> txid \<notin> fst ` set (stash_pending t p q)"
proof -
  obtain pre suf where q: "q = pre @ (txid, plan) # suf" "txid \<notin> fst ` set pre" "txid \<notin> fst ` set suf" "distinct (map fst suf)"
    "fst ` set suf = ids" "length suf < PENDING_CAP" using assms(1) unfolding held_def by blast
  let ?pre = "filter (\<lambda>(x, _). x \<noteq> t) pre" and ?suf = "filter (\<lambda>(x, _). x \<noteq> t) suf @ [(t, p)]"
  have st: "stash_pending t p q = drop (length ?pre + 1 + length ?suf - PENDING_CAP) (?pre @ (txid, plan) # ?suf)"
    using assms(2) by (simp add: stash_pending_def Let_def q(1))
  have suf: "distinct (map fst ?suf)" "fst ` set ?suf = insert t ids" "txid \<notin> fst ` set ?suf"
    using q(3-5) assms(2) distinct_map_filter[OF q(4)] by auto
  then have len: "length ?suf = card (insert t ids)" using distinct_card[OF suf(1)] by (simp only: set_map length_map)
  show ?thesis
  proof (cases "length ?suf < PENDING_CAP")
    case True
    let ?n = "length ?pre + 1 + length ?suf - PENDING_CAP"
    have "?n \<le> length ?pre" using True by simp
    then have "stash_pending t p q = drop ?n ?pre @ (txid, plan) # ?suf" unfolding st by simp
    moreover have "txid \<notin> fst ` set (drop ?n ?pre)" using q(2) by (auto dest!: in_set_dropD)
    ultimately show ?thesis using suf True unfolding held_def by blast
  next
    case False
    then have "length ?pre < length ?pre + 1 + length ?suf - PENDING_CAP" by simp
    then have "set (stash_pending t p q) \<subseteq> set ?suf" unfolding st by (auto simp: drop_Cons' dest!: in_set_dropD split: if_splits)
    then show ?thesis using suf(3) len False by (auto simp: not_less)
  qed
qed

lemma stash_gone: "\<lbrakk>txid \<notin> fst ` set q; t \<noteq> txid\<rbrakk> \<Longrightarrow> txid \<notin> fst ` set (stash_pending t p q)"
  by (auto simp: stash_pending_def Let_def dest!: in_set_dropD)

lemma take_gone: "txid \<notin> fst ` set q \<Longrightarrow> take_pending txid q = None"
  by (induction q) (auto simp: take_pending_def)

lemma fold_gone:
  "\<lbrakk>txid \<notin> fst ` set q; \<forall>x \<in> set later. fst x \<noteq> txid\<rbrakk> \<Longrightarrow> txid \<notin> fst ` set (fold (\<lambda>(t, p). stash_pending t p) later q)"
proof (induction later arbitrary: q)
  case (Cons x later)
  from Cons.IH[OF stash_gone[OF Cons.prems(1), of "fst x" "snd x"]] Cons.prems(2) show ?case by (simp add: case_prod_beta)
qed simp

lemma stash_others:
  assumes "held txid plan ids q" "finite ids" "\<forall>x \<in> set later. fst x \<noteq> txid"
  shows "take_pending txid (fold (\<lambda>(t, p). stash_pending t p) later q) =
    (if card (ids \<union> fst ` set later) < PENDING_CAP then Some plan else None)"
  using assms
proof (induction later arbitrary: ids q)
  case Nil
  then show ?case using held_take by auto
next
  case (Cons x later)
  obtain t p where x: "x = (t, p)" by force
  have un: "insert t ids \<union> fst ` set later = ids \<union> fst ` set (x # later)" by (auto simp: x)
  from stash_behind[OF Cons.prems(1), of t p] Cons.prems(3) consider
    "held txid plan (insert t ids) (stash_pending t p q)"
    | "PENDING_CAP \<le> card (insert t ids)" "txid \<notin> fst ` set (stash_pending t p q)" by (auto simp: x)
  then show ?case
  proof cases
    case 1
    from Cons.IH[OF this] Cons.prems(2,3) show ?thesis unfolding un[symmetric] by (simp add: x)
  next
    case 2
    have "take_pending txid (fold (\<lambda>(t, p). stash_pending t p) (x # later) q) = None"
      using fold_gone[OF 2(2), of later] Cons.prems(3) by (intro take_gone) (simp add: x)
    moreover have "card (insert t ids) \<le> card (ids \<union> fst ` set (x # later))"
      unfolding un[symmetric] using Cons.prems(2) by (intro card_mono) auto
    ultimately show ?thesis using 2(1) by (simp add: not_less)
  qed
qed

lemma sample_started:
  "app_run (sample_env (\<lambda>_ _ _ _. Inl ''down'')) (\<lambda>_. 0) (\<lambda>_. None) (app_new sample_wallet keeper_opts_default)
     (snd (accept (\<lambda>_. None) ReqKeeperStart (app_new sample_wallet keeper_opts_default)))"
  by (rule app_run.step[OF app_run.start], rule answered[where req = ReqKeeperStart and a = "Inr (AnsText ''running'')"])
    (simp add: start_keeper_def app_new_def Let_def bind_res_def)

text \<open>The tick a job carries, and the requests that cannot do without one.\<close>

fun job_tick :: "app_job \<Rightarrow> oracle_tick option" where
  "job_tick (JobOp call) = call_tick call"
| "job_tick (JobExport op which amount tick) = tick"
| "job_tick _ = None"

fun needs_tick :: "api_request \<Rightarrow> bool" where
  "needs_tick (ReqOpen _ _ _) = True"
| "needs_tick (ReqDraw _ _) = True"
| "needs_tick (ReqRefresh _) = True"
| "needs_tick (ReqRedeem _ _) = True"
| "needs_tick (ReqExport op _ _) = (op = ''draw'')"
| "needs_tick _ = False"

section \<open>Properties\<close>

text \<open>
  C13 (app_sends_justified): in every run of the server (requests, jobs, keeper sections, rounds of the
  tick loop and passing time in any order, with a node and relays that answer anything), every
  transaction its wallet has sent is a merge or a shaping of its own coins, the checked builder's
  transaction for an operation on a vault of the wallet's own key, the keeper's for a vault it
  decided on, or the body of a plan it exported; and every price used was a tick with a quorum of
  quotes signed by the deployment's oracles. The deployment and the keys never change.
\<close>

theorem app_sends_justified:
  assumes "app_run E vsize parse (app_new w opts) s"
  shows "session_of (ap_wallet s) = session_of w \<and>
    (\<exists>pre. wl_sent (ap_wallet s) = pre @ wl_sent w \<and> (\<forall>tx \<in> set pre. justified E w tx))"
  using loop_ok_wf_run(1)[OF assms] by (simp add: app_ok_def kept_def)

theorem app_sends_justified_witness:
  "wl_sent (ap_wallet (app_new sample_wallet keeper_opts_default)) = [] @ wl_sent sample_wallet \<and>
   session_of (ap_wallet (snd (accept (\<lambda>_. None) ReqKeeperStart (app_new sample_wallet keeper_opts_default)))) = session_of sample_wallet"
proof -
  from app_sends_justified[OF sample_started] show ?thesis by (simp add: app_new_def)
qed

text \<open>
  C14 (one_keeper): in every run of the server at most one keeper thread works on the purse, the mode
  is running exactly while it does, and its stop flag is the one a stop request would set; the
  exports held number at most 32 and have different transaction ids.
\<close>

theorem one_keeper:
  assumes "app_run E vsize parse (app_new w opts) s"
  shows "length (ap_loops s) \<le> 1 \<and> (ap_mode s = KmRunning \<longleftrightarrow> ap_loops s \<noteq> []) \<and>
    (\<forall>l \<in> set (ap_loops s). ap_stop s = Some (loop_flag l) \<and> loop_flag l < length (ap_flags s)) \<and>
    length (ap_pending s) \<le> 32 \<and> distinct (map fst (ap_pending s))"
  using loop_ok_wf_run(2,3)[OF assms] by (auto simp: keeper_inv_def pending_inv_def PENDING_CAP_def split: if_splits)

theorem one_keeper_witness:
  "length (ap_loops (snd (accept (\<lambda>_. None) ReqKeeperStart (app_new sample_wallet keeper_opts_default)))) \<le> 1"
proof -
  from one_keeper[OF sample_started] show ?thesis by blast
qed

text \<open>
  C17 (stop_takes_effect): a stop request on a running keeper answers that it is stopping, and the
  thread returns after at most thirteen more steps of its own (one turn that is under way and the
  exit), whatever the rest of the server does in between as long as it does not clear the flag,
  which no step of the server does.
\<close>

theorem stop_takes_effect:
  assumes "app_run E vsize parse (app_new w opts) s" "ap_mode s = KmRunning"
  shows "\<exists>l s'. ap_loops s = [l] \<and> request_keeper_stop s = (''stopping'', s') \<and>
    (\<forall>env. keeps_flag (loop_flag l) env \<longrightarrow> fst (loop_steps E vsize env 13 ([l], s')) = []) \<and>
    (\<forall>t t'. app_step E vsize parse t t' \<and> loop_flag l < length (ap_flags t) \<and> ap_flags t ! loop_flag l \<longrightarrow> ap_flags t' ! loop_flag l)"
proof -
  obtain l where l: "ap_loops s = [l]" "ap_stop s = Some (loop_flag l)" "loop_flag l < length (ap_flags s)"
    using loop_ok_wf_run(2)[OF assms(1)] assms(2) by (auto simp: keeper_inv_def)
  define s' where "s' = s\<lparr>ap_flags := (ap_flags s)[loop_flag l := True]\<rparr>"
  have "request_keeper_stop s = (''stopping'', s')" using l(2) assms(2) by (simp add: request_keeper_stop_def s'_def)
  moreover have "loop_wf l" using loop_ok_wf_run(4)[OF assms(1)] l(1) by simp
  then have "fst (loop_steps E vsize env 13 ([l], s')) = []" if "keeps_flag (loop_flag l) env" for env
    using loop_steps_stop[OF that, of l 13 s'] loop_wf_bound[of l] l(3) by (simp add: s'_def)
  ultimately show ?thesis using l(1) app_step_flag by blast
qed

theorem stop_takes_effect_witness:
  "\<exists>l s'. request_keeper_stop (snd (accept (\<lambda>_. None) ReqKeeperStart (app_new sample_wallet keeper_opts_default))) = (''stopping'', s') \<and>
     fst (loop_steps (sample_env (\<lambda>_ _ _ _. Inl ''down'')) (\<lambda>_. 0) (\<lambda>_ s. s) 13 ([l], s')) = []"
proof -
  let ?s = "snd (accept (\<lambda>_. None) ReqKeeperStart (app_new sample_wallet keeper_opts_default))"
  have "ap_mode ?s = KmRunning" by (simp add: start_keeper_def app_new_def Let_def)
  from stop_takes_effect[OF sample_started this] obtain l s' where "request_keeper_stop ?s = (''stopping'', s')"
    "\<forall>env. keeps_flag (loop_flag l) env \<longrightarrow> fst (loop_steps (sample_env (\<lambda>_ _ _ _. Inl ''down'')) (\<lambda>_. 0) env 13 ([l], s')) = []" by blast
  moreover have "keeps_flag (loop_flag l) (\<lambda>_ s. s)" by (simp add: keeps_flag_def)
  ultimately show ?thesis by blast
qed

text \<open>
  C18 (export_then_apply): an export can be applied as long as fewer than 32 other transactions were
  exported since. However the wallet has moved and whatever else was exported in between (\<open>later\<close>), the
  plan is found again under the transaction id of the request it answered with when the other ids
  exported since number less than 32, and is answered as unknown when they number 32 or more: the
  oldest export is dropped. Applied to the plan, a text that is not a well-formed signature of the
  request's owner over its digest is refused, with the server left as it was. With one that is, the
  outcome is that of the broadcast of the plan with that signature installed: when the node takes it,
  exactly one transaction, with the body of the plan, was sent and the plan is forgotten; on a
  conflict nothing was sent and the plan is forgotten; after any other failure nothing was sent and
  it is kept for a retry.
\<close>

theorem export_then_apply:
  "case run_export E op which amount tick s of
     (Inr (AnsRequest req), s1) \<Rightarrow>
       (let others = filter (\<lambda>(t, _). t \<noteq> sr_txid req) later;
            s2 = s1\<lparr>ap_wallet := (ap_wallet s1)\<lparr>wl_state := st, wl_clock := n, wl_sent := txs, wl_disk := d\<rparr>,
                    ap_pending := fold (\<lambda>(t, p). stash_pending t p) others (ap_pending s1)\<rparr> in
        \<exists>plan. sr_txid req = txid_display (plan_txid (we_lib E) plan) \<and>
          run_job E (JobApply (sr_txid req) sg) s2 =
            (if card (fst ` set others) < 32 then (Spawn (JobApplySend (sr_txid req) sg plan), s2)
             else (Answer (Inl (BadRequest (''no pending plan for '' @ sr_txid req))), s2)) \<and>
          (if signed_for (we_prover E) req sg
           then \<exists>bytes. decode_64 sg = Inr bytes \<and> apply_sends E (sr_txid req) sg plan bytes s2
           else \<exists>e. run_apply E (sr_txid req) sg plan s2 = (Inl (BadSigning e), s2)))
   | _ \<Rightarrow> True"
proof (cases "\<exists>req s1. run_export E op which amount tick s = (Inr (AnsRequest req), s1)")
  case False
  then show ?thesis by (auto split: prod.splits sum.splits api_answer.splits)
next
  case True
  then obtain req s1 where r: "run_export E op which amount tick s = (Inr (AnsRequest req), s1)" by blast
  then obtain plan w where plan: "owner_signing_request (we_lib E) (we_prover E) (wl_ctx w) plan = Inr req"
    and s1: "s1 = emit ''export'' (EvText (sr_txid req)) (s\<lparr>ap_wallet := w, ap_pending := stash_pending (sr_txid req) plan (ap_pending s)\<rparr>)"
    by (auto simp: run_export_def split: prod.splits sum.splits)
  define others where "others = filter (\<lambda>(t, _). t \<noteq> sr_txid req) later"
  define s2 where "s2 = s1\<lparr>ap_wallet := (ap_wallet s1)\<lparr>wl_state := st, wl_clock := n, wl_sent := txs, wl_disk := d\<rparr>,
    ap_pending := fold (\<lambda>(t, p). stash_pending t p) others (ap_pending s1)\<rparr>"
  have s2: "wl_ctx (ap_wallet s2) = wl_ctx w" "wl_sent (ap_wallet s2) = txs"
    "ap_pending s2 = fold (\<lambda>(t, p). stash_pending t p) others (stash_pending (sr_txid req) plan (ap_pending s))"
    by (simp_all add: s2_def s1 emit_def)
  have "take_pending (sr_txid req) (ap_pending s2) = (if card (fst ` set others) < 32 then Some plan else None)"
    using stash_others[OF held_stash, of others "sr_txid req" plan "ap_pending s"] by (auto simp: s2(3) others_def PENDING_CAP_def)
  then have take: "run_job E (JobApply (sr_txid req) sg) s2 =
      (if card (fst ` set others) < 32 then (Spawn (JobApplySend (sr_txid req) sg plan), s2)
       else (Answer (Inl (BadRequest (''no pending plan for '' @ sr_txid req))), s2))"
    by simp
  have id: "sr_txid req = txid_display (plan_txid (we_lib E) plan)"
    using plan by (auto simp: owner_signing_request_def res_Inr split: option.splits)
  have no: "\<exists>e. run_apply E (sr_txid req) sg plan s2 = (Inl (BadSigning e), s2)" if "\<not> signed_for (we_prover E) req sg"
    using request_signed(2)[OF plan that] by (auto simp: run_apply_def s2)
  have yes: "\<exists>bytes. decode_64 sg = Inr bytes \<and> apply_sends E (sr_txid req) sg plan bytes s2" if "signed_for (we_prover E) req sg"
    using request_signed(1)[OF plan that] signed_apply_sends[of E s2 plan sg] by (auto simp: s2(1))
  show ?thesis unfolding r prod.case sum.case api_answer.case Let_def others_def[symmetric] s2_def[symmetric]
    by (rule exI[of _ plan], rule conjI[OF id conjI[OF take]], rule if_bool_eq_conj[THEN iffD2], intro conjI impI, erule yes, erule no)
qed

text \<open>
  C37 (stale_tick_refused): an operation that needs a price never starts on a tick that landed more
  than 180 seconds ago. Without a fresher one it is refused with the status of a conflict or a bad
  request and the server is left as it was; a job that does start carries the landed tick.
\<close>

theorem stale_tick_refused:
  assumes "needs_tick req"
  shows "((\<forall>t since. ap_tick s = Some (t, since) \<longrightarrow> since + 180 * 10 ^ 9 < ap_now s) \<longrightarrow>
      (\<exists>e. accept parse req s = (Answer (Inl e), s) \<and> (api_status e = 400 \<or> api_status e = 409))) \<and>
    (\<forall>job s'. accept parse req s = (Spawn job, s') \<longrightarrow>
      s' = s \<and> (\<exists>t since. job_tick job = Some t \<and> ap_tick s = Some (t, since) \<and> ap_now s \<le> since + 180 * 10 ^ 9))"
proof (intro conjI impI allI)
  assume "\<forall>t since. ap_tick s = Some (t, since) \<longrightarrow> since + 180 * 10 ^ 9 < ap_now s"
  then have "current_tick s = Inl NoQuorum" by (auto simp: current_tick_def app_tick_def TICK_MAX_AGE_def split: option.splits)
  moreover have "(\<exists>which. vault_arg parse v = Inr which) \<or> (\<exists>msg. vault_arg parse v = Inl (BadRequest msg))" for v
    by (simp add: vault_arg_def split: option.splits)
  ultimately show "\<exists>e. accept parse req s = (Answer (Inl e), s) \<and> (api_status e = 400 \<or> api_status e = 409)"
  proof (cases req)
    case (ReqExport op v amount)
    with assms \<open>current_tick s = Inl NoQuorum\<close> show ?thesis
      by (auto simp: spawning_def bind_res_def vault_arg_def split: option.splits)
  qed (use assms in \<open>auto simp: spawning_def bind_res_def\<close>)
next
  fix job s' assume a: "accept parse req s = (Spawn job, s')"
  have "\<exists>t. current_tick s = Inr t \<and> job_tick job = Some t \<and> s' = s"
  proof (cases "current_tick s")
    case (Inl e)
    then show ?thesis using a assms by (cases req) (simp_all add: spawning_def bind_res_def split: sum.splits if_splits)
  next
    case (Inr t)
    show ?thesis using a assms
      by (cases req) (simp_all add: Inr spawning_def bind_res_def split: sum.splits if_splits, use Inr in auto)
  qed
  then show "s' = s" "\<exists>t since. job_tick job = Some t \<and> ap_tick s = Some (t, since) \<and> ap_now s \<le> since + 180 * 10 ^ 9"
    by (auto simp: current_tick_def app_tick_def TICK_MAX_AGE_def le_diff_conv add.commute split: option.splits if_splits)
qed

theorem stale_tick_refused_witness:
  "\<exists>e. accept (\<lambda>_. None) (ReqRefresh None) (app_new sample_wallet keeper_opts_default) = (Answer (Inl e), app_new sample_wallet keeper_opts_default)"
  using stale_tick_refused[of "ReqRefresh None" "app_new sample_wallet keeper_opts_default" "\<lambda>_. None"]
  by (auto simp: app_new_def)

end
