(* ===== verification/Styx_Cli.thy ===== *)
theory Styx_Cli
  imports Styx_App
begin

text \<open>
  The owner's command line (\<open>styx-wallet/src/main.rs\<close>): it opens a session, syncs it, assembles a
  tick from the relays when the command needs one, and runs one operation. What it prints is
  modelled as the value it prints.

  Parameters: the parser of a relay key, the relay client, the parsers of an outpoint and of an
  address, and the key generator.
\<close>

section \<open>Commands\<close>

datatype cli_cmd =
    CmdKeygen
  | CmdAddress
  | CmdFund u64
  | CmdStatus
  | CmdOpen u64 "u64 option" "u32 option"
  | CmdRepay "string option" u64
  | CmdDraw "string option" u64
  | CmdRefresh "string option"
  | CmdClose "string option"
  | CmdRedeem "string option" u64
  | CmdSend string u64 bool

datatype cli_error =
    CliConfigMissing
  | CliConfig wallet_config_error
  | CliStyxnet styxnet_error
  | CliWallet wallet_error
  | CliRelayKey string
  | CliTooFewKeys nat
  | CliWalk walk_error
  | CliOutpoint string
  | CliAddress string

datatype cli_output =
    PrintKeys string string
  | PrintAddress script xonly
  | PrintFunded u64 outpoint
  | PrintStatus app_status "nat \<times> nat"
  | PrintReport string op_report
  | PrintSend txid

record cli_lib =
  cl_relay_key :: "string \<Rightarrow> string + xonly"
  cl_subscribe :: "string list \<Rightarrow> xonly list \<Rightarrow> transport_error + (u32 \<Rightarrow> transport_error + wire_quote list)"
  cl_outpoint :: "string \<Rightarrow> outpoint option"
  cl_address :: "string \<Rightarrow> string + script"
  cl_generate :: "nat \<Rightarrow> string"

section \<open>The tick\<close>

fun collect_keys :: "(string \<Rightarrow> string + xonly) \<Rightarrow> string list \<Rightarrow> string + xonly list" where
  "collect_keys parse [] = Inr []"
| "collect_keys parse (k # ks) = bind_res (parse k) (\<lambda>pk. bind_res (collect_keys parse ks) (\<lambda>pks. Inr (pk # pks)))"

definition relay_authors :: "cli_lib \<Rightarrow> styxnet_config \<Rightarrow> cli_error + xonly list" where
  "relay_authors X net =
     bind_res (map_err CliRelayKey (collect_keys (cl_relay_key X) (somes (map oe_nostr_pk (sn_oracles net))))) (\<lambda>authors.
     refuse_if (length authors < 3) (CliTooFewKeys (length authors)) (Inr authors))"

text \<open>The fetches come from the relays; the one request to the node is the height.\<close>

definition cli_tick ::
  "('p, 'f) wallet_env \<Rightarrow> cli_lib \<Rightarrow> styxnet_config \<Rightarrow> ('p, 'f) wallet \<Rightarrow> (cli_error + oracle_tick) \<times> ('p, 'f) wallet" where
  "cli_tick E X net w =
     (case bind_res (relay_authors X net) (\<lambda>authors. map_err (\<lambda>e. CliWalk (WalkTransport e)) (cl_subscribe X (ns_relays (sn_nostr net)) authors)) of
        Inl e \<Rightarrow> (Inl e, w)
      | Inr fetch \<Rightarrow>
          (case node_op E (\<lambda>calls. map_err WNode (node_height (calls 0))) w of
             (Inl e, w') \<Rightarrow> (Inl (CliWallet e), w')
           | (Inr tip, w') \<Rightarrow>
               (map_err CliWalk
                  (wallet_walk fetch (lb_sha256 (we_lib E)) (we_prover E) (BlockHeight tip) (walk_heights tip) (book_new (oracle_keys w'))), w')))"

section \<open>Running a command\<close>

definition cli_vault :: "cli_lib \<Rightarrow> string option \<Rightarrow> cli_error + outpoint option" where
  "cli_vault X v =
     (case v of
        None \<Rightarrow> Inr None
      | Some txt \<Rightarrow> (case cl_outpoint X txt of None \<Rightarrow> Inl (CliOutpoint txt) | Some op \<Rightarrow> Inr (Some op)))"

definition cli_call ::
  "('p, 'f) wallet_env \<Rightarrow> cli_error + wallet_call \<Rightarrow> ('p, 'f) wallet \<Rightarrow> (cli_error + cli_output) \<times> ('p, 'f) wallet" where
  "cli_call E call w =
     (case call of
        Inl e \<Rightarrow> (Inl e, w)
      | Inr c \<Rightarrow>
          (case run_call E c w of
             (Inl e, w') \<Rightarrow> (Inl (CliWallet e), w')
           | (Inr rep, w') \<Rightarrow> (Inr (PrintReport (call_kind c) rep), w')))"

definition with_tick ::
  "('p, 'f) wallet_env \<Rightarrow> cli_lib \<Rightarrow> styxnet_config \<Rightarrow> (oracle_tick \<Rightarrow> cli_error + wallet_call) \<Rightarrow> ('p, 'f) wallet \<Rightarrow>
     (cli_error + cli_output) \<times> ('p, 'f) wallet" where
  "with_tick E X net call w =
     (case cli_tick E X net w of
        (Inl e, w') \<Rightarrow> (Inl e, w')
      | (Inr t, w') \<Rightarrow> cli_call E (call t) w')"

definition cli_wallet :: "('a \<Rightarrow> cli_output) \<Rightarrow> (wallet_error + 'a) \<times> 'w \<Rightarrow> (cli_error + cli_output) \<times> 'w" where
  "cli_wallet out res = (case res of (r, w) \<Rightarrow> (map_err CliWallet (map_sum id out r), w))"

text \<open>The status is read from the session that has just been synced.\<close>

definition cli_status :: "('p, 'f) wallet_env \<Rightarrow> ('p, 'f, cli_output) wop" where
  "cli_status E =
     op_bind (op_gets (\<lambda>w. w)) (\<lambda>w.
     op_bind (lbtc_coins E) (\<lambda>lbtc.
     op_bind (obol_coins E) (\<lambda>obol.
     op_ret (PrintStatus
       \<lparr>sv_height = ix_height (wl_state w), sv_funding_spk = funding_spk E w, sv_lbtc_sats = coins_sum lbtc, sv_obol_units = coins_sum obol,
        sv_vaults = map (vault_view_of None) (my_vaults E w),
        sv_protocol = map_option app_protocol_of (ix_protocol (wl_state w)), sv_tick = None, sv_keeper = KmIdle\<rparr>
       (length lbtc, length obol)))))"

fun cli_command ::
  "('p, 'f) wallet_env \<Rightarrow> cli_lib \<Rightarrow> styxnet_config \<Rightarrow> cli_cmd \<Rightarrow> ('p, 'f) wallet \<Rightarrow> (cli_error + cli_output) \<times> ('p, 'f) wallet" where
  "cli_command E X net CmdKeygen w = (Inr (PrintKeys (cl_generate X 0) (cl_generate X 1)), w)"
| "cli_command E X net CmdAddress w = (Inr (PrintAddress (funding_spk E w) (owner_pk E w)), w)"
| "cli_command E X net (CmdFund v) w = cli_wallet (PrintFunded v) (fund E v w)"
| "cli_command E X net CmdStatus w = cli_wallet (\<lambda>x. x) (cli_status E w)"
| "cli_command E X net (CmdOpen prin collateral cr) w =
     with_tick E X net (\<lambda>t.
       bind_res (case collateral of Some c \<Rightarrow> Inr (Sats c) | None \<Rightarrow> map_err CliWallet (collateral_for (Obol prin) t cr)) (\<lambda>coll.
       Inr (CallOpen (Obol prin) coll t))) w"
| "cli_command E X net (CmdRepay v amount) w =
     cli_call E (bind_res (cli_vault X v) (\<lambda>which. Inr (CallRepay which (Obol amount)))) w"
| "cli_command E X net (CmdDraw v amount) w =
     with_tick E X net (\<lambda>t. bind_res (cli_vault X v) (\<lambda>which. Inr (CallDraw which (Obol amount) t))) w"
| "cli_command E X net (CmdRefresh v) w =
     with_tick E X net (\<lambda>t. bind_res (cli_vault X v) (\<lambda>which. Inr (CallRefresh which t))) w"
| "cli_command E X net (CmdClose v) w = cli_call E (bind_res (cli_vault X v) (\<lambda>which. Inr (CallClose which))) w"
| "cli_command E X net (CmdRedeem v x) w =
     with_tick E X net (\<lambda>t. bind_res (cli_vault X v) (\<lambda>which. Inr (CallRedeem which (Obol x) t))) w"
| "cli_command E X net (CmdSend dest amount lbtc) w =
     (case cl_address X dest of
        Inl e \<Rightarrow> (Inl (CliAddress e), w)
      | Inr spk \<Rightarrow> cli_wallet PrintSend (if lbtc then send_lbtc E spk (Sats amount) w else send_obol E spk (Obol amount) w))"

text \<open>The whole program; \<open>None\<close> when it ended before there was a session.\<close>

definition cli_run ::
  "('p, 'f) wallet_env \<Rightarrow> cli_lib \<Rightarrow> 'f session_files \<Rightarrow> (string \<Rightarrow> string + wallet_config) \<Rightarrow> (auth \<Rightarrow> string \<Rightarrow> node_error + call) \<Rightarrow>
     string option \<Rightarrow> cli_cmd \<Rightarrow> (cli_error + cli_output) \<times> ('p, 'f) wallet option" where
  "cli_run E X F from_toml connect config cmd =
     (if cmd = CmdKeygen then (Inr (PrintKeys (cl_generate X 0) (cl_generate X 1)), None)
      else case config of
        None \<Rightarrow> (Inl CliConfigMissing, None)
      | Some path \<Rightarrow>
          (case bind_res (map_err CliConfig (wallet_config_load from_toml (sf_styxnet F) path)) (\<lambda>cfg.
                bind_res (map_err CliStyxnet (styxnet_load (sf_toml F) (sf_styxnet F) (wc_styxnet cfg))) (\<lambda>net.
                bind_res (map_err CliWallet (open_session E F connect cfg)) (\<lambda>w. Inr (net, w)))) of
             Inl e \<Rightarrow> (Inl e, None)
           | Inr (net, w) \<Rightarrow>
               (case sync E w of
                  (Inl e, w') \<Rightarrow> (Inl (CliWallet e), Some w')
                | (Inr _, w') \<Rightarrow> apsnd Some (cli_command E X net cmd w'))))"

section \<open>What a command sends\<close>

text \<open>A tick of the deployment's oracles, at most eight blocks below the tip the node reported.\<close>

definition near_tip :: "('p, 'f) wallet_env \<Rightarrow> ('p, 'f) wallet \<Rightarrow> oracle_tick \<Rightarrow> bool" where
  "near_tip E w t \<longleftrightarrow>
     authentic E w t \<and>
     (\<exists>tip. node_height (we_calls E (wl_clock w) 0) = Inr tip \<and>
        height_raw (ot_height t) \<le> tip \<and> unat tip \<le> unat (height_raw (ot_height t)) + 8)"

definition open_amount :: "u64 \<Rightarrow> u64 option \<Rightarrow> u32 option \<Rightarrow> oracle_tick \<Rightarrow> sats \<Rightarrow> bool" where
  "open_amount prin collateral cr t coll \<longleftrightarrow>
     (case collateral of Some c \<Rightarrow> coll = Sats c | None \<Rightarrow> collateral_for (Obol prin) t cr = Inr coll)"

text \<open>The vault a command's argument names: no argument leaves it open, a text is parsed as an outpoint.\<close>

fun names :: "cli_lib \<Rightarrow> string option \<Rightarrow> outpoint option \<Rightarrow> bool" where
  "names X None which = (which = None)"
| "names X (Some txt) which = (\<exists>op. cl_outpoint X txt = Some op \<and> which = Some op)"

text \<open>What the node's wallet signed for the given outputs; the on-ramp's payment goes to the session's funding script.\<close>

definition paid_tx :: "('p, 'f) wallet_env \<Rightarrow> ('p, 'f) wallet \<Rightarrow> (script \<times> u64) list \<Rightarrow> transaction \<Rightarrow> bool" where
  "paid_tx E w outs tx \<longleftrightarrow>
     (\<exists>inputs change spk n. signed_tx (we_codec E) (nc_tx_hex (we_codec E)
        (pay_tx (pr_policy (cx_params (wl_ctx w))) outs inputs change spk)) (we_calls E n 0) = Inr tx)"

abbreviation funding_tx :: "('p, 'f) wallet_env \<Rightarrow> ('p, 'f) wallet \<Rightarrow> u64 \<Rightarrow> transaction \<Rightarrow> bool" where
  "funding_tx E w v \<equiv> paid_tx E w [(funding_spk E w, v)]"

text \<open>
  What a command may send. An operation on a vault acts on the vault its argument names (\<open>picked\<close>: of
  the wallet's own key, at the outpoint given, or the only own one when none is given).
\<close>

inductive commanded :: "('p, 'f) wallet_env \<Rightarrow> cli_lib \<Rightarrow> ('p, 'f) wallet \<Rightarrow> cli_cmd \<Rightarrow> transaction \<Rightarrow> bool" for E X w where
  cm_fund: "funding_tx E w v tx \<Longrightarrow> commanded E X w (CmdFund v) tx"
| cm_shape: "\<lbrakk>near_tip E w t; open_amount prin c cr t coll; open_need (Obol prin) coll t = Inr need; shaping_tx E need w tx\<rbrakk> \<Longrightarrow>
    commanded E X w (CmdOpen prin c cr) tx"
| cm_open: "\<lbrakk>near_tip E w t; open_amount prin c cr t coll; opened E (Obol prin) coll t w rep tx\<rbrakk> \<Longrightarrow> commanded E X w (CmdOpen prin c cr) tx"
| cm_repay_merge: "\<lbrakk>names X v which; consolidation E w tx\<rbrakk> \<Longrightarrow> commanded E X w (CmdRepay v amount) tx"
| cm_repay: "\<lbrakk>names X v which; repaid E which (Obol amount) w rep tx\<rbrakk> \<Longrightarrow> commanded E X w (CmdRepay v amount) tx"
| cm_draw: "\<lbrakk>names X v which; near_tip E w t; drawn E which (Obol amount) t w rep tx\<rbrakk> \<Longrightarrow> commanded E X w (CmdDraw v amount) tx"
| cm_refresh: "\<lbrakk>names X v which; near_tip E w t; refreshed E which t w rep tx\<rbrakk> \<Longrightarrow> commanded E X w (CmdRefresh v) tx"
| cm_close_merge: "\<lbrakk>names X v which; consolidation E w tx\<rbrakk> \<Longrightarrow> commanded E X w (CmdClose v) tx"
| cm_close: "\<lbrakk>names X v which; vault_closed E which w rep tx\<rbrakk> \<Longrightarrow> commanded E X w (CmdClose v) tx"
| cm_redeem_merge: "\<lbrakk>names X v which; near_tip E w t; consolidation E w tx\<rbrakk> \<Longrightarrow> commanded E X w (CmdRedeem v x) tx"
| cm_redeem: "\<lbrakk>names X v which; near_tip E w t; redeemed E which (Obol x) t w rep tx\<rbrakk> \<Longrightarrow> commanded E X w (CmdRedeem v x) tx"
| cm_send_merge: "consolidation E w tx \<Longrightarrow> commanded E X w (CmdSend dest amount False) tx"
| cm_send_obol: "\<lbrakk>cl_address X dest = Inr spk;
    strip tx = strip (pl_tx (send_obol_plan (cx_params (wl_ctx w)) (funding_spk E w) payer fee_coin spk amount))\<rbrakk> \<Longrightarrow>
    commanded E X w (CmdSend dest amount False) tx"
| cm_send_lbtc: "\<lbrakk>cl_address X dest = Inr spk; select_accumulate coins (amount + sats_raw FEE) = Some taken;
    strip tx = strip (pl_tx (pay_plan (cx_params (wl_ctx w)) (funding_spk E w) taken spk amount (coins_sum taken - (amount + sats_raw FEE))))\<rbrakk> \<Longrightarrow>
    commanded E X w (CmdSend dest amount True) tx"

lemma cli_vault_names: "cli_vault X v = Inr which \<Longrightarrow> names X v which"
proof (cases v)
  case (Some arg)
  then show "cli_vault X v = Inr which \<Longrightarrow> names X v which" by (cases "cl_outpoint X arg") (auto simp: cli_vault_def)
qed (simp add: cli_vault_def)

text \<open>The on-ramp broadcasts one payment at most, and exactly one when it reports a coin.\<close>

lemma broadcast_cases:
  "broadcast E tx w = (r, w') \<Longrightarrow> \<exists>n. w' = w\<lparr>wl_clock := n, wl_sent := (case r of Inl _ \<Rightarrow> wl_sent w | Inr _ \<Rightarrow> tx # wl_sent w)\<rparr>"
  by (auto simp: broadcast_def node_op_def split: sum.splits)

definition one_payment :: "('p, 'f) wallet_env \<Rightarrow> (script \<times> u64) list \<Rightarrow> ('p, 'f) wallet \<Rightarrow> (wallet_error + 'a) \<times> ('p, 'f) wallet \<Rightarrow> bool" where
  "one_payment E outs w res \<longleftrightarrow> session_of (snd res) = session_of w \<and>
     (if isl (fst res) then wl_sent (snd res) = wl_sent w \<or> (\<exists>tx. paid_tx E w outs tx \<and> wl_sent (snd res) = tx # wl_sent w)
      else \<exists>tx. paid_tx E w outs tx \<and> wl_sent (snd res) = tx # wl_sent w)"

lemma node_broadcast_cases:
  assumes "node_broadcast E tx w = (r, w')"
  shows "session_of w' = session_of w" "wl_sent w' = (if isl r then wl_sent w else tx # wl_sent w)"
proof -
  obtain q u where q: "broadcast E tx w = (q, u)" by force
  from broadcast_cases[OF q] assms
  show "session_of w' = session_of w" "wl_sent w' = (if isl r then wl_sent w else tx # wl_sent w)"
    by (auto simp: node_broadcast_def q session_of_def split: sum.splits wallet_error.splits)
qed

text \<open>A payment that fails has sent nothing.\<close>

lemma node_pay_cases:
  assumes pay: "node_pay E outs what w = (r, w')"
  shows "session_of w' = session_of w" "isl r \<Longrightarrow> wl_sent w' = wl_sent w"
    "\<not> isl r \<Longrightarrow> \<exists>tx. paid_tx E w outs tx \<and> wl_sent w' = tx # wl_sent w"
proof -
  let ?K = "we_codec E" and ?pol = "pr_policy (cx_params (wl_ctx w))" and ?spend = "sum_list (map snd outs) + sats_raw FEE"
  let ?sign = "\<lambda>inputs change spk. node_op E (\<lambda>calls. map_err WNode (signed_tx ?K (nc_tx_hex ?K (pay_tx ?pol outs inputs change spk)) (calls 0)))"
  let ?addr = "\<lambda>change. if 0 < change then node_op E (\<lambda>calls. map_err WNode (new_address ?K (calls 0))) else op_ret []"
  define u where "u = w\<lparr>wl_clock := Suc (wl_clock w)\<rparr>"
  have P: "session_of w' = session_of w \<and> (if isl r then wl_sent w' = wl_sent w else \<exists>tx. paid_tx E w outs tx \<and> wl_sent w' = tx # wl_sent w)"
  proof (cases "select_coins ?K (we_calls E (wl_clock w) 0) ?pol ?spend what")
    case (Inl e)
    with pay show ?thesis by (auto simp: node_pay_def Let_def op_bind_def node_op_def map_err_def)
  next
    case (Inr sel)
    let ?change = "snd sel - ?spend"
    obtain q v where q: "?addr ?change u = (q, v)" by force
    have v: "session_of v = session_of w" "wl_sent v = wl_sent w"
      using q by (auto simp: node_op_def op_ret_def u_def split: if_splits)
    from pay Inr have rest: "op_bind (?addr ?change) (\<lambda>spk. op_bind (?sign (fst sel) ?change spk) (node_broadcast E)) u = (r, w')"
      by (simp add: node_pay_def Let_def op_bind_def[of "node_op E (\<lambda>calls. map_err WNode (select_coins ?K (calls 0) ?pol ?spend what))"]
          node_op_def[of E "\<lambda>calls. map_err WNode (select_coins ?K (calls 0) ?pol ?spend what)"] map_err_def[of WNode "Inr _"] u_def case_prod_beta)
    show ?thesis
    proof (cases q)
      case (Inl e)
      with rest q v show ?thesis by (auto simp: op_bind_def)
    next
      case (Inr spk)
      with rest q have snd: "op_bind (?sign (fst sel) ?change spk) (node_broadcast E) v = (r, w')" by (simp add: op_bind_def)
      show ?thesis
      proof (cases "signed_tx ?K (nc_tx_hex ?K (pay_tx ?pol outs (fst sel) ?change spk)) (we_calls E (wl_clock v) 0)")
        case (Inl e)
        with snd v show ?thesis by (auto simp: op_bind_def node_op_def map_err_def)
      next
        case (Inr tx)
        with snd have "node_broadcast E tx (v\<lparr>wl_clock := Suc (wl_clock v)\<rparr>) = (r, w')" by (simp add: op_bind_def node_op_def map_err_def)
        moreover have "paid_tx E w outs tx" unfolding paid_tx_def using Inr by blast
        ultimately show ?thesis using node_broadcast_cases[of E tx "v\<lparr>wl_clock := Suc (wl_clock v)\<rparr>" r w'] v by auto
      qed
    qed
  qed
  then show "session_of w' = session_of w" "isl r \<Longrightarrow> wl_sent w' = wl_sent w"
    "\<not> isl r \<Longrightarrow> \<exists>tx. paid_tx E w outs tx \<and> wl_sent w' = tx # wl_sent w" by simp_all
qed

lemma paid_tx_session: "session_of w' = session_of w \<Longrightarrow> paid_tx E w' = paid_tx E w"
  using session_views(1)[of w' w] by (simp add: paid_tx_def fun_eq_iff)

lemma fund_attempts_payment: "one_payment E [(spk, value)] w (fund_attempts E spk value n last_err w)"
proof (induction n arbitrary: last_err w)
  case 0
  then show ?case by (simp add: one_payment_def)
next
  case (Suc n)
  obtain q u where q: "node_pay E [(spk, value)] ''fund_address'' w = (q, u)" by force
  note c = node_pay_cases[OF q]
  show ?case
  proof (cases q)
    case (Inr txid)
    then show ?thesis using c by (auto simp: one_payment_def q node_op_def)
  next
    case (Inl e)
    with c have u: "session_of u = session_of w" "wl_sent u = wl_sent w" by simp_all
    show ?thesis
    proof (cases "\<exists>m. e = WNode (Funding m)")
      case True
      then obtain m where "e = WNode (Funding m)" by blast
      with Inl q have again: "fund_attempts E spk value (Suc n) last_err w = fund_attempts E spk value n (Some (Funding m)) u" by simp
      from Suc.IH[of u "Some (Funding m)"] show ?thesis unfolding again one_payment_def u paid_tx_session[OF u(1), of E] .
    next
      case False
      then have "fund_attempts E spk value (Suc n) last_err w = (Inl e, u)"
        using Inl by (auto simp: q split: wallet_error.splits node_error.splits)
      then show ?thesis using u by (simp add: one_payment_def)
    qed
  qed
qed

lemma fund_payment: "one_payment E [(funding_spk E w, v)] w (fund E v w)"
  unfolding fund_def fund_address_def by (rule fund_attempts_payment)

lemma cli_tick_near:
  assumes "cli_tick E X net w = (r, u)"
  shows "session_of u = session_of w" "wl_sent u = wl_sent w" "r = Inr t \<Longrightarrow> near_tip E w t"
proof -
  obtain n where u: "u = w \<or> u = w\<lparr>wl_clock := n\<rparr>"
    using assms by (auto simp: cli_tick_def node_op_def split: sum.splits prod.splits)
  then show "session_of u = session_of w" "wl_sent u = wl_sent w" by (auto simp: session_of_def)
  assume "r = Inr t"
  with assms obtain fetch tip where tip: "node_height (we_calls E (wl_clock w) 0) = Inr tip"
    and "wallet_walk fetch (lb_sha256 (we_lib E)) (we_prover E) (BlockHeight tip) (walk_heights tip) (book_new (oracle_keys w)) = Inr t"
    by (auto simp: cli_tick_def node_op_def map_err_def split: sum.splits prod.splits)
  from wallet_walk_tick[OF this(2) book_start[of _ _ _ DEFAULT_HORIZON DEFAULT_DRIFT, folded book_new_def]]
  have t: "tick_from (lb_sha256 (we_lib E)) (we_prover E) (oracle_keys w) (walk_heights tip) t" by (simp add: book_new_def book_with_window_def)
  then have "height_raw (ot_height t) \<in> set (walk_heights tip)" by (simp add: tick_from_def)
  with walk_heights_near[OF this] tip t show "near_tip E w t" by (auto simp: near_tip_def authentic_def tick_from_def)
qed

lemma kept_start: "\<lbrakk>kept C u v; session_of u = session_of w; wl_sent u = wl_sent w\<rbrakk> \<Longrightarrow> kept C w v"
  by (simp add: kept_def)

text \<open>A signed plan is the only thing a broadcast adds.\<close>

lemma broadcast_kept:
  assumes "sign_and_broadcast E plan u = (r, v)" "kept C w u" "\<And>tx. strip tx = strip (pl_tx plan) \<Longrightarrow> C tx"
  shows "kept C w v"
  using sign_and_broadcast_sent[OF assms(1)] assms(2,3) by (cases r) (auto simp: kept_def session_of_def dest!: wallet_sign_body)

text \<open>A call on a session keeps it, and sends what the command asked for.\<close>

lemma run_call_sends:
  assumes "run_call E c u = (r, v)" "session_of u = session_of w"
  shows "case c of
      CallOpen prin coll t \<Rightarrow>
        kept (\<lambda>tx. (\<exists>need. open_need prin coll t = Inr need \<and> shaping_tx E need w tx) \<or> (\<exists>rep. opened E prin coll t w rep tx)) u v
    | CallRepay which amount \<Rightarrow> kept (\<lambda>tx. consolidation E w tx \<or> (\<exists>rep. repaid E which amount w rep tx)) u v
    | CallDraw which amount t \<Rightarrow> kept (\<lambda>tx. \<exists>rep. drawn E which amount t w rep tx) u v
    | CallRefresh which t \<Rightarrow> kept (\<lambda>tx. \<exists>rep. refreshed E which t w rep tx) u v
    | CallClose which \<Rightarrow> kept (\<lambda>tx. consolidation E w tx \<or> (\<exists>rep. vault_closed E which w rep tx)) u v
    | CallRedeem which amount t \<Rightarrow> kept (\<lambda>tx. consolidation E w tx \<or> (\<exists>rep. redeemed E which amount t w rep tx)) u v"
proof -
  note sess = consolidation_session[OF assms(2), of E] shaping_tx_session[OF assms(2), of E] op_tx_session[OF assms(2), of E]
  show ?thesis
  proof (cases c)
    case (CallOpen prin coll t)
    then show ?thesis
      using wallet_open_post[where E = E and prin = prin and collateral = coll and tick = t and w = u] assms(1) sess
      by (auto simp: kept_def shaping_trace_def split: sum.splits)
  next
    case (CallRepay which amount)
    then show ?thesis using owner_ops_send(2)[of E u which amount] assms(1) sess by (auto intro: sends_kept)
  next
    case (CallDraw which amount t)
    then show ?thesis using owner_ops_send(4)[of E which amount t u] assms(1) sess by (auto intro: sends_kept)
  next
    case (CallRefresh which t)
    then show ?thesis using owner_ops_send(5)[of E which t u] assms(1) sess by (auto intro: sends_kept)
  next
    case (CallClose which)
    then show ?thesis using owner_ops_send(1)[of E u which] assms(1) sess by (auto intro: sends_kept)
  next
    case (CallRedeem which amount t)
    then show ?thesis using owner_ops_send(3)[of E u which amount t] assms(1) sess by (auto intro: sends_kept)
  qed
qed

text \<open>What a command may send, before and after its tick.\<close>

definition calling :: "('p, 'f) wallet_env \<Rightarrow> (transaction \<Rightarrow> bool) \<Rightarrow> ('p, 'f) wallet \<Rightarrow> wallet_call \<Rightarrow> bool" where
  "calling E C w c \<longleftrightarrow> (\<forall>u r v. session_of u = session_of w \<longrightarrow> run_call E c u = (r, v) \<longrightarrow> kept C u v)"

lemma cli_call_kept:
  assumes "cli_call E call u = (r, v)" "session_of u = session_of w" "\<And>c. call = Inr c \<Longrightarrow> calling E C w c"
  shows "kept C u v"
  using assms by (auto simp: cli_call_def calling_def split: sum.splits prod.splits)

lemma with_tick_kept:
  assumes "with_tick E X net call w = (r, v)" "\<And>t c. \<lbrakk>near_tip E w t; call t = Inr c\<rbrakk> \<Longrightarrow> calling E C w c"
  shows "kept C w v"
proof -
  obtain q u where q: "cli_tick E X net w = (q, u)" by force
  note u = cli_tick_near[OF q]
  show ?thesis
  proof (cases q)
    case (Inl e)
    with assms q u(1,2) show ?thesis by (auto simp: with_tick_def kept_def)
  next
    case (Inr t)
    with assms(1) q have "cli_call E (call t) u = (r, v)" by (simp add: with_tick_def)
    then have "kept C u v" by (rule cli_call_kept) (use assms(2)[OF u(3)[OF Inr]] u(1) in auto)
    then show ?thesis using u(1,2) by (rule kept_start)
  qed
qed

lemma callingI:
  assumes "\<And>u r v. \<lbrakk>session_of u = session_of w; run_call E c u = (r, v)\<rbrakk> \<Longrightarrow> kept D u v" "\<And>tx. D tx \<Longrightarrow> C tx"
  shows "calling E C w c"
  unfolding calling_def by (intro allI impI kept_weaken[OF assms(1) assms(2)])

lemma commanded_calls:
  "\<lbrakk>near_tip E w t; open_amount prin c cr t coll\<rbrakk> \<Longrightarrow> calling E (commanded E X w (CmdOpen prin c cr)) w (CallOpen (Obol prin) coll t)"
  "names X v which \<Longrightarrow> calling E (commanded E X w (CmdRepay v amount)) w (CallRepay which (Obol amount))"
  "\<lbrakk>names X v which; near_tip E w t\<rbrakk> \<Longrightarrow> calling E (commanded E X w (CmdDraw v amount)) w (CallDraw which (Obol amount) t)"
  "\<lbrakk>names X v which; near_tip E w t\<rbrakk> \<Longrightarrow> calling E (commanded E X w (CmdRefresh v)) w (CallRefresh which t)"
  "names X v which \<Longrightarrow> calling E (commanded E X w (CmdClose v)) w (CallClose which)"
  "\<lbrakk>names X v which; near_tip E w t\<rbrakk> \<Longrightarrow> calling E (commanded E X w (CmdRedeem v amount)) w (CallRedeem which (Obol amount) t)"
  by (rule callingI, drule (1) run_call_sends[rotated], simp, fastforce intro: commanded.intros)+

lemma send_obol_kept:
  assumes "send_obol E spk (Obol amount) w = (r, v)" "cl_address X dest = Inr spk"
  shows "kept (commanded E X w (CmdSend dest amount False)) w v"
proof -
  let ?prep = "op_bind (ensure_obol E amount) (\<lambda>payer. op_bind (pick_lbtc E FEE_COIN_MIN) (\<lambda>fee_coin. op_ret (payer, fee_coin)))"
  obtain q u where q: "?prep w = (q, u)" by force
  have "merging E ?prep" by (intro merging_bind) simp_all
  then have "merged E w u" using q unfolding merging_def by blast
  then have u: "kept (commanded E X w (CmdSend dest amount False)) w u" by (rule kept_weaken) (rule cm_send_merge)
  show ?thesis
  proof (cases q)
    case (Inl e)
    then have "v = u" using assms(1) q by (auto simp: send_obol_def op_bind_def op_ret_def split: sum.splits prod.splits)
    then show ?thesis using u by simp
  next
    case (Inr pf)
    then have "sign_and_broadcast E (send_obol_plan (cx_params (wl_ctx u)) (funding_spk E u) (fst pf) (snd pf) spk amount) u = (r, v)"
      using assms(1) q by (auto simp: send_obol_def op_bind_def op_ret_def split: sum.splits prod.splits)
    then show ?thesis using u session_views[OF kept_session[OF u]] assms(2) by (auto intro!: cm_send_obol elim!: broadcast_kept)
  qed
qed

lemma send_lbtc_kept:
  assumes "send_lbtc E spk (Sats amount) w = (r, v)" "cl_address X dest = Inr spk"
  shows "kept (commanded E X w (CmdSend dest amount True)) w v"
proof -
  obtain q u where q: "lbtc_coins E w = (q, u)" by force
  then have u: "u = w\<lparr>wl_clock := Suc (wl_clock w)\<rparr>" by (simp add: lbtc_coins_def node_op_def)
  show ?thesis
  proof (cases "\<exists>coins taken. q = Inr coins \<and> select_accumulate coins (amount + sats_raw FEE) = Some taken")
    case False
    then have "v = u" using assms(1) q by (cases q) (auto simp: send_lbtc_def op_bind_def Let_def split: option.splits)
    then show ?thesis using u by simp
  next
    case True
    then obtain coins taken where sel: "q = Inr coins" "select_accumulate coins (amount + sats_raw FEE) = Some taken" by blast
    then have "sign_and_broadcast E
        (pay_plan (cx_params (wl_ctx u)) (funding_spk E u) taken spk amount (coins_sum taken - (amount + sats_raw FEE))) u = (r, v)"
      using assms(1) q by (simp add: send_lbtc_def op_bind_def Let_def)
    moreover have "kept (commanded E X w (CmdSend dest amount True)) w u" using u by simp
    moreover have "session_of u = session_of w" by (simp add: u session_of_def)
    ultimately show ?thesis using session_views[of u w] sel(2) assms(2) by (auto intro!: cm_send_lbtc elim!: broadcast_kept)
  qed
qed

section \<open>Properties\<close>


end
