(* ===== verification/Styx_Start.thy ===== *)
theory Styx_Start
  imports Styx_Cli
begin

text \<open>
  How the long-running programs come up: the keeper's daemon (\<open>styx-keeper/src/config.rs\<close> and the
  head of \<open>main.rs\<close>) with its wait for a node that is still warming up, and the application server
  (\<open>styx-app/src/main.rs\<close>), whose tick loop and request gate are fixed by the configuration.

  Parameters: the TOML reader, the file system, the node's answers to each attempt, the relay client
  and the random bytes of the session token.
\<close>

section \<open>The keeper\<close>

definition keeper_default_poke_lag :: u32 where "keeper_default_poke_lag = 4"
definition keeper_default_refresh_lag :: u32 where "keeper_default_refresh_lag = 16"
definition keeper_default_walkback :: u32 where "keeper_default_walkback = 8"
definition keeper_default_poll_ms :: u64 where "keeper_default_poll_ms = 1000"

definition keeper_config_parse :: "(string \<Rightarrow> string + keeper_config) \<Rightarrow> string \<Rightarrow> wallet_config_error + keeper_config" where
  "keeper_config_parse from_toml text = map_err WalletConfigToml (from_toml text)"

definition keeper_config_load ::
  "(string \<Rightarrow> string + keeper_config) \<Rightarrow> (string \<Rightarrow> string option) \<Rightarrow> string \<Rightarrow> wallet_config_error + keeper_config" where
  "keeper_config_load from_toml read path =
     (case read path of None \<Rightarrow> Inl WalletConfigIo | Some text \<Rightarrow> keeper_config_parse from_toml text)"

definition BOOT_FATAL_MS :: nat where "BOOT_FATAL_MS = 600 * 1000"

text \<open>
  The boot loop: attempt \<open>n\<close> answers \<open>att n\<close> after \<open>took n\<close> milliseconds, \<open>ms\<close> have passed before it.
  Only a node that is down is waited for, two seconds at a time.
\<close>

function keeper_boot :: "(nat \<Rightarrow> wallet_error + 'w) \<Rightarrow> (nat \<Rightarrow> nat) \<Rightarrow> nat \<Rightarrow> nat \<Rightarrow> (wallet_error + 'w) \<times> nat" where
  "keeper_boot att took n ms =
     (case att n of
        Inr w \<Rightarrow> (Inr w, n)
      | Inl e \<Rightarrow>
          if is_node_down e \<and> ms + took n < BOOT_FATAL_MS then keeper_boot att took (Suc n) (ms + took n + 2000)
          else (Inl e, n))"
  by pat_completeness auto
termination
  by (relation "measure (\<lambda>(att, took, n, ms). BOOT_FATAL_MS - ms)") auto

declare keeper_boot.simps [simp del]

datatype keeper_start_error =
    KsConfig wallet_config_error
  | KsStyxnet styxnet_error
  | KsWallet wallet_error
  | KsRelay cli_error

definition keeper_start_daemon ::
  "('p, 'f) wallet_env \<Rightarrow> cli_lib \<Rightarrow> 'f session_files \<Rightarrow> (string \<Rightarrow> string + keeper_config) \<Rightarrow> (nat \<Rightarrow> auth \<Rightarrow> string \<Rightarrow> node_error + call) \<Rightarrow>
     (nat \<Rightarrow> nat) \<Rightarrow> string \<Rightarrow> keeper_start_error + ('p, 'f) keeper \<times> (u32 \<Rightarrow> transport_error + wire_quote list)" where
  "keeper_start_daemon E X F from_toml connect took path =
     bind_res (map_err KsConfig (keeper_config_load from_toml (sf_styxnet F) path)) (\<lambda>cfg.
     bind_res (map_err KsStyxnet (styxnet_load (sf_toml F) (sf_styxnet F) (wc_styxnet (kc_purse cfg)))) (\<lambda>net.
     bind_res (map_err KsWallet (fst (keeper_boot (\<lambda>n. open_session E F (connect n) (kc_purse cfg)) took 0 0))) (\<lambda>purse.
     bind_res (map_err KsRelay (relay_authors X net)) (\<lambda>authors.
     bind_res (map_err (\<lambda>e. KsRelay (CliWalk (WalkTransport e))) (cl_subscribe X (ns_relays (sn_nostr net)) authors)) (\<lambda>sub.
     Inr (keeper_new purse (keeper_config_opts cfg), sub))))))"

section \<open>The application server\<close>

text \<open>The tick loop runs only with three oracle transport keys and a relay; a key that does not parse is skipped.\<close>

definition tick_authors :: "(string \<Rightarrow> string + xonly) \<Rightarrow> styxnet_config \<Rightarrow> xonly list option" where
  "tick_authors parse net =
     (let authors = somes (map (\<lambda>k. case parse k of Inl _ \<Rightarrow> None | Inr pk \<Rightarrow> Some pk) (somes (map oe_nostr_pk (sn_oracles net))))
      in if length authors < 3 \<or> ns_relays (sn_nostr net) = [] then None else Some authors)"

datatype app_start_error =
    AsConfig app_config_error
  | AsWallet wallet_error
  | AsStyxnet styxnet_error
  | AsAuth wallet_config_error
  | AsNode node_error

definition app_start ::
  "('p, 'f) wallet_env \<Rightarrow> cli_lib \<Rightarrow> 'f session_files \<Rightarrow> (string \<Rightarrow> string + app_config) \<Rightarrow> (string \<Rightarrow> socket_addr option) \<Rightarrow>
     string option \<Rightarrow> (auth \<Rightarrow> string \<Rightarrow> node_error + call) \<Rightarrow> bytes \<Rightarrow> string \<Rightarrow>
     app_start_error + socket_addr \<times> gate \<times> ('p, 'f) app_state \<times> xonly list option" where
  "app_start E X F from_toml parse_addr env connect rnd path =
     bind_res (map_err AsConfig (app_config_load from_toml parse_addr env (sf_styxnet F) path)) (\<lambda>cfg.
     bind_res (map_err AsConfig (app_bind parse_addr env cfg)) (\<lambda>(addr, hosts, origins).
     bind_res (map_err AsWallet (open_session E F connect (ac_purse cfg))) (\<lambda>w.
     bind_res (map_err AsStyxnet (styxnet_load (sf_toml F) (sf_styxnet F) (wc_styxnet (ac_purse cfg)))) (\<lambda>net.
     bind_res (map_err AsAuth (wallet_config_auth (ac_purse cfg))) (\<lambda>auth.
     bind_res (map_err AsNode (connect auth (wc_rpc_url (ac_purse cfg)))) (\<lambda>node.
     Inr (addr, mint_proxied rnd addr hosts origins, app_new w (keeper_section_opts (ac_keeper cfg)), tick_authors (cl_relay_key X) net)))))))"

section \<open>Waiting for the node\<close>

text \<open>
  The boot ends after at most 301 attempts: every attempt before the last failed because the node
  was down, and the last one either opened the session, or failed for another reason, or failed
  after ten minutes.
\<close>

lemma keeper_boot_ends:
  "case keeper_boot att took n ms of
     (r, m) \<Rightarrow> n \<le> m \<and> m \<le> n + (BOOT_FATAL_MS - ms + 1999) div 2000 \<and> r = att m \<and>
       (\<forall>i. n \<le> i \<and> i < m \<longrightarrow> (\<exists>e. att i = Inl e \<and> is_node_down e)) \<and>
       (\<forall>e. r = Inl e \<and> is_node_down e \<longrightarrow> BOOT_FATAL_MS \<le> ms + sum took {n..m} + 2000 * (m - n))"
proof (induction att took n ms rule: keeper_boot.induct)
  case (1 att took n ms)
  show ?case
  proof (cases "\<exists>e. att n = Inl e \<and> is_node_down e \<and> ms + took n < BOOT_FATAL_MS")
    case True
    then obtain e where e: "att n = Inl e" "is_node_down e" "ms + took n < BOOT_FATAL_MS" by blast
    obtain r m where rec: "keeper_boot att took (Suc n) (ms + took n + 2000) = (r, m)" by force
    note IH = "1.IH"[OF e(1) conjI[OF e(2,3)], unfolded rec prod.case]
    have "(BOOT_FATAL_MS - (ms + took n + 2000) + 1999) div 2000 < (BOOT_FATAL_MS - ms + 1999) div 2000"
    proof -
      have "(BOOT_FATAL_MS - (ms + took n + 2000) + 1999) div 2000 + 1 = (BOOT_FATAL_MS - (ms + took n + 2000) + 1999 + 2000) div 2000" by simp
      also have "\<dots> \<le> (if ms + took n + 2000 \<le> BOOT_FATAL_MS then BOOT_FATAL_MS - ms + 1999 else 3999) div 2000"
        by (intro div_le_mono) (use e(3) in auto)
      also have "\<dots> \<le> (BOOT_FATAL_MS - ms + 1999) div 2000"
      proof (cases "ms + took n + 2000 \<le> BOOT_FATAL_MS")
        case False
        have "2000 div 2000 \<le> (BOOT_FATAL_MS - ms + 1999) div 2000" using e(3) by (intro div_le_mono) linarith
        with False show ?thesis by simp
      qed simp
      finally show ?thesis by simp
    qed
    moreover have "sum took {n..m} = took n + sum took {Suc n..m}" using IH by (simp add: sum.atLeast_Suc_atMost)
    moreover have "\<exists>e. att i = Inl e \<and> is_node_down e" if "n \<le> i" "i < m" for i using that e(1,2) IH by (cases "i = n") auto
    ultimately show ?thesis using IH e rec by (auto simp: keeper_boot.simps[of att took n ms])
  next
    case False
    then have "keeper_boot att took n ms = (att n, n)" by (auto simp: keeper_boot.simps[of att took n ms] split: sum.splits)
    then show ?thesis using False by (auto simp: not_less)
  qed
qed

end
