(* ===== verification/Styx_Explorer.thy ===== *)
theory Styx_Explorer
  imports Styx_Gate Styx_Transport Styx_Keeper
begin

text \<open>
  The public explorer (\<open>styx-explorer/src/state.rs\<close>, \<open>render.rs\<close>, \<open>serve.rs\<close>, \<open>config.rs\<close> and
  \<open>main.rs\<close>): the shared state, the loops that feed it, the view of it and the page, which is a
  function of the view.

  Parameters: the texts of an outpoint, a block hash and an event (library and derived formatting),
  the stylesheet, and the TOML reader. Text is a list of bytes.
\<close>

section \<open>State\<close>

definition EVENTS_KEPT :: nat where "EVENTS_KEPT = 100"
definition EXPLORER_TICK_MAX_AGE :: nat where "EXPLORER_TICK_MAX_AGE = 180 * 10 ^ 9"
definition TICK_FRESH_SECS :: nat where "TICK_FRESH_SECS = 90"

record explorer_state =
  es_index :: index_state
  es_events :: "notice list"
  es_tick :: "(oracle_tick \<times> nat \<times> block_hash option) option"
  es_slot_seen :: "nat option list"
  es_slot_name :: "string option list"
  es_slot_price :: "u32 option list"
  es_relay :: "string option"
  es_now :: nat

definition explorer_new :: "index_state \<Rightarrow> string option \<Rightarrow> explorer_state" where
  "explorer_new index relay =
     \<lparr>es_index = index, es_events = [], es_tick = None, es_slot_seen = replicate 5 None, es_slot_name = replicate 5 None,
      es_slot_price = replicate 5 None, es_relay = relay, es_now = 0\<rparr>"

definition push_events :: "notice list \<Rightarrow> explorer_state \<Rightarrow> explorer_state" where
  "push_events notices s = s\<lparr>es_events := take EVENTS_KEPT (fold (#) notices (es_events s))\<rparr>"

definition explorer_set_tick :: "oracle_tick \<Rightarrow> block_hash option \<Rightarrow> explorer_state \<Rightarrow> explorer_state" where
  "explorer_set_tick t hash s = s\<lparr>es_tick := Some (t, es_now s, hash)\<rparr>"

definition explorer_tick :: "explorer_state \<Rightarrow> (oracle_tick \<times> nat \<times> block_hash option) option" where
  "explorer_tick s =
     (case es_tick s of
        None \<Rightarrow> None
      | Some (t, since, hash) \<Rightarrow>
          if es_now s - since \<le> EXPLORER_TICK_MAX_AGE then Some (t, (es_now s - since) div 10 ^ 9, hash) else None)"

definition saw_slot :: "nat \<Rightarrow> string \<Rightarrow> u32 \<Rightarrow> explorer_state \<Rightarrow> explorer_state" where
  "saw_slot slot name price s =
     s\<lparr>es_slot_seen := (es_slot_seen s)[slot := Some (es_now s)],
       es_slot_name := (es_slot_name s)[slot := (if name = [] then None else Some name)],
       es_slot_price := (es_slot_price s)[slot := Some price]\<rparr>"

section \<open>The view\<close>

definition explorer_cr_percent :: "obol \<Rightarrow> sats \<Rightarrow> price option \<Rightarrow> u32 option" where
  "explorer_cr_percent debt coll hi =
     (case (hi, covenant_cents debt) of
        (Some p, Inr cents) \<Rightarrow>
          if cents = 0 then None
          else let par = sats_raw (coll_at_cr cents p K_PAR) in
               if par = 0 then None
               else let q = sat_mul (sats_raw coll) 100 div par in
                    if unat q < 2 ^ 32 then Some (ucast q) else None
      | _ \<Rightarrow> None)"

definition band :: "obol \<Rightarrow> sats \<Rightarrow> price option \<Rightarrow> string" where
  "band debt coll hi =
     (if debt = Obol 0 then ''husk''
      else case (hi, covenant_cents debt) of
        (Some p, Inr cents) \<Rightarrow>
          if coll < coll_at_cr cents p K_PAR then ''bad-debt''
          else if coll \<le> coll_at_cr cents p K_FULL_LIQ_CAP then ''full-liq''
          else if coll < coll_at_cr cents p K_HEALTH_GATE then ''partial''
          else ''healthy''
      | _ \<Rightarrow> ''unpriced'')"

record singleton_view =
  sg_name :: string
  sg_outpoint :: string
  sg_txid :: string

record protocol_view =
  pv_pot_units :: u64
  pv_reserve_sats :: u64
  pv_issuer_anchor :: u32
  pv_singletons :: "singleton_view list"

record tick_view =
  tk_height :: u32
  tk_lo :: u32
  tk_hi :: u32
  tk_age_secs :: nat
  tk_block_hash :: "string option"

record explorer_vault =
  xv_outpoint :: string
  xv_txid :: string
  xv_debt_units :: u64
  xv_collateral_sats :: u64
  xv_last_height :: u32
  xv_cr_percent :: "u32 option"
  xv_band :: string

record event_view =
  ev_height :: u32
  ev_txid :: string
  ev_what :: string

record view =
  vw_height :: u32
  vw_protocol :: "protocol_view option"
  vw_tick :: "tick_view option"
  vw_pricing_stale :: bool
  vw_vaults :: "explorer_vault list"
  vw_lost :: nat
  vw_events :: "event_view list"
  vw_oracle_age_secs :: "nat option list"
  vw_oracle_name :: "string option list"
  vw_oracle_price :: "u32 option list"
  vw_relay :: "string option"

record show_lib =
  sl_outpoint :: "outpoint \<Rightarrow> string"
  sl_block_hash :: "block_hash \<Rightarrow> string"
  sl_event :: "event \<Rightarrow> string"

definition singleton_of :: "show_lib \<Rightarrow> string \<Rightarrow> outpoint \<Rightarrow> singleton_view" where
  "singleton_of F name op = \<lparr>sg_name = name, sg_outpoint = sl_outpoint F op, sg_txid = txid_display (op_txid op)\<rparr>"

definition protocol_view_of :: "show_lib \<Rightarrow> protocol_state \<Rightarrow> protocol_view" where
  "protocol_view_of F p =
     \<lparr>pv_pot_units = obol_raw (oc_value (ps_pot p)), pv_reserve_sats = sats_raw (oc_value (ps_reserve p)),
      pv_issuer_anchor = height_raw (is_last_mint_height (oc_state (ps_issuer p))),
      pv_singletons = [singleton_of F ''pot'' (oc_outpoint (ps_pot p)), singleton_of F ''reserve'' (oc_outpoint (ps_reserve p)),
        singleton_of F ''issuer'' (oc_outpoint (ps_issuer p))]\<rparr>"

definition explorer_vault_of :: "show_lib \<Rightarrow> price option \<Rightarrow> outpoint \<times> tracked_vault \<Rightarrow> explorer_vault" where
  "explorer_vault_of F hi = (\<lambda>(op, v).
     \<lparr>xv_outpoint = sl_outpoint F op, xv_txid = txid_display (op_txid op), xv_debt_units = obol_raw (tv_debt v),
      xv_collateral_sats = sats_raw (tv_value v), xv_last_height = height_raw (tv_last_height v),
      xv_cr_percent = explorer_cr_percent (tv_debt v) (tv_value v) hi, xv_band = band (tv_debt v) (tv_value v) hi\<rparr>)"

definition danger :: "explorer_vault \<Rightarrow> u32" where
  "danger v = (case xv_cr_percent v of None \<Rightarrow> - 1 | Some c \<Rightarrow> c)"

definition view_of :: "show_lib \<Rightarrow> explorer_state \<Rightarrow> view" where
  "view_of F s =
     (let ticked = explorer_tick s;
          hi = map_option (\<lambda>(t, _). snd (price_range t)) ticked;
          index = es_index s
      in \<lparr>vw_height = ix_height index,
          vw_protocol = map_option (protocol_view_of F) (ix_protocol index),
          vw_tick = map_option (\<lambda>(t, age, hash).
            \<lparr>tk_height = height_raw (ot_height t), tk_lo = price_raw (fst (price_range t)), tk_hi = price_raw (snd (price_range t)),
             tk_age_secs = age, tk_block_hash = map_option (sl_block_hash F) hash\<rparr>) ticked,
          vw_pricing_stale = (case ticked of None \<Rightarrow> False | Some (_, age, _) \<Rightarrow> TICK_FRESH_SECS < age),
          vw_vaults = sort_key danger (map (explorer_vault_of F hi) (vault_entries index)),
          vw_lost = fcard (fmdom (ix_lost index)),
          vw_events = map (\<lambda>n. \<lparr>ev_height = no_height n, ev_txid = txid_display (no_txid n), ev_what = sl_event F (no_event n)\<rparr>) (es_events s),
          vw_oracle_age_secs = map (map_option (\<lambda>seen. (es_now s - seen) div 10 ^ 9)) (es_slot_seen s),
          vw_oracle_name = es_slot_name s,
          vw_oracle_price = es_slot_price s,
          vw_relay = es_relay s\<rparr>)"

section \<open>The loops\<close>

text \<open>
  One round of the sync loop: it works on a copy of the index, so that a scan that fails midway
  leaves the shown one alone. A snapshot that cannot be written is only reported.
\<close>

definition explorer_sync_round ::
  "'p library \<Rightarrow> 'p ctx \<Rightarrow> 'f codec \<Rightarrow> (string \<Rightarrow> string) \<Rightarrow> (nat \<Rightarrow> 'f io_answer) \<Rightarrow> string \<Rightarrow> u32 \<Rightarrow> node \<Rightarrow> (u32 \<Rightarrow> node_error + block_hash) \<Rightarrow>
     explorer_state \<times> (string \<Rightarrow> 'f option) \<Rightarrow> explorer_state \<times> (string \<Rightarrow> 'f option)" where
  "explorer_sync_round L c C with_tmp io path anchor nd block_hash x =
     (case x of (s, disk) \<Rightarrow>
       (case catch_up L c [] nd (es_index s) of
          (Inr notices, work) \<Rightarrow>
            (push_events notices (s\<lparr>es_index := work\<rparr>),
             if notices \<noteq> [] then snd (save_snapshot C with_tmp io work path disk) else disk)
        | (Inl (Reorg h), _) \<Rightarrow>
            ((case block_hash anchor of Inr hash \<Rightarrow> s\<lparr>es_index := at_height anchor hash\<rparr> | Inl _ \<Rightarrow> s), disk)
        | (Inl (SyncNode e), _) \<Rightarrow> (s, disk)))"

text \<open>One quote of the relay; \<open>None\<close> is a panic. A quote the book refuses changes nothing.\<close>

definition quote_round ::
  "(bytes \<Rightarrow> bytes) \<Rightarrow> 'p prover \<Rightarrow> (u32 \<Rightarrow> node_error + block_hash) \<Rightarrow> wire_quote \<Rightarrow> quote_book \<times> explorer_state \<Rightarrow>
     (quote_book \<times> explorer_state) option" where
  "quote_round sha256 S block_hash q x =
     (case x of (book, s) \<Rightarrow>
       let tip = ix_height (es_index s) in
       (case book_insert sha256 S book q (BlockHeight tip) of
          Inl QuotePanic \<Rightarrow> None
        | Inl (QuoteErr _) \<Rightarrow> Some (book, s)
        | Inr book' \<Rightarrow>
            (let s1 = saw_slot (unat (wq_slot q)) (wq_name q) (wq_price q) s in
             Some (book',
               case find_map (\<lambda>h. assemble_tick book' (BlockHeight h)) (walk_heights tip) of
                 None \<Rightarrow> s1
               | Some t \<Rightarrow>
                   explorer_set_tick t
                     (case block_hash (height_raw (ot_height t)) of Inr h \<Rightarrow> Some h | Inl _ \<Rightarrow> None) s1))))"

section \<open>Configuration and start\<close>

datatype explorer_config_error =
    ExplorerIo
  | ExplorerToml string
  | ExplorerListen string
  | ExplorerAuth
  | ExplorerAppUrl string

record explorer_config =
  ec_styxnet :: string
  ec_rpc_url :: string
  ec_rpc_user :: "string option"
  ec_rpc_password :: "string option"
  ec_rpc_cookie :: "string option"
  ec_snapshot :: string
  ec_listen :: string
  ec_poll_ms :: u64
  ec_app_url :: "string option"

definition explorer_default_listen :: string where "explorer_default_listen = ''127.0.0.1:9790''"
definition explorer_default_poll_ms :: u64 where "explorer_default_poll_ms = 2000"

definition listen_addr :: "(string \<Rightarrow> 'a option) \<Rightarrow> explorer_config \<Rightarrow> explorer_config_error + 'a" where
  "listen_addr parse_addr cfg =
     (case parse_addr (ec_listen cfg) of None \<Rightarrow> Inl (ExplorerListen (ec_listen cfg)) | Some a \<Rightarrow> Inr a)"

definition starts_with :: "string \<Rightarrow> string \<Rightarrow> bool" where
  "starts_with p s \<longleftrightarrow> take (length p) s = p"

definition explorer_config_parse ::
  "(string \<Rightarrow> string + explorer_config) \<Rightarrow> (string \<Rightarrow> 'a option) \<Rightarrow> string \<Rightarrow> explorer_config_error + explorer_config" where
  "explorer_config_parse from_toml parse_addr text =
     bind_res (map_err ExplorerToml (from_toml text)) (\<lambda>cfg.
     bind_res (listen_addr parse_addr cfg) (\<lambda>_.
     case ec_app_url cfg of
       Some url \<Rightarrow> if \<not> starts_with ''https://'' url then Inl (ExplorerAppUrl url) else Inr cfg
     | None \<Rightarrow> Inr cfg))"

definition explorer_config_load ::
  "(string \<Rightarrow> string + explorer_config) \<Rightarrow> (string \<Rightarrow> 'a option) \<Rightarrow> (string \<Rightarrow> string option) \<Rightarrow> string \<Rightarrow> explorer_config_error + explorer_config" where
  "explorer_config_load from_toml parse_addr read path =
     (case read path of None \<Rightarrow> Inl ExplorerIo | Some text \<Rightarrow> explorer_config_parse from_toml parse_addr text)"

definition explorer_auth :: "explorer_config \<Rightarrow> explorer_config_error + auth" where
  "explorer_auth cfg =
     (case (ec_rpc_cookie cfg, ec_rpc_user cfg, ec_rpc_password cfg) of
        (Some cookie, None, None) \<Rightarrow> Inr (CookieFile cookie)
      | (None, Some user, Some pass) \<Rightarrow> Inr (UserPass user pass)
      | _ \<Rightarrow> Inl ExplorerAuth)"

datatype explorer_start_error =
    StartConfig explorer_config_error
  | StartStyxnet styxnet_error
  | StartNoProtocol
  | StartNode node_error
  | StartGenesis block_hash block_hash
  | StartArtifacts deploy_error
  | StartSnapshot snapshot_error

text \<open>The start of the daemon: the address, the deployment, the scan's anchor and the first state. No key is read.\<close>

definition explorer_start ::
  "'p library \<Rightarrow> node_codec \<Rightarrow> 'f codec \<Rightarrow> 'f session_files \<Rightarrow> (string \<Rightarrow> 'a option) \<Rightarrow> (auth \<Rightarrow> string \<Rightarrow> node_error + call) \<Rightarrow>
     explorer_config \<Rightarrow> explorer_start_error + 'a \<times> 'p ctx \<times> u32 \<times> explorer_state" where
  "explorer_start L N C F parse_addr connect cfg =
     bind_res (map_err StartConfig (listen_addr parse_addr cfg)) (\<lambda>addr.
     bind_res (map_err StartStyxnet (styxnet_load (sf_toml F) (sf_styxnet F) (ec_styxnet cfg))) (\<lambda>net.
     bind_res (map_err StartStyxnet (config_params (sf_parsers F) net)) (\<lambda>params.
     bind_res (map_err StartStyxnet (config_genesis (sf_parsers F) net)) (\<lambda>gen.
     bind_res (case sn_protocol net of None \<Rightarrow> Inl StartNoProtocol | Some p \<Rightarrow> Inr (pt_issuer_anchor_genesis p)) (\<lambda>anchor.
     bind_res (map_err StartConfig (explorer_auth cfg)) (\<lambda>auth.
     bind_res (map_err StartNode (connect auth (ec_rpc_url cfg))) (\<lambda>call.
     bind_res (map_err StartNode (node_genesis N call)) (\<lambda>node_gen.
     refuse_if (node_gen \<noteq> gen) (StartGenesis gen node_gen) (
     bind_res (map_err StartArtifacts (artifacts_compile L params)) (\<lambda>arts.
     bind_res (if sf_disk F (ec_snapshot cfg) \<noteq> None then map_err StartSnapshot (load C (ec_snapshot cfg) (sf_disk F))
               else bind_res (map_err StartNode (node_block_hash N call anchor)) (\<lambda>h. Inr (at_height anchor h))) (\<lambda>index.
     Inr (addr, \<lparr>cx_params = params, cx_artifacts = arts, cx_genesis = gen\<rparr>, anchor,
          explorer_new index (case ns_relays (sn_nostr net) of [] \<Rightarrow> None | r # _ \<Rightarrow> Some r)))))))))))))"

section \<open>The page\<close>

text \<open>The escape point of the page: its four replacements, one after the other.\<close>

fun replace_char :: "char \<Rightarrow> string \<Rightarrow> string \<Rightarrow> string" where
  "replace_char c r [] = []"
| "replace_char c r (x # xs) = (if x = c then r else [x]) @ replace_char c r xs"

definition esc :: "string \<Rightarrow> string" where
  "esc s =
     replace_char (CHR 0x22) ''&quot;'' (replace_char (CHR 0x3E) ''&gt;'' (replace_char (CHR 0x3C) ''&lt;'' (replace_char (CHR 0x26) ''&amp;'' s)))"

definition fmt :: "u64 \<Rightarrow> string" where
  "fmt n =
     (let s = dec_str (unat n) in
      concat (map (\<lambda>(i, c). (if 0 < i \<and> (length s - i) mod 3 = 0 then '','' else '''') @ [c]) (enumerate 0 s)))"

definition usd :: "u64 \<Rightarrow> string" where
  "usd cents =
     ''$'' @ fmt (cents div 100) @ ''.'' @ (if cents mod 100 < 10 then ''0'' else '''') @ dec_str (unat (cents mod 100))"

text \<open>\<open>rsplit_once\<close> at the last colon.\<close>

definition rsplit_colon :: "string \<Rightarrow> (string \<times> string) option" where
  "rsplit_colon s =
     (let r = rev s; back = takeWhile (\<lambda>c. c \<noteq> CHR '':'') r in
      if length back < length s then Some (rev (drop (Suc (length back)) r), rev back) else None)"

definition short :: "string \<Rightarrow> string" where
  "short op =
     (let (front, vout) = (case rsplit_colon op of Some p \<Rightarrow> p | None \<Rightarrow> (op, ''?''));
          txid = (case strip_prefix ''[elements]'' front of Some t \<Rightarrow> t | None \<Rightarrow> front)
      in take 8 txid @ '':'' @ vout)"

definition num :: "u32 \<Rightarrow> string" where
  "num n = dec_str (unat n)"

definition page_head :: "string" where
  \<open>page_head =
     ''<!doctype html><html lang="en"><head><meta charset="utf-8">'' @
     ''<meta name="viewport" content="width=device-width, initial-scale=1">'' @
     ''<meta http-equiv="refresh" content="10"><title>STYX explorer</title>'' @
     ''<link rel="icon" href="/favicon.svg"><link rel="stylesheet" href="/explorer.css"></head><body>'' @
     ''<header><h1>'' @
     [CHR 0xCE, CHR 0xA3, CHR 0xCE, CHR 0xA4, CHR 0xCE, CHR 0xA5, CHR 0xCE, CHR 0x9E] @
     '' <span class="sub">explorer</span></h1>''\<close>

definition page_price :: "tick_view option \<Rightarrow> string" where
  \<open>page_price t =
     (case t of
        Some t \<Rightarrow>
          if tk_lo t = tk_hi t then ''<span>price <b>$'' @ fmt (ucast (tk_hi t)) @ ''</b></span>''
          else ''<span>price <b>$'' @ fmt (ucast (tk_lo t)) @ '' - $'' @ fmt (ucast (tk_hi t)) @ ''</b></span>''
      | None \<Rightarrow> ''<span>price <b>no quorum</b></span>'')\<close>

definition page_tick :: "bool \<Rightarrow> tick_view option \<Rightarrow> string" where
  \<open>page_tick stale t =
     (case t of
        None \<Rightarrow> ''''
      | Some t \<Rightarrow>
          ''<span class="tickage '' @ (if stale then ''stale'' else '''') @ ''">tick '' @
          (case tk_block_hash t of
             Some hash \<Rightarrow>
               ''<a href="https://liquid.network/testnet/block/'' @ esc hash @ ''" target="_blank" rel="noopener">h'' @ num (tk_height t) @ ''</a>''
           | None \<Rightarrow> ''h'' @ num (tk_height t)) @
          '' &middot; '' @ dec_str (tk_age_secs t) @ ''s ago'' @ (if stale then '' (stale)'' else '''') @ ''</span>'')\<close>

definition page_protocol :: "protocol_view option \<Rightarrow> string" where
  \<open>page_protocol p =
     (case p of
        None \<Rightarrow> ''''
      | Some p \<Rightarrow>
          ''<span>pot <b>'' @ usd (pv_pot_units p) @ ''</b></span><span>reserve <b>'' @ fmt (pv_reserve_sats p) @
          ''</b> sats</span><span>anchor <b>'' @ num (pv_issuer_anchor p) @ ''</b></span>'')\<close>

definition vault_row :: "bool \<Rightarrow> explorer_vault \<Rightarrow> string" where
  \<open>vault_row stale vt =
     ''<tr><td><a href="https://liquid.network/testnet/tx/'' @ esc (xv_txid vt) @ ''" target="_blank" rel="noopener">'' @
     esc (short (xv_outpoint vt)) @ ''</a></td><td>'' @ usd (xv_debt_units vt) @ ''</td><td>'' @ fmt (xv_collateral_sats vt) @ ''</td><td>'' @
     (case xv_cr_percent vt of Some c \<Rightarrow> num c @ ''%'' | None \<Rightarrow> ''-'') @ ''</td><td><span class="'' @
     (if stale then ''band stale'' else ''band'') @ '' '' @ xv_band vt @ ''">'' @ xv_band vt @ ''</span></td><td>'' @
     num (xv_last_height vt) @ ''</td></tr>''\<close>

definition page_vaults :: "view \<Rightarrow> string" where
  \<open>page_vaults v =
     ''<section class="card wide"><h2>Vaults</h2>'' @
     (if vw_vaults v = [] then ''<p class="muted">no open vaults</p>''
      else ''<table><thead><tr><th>outpoint</th><th>debt (OBOL)</th><th>collateral (sats)</th>'' @
        ''<th>CR</th><th>band</th><th>ratchet</th></tr></thead><tbody>'' @
        concat (map (vault_row (vw_pricing_stale v)) (vw_vaults v)) @ ''</tbody></table>'' @
        ''<p class="muted">bands are priced at the current tick'' @ [CHR 0x27] @ ''s max quote; acting on '' @
        ''a vault additionally needs a tick above its own ratchet height.</p>'') @
     (if 0 < vw_lost v then ''<p class="muted">'' @ dec_str (vw_lost v) @ '' lost outpoint(s) tracked</p>'' else '''') @
     ''</section>''\<close>

definition singleton_row :: "singleton_view \<Rightarrow> string" where
  \<open>singleton_row s =
     ''<tr><td>'' @ sg_name s @ ''</td><td><a href="https://liquid.network/testnet/tx/'' @ esc (sg_txid s) @
     ''" target="_blank" rel="noopener">'' @ esc (short (sg_outpoint s)) @ ''</a></td></tr>''\<close>

definition page_singletons :: "protocol_view option \<Rightarrow> string" where
  \<open>page_singletons p =
     (case p of
        None \<Rightarrow> ''''
      | Some p \<Rightarrow>
          ''<section class="card"><h2>Singletons</h2><p class="muted">the protocol'' @ [CHR 0x27] @
          ''s on-chain outputs - open each on liquid.network to verify</p><table><tbody>'' @
          concat (map singleton_row (pv_singletons p)) @ ''</tbody></table></section>'')\<close>

definition slot_span :: "view \<Rightarrow> nat \<times> nat option \<Rightarrow> string" where
  \<open>slot_span v =
     (\<lambda>(slot, age).
       let (cls, text) = (case age of
             Some a \<Rightarrow> (if a \<le> 120 then ''ok'' else ''stale'', dec_str a @ ''s ago'')
           | None \<Rightarrow> (''never'', ''never''));
         label = (case vw_oracle_name v ! slot of Some n \<Rightarrow> esc n | None \<Rightarrow> ''slot '' @ dec_str slot);
         price = (case vw_oracle_price v ! slot of Some p \<Rightarrow> ''<br>$'' @ fmt (ucast p) | None \<Rightarrow> '''')
       in ''<span class="slot '' @ cls @ ''">'' @ label @ ''<br><b>'' @ text @ ''</b>'' @ price @ ''</span>'')\<close>

definition page_oracles :: "view \<Rightarrow> string" where
  \<open>page_oracles v =
     ''<section class="card"><h2>Oracles</h2>'' @
     (case vw_relay v of Some relay \<Rightarrow> ''<p class="muted">quote relay: <code>'' @ esc relay @ ''</code></p>'' | None \<Rightarrow> '''') @
     ''<div class="slots">'' @ concat (map (slot_span v) (enumerate 0 (vw_oracle_age_secs v))) @ ''</div></section></div>''\<close>

definition event_row :: "event_view \<Rightarrow> string" where
  \<open>event_row e =
     ''<li><span class="h">'' @ num (ev_height e) @ ''</span> <span class="tx">'' @ esc (take 8 (ev_txid e)) @ ''</span> '' @
     esc (ev_what e) @ ''</li>''\<close>

definition page_events :: "event_view list \<Rightarrow> string" where
  \<open>page_events evs =
     ''<section class="card wide"><h2>Events</h2>'' @
     (if evs = [] then ''<p class="muted">nothing yet</p>''
      else ''<ul class="events">'' @ concat (map event_row evs) @ ''</ul>'') @ ''</section>''\<close>

definition page_cta :: "string option \<Rightarrow> string" where
  \<open>page_cta app_url =
     (case app_url of
        None \<Rightarrow> ''''
      | Some url \<Rightarrow>
          ''<section class="card"><h2>Open a vault</h2><p class="muted">the wallet and the '' @
          ''keeper run on YOUR machine - keys never leave it.</p><p><a class="cta" href="'' @ esc url @
          ''">get styx-app</a></p></section>'')\<close>

definition explorer_page :: "view \<Rightarrow> string option \<Rightarrow> string" where
  \<open>explorer_page v app_url =
     page_head @ ''<div class="chainline"><span>height <b>'' @ num (vw_height v) @ ''</b></span>'' @
     page_price (vw_tick v) @ page_tick (vw_pricing_stale v) (vw_tick v) @ page_protocol (vw_protocol v) @
     ''</div></header><main>'' @ page_vaults v @ ''<div class="pair">'' @ page_singletons (vw_protocol v) @
     page_oracles v @ page_events (vw_events v) @ page_cta app_url @ ''</main></body></html>''\<close>

section \<open>The routes\<close>

definition EXPLORER_CSP :: string where
  "EXPLORER_CSP = ''default-src 'none'; style-src 'self'; font-src 'self'; img-src 'self'; frame-ancestors 'none'; base-uri '' @
     [CHR 0x27] @ ''none'' @ [CHR 0x27]"

definition explorer_harden :: "(string \<times> string) list" where
  "explorer_harden = [(''content-security-policy'', EXPLORER_CSP), (''x-frame-options'', ''DENY''), (''x-content-type-options'', ''nosniff'')]"

datatype explorer_body = BodyText string | BodyView view

text \<open>The four routes; the stylesheet and the icon are embedded files.\<close>

definition explorer_route ::
  "show_lib \<Rightarrow> string \<Rightarrow> string \<Rightarrow> explorer_state \<Rightarrow> string option \<Rightarrow> string \<Rightarrow> ((string \<times> string) list \<times> explorer_body) option" where
  "explorer_route F css favicon s app_url path =
     (if path = ''/'' then
        Some ([(''content-type'', ''text/html; charset=utf-8''), (''cache-control'', ''no-cache'')] @ explorer_harden,
          BodyText (explorer_page (view_of F s) app_url))
      else if path = ''/api/state'' then Some (explorer_harden, BodyView (view_of F s))
      else if path = ''/explorer.css'' then Some ((''content-type'', ''text/css'') # explorer_harden, BodyText css)
      else if path = ''/favicon.svg'' then
        Some ([(''content-type'', ''image/svg+xml''), (''cache-control'', ''max-age=86400'')] @ explorer_harden, BodyText favicon)
      else None)"

section \<open>Escaping\<close>

text \<open>The characters that open or close a tag or an attribute.\<close>

definition markup :: "string \<Rightarrow> string" where
  "markup s = filter (\<lambda>c. c = CHR 0x3C \<or> c = CHR 0x3E \<or> c = CHR 0x22) s"

lemma markup_append [simp]: "markup (s @ t) = markup s @ markup t"
  by (simp add: markup_def)

lemma markup_Cons [simp]: "markup (c # s) = (if c = CHR 0x3C \<or> c = CHR 0x3E \<or> c = CHR 0x22 then c # markup s else markup s)"
  by (simp add: markup_def)

lemma markup_concat: "markup (concat (map f xs)) = concat (map (\<lambda>x. markup (f x)) xs)"
  by (induction xs) (simp_all add: markup_def)

lemma replace_char_gone: "c \<notin> set r \<Longrightarrow> c \<notin> set (replace_char c r s)"
  by (induction s) auto

lemma replace_char_keeps: "\<lbrakk>x \<notin> set r; x \<notin> set s\<rbrakk> \<Longrightarrow> x \<notin> set (replace_char c r s)"
  by (induction s) auto

lemma markup_esc [simp]: "markup (esc s) = []"
proof -
  have "CHR 0x3C \<notin> set (esc s)" "CHR 0x3E \<notin> set (esc s)" "CHR 0x22 \<notin> set (esc s)"
    unfolding esc_def by (intro replace_char_gone replace_char_keeps; simp)+
  then show ?thesis by (auto simp: markup_def filter_empty_conv)
qed

text \<open>The view with every text that came from outside removed.\<close>

definition blank_view :: "view \<Rightarrow> view" where
  "blank_view v = v\<lparr>
     vw_protocol := map_option (\<lambda>p. p\<lparr>pv_singletons := map (\<lambda>s. s\<lparr>sg_outpoint := [], sg_txid := []\<rparr>) (pv_singletons p)\<rparr>) (vw_protocol v),
     vw_tick := map_option (\<lambda>t. t\<lparr>tk_block_hash := map_option (\<lambda>_. []) (tk_block_hash t)\<rparr>) (vw_tick v),
     vw_vaults := map (\<lambda>x. x\<lparr>xv_outpoint := [], xv_txid := []\<rparr>) (vw_vaults v),
     vw_events := map (\<lambda>e. e\<lparr>ev_txid := [], ev_what := []\<rparr>) (vw_events v),
     vw_oracle_name := map (map_option (\<lambda>_. [])) (vw_oracle_name v),
     vw_relay := map_option (\<lambda>_. []) (vw_relay v)\<rparr>"

lemma markup_vault_row: "markup (vault_row stale (x\<lparr>xv_outpoint := a, xv_txid := b\<rparr>)) = markup (vault_row stale x)"
  by (cases x) (simp only: vault_row_def markup_append markup_esc explorer_vault.simps)

lemma markup_vaults: "markup (page_vaults (blank_view v)) = markup (page_vaults v)"
proof -
  have "vw_vaults (blank_view v) = map (\<lambda>x. x\<lparr>xv_outpoint := [], xv_txid := []\<rparr>) (vw_vaults v)"
    "vw_pricing_stale (blank_view v) = vw_pricing_stale v" "vw_lost (blank_view v) = vw_lost v"
    by (simp_all add: blank_view_def)
  then show ?thesis
    by (simp only: page_vaults_def map_is_Nil_conv if_distrib[of markup] markup_append markup_concat map_map o_def markup_vault_row)
qed

lemma markup_singletons: "markup (page_singletons (vw_protocol (blank_view v))) = markup (page_singletons (vw_protocol v))"
  by (simp add: page_singletons_def blank_view_def markup_concat singleton_row_def o_def split: option.splits)

lemma markup_tick: "markup (page_tick stale (vw_tick (blank_view v))) = markup (page_tick stale (vw_tick v))"
  by (auto simp: page_tick_def blank_view_def split: option.splits)

lemma markup_events: "markup (page_events (vw_events (blank_view v))) = markup (page_events (vw_events v))"
  by (simp add: page_events_def blank_view_def markup_concat event_row_def o_def)

lemma markup_slot:
  "fst x < length (vw_oracle_name v) \<Longrightarrow> markup (slot_span (blank_view v) x) = markup (slot_span v x)"
  by (simp add: slot_span_def blank_view_def case_prod_beta Let_def split: option.splits)

lemma markup_oracles:
  assumes "length (vw_oracle_age_secs v) \<le> length (vw_oracle_name v)"
  shows "markup (page_oracles (blank_view v)) = markup (page_oracles v)"
proof -
  have "concat (map (\<lambda>x. markup (slot_span (blank_view v) x)) (enumerate 0 (vw_oracle_age_secs v))) =
      concat (map (\<lambda>x. markup (slot_span v x)) (enumerate 0 (vw_oracle_age_secs v)))"
    using assms by (intro arg_cong[where f = concat] map_cong refl markup_slot) (auto simp: in_set_enumerate_eq)
  moreover have "vw_oracle_age_secs (blank_view v) = vw_oracle_age_secs v" "vw_relay (blank_view v) = map_option (\<lambda>_. []) (vw_relay v)"
    by (simp_all add: blank_view_def)
  ultimately show ?thesis by (simp add: page_oracles_def markup_concat split: option.splits)
qed

section \<open>The loops keep what the page shows consistent\<close>

text \<open>Five slots, at most a hundred events.\<close>

definition explorer_inv :: "explorer_state \<Rightarrow> bool" where
  "explorer_inv s \<longleftrightarrow>
     length (es_slot_seen s) = 5 \<and> length (es_slot_name s) = 5 \<and> length (es_slot_price s) = 5 \<and> length (es_events s) \<le> EVENTS_KEPT"

lemma explorer_new_inv: "explorer_inv (explorer_new index relay)"
  by (simp add: explorer_inv_def explorer_new_def)

lemma push_events_inv: "explorer_inv s \<Longrightarrow> explorer_inv (push_events ns s)"
  by (simp add: explorer_inv_def push_events_def)

lemma sync_round_inv:
  "explorer_inv s \<Longrightarrow> explorer_inv (fst (explorer_sync_round L c C with_tmp io path anchor nd block_hash (s, disk)))"
  using push_events_inv
  by (auto simp: explorer_sync_round_def explorer_inv_def push_events_def split: prod.splits sum.splits sync_error.splits)

lemma quote_round_inv: "\<lbrakk>explorer_inv s; quote_round sha256 S bh q (B, s) = Some (B', s')\<rbrakk> \<Longrightarrow> explorer_inv s'"
  by (auto simp: quote_round_def Let_def explorer_inv_def saw_slot_def explorer_set_tick_def
      split: sum.splits quote_fault.splits option.splits)

text \<open>A scan that fails midway is dropped: the shown index is the old one, a complete scan's or the anchor's.\<close>

lemma sync_round_index:
  "es_index (fst (explorer_sync_round L c C with_tmp io path anchor nd block_hash (s, disk))) =
     (case catch_up L c [] nd (es_index s) of
        (Inr _, work) \<Rightarrow> work
      | (Inl (Reorg _), _) \<Rightarrow> (case block_hash anchor of Inr h \<Rightarrow> at_height anchor h | Inl _ \<Rightarrow> es_index s)
      | (Inl _, _) \<Rightarrow> es_index s)"
  by (auto simp: explorer_sync_round_def push_events_def split: prod.splits sum.splits sync_error.splits)

lemma parsed_app_url:
  "\<lbrakk>explorer_config_parse from_toml parse_addr text = Inr cfg; ec_app_url cfg = Some url\<rbrakk> \<Longrightarrow> starts_with ''https://'' url"
  by (auto simp: explorer_config_parse_def res_Inr split: option.splits if_splits)

lemma cents_zero:
  assumes "covenant_cents d = Inr cents" shows "d = Obol 0 \<longleftrightarrow> cents = 0"
proof -
  have d: "unat (obol_raw d) < 2 ^ 32" "cents = ucast (obol_raw d)" using assms by (auto simp: covenant_cents_def split: if_splits)
  have "unat cents = unat (obol_raw d)" using d by (simp add: unsigned_ucast_eq take_bit_nat_eq_self)
  then have "cents = 0 \<longleftrightarrow> obol_raw d = 0" by (metis unat_eq_zero)
  then show ?thesis by (cases d) auto
qed

definition sample_show :: show_lib where
  "sample_show = \<lparr>sl_outpoint = (\<lambda>_. ''o:0''), sl_block_hash = (\<lambda>_. ''b''), sl_event = (\<lambda>_. ''e'')\<rparr>"

section \<open>Properties\<close>

text \<open>
  C33 (page_markup): nobody can inject markup into the public page. Whatever the oracles call
  themselves and whatever texts the relay, the chain, the node and the configuration contribute,
  the sequence of tag and attribute delimiters of the page is the one of the same page with all of
  these texts removed.
\<close>

theorem page_markup:
  assumes "length (vw_oracle_age_secs v) \<le> length (vw_oracle_name v)"
  shows "markup (explorer_page v app_url) = markup (explorer_page (blank_view v) (map_option (\<lambda>_. []) app_url))"
proof -
  have same: "vw_height (blank_view v) = vw_height v" "vw_pricing_stale (blank_view v) = vw_pricing_stale v"
    "page_price (vw_tick (blank_view v)) = page_price (vw_tick v)" "page_protocol (vw_protocol (blank_view v)) = page_protocol (vw_protocol v)"
    by (simp_all add: blank_view_def page_price_def page_protocol_def split: option.splits)
  have cta: "markup (page_cta (map_option (\<lambda>_. []) app_url)) = markup (page_cta app_url)"
    by (simp add: page_cta_def split: option.splits)
  show ?thesis
    unfolding explorer_page_def
    by (simp only: markup_append same cta markup_vaults markup_singletons markup_tick markup_events markup_oracles[OF assms])
qed

theorem page_markup_witness:
  "markup (explorer_page (view_of sample_show (saw_slot 0 ''<script>'' 7 (explorer_new (at_height 0 0) None))) (Some ''x<y'')) =
   markup (explorer_page (blank_view (view_of sample_show (saw_slot 0 ''<script>'' 7 (explorer_new (at_height 0 0) None)))) (Some []))"
proof -
  let ?v = "view_of sample_show (saw_slot 0 ''<script>'' 7 (explorer_new (at_height 0 0) None))"
  have "length (vw_oracle_age_secs ?v) \<le> length (vw_oracle_name ?v)" by (simp add: view_of_def saw_slot_def explorer_new_def Let_def)
  from page_markup[OF this, of "Some ''x<y''"] show ?thesis by (simp only: option.map)
qed

text \<open>
  C34 (band_is_verdict): the band the public page shows for a vault is the keeper's verdict on it at the
  same price. For a vault that the tick is past the ratchet of (and not below the mint anchor) a
  shown bad debt, full liquidation or health is what the keeper decides, a shown partial band is a
  partial liquidation or one not worth its fee, and a husk or an unpriced vault is left alone.
\<close>

theorem band_is_verdict:
  assumes "vs_last_height (oc_state v) < ot_height t" "anchor \<le> ot_height t"
  shows "let shown = band (vs_debt (oc_state v)) (oc_value v) (Some (snd (price_range t))); act = decide v t anchor lag fee in
    (shown = ''bad-debt'' \<longleftrightarrow> act = BadDebt) \<and> (shown = ''full-liq'' \<longleftrightarrow> act = FullLiq) \<and>
    (shown = ''partial'' \<longrightarrow> act = NoAction \<or> (\<exists>dd r. act = Partial dd r)) \<and> (\<forall>dd r. act = Partial dd r \<longrightarrow> shown = ''partial'') \<and>
    (shown = ''healthy'' \<longrightarrow> act = NoAction \<or> act = Refresh) \<and> (act = Refresh \<longrightarrow> shown = ''healthy'') \<and>
    (shown = ''husk'' \<or> shown = ''unpriced'' \<longrightarrow> act = NoAction)"
proof (cases "covenant_cents (vs_debt (oc_state v))")
  case (Inl e)
  then show ?thesis using assms by (auto simp: band_def decide_def Let_def split: if_splits)
next
  case (Inr cents)
  have zero: "vs_debt (oc_state v) = Obol 0 \<longleftrightarrow> cents = 0" by (rule cents_zero[OF Inr])
  have h: "\<not> ot_height t \<le> vs_last_height (oc_state v)" "\<not> ot_height t < anchor" using assms by auto
  show ?thesis
    using Inr zero h
    by (auto simp: band_def decide_def Let_def split: option.splits if_splits)
qed

theorem band_is_verdict_witness:
  "band (vs_debt (oc_state small_vault)) (oc_value small_vault) (Some (snd (price_range (sample_tick 100 1 1 1)))) = ''partial''"
  using band_is_verdict[of small_vault "sample_tick 100 1 1 1" "BlockHeight 1" 10 "Sats 1000"]
  by (simp add: small_decide Let_def) (simp add: small_vault_def sample_tick_sel less_block_height_def less_eq_block_height_def)

end
