(* ===== verification/Styx_Deploy.thy ===== *)
theory Styx_Deploy
  imports Styx_Config
begin

text \<open>
  The deployment: the parts of the node client that spend from the node's own wallet and wait for
  blocks (\<open>styx-node/src/client.rs\<close>), the ceremony (\<open>ceremony.rs\<close>), the address encodings
  (\<open>styx-core/src/net.rs\<close>) and the program \<open>styx-deploy\<close>.

  These operations run over time: every request may be answered differently from the one before. A
  \<^emph>\<open>node run\<close> counts the requests made, the milliseconds that passed, and the transactions handed
  to \<open>sendrawtransaction\<close>, latest first; the node is the answer to each request and the time it
  took, and a sleep adds its length. An operation is a function on runs.

  Parameters: the node, the elements library's parsers and printers, the derivation of an issued
  asset's id, and the key pair of a secret. The deadline of a wait is a natural number: the addition
  \<open>Instant::now() + timeout\<close> of a timeout beyond the platform's clock is not modelled.
\<close>

section \<open>Runs of the node\<close>

record node_run =
  nr_time :: nat
  nr_ms :: nat
  nr_sent :: "transaction list"

record node_world =
  nw_call :: "nat \<Rightarrow> call"
  nw_took :: "nat \<Rightarrow> nat"

type_synonym ('e, 'a) nop = "node_run \<Rightarrow> ('e + 'a) \<times> node_run"

definition nop_bind :: "('e, 'a) nop \<Rightarrow> ('a \<Rightarrow> ('e, 'b) nop) \<Rightarrow> ('e, 'b) nop" where
  "nop_bind m f r = (case m r of (Inl e, r') \<Rightarrow> (Inl e, r') | (Inr a, r') \<Rightarrow> f a r')"

definition nop_lift :: "'e + 'a \<Rightarrow> ('e, 'a) nop" where
  "nop_lift v r = (v, r)"

definition nop_err :: "('d \<Rightarrow> 'e) \<Rightarrow> ('d, 'a) nop \<Rightarrow> ('e, 'a) nop" where
  "nop_err f m r = (case m r of (v, r') \<Rightarrow> (map_err f v, r'))"

text \<open>A request, or a group of requests that the client makes at one point.\<close>

definition nop_ask :: "node_world \<Rightarrow> (call \<Rightarrow> 'e + 'a) \<Rightarrow> ('e, 'a) nop" where
  "nop_ask N f r = (f (nw_call N (nr_time r)), r\<lparr>nr_time := Suc (nr_time r), nr_ms := nr_ms r + nw_took N (nr_time r)\<rparr>)"

definition nop_send :: "'p library \<Rightarrow> node_codec \<Rightarrow> node_world \<Rightarrow> transaction \<Rightarrow> (broadcast_error, txid) nop" where
  "nop_send L K N tx r =
     (case nop_ask N (\<lambda>call. node_send L K call tx) r of (v, r') \<Rightarrow> (v, r'\<lparr>nr_sent := tx # nr_sent r\<rparr>))"

definition nop_sleep :: "nat \<Rightarrow> node_run \<Rightarrow> node_run" where
  "nop_sleep ms r = r\<lparr>nr_ms := nr_ms r + ms\<rparr>"

section \<open>Connections\<close>

record 'c connected =
  cn_base_url :: string
  cn_auth :: auth
  cn_client :: 'c

definition from_url :: "(string \<Rightarrow> auth \<Rightarrow> string + 'c) \<Rightarrow> string \<Rightarrow> auth \<Rightarrow> node_error + 'c connected" where
  "from_url client url auth =
     bind_res (map_err (Rpc ''connect'') (client url auth)) (\<lambda>c.
     Inr \<lparr>cn_base_url = rev (dropWhile (\<lambda>x. x = CHR ''/'') (rev url)), cn_auth = auth, cn_client = c\<rparr>)"

definition for_wallet :: "(string \<Rightarrow> auth \<Rightarrow> string + 'c) \<Rightarrow> 'c connected \<Rightarrow> string \<Rightarrow> node_error + 'c connected" where
  "for_wallet client node wallet = from_url client (cn_base_url node @ ''/wallet/'' @ wallet) (cn_auth node)"

datatype address_net = LIQUID | LIQUID_TESTNET | ELEMENTS

definition address_params :: "string \<Rightarrow> address_net" where
  "address_params chain =
     (if chain = ''liquidv1'' then LIQUID else if chain = ''liquidtestnet'' then LIQUID_TESTNET else ELEMENTS)"

section \<open>Confirmation\<close>

datatype confirm = SelfMine | Await nat

definition await_default :: confirm where
  "await_default = Await 300"

record deploy_lib =
  dl_address :: "string \<Rightarrow> string option"
  dl_covenant_address :: "address_net \<Rightarrow> script \<Rightarrow> string option"
  dl_new_issuance :: "outpoint \<Rightarrow> bytes \<Rightarrow> asset_id"
  dl_asset_str :: "asset_id \<Rightarrow> string"
  dl_public_key :: "bytes \<Rightarrow> string + string"

text \<open>The address the node's wallet gives, read and printed again.\<close>

definition new_address_text :: "deploy_lib \<Rightarrow> call \<Rightarrow> node_error + string" where
  "new_address_text D call =
     bind_res (rpc call ''getnewaddress'' []) (\<lambda>v. or_shape ''getnewaddress'' (dl_address D (str_or_empty v)))"

definition mine :: "deploy_lib \<Rightarrow> node_world \<Rightarrow> (node_error, unit) nop" where
  "mine D N =
     nop_bind (nop_ask N (new_address_text D)) (\<lambda>a.
     nop_bind (nop_ask N (\<lambda>call. rpc call ''generatetoaddress'' [JNumber (PosInt 1), JString a])) (\<lambda>_.
     nop_lift (Inr ())))"

definition send_and_mine :: "'p library \<Rightarrow> node_codec \<Rightarrow> deploy_lib \<Rightarrow> node_world \<Rightarrow> transaction \<Rightarrow> (broadcast_error, txid) nop" where
  "send_and_mine L K D N tx =
     nop_bind (nop_send L K N tx) (\<lambda>txid.
     nop_bind (nop_err BroadcastNode (mine D N)) (\<lambda>_.
     nop_lift (Inr txid)))"

text \<open>Visible to \<open>gettxout\<close> without the mempool.\<close>

definition outpoint_confirmed :: "node_codec \<Rightarrow> outpoint \<Rightarrow> call \<Rightarrow> node_error + bool" where
  "outpoint_confirmed K op call =
     bind_res (rpc call ''gettxout'' [JString (nc_txid_str K (op_txid op)), JNumber (PosInt (ucast (op_vout op))), JBool False]) (\<lambda>out.
     Inr (out \<noteq> JNull))"

definition unconfirmed :: "node_codec \<Rightarrow> outpoint \<Rightarrow> nat \<Rightarrow> node_error" where
  "unconfirmed K op secs =
     Rpc ''confirm_outpoint'' (''[elements]'' @ nc_txid_str K (op_txid op) @ '':'' @ dec_str (unat (op_vout op)) @
       '' unconfirmed after '' @ dec_str secs @ ''s'')"

text \<open>The polling loop ends because every turn sleeps half a second towards the deadline.\<close>

function await_outpoint :: "node_codec \<Rightarrow> node_world \<Rightarrow> outpoint \<Rightarrow> nat \<Rightarrow> nat \<Rightarrow> (node_error, unit) nop" where
  "await_outpoint K N op secs deadline r =
     (case nop_ask N (outpoint_confirmed K op) r of
        (Inl e, r') \<Rightarrow> (Inl e, r')
      | (Inr True, r') \<Rightarrow> (Inr (), r')
      | (Inr False, r') \<Rightarrow>
          if deadline \<le> nr_ms r' then (Inl (unconfirmed K op secs), r')
          else await_outpoint K N op secs deadline (nop_sleep 500 r'))"
  by pat_completeness auto
termination
  by (relation "measure (\<lambda>(K, N, op, secs, deadline, r). deadline - nr_ms r)") (auto simp: nop_ask_def nop_sleep_def)

declare await_outpoint.simps [simp del]

definition confirm_outpoint ::
  "node_codec \<Rightarrow> deploy_lib \<Rightarrow> node_world \<Rightarrow> outpoint \<Rightarrow> confirm \<Rightarrow> (node_error, unit) nop" where
  "confirm_outpoint K D N op mode =
     (case mode of
        SelfMine \<Rightarrow>
          nop_bind (mine D N) (\<lambda>_.
          nop_bind (nop_ask N (outpoint_confirmed K op)) (\<lambda>ok.
          nop_lift (if ok then Inr () else Inl (Shape ''confirm_outpoint: absent after self-mine''))))
      | Await secs \<Rightarrow> (\<lambda>r. await_outpoint K N op secs (nr_ms r + 1000 * secs) r))"

section \<open>Spending from the node's wallet\<close>

definition run_sign_send :: "'p library \<Rightarrow> node_codec \<Rightarrow> node_world \<Rightarrow> transaction \<Rightarrow> (node_error, txid) nop" where
  "run_sign_send L K N tx =
     nop_bind (nop_ask N (signed_tx K (nc_tx_hex K tx))) (\<lambda>signed.
     nop_err (\<lambda>e. Rpc ''send'' (show_broadcast_error e)) (nop_send L K N signed))"

definition run_pay ::
  "'p library \<Rightarrow> node_codec \<Rightarrow> node_world \<Rightarrow> asset_id \<Rightarrow> (script \<times> u64) list \<Rightarrow> string \<Rightarrow> (node_error, txid) nop" where
  "run_pay L K N policy outs what =
     (let spend = sum_list (map snd outs) + sats_raw FEE in
      nop_bind (nop_ask N (\<lambda>call. select_coins K call policy spend what)) (\<lambda>(inputs, sum).
      let change = sum - spend in
      nop_bind (if 0 < change then nop_ask N (new_address K) else nop_lift (Inr [])) (\<lambda>spk.
      run_sign_send L K N (pay_tx policy outs inputs change spk))))"

fun run_fund_attempts ::
  "'p library \<Rightarrow> node_codec \<Rightarrow> node_world \<Rightarrow> asset_id \<Rightarrow> script \<Rightarrow> u64 \<Rightarrow> nat \<Rightarrow> node_error option \<Rightarrow> (node_error, outpoint) nop" where
  "run_fund_attempts L K N policy spk value 0 last_err r =
     (Inl (case last_err of Some e \<Rightarrow> e | None \<Rightarrow> Shape ''fund_address: no coins''), r)"
| "run_fund_attempts L K N policy spk value (Suc n) last_err r =
     (case run_pay L K N policy [(spk, value)] ''fund_address'' r of
        (Inr txid, r') \<Rightarrow> nop_ask N (\<lambda>call. node_find K call txid spk value) r'
      | (Inl (Funding m), r') \<Rightarrow> run_fund_attempts L K N policy spk value n (Some (Funding m)) (nop_sleep 500 r')
      | (Inl e, r') \<Rightarrow> (Inl e, r'))"

definition run_fund_address ::
  "'p library \<Rightarrow> node_codec \<Rightarrow> node_world \<Rightarrow> asset_id \<Rightarrow> script \<Rightarrow> u64 \<Rightarrow> (node_error, outpoint) nop" where
  "run_fund_address L K N policy spk value = run_fund_attempts L K N policy spk value 120 None"

definition split_two ::
  "'p library \<Rightarrow> node_codec \<Rightarrow> node_world \<Rightarrow> asset_id \<Rightarrow> (node_error, outpoint \<times> u64 \<times> outpoint \<times> u64) nop" where
  "split_two L K N policy =
     nop_bind (nop_ask N (new_address K)) (\<lambda>a.
     nop_bind (nop_ask N (new_address K)) (\<lambda>b.
     nop_bind (run_pay L K N policy [(a, PREVOUT), (b, PREVOUT)] ''split_two'') (\<lambda>txid.
     nop_bind (nop_ask N (\<lambda>call. node_find K call txid a PREVOUT)) (\<lambda>opa.
     nop_bind (nop_ask N (\<lambda>call. node_find K call txid b PREVOUT)) (\<lambda>opb.
     nop_lift (Inr (opa, PREVOUT, opb, PREVOUT)))))))"

text \<open>The comparison of amounts: incomparable numbers count as equal, and the last of the largest wins.\<close>

fun f64_gt :: "f64 \<Rightarrow> f64 \<Rightarrow> bool" where
  "f64_gt (Finite x) (Finite y) = (y < x)"
| "f64_gt (Infinite neg) (Finite _) = (\<not> neg)"
| "f64_gt (Finite _) (Infinite neg) = neg"
| "f64_gt (Infinite a) (Infinite b) = (\<not> a \<and> b)"
| "f64_gt _ _ = False"

definition coin_amount :: "json \<Rightarrow> f64" where
  "coin_amount c = (case as_f64 (json_key c ''amount'') of Some x \<Rightarrow> x | None \<Rightarrow> Finite 0)"

fun max_coin :: "json \<Rightarrow> json list \<Rightarrow> json" where
  "max_coin best [] = best"
| "max_coin best (c # cs) = max_coin (if f64_gt (coin_amount best) (coin_amount c) then best else c) cs"

definition biggest_coin :: "node_codec \<Rightarrow> call \<Rightarrow> node_error + outpoint \<times> u64 \<times> asset_id" where
  "biggest_coin K call =
     bind_res (rpc call ''listunspent'' []) (\<lambda>u.
     bind_res (or_shape ''listunspent'' (as_array u)) (\<lambda>us.
     bind_res (or_shape ''listunspent empty'' (case us of [] \<Rightarrow> None | c # cs \<Rightarrow> Some (max_coin c cs))) (\<lambda>c.
     bind_res (or_shape ''listunspent txid'' (nc_txid K (str_or_empty (json_key c ''txid'')))) (\<lambda>txid.
     bind_res (or_shape ''listunspent asset'' (nc_asset K (str_or_empty (json_key c ''asset'')))) (\<lambda>asset.
     Inr (OutPoint txid (case as_u64 (json_key c ''vout'') of Some v \<Rightarrow> ucast v | None \<Rightarrow> 0), sats_of_btc (coin_amount c), asset))))))"

definition op_true :: script where
  "op_true = [0x51]"

definition fund_optrue :: "'p library \<Rightarrow> node_codec \<Rightarrow> node_world \<Rightarrow> asset_id \<Rightarrow> u64 list \<Rightarrow> (node_error, outpoint list) nop" where
  "fund_optrue L K N policy values =
     nop_bind (nop_ask N (biggest_coin K)) (\<lambda>(op, sats, _).
     nop_bind (nop_lift (change_after sats (sum_list values + sats_raw FEE) ''fund_optrue'')) (\<lambda>change.
     nop_bind (nop_ask N (new_address K)) (\<lambda>spk.
     nop_bind (run_sign_send L K N
       \<lparr>tx_version = 2, tx_lock_time = 0, tx_input = [txin op],
        tx_output = map (\<lambda>v. txout v op_true policy) values @ [txout change spk policy, fee_out FEE policy]\<rparr>) (\<lambda>txid.
     nop_lift (Inr (map (\<lambda>i. OutPoint txid (of_nat i)) [0..<length values]))))))"

definition merge_obol ::
  "'p library \<Rightarrow> node_codec \<Rightarrow> node_world \<Rightarrow> asset_id \<Rightarrow> asset_id \<Rightarrow> (outpoint \<times> u64) list \<Rightarrow> (node_error, outpoint) nop" where
  "merge_obol L K N policy obol parts =
     (let sum = sum_list (map snd parts) in
      nop_bind (nop_ask N (biggest_coin K)) (\<lambda>(wc, wsats, _).
      nop_bind (nop_lift (change_after wsats (sats_raw FEE) ''merge_obol'')) (\<lambda>change.
      nop_bind (nop_ask N (new_address K)) (\<lambda>spk.
      nop_bind (run_sign_send L K N
        \<lparr>tx_version = 2, tx_lock_time = 0, tx_input = txin wc # map (\<lambda>(op, _). txin op) parts,
         tx_output = [txout sum op_true obol, txout change spk policy, fee_out FEE policy]\<rparr>) (\<lambda>txid.
      nop_ask N (\<lambda>call. node_find K call txid op_true sum))))))"

section \<open>The ceremony\<close>

datatype ceremony_error =
    CerNode node_error
  | CerDeploy deploy_error
  | CerBroadcast broadcast_error
  | CerShape string

definition SUPPLY :: u64 where "SUPPLY = 100000000"

definition btc_number :: "u64 \<Rightarrow> json" where
  "btc_number s = JNumber (Float (Finite (f64_round (f64_round (of_nat (unat s)) / 10 ^ 8))))"

definition out_array :: "(string \<times> u64) list \<Rightarrow> json" where
  "out_array pairs = JArray (map (\<lambda>(k, s). JObject [(k, btc_number s)]) pairs)"

definition ceremony_need :: "u64 \<Rightarrow> u64" where
  "ceremony_need reserve_seed = reserve_seed + 2 * PREVOUT + FEE_RPC + 2 * sats_raw FEE"

definition preflight_short :: "u64 \<Rightarrow> u64 \<Rightarrow> node_error" where
  "preflight_short have_sats reserve_seed =
     Funding (''ceremony preflight: wallet has '' @ dec_str (unat have_sats) @ '' spendable sats but needs about '' @
       dec_str (unat (ceremony_need reserve_seed)) @ '' (reserve '' @ dec_str (unat reserve_seed) @
       '' + two prevouts + fees); fund the wallet with more'')"

definition outpoint_json :: "node_codec \<Rightarrow> outpoint \<Rightarrow> json" where
  "outpoint_json K op = JObject [(''txid'', JString (nc_txid_str K (op_txid op))), (''vout'', JNumber (PosInt (ucast (op_vout op))))]"

definition issuance_json :: "u64 \<Rightarrow> string \<Rightarrow> json" where
  "issuance_json amount addr =
     JObject [(''asset_address'', JString addr), (''asset_amount'', btc_number amount),
       (''blind'', JBool False), (''contract_hash'', JString (replicate 64 (CHR ''0'')))]"

text \<open>The two issuances in one transaction, neither of them reissuable.\<close>

definition issuance_tx ::
  "node_codec \<Rightarrow> deploy_lib \<Rightarrow> node_world \<Rightarrow> outpoint \<times> outpoint \<Rightarrow> u64 \<Rightarrow> string \<Rightarrow> string \<Rightarrow> (ceremony_error, transaction) nop" where
  "issuance_tx K D N ins change pot_addr issuer_addr =
     nop_bind (nop_err CerNode (nop_ask N (new_address_text D))) (\<lambda>change_addr.
     nop_bind (nop_err CerNode (nop_ask N (\<lambda>call. rpc call ''createrawtransaction''
       [JArray [outpoint_json K (fst ins), outpoint_json K (snd ins)], out_array [(''fee'', FEE_RPC), (change_addr, change)]]))) (\<lambda>raw.
     nop_bind (nop_err CerNode (nop_ask N (\<lambda>call. rpc call ''rawissueasset''
       [raw, JArray [issuance_json SUPPLY pot_addr, issuance_json 1 issuer_addr]]))) (\<lambda>issued.
     nop_bind (nop_lift (case Option.bind (as_array issued) (\<lambda>a. if a = [] then None else as_str (json_key (last a) ''hex'')) of
       None \<Rightarrow> Inl (CerShape ''rawissueasset hex'') | Some hex \<Rightarrow> Inr hex)) (\<lambda>hex.
     nop_bind (nop_err CerNode (nop_ask N (\<lambda>call. rpc call ''signrawtransactionwithwallet'' [JString hex]))) (\<lambda>v.
     nop_lift (case Option.bind (as_str (json_key v ''hex'')) (nc_from_hex K) of
        None \<Rightarrow> Inl (CerShape ''issuance sign hex'')
      | Some bs \<Rightarrow> (case nc_tx K bs of None \<Rightarrow> Inl (CerShape ''issuance tx'') | Some tx \<Rightarrow> Inr tx)))))))"

text \<open>What is compiled once the two prevouts are known: their issuances fix the assets.\<close>

definition ceremony_params :: "deploy_lib \<Rightarrow> outpoint \<Rightarrow> outpoint \<Rightarrow> asset_id \<Rightarrow> xonly list \<Rightarrow> params" where
  "ceremony_params D issue_in token_in policy pks =
     \<lparr>pr_obol = dl_new_issuance D issue_in (replicate 32 0), pr_issuer_token = dl_new_issuance D token_in (replicate 32 0),
      pr_policy = policy, pr_oracle_pks = pks\<rparr>"

text \<open>After the preflight: the prevouts, the issuances, the reserve.\<close>

definition ceremony_spend ::
  "'p library \<Rightarrow> node_codec \<Rightarrow> deploy_lib \<Rightarrow> node_world \<Rightarrow> xonly list \<Rightarrow> u64 \<Rightarrow> confirm \<Rightarrow> block_hash \<Rightarrow> asset_id \<Rightarrow>
     (ceremony_error, 'p ctx \<times> protocol_state) nop" where
  "ceremony_spend L K D N pks reserve_seed mode gen policy =
     nop_bind (nop_err CerNode (split_two L K N policy)) (\<lambda>(issue_in, issue_sats, token_in, token_sats).
     let params = ceremony_params D issue_in token_in policy pks in
     nop_bind (nop_lift (map_err CerDeploy (artifacts_compile L params))) (\<lambda>arts.
     let ctx = \<lparr>cx_params = params, cx_artifacts = arts, cx_genesis = gen\<rparr> in
     nop_bind (nop_err CerNode (nop_ask N node_height)) (\<lambda>ih0.
     let issuer = \<lparr>is_last_mint_height = BlockHeight ih0\<rparr> in
     nop_bind (nop_err CerNode (nop_ask N node_chain)) (\<lambda>chain.
     let net = address_params chain in
     nop_bind (nop_lift (case dl_covenant_address D net (pot_spk L arts) of
       None \<Rightarrow> Inl (CerShape ''pot address'') | Some a \<Rightarrow> Inr a)) (\<lambda>pot_addr.
     nop_bind (nop_lift (case dl_covenant_address D net (issuer_spk L arts issuer) of
       None \<Rightarrow> Inl (CerShape ''issuer address'') | Some a \<Rightarrow> Inr a)) (\<lambda>issuer_addr.
     nop_bind (nop_lift (map_err CerNode (change_after (issue_sats + token_sats) FEE_RPC ''issuance change''))) (\<lambda>change.
     nop_bind (issuance_tx K D N (issue_in, token_in) change pot_addr issuer_addr) (\<lambda>tx.
     nop_bind (nop_err CerBroadcast (nop_send L K N tx)) (\<lambda>txid.
     nop_bind (nop_err CerNode (nop_ask N (\<lambda>call. node_find K call txid (pot_spk L arts) SUPPLY))) (\<lambda>pot_op.
     nop_bind (nop_err CerNode (nop_ask N (\<lambda>call. node_find K call txid (issuer_spk L arts issuer) 1))) (\<lambda>issuer_op.
     nop_bind (nop_err CerNode (confirm_outpoint K D N pot_op mode)) (\<lambda>_.
     nop_bind (nop_err CerNode (run_fund_address L K N policy (stability_spk L arts) reserve_seed)) (\<lambda>reserve_op.
     nop_bind (nop_err CerNode (confirm_outpoint K D N reserve_op mode)) (\<lambda>_.
     nop_lift (Inr (ctx,
       \<lparr>ps_pot = \<lparr>oc_state = PotState, oc_outpoint = pot_op, oc_value = Obol SUPPLY\<rparr>,
        ps_reserve = \<lparr>oc_state = ReserveState, oc_outpoint = reserve_op, oc_value = Sats reserve_seed\<rparr>,
        ps_issuer = \<lparr>oc_state = issuer, oc_outpoint = issuer_op, oc_value = 1\<rparr>\<rparr>))))))))))))))))"

definition ceremony ::
  "'p library \<Rightarrow> node_codec \<Rightarrow> deploy_lib \<Rightarrow> node_world \<Rightarrow> xonly list \<Rightarrow> u64 \<Rightarrow> confirm \<Rightarrow> (ceremony_error, 'p ctx \<times> protocol_state) nop" where
  "ceremony L K D N pks reserve_seed mode =
     nop_bind (nop_err CerNode (nop_ask N (node_genesis K))) (\<lambda>gen.
     nop_bind (nop_err CerNode (nop_ask N (biggest_coin K))) (\<lambda>(_, _, policy).
     nop_bind (nop_err CerNode (nop_ask N (\<lambda>call. spendable K call policy))) (\<lambda>have_sats.
     if have_sats < ceremony_need reserve_seed then nop_lift (Inl (CerNode (preflight_short have_sats reserve_seed)))
     else ceremony_spend L K D N pks reserve_seed mode gen policy)))"

section \<open>The program\<close>

record deploy_args =
  da_rpc_url :: string
  da_rpc_user :: "string option"
  da_rpc_password :: "string option"
  da_rpc_cookie :: "string option"
  da_config :: string

datatype deploy_command =
    DeployRun (dr_reserve_seed: u64) (dr_wallet: string) (dr_test_oracles: bool) (dr_self_mine: bool) (dr_confirm_timeout: u64)
  | DeployVerify "u32 option"

definition default_run :: deploy_command where
  "default_run = DeployRun 18000000 ''styx-deploy'' False False 300"

datatype deploy_failure =
    AlreadyDeployed
  | TestOraclesGiven
  | DfStyxnet styxnet_error
  | DfNode node_error
  | DfKeypair string
  | DfWallet string node_error
  | DfCeremony ceremony_error
  | DfGenesis block_hash block_hash
  | DfArtifacts deploy_error
  | DfNoProtocol
  | DfScan scan_error

definition deploy_auth :: "deploy_args \<Rightarrow> auth" where
  "deploy_auth cli =
     (case da_rpc_cookie cli of
        Some cookie \<Rightarrow> CookieFile cookie
      | None \<Rightarrow> UserPass (case da_rpc_user cli of Some u \<Rightarrow> u | None \<Rightarrow> []) (case da_rpc_password cli of Some p \<Rightarrow> p | None \<Rightarrow> []))"

text \<open>The five public test keys.\<close>

definition test_secret :: "u8 \<Rightarrow> bytes" where
  "test_secret b = replicate 31 0 @ [b]"

fun test_oracle_entries :: "deploy_lib \<Rightarrow> nat \<Rightarrow> u8 list \<Rightarrow> deploy_failure + oracle_entry list" where
  "test_oracle_entries D i [] = Inr []"
| "test_oracle_entries D i (b # bs) =
     bind_res (map_err DfKeypair (dl_public_key D (test_secret b))) (\<lambda>pk.
     bind_res (test_oracle_entries D (Suc i) bs) (\<lambda>es.
     Inr (\<lparr>oe_slot = of_nat i, oe_protocol_pk = pk, oe_nostr_pk = None, oe_admin_url = None\<rparr> # es)))"

definition with_test_oracles :: "deploy_lib \<Rightarrow> bool \<Rightarrow> styxnet_config \<Rightarrow> deploy_failure + styxnet_config" where
  "with_test_oracles D test cfg =
     refuse_if (test \<and> sn_oracles cfg \<noteq> []) TestOraclesGiven (
     if test then bind_res (test_oracle_entries D 0 [7, 8, 9, 101, 102]) (\<lambda>es. Inr (cfg\<lparr>sn_oracles := sn_oracles cfg @ es\<rparr>))
     else Inr cfg)"

text \<open>The wallet is created or loaded, whichever works, and then has to answer.\<close>

definition prepare_wallet ::
  "(string \<Rightarrow> auth \<Rightarrow> string + node_world) \<Rightarrow> node_world connected \<Rightarrow> string \<Rightarrow> (deploy_failure, node_world) nop" where
  "prepare_wallet client node wallet =
     nop_bind (nop_ask (cn_client node) (\<lambda>call. Inr (call ''createwallet'' [JString wallet]))) (\<lambda>_.
     nop_bind (nop_ask (cn_client node) (\<lambda>call. Inr (call ''loadwallet'' [JString wallet]))) (\<lambda>_.
     nop_bind (nop_lift (map_err DfNode (for_wallet client node wallet))) (\<lambda>scoped.
     nop_bind (nop_err (DfWallet wallet) (nop_ask (cn_client scoped) (\<lambda>call. rpc call ''getwalletinfo'' []))) (\<lambda>_.
     nop_bind (nop_ask (cn_client scoped) (\<lambda>call. Inr (call ''rescanblockchain'' []))) (\<lambda>_.
     nop_lift (Inr (cn_client scoped)))))))"

definition completed_config :: "node_codec \<Rightarrow> deploy_lib \<Rightarrow> 'p ctx \<Rightarrow> u32 \<Rightarrow> styxnet_config \<Rightarrow> styxnet_config" where
  "completed_config K D ctx anchor cfg =
     cfg\<lparr>sn_network := (sn_network cfg)\<lparr>nt_genesis := Some (nc_hash_str K (cx_genesis ctx))\<rparr>,
         sn_assets := Some \<lparr>as_obol = dl_asset_str D (pr_obol (cx_params ctx)),
           as_issuer_token = dl_asset_str D (pr_issuer_token (cx_params ctx)), as_policy = dl_asset_str D (pr_policy (cx_params ctx))\<rparr>,
         sn_protocol := Some \<lparr>pt_issuer_anchor_genesis = anchor\<rparr>\<rparr>"

text \<open>A deployment: the file it writes and what it prints.\<close>

definition deploy_run ::
  "'p library \<Rightarrow> node_codec \<Rightarrow> deploy_lib \<Rightarrow> parsers \<Rightarrow> (styxnet_config \<Rightarrow> string + string) \<Rightarrow>
     (string \<Rightarrow> auth \<Rightarrow> string + node_world) \<Rightarrow> node_world connected \<Rightarrow> string \<Rightarrow> styxnet_config \<Rightarrow>
     u64 \<Rightarrow> string \<Rightarrow> bool \<Rightarrow> bool \<Rightarrow> u64 \<Rightarrow>
     (deploy_failure, string effect list \<times> 'p ctx \<times> protocol_state \<times> u32) nop" where
  "deploy_run L K D P to_toml client node path cfg reserve_seed wallet test self_mine timeout =
     (if sn_assets cfg \<noteq> None then nop_lift (Inl AlreadyDeployed) else
      nop_bind (nop_lift (with_test_oracles D test cfg)) (\<lambda>cfg.
      nop_bind (nop_lift (map_err DfStyxnet (oracle_pks P cfg))) (\<lambda>pks.
      nop_bind (prepare_wallet client node wallet) (\<lambda>N.
      nop_bind (nop_err DfNode (nop_ask N node_height)) (\<lambda>anchor.
      nop_bind (nop_err DfCeremony
        (ceremony L K D N pks reserve_seed (if self_mine then SelfMine else Await (unat timeout)))) (\<lambda>(ctx, protocol).
      nop_bind (nop_lift (map_err DfStyxnet (styxnet_save to_toml (completed_config K D ctx anchor cfg) path))) (\<lambda>effs.
      nop_lift (Inr (effs, ctx, protocol, anchor)))))))))"

text \<open>
  The verification. The height is asked for even when the range is given; each scan repeats its
  request at most forty times, and the scans follow one another.
\<close>

definition scans_from :: "node_world \<Rightarrow> nat \<Rightarrow> nat \<Rightarrow> nat \<Rightarrow> call" where
  "scans_from N t i j = nw_call N (t + 41 * i + j)"

definition deploy_verify ::
  "'p library \<Rightarrow> node_codec \<Rightarrow> parsers \<Rightarrow> node_world \<Rightarrow> styxnet_config \<Rightarrow> u32 option \<Rightarrow> (deploy_failure, protocol_state) nop" where
  "deploy_verify L K P N cfg scan_to =
     nop_bind (nop_lift (map_err DfStyxnet (config_params P cfg))) (\<lambda>params.
     nop_bind (nop_lift (map_err DfStyxnet (config_genesis P cfg))) (\<lambda>gen.
     nop_bind (nop_err DfNode (nop_ask N (node_genesis K))) (\<lambda>node_gen.
     if node_gen \<noteq> gen then nop_lift (Inl (DfGenesis gen node_gen)) else
     nop_bind (nop_lift (map_err DfArtifacts (artifacts_compile L params))) (\<lambda>arts.
     let ctx = \<lparr>cx_params = params, cx_artifacts = arts, cx_genesis = gen\<rparr> in
     nop_bind (nop_lift (case sn_protocol cfg of None \<Rightarrow> Inl DfNoProtocol | Some p \<Rightarrow> Inr (pt_issuer_anchor_genesis p))) (\<lambda>floor_height.
     nop_bind (nop_err DfNode (nop_ask N node_height)) (\<lambda>height.
     let tip = (case scan_to of Some h \<Rightarrow> h | None \<Rightarrow> height) in
     nop_bind (\<lambda>r. (map_err DfScan (find_issuer L K (scans_from N (nr_time r)) ctx floor_height tip),
                    r\<lparr>nr_time := nr_time r + 41 * range_count floor_height tip\<rparr>)) (\<lambda>issuer.
     (\<lambda>r. (map_err DfScan (scan_protocol L K (scans_from N (nr_time r)) ctx (oc_state issuer)), r\<lparr>nr_time := nr_time r + 41 * 3\<rparr>)))))))))"

datatype 'p deploy_output =
    Deployed "string effect list" "'p ctx" protocol_state u32
  | Verified block_hash protocol_state

definition deploy_main ::
  "'p library \<Rightarrow> node_codec \<Rightarrow> deploy_lib \<Rightarrow> parsers \<Rightarrow> (string \<Rightarrow> string option) \<Rightarrow> (string \<Rightarrow> string + styxnet_config) \<Rightarrow>
     (styxnet_config \<Rightarrow> string + string) \<Rightarrow> (string \<Rightarrow> auth \<Rightarrow> string + node_world) \<Rightarrow> deploy_args \<Rightarrow> deploy_command \<Rightarrow>
     (deploy_failure, 'p deploy_output) nop" where
  "deploy_main L K D P read from_toml to_toml client cli cmd =
     nop_bind (nop_lift (map_err DfNode (from_url client (da_rpc_url cli) (deploy_auth cli)))) (\<lambda>node.
     nop_bind (nop_lift (map_err DfStyxnet (styxnet_load from_toml read (da_config cli)))) (\<lambda>cfg.
     case cmd of
       DeployRun reserve_seed wallet test self_mine timeout \<Rightarrow>
         nop_bind (deploy_run L K D P to_toml client node (da_config cli) cfg reserve_seed wallet test self_mine timeout)
           (\<lambda>(effs, ctx, protocol, anchor). nop_lift (Inr (Deployed effs ctx protocol anchor)))
     | DeployVerify scan_to \<Rightarrow>
         nop_bind (deploy_verify L K P (cn_client node) cfg scan_to) (\<lambda>protocol.
         nop_bind (nop_lift (map_err DfStyxnet (config_genesis P cfg))) (\<lambda>gen.
         nop_lift (Inr (Verified gen protocol))))))"

section \<open>Runs and what they send\<close>

lemma nop_bind_Inr: "nop_bind m f r = (Inr b, r') \<longleftrightarrow> (\<exists>a u. m r = (Inr a, u) \<and> f a u = (Inr b, r'))"
  by (auto simp: nop_bind_def split: sum.splits prod.splits)

lemma nop_simps [simp]:
  "nop_lift v r = (w, r') \<longleftrightarrow> v = w \<and> r' = r"
  "nop_err g m r = (Inr a, r') \<longleftrightarrow> m r = (Inr a, r')"
  "nr_sent (nop_sleep ms r) = nr_sent r" "nr_time (nop_sleep ms r) = nr_time r" "nr_ms (nop_sleep ms r) = nr_ms r + ms"
  by (auto simp: nop_lift_def nop_err_def map_err_def nop_sleep_def split: sum.splits prod.splits)

lemma nop_ask_cases:
  "nop_ask N f r = (v, r') \<Longrightarrow> v = f (nw_call N (nr_time r)) \<and> nr_time r' = Suc (nr_time r) \<and> nr_sent r' = nr_sent r \<and> nr_ms r \<le> nr_ms r'"
  by (auto simp: nop_ask_def)

text \<open>An operation that hands at most \<open>k\<close> transactions to the node, and exactly \<open>k\<close> when it succeeds.\<close>

definition sending :: "nat \<Rightarrow> ('e, 'a) nop \<Rightarrow> bool" where
  "sending k m \<longleftrightarrow>
     (\<forall>r v r'. m r = (v, r') \<longrightarrow>
        (\<exists>txs. nr_sent r' = txs @ nr_sent r \<and> length txs \<le> k \<and> (\<forall>a. v = Inr a \<longrightarrow> length txs = k)))"

lemma sendingD:
  "\<lbrakk>sending k m; m r = (v, r')\<rbrakk> \<Longrightarrow> \<exists>txs. nr_sent r' = txs @ nr_sent r \<and> length txs \<le> k \<and> (\<forall>a. v = Inr a \<longrightarrow> length txs = k)"
  by (simp add: sending_def)

named_theorems sending_intro \<open>how many transactions an operation sends\<close>

lemma sending_basic [sending_intro]: "sending 0 (nop_lift v)" "sending 0 (nop_ask N f)" "sending k (nop_lift (Inl e))"
  by (auto simp: sending_def dest: nop_ask_cases)

lemma sending_err [sending_intro]: "sending k m \<Longrightarrow> sending k (nop_err g m)"
  unfolding sending_def nop_err_def map_err_def by (fastforce split: prod.splits sum.splits)

lemma sending_send [sending_intro]: "sending 1 (nop_send L K N tx)"
  by (auto simp: sending_def nop_send_def split: prod.splits dest: nop_ask_cases)

lemma sending_bind:
  assumes m: "sending k m" and f: "\<And>a. sending l (f a)"
  shows "sending (k + l) (nop_bind m f)"
  unfolding sending_def
proof (intro allI impI)
  fix r v r' assume run: "nop_bind m f r = (v, r')"
  obtain q u where q: "m r = (q, u)" by force
  from sendingD[OF m q] obtain txs where txs: "nr_sent u = txs @ nr_sent r" "length txs \<le> k" "\<forall>a. q = Inr a \<longrightarrow> length txs = k" by blast
  show "\<exists>txs. nr_sent r' = txs @ nr_sent r \<and> length txs \<le> k + l \<and> (\<forall>a. v = Inr a \<longrightarrow> length txs = k + l)"
  proof (cases q)
    case (Inl e)
    with run q txs show ?thesis by (auto simp: nop_bind_def)
  next
    case (Inr a)
    with run q have "f a u = (v, r')" by (simp add: nop_bind_def)
    from sendingD[OF f this] obtain more where "nr_sent r' = more @ nr_sent u" "length more \<le> l" "\<forall>a. v = Inr a \<longrightarrow> length more = l" by blast
    with txs Inr show ?thesis by (intro exI[of _ "more @ txs"]) auto
  qed
qed

text \<open>The same with the count given by the goal: reads first, then the rest.\<close>

lemma sending_read [sending_intro]: "\<lbrakk>sending 0 m; \<And>a. sending k (f a)\<rbrakk> \<Longrightarrow> sending k (nop_bind m f)"
  using sending_bind[of 0 m k f] by simp

lemma sending_last: "\<lbrakk>sending 1 m; \<And>a. sending k (f a)\<rbrakk> \<Longrightarrow> sending (Suc k) (nop_bind m f)"
  using sending_bind[of 1 m k f] by simp

lemma sending_case [sending_intro]: "(\<And>a b. sending k (f a b)) \<Longrightarrow> sending k (case p of (a, b) \<Rightarrow> f a b)"
  by (cases p) simp

lemma sending_if [sending_intro]: "\<lbrakk>sending k m; sending k n\<rbrakk> \<Longrightarrow> sending k (if b then m else n)"
  by simp

lemma sending_mine [sending_intro]: "sending 0 (mine D N)"
  unfolding mine_def by (intro sending_intro)

lemma sending_sign [sending_intro]: "sending 1 (run_sign_send L K N tx)"
  unfolding run_sign_send_def by (intro sending_intro)

lemma sending_pay [sending_intro]: "sending 1 (run_pay L K N policy outs what)"
  unfolding run_pay_def Let_def by (intro sending_intro)

text \<open>Only a failed coin selection is retried, and it comes before anything is sent.\<close>

lemma run_pay_funding:
  assumes "run_pay L K N policy outs what r = (Inl (Funding m), r')"
  shows "nr_sent r' = nr_sent r"
proof -
  let ?spend = "sum_list (map snd outs) + sats_raw FEE"
  obtain q u where q: "nop_ask N (\<lambda>call. select_coins K call policy ?spend what) r = (q, u)" by force
  show ?thesis
  proof (cases q)
    case (Inl e)
    then show ?thesis using assms q nop_ask_cases[OF q] by (simp add: run_pay_def nop_bind_def Let_def)
  next
    case (Inr sel)
    then show ?thesis using assms q
      by (auto simp: run_pay_def nop_bind_def Let_def nop_ask_def nop_lift_def run_sign_send_def nop_err_def nop_send_def new_address_def signed_tx_def
          or_shape_def rpc_def map_err_def bind_res_def split: sum.splits prod.splits option.splits if_splits)
  qed
qed

lemma sending_fund_attempts: "sending 1 (run_fund_attempts L K N policy spk value n last_err)"
proof (induction n arbitrary: last_err)
  case (Suc n)
  show ?case
    unfolding sending_def
  proof (intro allI impI)
    fix r v r' assume run: "run_fund_attempts L K N policy spk value (Suc n) last_err r = (v, r')"
    obtain q u where q: "run_pay L K N policy [(spk, value)] ''fund_address'' r = (q, u)" by force
    from sendingD[OF sending_pay q] obtain txs where txs: "nr_sent u = txs @ nr_sent r" "length txs \<le> 1" "\<forall>a. q = Inr a \<longrightarrow> length txs = 1" by blast
    consider txid where "q = Inr txid" | m where "q = Inl (Funding m)" | e where "q = Inl e" "\<And>m. e \<noteq> Funding m" by (metis sum.exhaust)
    then show "\<exists>txs. nr_sent r' = txs @ nr_sent r \<and> length txs \<le> 1 \<and> (\<forall>a. v = Inr a \<longrightarrow> length txs = 1)"
    proof cases
      case 1
      with run q have "nop_ask N (\<lambda>call. node_find K call txid spk value) u = (v, r')" by simp
      from nop_ask_cases[OF this] txs 1 show ?thesis by auto
    next
      case (2 m)
      then have "nr_sent u = nr_sent r" using run_pay_funding q by simp
      moreover have "run_fund_attempts L K N policy spk value n (Some (Funding m)) (nop_sleep 500 u) = (v, r')" using run q 2 by simp
      from sendingD[OF Suc.IH this] have "\<exists>txs. nr_sent r' = txs @ nr_sent u \<and> length txs \<le> 1 \<and> (\<forall>a. v = Inr a \<longrightarrow> length txs = 1)" by simp
      ultimately show ?thesis by simp
    next
      case (3 e)
      with run q have "v = Inl e" "r' = u" by (cases e; simp)+
      with txs show ?thesis by auto
    qed
  qed
qed (auto simp: sending_def)

lemma sending_fund [sending_intro]: "sending 1 (run_fund_address L K N policy spk value)"
  unfolding run_fund_address_def by (rule sending_fund_attempts)

lemma sending_split [sending_intro]: "sending 1 (split_two L K N policy)"
proof -
  have "sending (Suc 0) (split_two L K N policy)"
    unfolding split_two_def
    by (rule sending_read, intro sending_intro, rule sending_read, intro sending_intro, rule sending_last) (intro sending_intro)+
  then show ?thesis by simp
qed

section \<open>Waiting\<close>

text \<open>The wait's history: it was told \<open>n - 1\<close> times that the output is not there, and then how it ended.\<close>

definition waited :: "node_codec \<Rightarrow> node_world \<Rightarrow> outpoint \<Rightarrow> nat \<Rightarrow> nat \<Rightarrow> node_run \<Rightarrow> (node_error + unit) \<times> node_run \<Rightarrow> nat \<Rightarrow> bool" where
  "waited K N op secs deadline r res n \<longleftrightarrow>
     0 < n \<and> nr_time (snd res) = nr_time r + n \<and> nr_sent (snd res) = nr_sent r \<and>
     map (\<lambda>t. outpoint_confirmed K op (nw_call N t)) [nr_time r..<nr_time r + (n - 1)] = replicate (n - 1) (Inr False) \<and>
     (case outpoint_confirmed K op (nw_call N (nr_time r + (n - 1))) of
        Inl e \<Rightarrow> fst res = Inl e
      | Inr ok \<Rightarrow> if ok then fst res = Inr () else fst res = Inl (unconfirmed K op secs) \<and> deadline \<le> nr_ms (snd res))"

lemma waited_later:
  assumes "nop_ask N (outpoint_confirmed K op) r = (Inr False, u)" "waited K N op secs deadline (nop_sleep 500 u) res n"
  shows "waited K N op secs deadline r res (Suc n)"
proof -
  obtain k where n: "n = Suc k" using assms(2) by (cases n) (auto simp: waited_def)
  have no: "outpoint_confirmed K op (nw_call N (nr_time r)) = Inr False" and u: "nr_time u = Suc (nr_time r)" "nr_sent u = nr_sent r"
    using nop_ask_cases[OF assms(1)] by auto
  have "[nr_time r..<nr_time r + Suc k] = nr_time r # [Suc (nr_time r)..<Suc (nr_time r) + k]" by (simp add: upt_rec)
  then show ?thesis using assms(2) no u by (simp add: waited_def n)
qed

lemma poll_step:
  assumes "a \<le> b" "b < (d :: nat)"
  shows "(d - (b + 500) + 499) div 500 < (d - a + 499) div 500"
proof (cases "b + 500 \<le> d")
  case True
  have "(d - (b + 500) + 499) div 500 + 1 = (d - (b + 500) + 499 + 500) div 500" by simp
  also have "\<dots> \<le> (d - a + 499) div 500" using True assms by (intro div_le_mono) linarith
  finally show ?thesis by simp
next
  case False
  then have "(d - (b + 500) + 499) div 500 = 0" by simp
  moreover have "500 div 500 \<le> (d - a + 499) div 500" using assms by (intro div_le_mono) linarith
  ultimately show ?thesis by simp
qed

lemma await_waited:
  "\<exists>n \<le> (deadline - nr_ms r + 499) div 500 + 1. waited K N op secs deadline r (await_outpoint K N op secs deadline r) n"
proof (induction K N op secs deadline r rule: await_outpoint.induct)
  case (1 K N op secs deadline r)
  obtain v u where ask: "nop_ask N (outpoint_confirmed K op) r = (v, u)" by force
  note a = nop_ask_cases[OF ask]
  consider e where "v = Inl e" | "v = Inr True" | "v = Inr False" "deadline \<le> nr_ms u" | "v = Inr False" "nr_ms u < deadline"
    by (cases v) (auto simp: not_le[symmetric])
  then show ?case
  proof cases
    case 4
    then obtain n where n: "n \<le> (deadline - nr_ms (nop_sleep 500 u) + 499) div 500 + 1"
      "waited K N op secs deadline (nop_sleep 500 u) (await_outpoint K N op secs deadline (nop_sleep 500 u)) n"
      using "1.IH"[OF ask[symmetric], of False] by auto
    have "waited K N op secs deadline r (await_outpoint K N op secs deadline r) (Suc n)"
      using waited_later[OF ask[unfolded 4(1)] n(2)] ask 4 by (simp add: await_outpoint.simps[of K N op secs deadline r])
    moreover have "(deadline - nr_ms (nop_sleep 500 u) + 499) div 500 < (deadline - nr_ms r + 499) div 500"
      using poll_step[of "nr_ms r" "nr_ms u" deadline] a 4(2) by simp
    then have "Suc n \<le> (deadline - nr_ms r + 499) div 500 + 1" using n(1) by linarith
    ultimately show ?thesis by blast
  qed (use ask a in \<open>auto simp: await_outpoint.simps[of K N op secs deadline r] waited_def intro!: exI[of _ 1]\<close>)
qed

lemma sending_confirm [sending_intro]: "sending 0 (confirm_outpoint K D N op mode)"
proof (cases mode)
  case SelfMine
  then show ?thesis unfolding confirm_outpoint_def by (simp, intro sending_intro)
next
  case (Await secs)
  show ?thesis
    unfolding sending_def
  proof (intro allI impI)
    fix r v r' assume "confirm_outpoint K D N op mode r = (v, r')"
    with await_waited[where K = K and N = N and op = op and secs = secs and deadline = "nr_ms r + 1000 * secs" and r = r] Await
    show "\<exists>txs. nr_sent r' = txs @ nr_sent r \<and> length txs \<le> 0 \<and> (\<forall>a. v = Inr a \<longrightarrow> length txs = 0)"
      by (auto simp: confirm_outpoint_def waited_def)
  qed
qed

text \<open>A confirmation that succeeded was seen.\<close>

definition seen :: "node_codec \<Rightarrow> node_world \<Rightarrow> outpoint \<Rightarrow> bool" where
  "seen K N op \<longleftrightarrow> (\<exists>t. outpoint_confirmed K op (nw_call N t) = Inr True)"

lemma confirm_seen:
  assumes "confirm_outpoint K D N op mode r = (Inr a, r')"
  shows "seen K N op"
proof (cases mode)
  case SelfMine
  with assms obtain u ok w where "nop_ask N (outpoint_confirmed K op) u = (Inr ok, w)" ok
    by (auto simp: confirm_outpoint_def nop_bind_Inr split: if_splits)
  from nop_ask_cases[OF this(1)] this(2) show ?thesis unfolding seen_def by metis
next
  case (Await secs)
  with assms have run: "await_outpoint K N op secs (nr_ms r + 1000 * secs) r = (Inr a, r')" by (simp add: confirm_outpoint_def)
  obtain n where n: "waited K N op secs (nr_ms r + 1000 * secs) r (Inr a, r') n" using await_waited run by metis
  let ?c = "outpoint_confirmed K op (nw_call N (nr_time r + (n - 1)))"
  have "case ?c of Inl e \<Rightarrow> False | Inr ok \<Rightarrow> ok" using n by (simp add: waited_def split: sum.splits if_splits)
  then have "?c = Inr True" by (simp split: sum.splits)
  then show ?thesis unfolding seen_def by blast
qed

lemma sending_ceremony_spend: "sending 3 (ceremony_spend L K D N pks reserve_seed mode gen policy)"
proof -
  have "sending (Suc (Suc (Suc 0))) (ceremony_spend L K D N pks reserve_seed mode gen policy)"
    unfolding ceremony_spend_def issuance_tx_def Let_def
    by (intro sending_intro sending_last[OF sending_err[OF sending_split]] sending_last[OF sending_err[OF sending_send]]
        sending_last[OF sending_err[OF sending_fund]])
  then show ?thesis by (simp add: eval_nat_numeral)
qed

section \<open>What a deployment leaves\<close>

text \<open>An output of the given amount and script in the transaction the node's wallet knows by the outpoint's id.\<close>

definition pays :: "node_codec \<Rightarrow> node_world \<Rightarrow> outpoint \<Rightarrow> script \<Rightarrow> u64 \<Rightarrow> bool" where
  "pays K N op spk value \<longleftrightarrow>
     (\<exists>t tx i. get_tx K (nw_call N t) (op_txid op) = Inr tx \<and> i < length (tx_output tx) \<and> op_vout op = of_nat i \<and>
        to_value (tx_output tx ! i) = VExplicit value \<and> to_script_pubkey (tx_output tx ! i) = spk)"

lemma found_pays:
  assumes "nop_ask N (\<lambda>call. node_find K call txid spk value) r = (Inr op, r')"
  shows "pays K N op spk value" "op_txid op = txid"
proof -
  have "node_find K (nw_call N (nr_time r)) txid spk value = Inr op" using nop_ask_cases[OF assms] by simp
  then obtain tx i where tx: "get_tx K (nw_call N (nr_time r)) txid = Inr tx" and op: "op = OutPoint txid (of_nat i)"
    and "position (\<lambda>o'. to_value o' = VExplicit value \<and> to_script_pubkey o' = spk) (tx_output tx) = Some i"
    by (auto simp: node_find_def bind_res_Inr split: option.splits)
  from position_Some[OF this(3)] tx op show "pays K N op spk value" "op_txid op = txid" unfolding pays_def by auto
qed

text \<open>
  A payment from the node's wallet as the client makes it: the coins selected for the outputs and the
  fee, the transaction with exactly those outputs, the change and the fee, all of the policy asset,
  signed by the wallet and accepted under an id.
\<close>

definition wallet_paid :: "'p library \<Rightarrow> node_codec \<Rightarrow> node_world \<Rightarrow> asset_id \<Rightarrow> (script \<times> u64) list \<Rightarrow> transaction \<Rightarrow> txid \<Rightarrow> bool" where
  "wallet_paid L K N policy outs tx txid \<longleftrightarrow>
     (let spend = sum_list (map snd outs) + sats_raw FEE in
      \<exists>t what inputs sum spk t' t''. select_coins K (nw_call N t) policy spend what = Inr (inputs, sum) \<and>
        signed_tx K (nc_tx_hex K (pay_tx policy outs inputs (sum - spend) spk)) (nw_call N t') = Inr tx \<and>
        node_send L K (nw_call N t'') tx = Inr txid)"

text \<open>
  The transaction of the two issuances as it is requested: it spends the two prevouts in this order,
  and the node is asked to issue the supply to the first address on the first input and one unit to
  the second address on the second.
\<close>

definition issuance_requested ::
  "node_codec \<Rightarrow> deploy_lib \<Rightarrow> node_world \<Rightarrow> outpoint \<Rightarrow> outpoint \<Rightarrow> u64 \<Rightarrow> string \<Rightarrow> string \<Rightarrow> transaction \<Rightarrow> bool" where
  "issuance_requested K D N issue_in token_in change pot_addr issuer_addr tx \<longleftrightarrow>
     (\<exists>t1 t2 t3 t4 change_addr raw entries hex.
        new_address_text D (nw_call N t1) = Inr change_addr \<and>
        rpc (nw_call N t2) ''createrawtransaction''
          [JArray [outpoint_json K issue_in, outpoint_json K token_in], out_array [(''fee'', FEE_RPC), (change_addr, change)]] = Inr raw \<and>
        rpc (nw_call N t3) ''rawissueasset''
          [raw, JArray [issuance_json SUPPLY pot_addr, issuance_json 1 issuer_addr]] = Inr (JArray entries) \<and>
        entries \<noteq> [] \<and> json_key (last entries) ''hex'' = JString hex \<and>
        signed_tx K hex (nw_call N t4) = Inr tx)"

lemma nop_send_Inr:
  "nop_send L K N tx r = (Inr txid, r') \<Longrightarrow> node_send L K (nw_call N (nr_time r)) tx = Inr txid \<and> nr_sent r' = tx # nr_sent r"
  by (auto simp: nop_send_def split: prod.splits dest: nop_ask_cases)

lemma nop_ask_Inr:
  "nop_ask N f r = (Inr a, r') \<Longrightarrow> f (nw_call N (nr_time r)) = Inr a \<and> nr_sent r' = nr_sent r"
  by (auto dest: nop_ask_cases)

lemma run_sign_send_Inr:
  assumes "run_sign_send L K N tx r = (Inr txid, r')"
  shows "\<exists>sent t t'. nr_sent r' = sent # nr_sent r \<and> signed_tx K (nc_tx_hex K tx) (nw_call N t) = Inr sent \<and> node_send L K (nw_call N t') sent = Inr txid"
  using assms by (auto simp: run_sign_send_def nop_bind_Inr dest!: nop_send_Inr nop_ask_Inr)

lemma run_pay_Inr:
  assumes "run_pay L K N policy outs what r = (Inr txid, r')"
  shows "\<exists>tx. nr_sent r' = tx # nr_sent r \<and> wallet_paid L K N policy outs tx txid"
proof -
  let ?spend = "sum_list (map snd outs) + sats_raw FEE"
  from assms obtain inputs sum u spk w where sel: "nop_ask N (\<lambda>call. select_coins K call policy ?spend what) r = (Inr (inputs, sum), u)"
    and addr: "(if 0 < sum - ?spend then nop_ask N (new_address K) else nop_lift (Inr [])) u = (Inr spk, w)"
    and send: "run_sign_send L K N (pay_tx policy outs inputs (sum - ?spend) spk) w = (Inr txid, r')"
    by (auto simp: run_pay_def Let_def nop_bind_Inr)
  have "nr_sent w = nr_sent r" using nop_ask_Inr[OF sel] addr by (auto split: if_splits dest!: nop_ask_Inr)
  with run_sign_send_Inr[OF send] nop_ask_Inr[OF sel] show ?thesis unfolding wallet_paid_def Let_def by metis
qed

text \<open>Only a failed coin selection was retried, so the payment that succeeded is the only one.\<close>

lemma funded_pays:
  "run_fund_attempts L K N policy spk value n last_err r = (Inr op, r') \<Longrightarrow>
   \<exists>tx. nr_sent r' = tx # nr_sent r \<and> wallet_paid L K N policy [(spk, value)] tx (op_txid op) \<and> pays K N op spk value"
proof (induction n arbitrary: last_err r)
  case (Suc n)
  obtain q u where q: "run_pay L K N policy [(spk, value)] ''fund_address'' r = (q, u)" by force
  consider txid where "q = Inr txid" | m where "q = Inl (Funding m)" | e where "q = Inl e" "\<forall>m. e \<noteq> Funding m" by (metis sum.exhaust)
  then show ?case
  proof cases
    case 1
    with q Suc.prems have find: "nop_ask N (\<lambda>call. node_find K call txid spk value) u = (Inr op, r')" by simp
    with run_pay_Inr[OF q[unfolded 1]] nop_ask_Inr[OF find] found_pays[OF find] show ?thesis by auto
  next
    case (2 m)
    then have "nr_sent u = nr_sent r" using run_pay_funding q by simp
    with 2 q Suc show ?thesis by force
  next
    case (3 e)
    with q Suc.prems show ?thesis by (cases e) simp_all
  qed
qed simp

lemma issuance_tx_Inr:
  assumes "issuance_tx K D N (issue_in, token_in) change pot_addr issuer_addr r = (Inr tx, r')"
  shows "issuance_requested K D N issue_in token_in change pot_addr issuer_addr tx \<and> nr_sent r' = nr_sent r"
proof -
  from assms obtain change_addr u1 raw u2 issued u3 hex v where
    change: "nop_ask N (new_address_text D) r = (Inr change_addr, u1)"
    and raw: "nop_ask N (\<lambda>call. rpc call ''createrawtransaction''
      [JArray [outpoint_json K issue_in, outpoint_json K token_in], out_array [(''fee'', FEE_RPC), (change_addr, change)]]) u1 = (Inr raw, u2)"
    and issue: "nop_ask N (\<lambda>call. rpc call ''rawissueasset'' [raw, JArray [issuance_json SUPPLY pot_addr, issuance_json 1 issuer_addr]]) u2 = (Inr issued, u3)"
    and hex: "Option.bind (as_array issued) (\<lambda>a. if a = [] then None else as_str (json_key (last a) ''hex'')) = Some hex"
    and sign: "nop_ask N (\<lambda>call. rpc call ''signrawtransactionwithwallet'' [JString hex]) u3 = (Inr v, r')"
    and dec: "(case Option.bind (as_str (json_key v ''hex'')) (nc_from_hex K) of None \<Rightarrow> Inl (CerShape ''issuance sign hex'')
      | Some bs \<Rightarrow> (case nc_tx K bs of None \<Rightarrow> Inl (CerShape ''issuance tx'') | Some tx \<Rightarrow> Inr tx)) = Inr tx"
    unfolding issuance_tx_def fst_conv snd_conv by (auto simp: nop_bind_Inr split: option.splits)
  from hex obtain entries where "issued = JArray entries" "entries \<noteq> []" "json_key (last entries) ''hex'' = JString hex"
    by (auto simp: bind_eq_Some_conv split: if_splits elim!: as_array.elims as_str.elims)
  moreover have "signed_tx K hex (nw_call N (nr_time u3)) = Inr tx"
    using nop_ask_Inr[OF sign] dec by (auto simp: signed_tx_def bind_res_def or_shape_def Option.bind_eq_None_conv bind_eq_Some_conv split: option.splits)
  ultimately show ?thesis
    using nop_ask_Inr[OF change] nop_ask_Inr[OF raw] nop_ask_Inr[OF issue] nop_ask_Inr[OF sign] unfolding issuance_requested_def by (intro conjI) (blast, simp)
qed

text \<open>
  A deployment, tied to the three transactions that made it (latest first). The node's \<open>find\<close> looks
  for an amount and a script only: which asset an output of the issuance carries is what the node was
  asked to issue there.
\<close>

definition prevouts_made :: "'p library \<Rightarrow> node_codec \<Rightarrow> node_world \<Rightarrow> asset_id \<Rightarrow> outpoint \<Rightarrow> outpoint \<Rightarrow> transaction \<Rightarrow> bool" where
  "prevouts_made L K N policy issue_in token_in tx \<longleftrightarrow>
     (\<exists>a b. wallet_paid L K N policy [(a, PREVOUT), (b, PREVOUT)] tx (op_txid issue_in) \<and> op_txid token_in = op_txid issue_in \<and>
        pays K N issue_in a PREVOUT \<and> pays K N token_in b PREVOUT)"

definition issuance_made ::
  "'p library \<Rightarrow> node_codec \<Rightarrow> deploy_lib \<Rightarrow> node_world \<Rightarrow> outpoint \<Rightarrow> outpoint \<Rightarrow> script \<Rightarrow> script \<Rightarrow> transaction \<Rightarrow> txid \<Rightarrow> bool" where
  "issuance_made L K D N issue_in token_in pot issuer tx txid \<longleftrightarrow>
     (\<exists>t t' chain pot_addr issuer_addr. node_chain (nw_call N t) = Inr chain \<and>
        dl_covenant_address D (address_params chain) pot = Some pot_addr \<and>
        dl_covenant_address D (address_params chain) issuer = Some issuer_addr \<and>
        issuance_requested K D N issue_in token_in (2 * PREVOUT - FEE_RPC) pot_addr issuer_addr tx \<and>
        node_send L K (nw_call N t') tx = Inr txid)"

definition deployed_state ::
  "'p library \<Rightarrow> node_codec \<Rightarrow> deploy_lib \<Rightarrow> node_world \<Rightarrow> xonly list \<Rightarrow> u64 \<Rightarrow> 'p ctx \<Rightarrow> protocol_state \<Rightarrow> transaction list \<Rightarrow> bool" where
  "deployed_state L K D N pks reserve_seed c ps txs \<longleftrightarrow>
     (\<exists>issue_in token_in reserve_tx issue_tx split_tx.
        txs = [reserve_tx, issue_tx, split_tx] \<and>
        prevouts_made L K N (pr_policy (cx_params c)) issue_in token_in split_tx \<and>
        cx_params c = ceremony_params D issue_in token_in (pr_policy (cx_params c)) pks \<and>
        issuance_made L K D N issue_in token_in (pot_spk L (cx_artifacts c)) (issuer_spk L (cx_artifacts c) (oc_state (ps_issuer ps)))
          issue_tx (op_txid (oc_outpoint (ps_pot ps))) \<and>
        wallet_paid L K N (pr_policy (cx_params c)) [(stability_spk L (cx_artifacts c), reserve_seed)] reserve_tx
          (op_txid (oc_outpoint (ps_reserve ps)))) \<and>
     artifacts_compile L (cx_params c) = Inr (cx_artifacts c) \<and>
     (\<exists>t. node_genesis K (nw_call N t) = Inr (cx_genesis c)) \<and>
     (\<exists>t. node_height (nw_call N t) = Inr (height_raw (is_last_mint_height (oc_state (ps_issuer ps))))) \<and>
     oc_value (ps_pot ps) = Obol SUPPLY \<and> pays K N (oc_outpoint (ps_pot ps)) (pot_spk L (cx_artifacts c)) SUPPLY \<and> seen K N (oc_outpoint (ps_pot ps)) \<and>
     oc_value (ps_issuer ps) = 1 \<and> pays K N (oc_outpoint (ps_issuer ps)) (issuer_spk L (cx_artifacts c) (oc_state (ps_issuer ps))) 1 \<and>
     op_txid (oc_outpoint (ps_issuer ps)) = op_txid (oc_outpoint (ps_pot ps)) \<and>
     oc_value (ps_reserve ps) = Sats reserve_seed \<and> pays K N (oc_outpoint (ps_reserve ps)) (stability_spk L (cx_artifacts c)) reserve_seed \<and>
     seen K N (oc_outpoint (ps_reserve ps))"

lemma split_pays:
  assumes "split_two L K N policy r = (Inr (issue_in, x, token_in, y), r')"
  shows "\<exists>tx. nr_sent r' = tx # nr_sent r \<and> prevouts_made L K N policy issue_in token_in tx \<and> x = PREVOUT \<and> y = PREVOUT"
proof -
  from assms obtain a b u1 u2 u3 u4 txid where a: "nop_ask N (new_address K) r = (Inr a, u1)" and b: "nop_ask N (new_address K) u1 = (Inr b, u2)"
    and pay: "run_pay L K N policy [(a, PREVOUT), (b, PREVOUT)] ''split_two'' u2 = (Inr txid, u3)"
    and opa: "nop_ask N (\<lambda>call. node_find K call txid a PREVOUT) u3 = (Inr issue_in, u4)"
    and opb: "nop_ask N (\<lambda>call. node_find K call txid b PREVOUT) u4 = (Inr token_in, r')" and "x = PREVOUT" "y = PREVOUT"
    by (auto simp: split_two_def nop_bind_Inr)
  then show ?thesis
    using run_pay_Inr[OF pay] nop_ask_Inr[OF a] nop_ask_Inr[OF b] nop_ask_Inr[OF opa] nop_ask_Inr[OF opb] found_pays[OF opa] found_pays[OF opb] unfolding prevouts_made_def by fastforce
qed

lemma sends_nothing: "\<lbrakk>sending 0 m; m r = (v, r')\<rbrakk> \<Longrightarrow> nr_sent r' = nr_sent r"
  by (drule (1) sendingD) auto

lemma two_prevouts_change: "change_after (PREVOUT + PREVOUT) FEE_RPC what = Inr change \<Longrightarrow> change = 2 * PREVOUT - FEE_RPC"
  by (auto simp: change_after_def sub_checked_def split: if_splits option.splits)

lemma ceremony_spend_deployed:
  assumes "ceremony_spend L K D N pks reserve_seed mode gen policy r = (Inr (c, ps), r')"
    "node_genesis K (nw_call N t0) = Inr gen"
  shows "\<exists>txs. nr_sent r' = txs @ nr_sent r \<and> deployed_state L K D N pks reserve_seed c ps txs \<and> pr_policy (cx_params c) = policy"
proof -
  from assms(1) obtain issue_in x token_in y r1 arts h r2 chain r3 pot_addr issuer_addr change tx r4 txid r5 pot_op r6 issuer_op r7 r8 reserve_op r9 where
    split: "split_two L K N policy r = (Inr (issue_in, x, token_in, y), r1)"
    and arts: "artifacts_compile L (ceremony_params D issue_in token_in policy pks) = Inr arts"
    and h: "nop_ask N node_height r1 = (Inr h, r2)" and chain: "nop_ask N node_chain r2 = (Inr chain, r3)"
    and addrs: "dl_covenant_address D (address_params chain) (pot_spk L arts) = Some pot_addr"
      "dl_covenant_address D (address_params chain) (issuer_spk L arts \<lparr>is_last_mint_height = BlockHeight h\<rparr>) = Some issuer_addr"
    and change: "change_after (x + y) FEE_RPC ''issuance change'' = Inr change"
    and issue: "issuance_tx K D N (issue_in, token_in) change pot_addr issuer_addr r3 = (Inr tx, r4)"
    and send: "nop_send L K N tx r4 = (Inr txid, r5)"
    and pot: "nop_ask N (\<lambda>call. node_find K call txid (pot_spk L arts) SUPPLY) r5 = (Inr pot_op, r6)"
    and issuer: "nop_ask N (\<lambda>call. node_find K call txid (issuer_spk L arts \<lparr>is_last_mint_height = BlockHeight h\<rparr>) 1) r6 = (Inr issuer_op, r7)"
    and seen1: "confirm_outpoint K D N pot_op mode r7 = (Inr (), r8)"
    and fund: "run_fund_address L K N policy (stability_spk L arts) reserve_seed r8 = (Inr reserve_op, r9)"
    and seen2: "confirm_outpoint K D N reserve_op mode r9 = (Inr (), r')"
    and c: "c = \<lparr>cx_params = ceremony_params D issue_in token_in policy pks, cx_artifacts = arts, cx_genesis = gen\<rparr>"
    and ps: "ps = \<lparr>ps_pot = \<lparr>oc_state = PotState, oc_outpoint = pot_op, oc_value = Obol SUPPLY\<rparr>,
        ps_reserve = \<lparr>oc_state = ReserveState, oc_outpoint = reserve_op, oc_value = Sats reserve_seed\<rparr>,
        ps_issuer = \<lparr>oc_state = \<lparr>is_last_mint_height = BlockHeight h\<rparr>, oc_outpoint = issuer_op, oc_value = 1\<rparr>\<rparr>"
    by (auto simp: ceremony_spend_def nop_bind_Inr Let_def res_Inr split: option.splits)
  from split_pays[OF split] obtain split_tx where s: "nr_sent r1 = split_tx # nr_sent r"
    "prevouts_made L K N policy issue_in token_in split_tx" "x = PREVOUT" "y = PREVOUT" by blast
  from funded_pays[OF fund[unfolded run_fund_address_def]] obtain reserve_tx where f: "nr_sent r9 = reserve_tx # nr_sent r8"
    "wallet_paid L K N policy [(stability_spk L arts, reserve_seed)] reserve_tx (op_txid reserve_op)" "pays K N reserve_op (stability_spk L arts) reserve_seed" by blast
  note quiet = sends_nothing[OF sending_confirm seen1] sends_nothing[OF sending_confirm seen2]
  have sent: "nr_sent r' = [reserve_tx, tx, split_tx] @ nr_sent r"
    using nop_ask_Inr[OF h] nop_ask_Inr[OF chain] nop_ask_Inr[OF pot] nop_ask_Inr[OF issuer] issuance_tx_Inr[OF issue] nop_send_Inr[OF send] quiet s(1) f(1) by simp
  have "issuance_made L K D N issue_in token_in (pot_spk L arts) (issuer_spk L arts \<lparr>is_last_mint_height = BlockHeight h\<rparr>) tx txid"
    using issuance_tx_Inr[OF issue] addrs nop_ask_Inr[OF chain] nop_send_Inr[OF send] two_prevouts_change[OF change[unfolded s(3,4)]]
    unfolding issuance_made_def by blast
  moreover have "node_height (nw_call N (nr_time r1)) = Inr h" using nop_ask_Inr[OF h] by simp
  ultimately have "deployed_state L K D N pks reserve_seed c ps [reserve_tx, tx, split_tx]"
    using s(2) f(2,3) arts assms(2) found_pays[OF pot] found_pays[OF issuer] confirm_seen[OF seen1] confirm_seen[OF seen2]
    unfolding deployed_state_def c ps by (auto simp: ceremony_params_def)
  with sent show ?thesis by (auto simp: c ceremony_params_def)
qed

lemma ceremony_cases:
  assumes "ceremony L K D N pks reserve_seed mode r = (v, r')"
  obtains "nr_sent r' = nr_sent r" "\<exists>e. v = Inl e"
    | gen coin sats policy have_sats u where "node_genesis K (nw_call N (nr_time r)) = Inr gen"
      "biggest_coin K (nw_call N (nr_time r + 1)) = Inr (coin, sats, policy)"
      "spendable K (nw_call N (nr_time r + 2)) policy = Inr have_sats" "ceremony_need reserve_seed \<le> have_sats"
      "ceremony_spend L K D N pks reserve_seed mode gen policy u = (v, r')" "nr_sent u = nr_sent r"
  using assms by (auto simp: ceremony_def nop_bind_def nop_err_def nop_ask_def map_err_def not_less split: sum.splits prod.splits if_splits)

lemma ceremony_deployed:
  "ceremony L K D N pks reserve_seed mode r = (Inr (c, ps), r') \<Longrightarrow>
   \<exists>txs. nr_sent r' = txs @ nr_sent r \<and> deployed_state L K D N pks reserve_seed c ps txs"
  by (erule ceremony_cases) (auto dest!: ceremony_spend_deployed)

lemma deployed_pks: "deployed_state L K D N pks reserve_seed c ps txs \<Longrightarrow> pr_oracle_pks (cx_params c) = pks"
  unfolding deployed_state_def by (metis ceremony_params_def params.select_convs(4))

section \<open>Properties\<close>

text \<open>
  C19 (ceremony_outcome): the ceremony hands at most three transactions to the node, and none at all
  unless the wallet's spendable coins of the asset of its largest coin, the deployment's policy asset,
  cover the reserve, the two prevouts and the fees. When it succeeds there are exactly three, and the
  returned deployment is the one they make. The first is a payment of the policy asset with two
  outputs of the prevout size. The second spends these two and is what the node made of the request
  to issue, on the first of them, the whole supply to the address of the pot's script and, on the
  second, one unit to the address of the issuer's script for a height the node reported; the obol and
  the issuer token are the ids of these two issuances, the artifacts are compiled from exactly them,
  the policy and the given oracle keys, and the pot and the issuer cell are outputs of this amount
  and script under the id the node gave this transaction. The third is a payment of the seed in the
  policy asset to the reserve's script, and the reserve is its output. The pot and the reserve were
  seen confirmed. The client looks an output up by amount and script and never reads its asset, so
  that the node issues what it was asked to is not part of the statement.
\<close>

theorem ceremony_outcome:
  "case ceremony L K D N pks reserve_seed mode r of
     (v, r') \<Rightarrow> \<exists>txs. nr_sent r' = txs @ nr_sent r \<and> length txs \<le> 3 \<and>
       (txs = [] \<or>
        (\<exists>coin sats policy have_sats. biggest_coin K (nw_call N (nr_time r + 1)) = Inr (coin, sats, policy) \<and>
           spendable K (nw_call N (nr_time r + 2)) policy = Inr have_sats \<and> ceremony_need reserve_seed \<le> have_sats \<and>
           (case v of Inl _ \<Rightarrow> True | Inr (c, ps) \<Rightarrow> pr_policy (cx_params c) = policy))) \<and>
       (case v of Inl _ \<Rightarrow> True | Inr (c, ps) \<Rightarrow> deployed_state L K D N pks reserve_seed c ps txs)"
proof -
  obtain v r' where run: "ceremony L K D N pks reserve_seed mode r = (v, r')" by force
  from run show ?thesis
  proof (cases rule: ceremony_cases)
    case 1
    then show ?thesis by (auto simp: run)
  next
    case (2 gen coin sats policy have_sats u)
    from sendingD[OF sending_ceremony_spend 2(5)] 2(6) obtain txs where txs:
      "nr_sent r' = txs @ nr_sent r" "length txs \<le> 3" by auto
    show ?thesis
    proof (cases v)
      case (Inl e)
      with 2 run txs show ?thesis by auto
    next
      case (Inr cp)
      obtain c ps where cp: "cp = (c, ps)" by force
      from ceremony_spend_deployed[OF 2(5)[unfolded Inr cp] 2(1)] 2(6) txs(1)
      have "deployed_state L K D N pks reserve_seed c ps txs" "pr_policy (cx_params c) = policy" by auto
      with 2 run txs Inr cp show ?thesis by auto
    qed
  qed
qed

text \<open>
  C36 (confirmation_ends): waiting for a confirmation with a timeout always ends, after at least one
  and at most two polls for each second of the timeout and one more. Every poll but the last was told that
  the output is not in the chain; the wait succeeds when the last poll saw it, passes on the node's
  error when that poll failed, and otherwise reports the timeout, not before it has passed.
\<close>

theorem confirmation_ends:
  "\<exists>n \<le> 2 * secs + 1. waited K N op secs (nr_ms r + 1000 * secs) r (confirm_outpoint K D N op (Await secs) r) n"
proof -
  have "(nr_ms r + 1000 * secs - nr_ms r + 499) div 500 = 2 * secs" by simp
  then show ?thesis
    using await_waited[where K = K and N = N and op = op and secs = secs and deadline = "nr_ms r + 1000 * secs" and r = r]
    by (simp add: confirm_outpoint_def)
qed

text \<open>
  C20 (deployed_config_reads_back): when the parsers read back what the printers write and the text of
  a configuration is read as that configuration, a successful deployment writes exactly one file,
  the given configuration, and every program that loads it afterwards gets the deployment's own
  parameters, genesis and scan floor: it compiles the artifacts the deployed covenants came from. The
  floor is a height the node reported before the ceremony, and the file refuses to be deployed again.
\<close>

theorem deployed_config_reads_back:
  assumes assets: "\<And>a. ps_asset P (dl_asset_str D a) = Inr a"
    and hashes: "\<And>h. ps_block_hash P (nc_hash_str K h) = Inr h"
    and toml: "\<forall>c text. to_toml c = Inr text \<longrightarrow> from_toml text = Inr c"
    and run: "deploy_run L K D P to_toml client node path cfg reserve_seed wallet test self_mine timeout r = (Inr (effs, ctx, ps, anchor), r')"
  shows "\<exists>text cfg' N txs. effs = [WriteFile path text] \<and>
    styxnet_load from_toml (read(path \<mapsto> text)) path = Inr cfg' \<and>
    config_params P cfg' = Inr (cx_params ctx) \<and> config_genesis P cfg' = Inr (cx_genesis ctx) \<and>
    artifacts_compile L (cx_params ctx) = Inr (cx_artifacts ctx) \<and>
    sn_protocol cfg' = Some \<lparr>pt_issuer_anchor_genesis = anchor\<rparr> \<and> (\<exists>t. node_height (nw_call N t) = Inr anchor) \<and>
    deployed_state L K D N (pr_oracle_pks (cx_params ctx)) reserve_seed ctx ps txs \<and>
    fst (deploy_run L K D P to_toml client node path cfg' seed2 wallet2 test2 mine2 timeout2 r2) = Inl AlreadyDeployed"
proof -
  from run obtain cfg1 pks N u1 u2 u3 out where cfg1: "with_test_oracles D test cfg = Inr cfg1" and pks: "oracle_pks P cfg1 = Inr pks"
    and height: "nop_ask N node_height u1 = (Inr anchor, u2)"
    and cer: "ceremony L K D N pks reserve_seed (if self_mine then SelfMine else Await (unat timeout)) u2 = (Inr (ctx, ps), u3)"
    and out: "to_toml (completed_config K D ctx anchor cfg1) = Inr out" and effs: "effs = [WriteFile path out]"
    by (auto simp: deploy_run_def nop_bind_Inr res_Inr styxnet_save_def split: if_splits)
  obtain txs where dep: "deployed_state L K D N pks reserve_seed ctx ps txs"
    using ceremony_deployed[OF cer] by blast
  then have params: "pr_oracle_pks (cx_params ctx) = pks" and arts: "artifacts_compile L (cx_params ctx) = Inr (cx_artifacts ctx)"
    by (rule deployed_pks) (use dep in \<open>simp add: deployed_state_def\<close>)
  let ?cfg = "completed_config K D ctx anchor cfg1"
  have "oracle_pks P ?cfg = oracle_pks P cfg1" by (simp add: oracle_pks_def completed_config_def)
  then have "config_params P ?cfg = Inr (cx_params ctx)"
    using pks params by (simp add: config_params_def completed_config_def assets bind_res_def map_err_def)
  moreover have "config_genesis P ?cfg = Inr (cx_genesis ctx)" by (simp add: config_genesis_def completed_config_def hashes map_err_def)
  moreover have "styxnet_load from_toml (read(path \<mapsto> out)) path = Inr ?cfg" by (simp add: styxnet_load_def toml[rule_format, OF out] map_err_def)
  moreover have "node_height (nw_call N (nr_time u1)) = Inr anchor" using nop_ask_cases[OF height] by simp
  moreover have "sn_assets ?cfg \<noteq> None" "sn_protocol ?cfg = Some \<lparr>pt_issuer_anchor_genesis = anchor\<rparr>" by (simp_all add: completed_config_def)
  ultimately show ?thesis using effs arts dep params by (intro exI[of _ out] exI[of _ ?cfg] exI[of _ N] exI[of _ txs]) (auto simp: deploy_run_def nop_lift_def)
qed

text \<open>A node on which a deployment succeeds: every answer is of the right shape, and one transaction has every output.\<close>

definition sample_outputs :: transaction where
  "sample_outputs =
     \<lparr>tx_version = 2, tx_lock_time = 0, tx_input = [],
      tx_output = [txout PREVOUT [1] 12, txout PREVOUT [2] 12, txout SUPPLY (pot_spk sample_library sample_artifacts) 10,
        txout 1 (issuer_spk sample_library sample_artifacts \<lparr>is_last_mint_height = BlockHeight 5\<rparr>) 11,
        txout 18000000 (stability_spk sample_library sample_artifacts) 12]\<rparr>"

definition unary :: "'a::len word \<Rightarrow> string" where
  "unary a = replicate (unat a) (CHR ''x'')"

definition sample_node_codec :: node_codec where
  "sample_node_codec =
     \<lparr>nc_txid = (\<lambda>s. Some 1), nc_txid_str = unary, nc_asset = (\<lambda>s. Some 12), nc_hash = (\<lambda>s. Some 7), nc_hash_str = unary,
      nc_from_hex = (\<lambda>s. Some []), nc_block = (\<lambda>b. None), nc_tx = (\<lambda>b. Some sample_outputs), nc_tx_hex = (\<lambda>t. ''h''),
      nc_address_spk = (\<lambda>s. Some (if s = ''a'' then [1] else [2]))\<rparr>"

definition sample_deploy_lib :: deploy_lib where
  "sample_deploy_lib =
     \<lparr>dl_address = (\<lambda>s. Some s), dl_covenant_address = (\<lambda>net s. Some ''c''),
      dl_new_issuance = (\<lambda>op c. if op_vout op = 0 then 10 else 11), dl_asset_str = unary, dl_public_key = (\<lambda>b. Inr [])\<rparr>"

definition sample_deploy_parsers :: parsers where
  "sample_deploy_parsers =
     \<lparr>ps_xonly = (\<lambda>s. Inr (of_nat (length s))), ps_asset = (\<lambda>s. Inr (of_nat (length s))), ps_block_hash = (\<lambda>s. Inr (of_nat (length s)))\<rparr>"

definition sample_call :: "nat \<Rightarrow> call" where
  "sample_call t method args =
     (if method = ''getblockcount'' then Inr (JNumber (PosInt 5))
      else if method = ''listunspent'' then Inr (JArray [JObject [(''asset'', JString ''p''), (''txid'', JString ''t''), (''vout'', JNumber (PosInt 0)),
        (''amount'', JNumber (Float (Finite 1)))]])
      else if method = ''getnewaddress'' then Inr (JString (if even t then ''a'' else ''b''))
      else if method = ''getblockchaininfo'' then Inr (JObject [(''chain'', JString ''styxnet'')])
      else if method = ''rawissueasset'' then Inr (JArray [JObject [(''hex'', JString ''h'')]])
      else if method = ''gettxout'' then Inr (JBool True)
      else Inr (JObject [(''hex'', JString ''h'')]))"

definition sample_world :: node_world where
  "sample_world = \<lparr>nw_call = sample_call, nw_took = (\<lambda>t. 1)\<rparr>"

definition skeleton_config :: styxnet_config where
  "skeleton_config =
     \<lparr>sn_network = \<lparr>nt_chain = ''styxnet'', nt_genesis = None\<rparr>, sn_assets = None, sn_protocol = None,
      sn_oracles = map (\<lambda>i. \<lparr>oe_slot = of_nat i, oe_protocol_pk = replicate (Suc i) (CHR ''k''), oe_nostr_pk = None, oe_admin_url = None\<rparr>) [0..<5],
      sn_nostr = \<lparr>ns_relays = []\<rparr>\<rparr>"

lemma sample_calls:
  "node_height (sample_call t) = Inr 5" "node_chain (sample_call t) = Inr ''styxnet''"
  "new_address sample_node_codec (sample_call t) = Inr (if even t then [1] else [2])"
  "new_address_text sample_deploy_lib (sample_call t) = Inr (if even t then ''a'' else ''b'')"
  "node_genesis sample_node_codec (sample_call t) = Inr 7"
  "signed_tx sample_node_codec raw (sample_call t) = Inr sample_outputs"
  "node_send sample_library sample_node_codec (sample_call t) tx = Inr 1"
  "outpoint_confirmed sample_node_codec op (sample_call t) = Inr True"
  "get_tx sample_node_codec (sample_call t) txid = Inr sample_outputs"
  by (simp_all add: node_height_def node_chain_def new_address_def new_address_text_def node_genesis_def node_block_hash_def signed_tx_def node_send_def
      outpoint_confirmed_def get_tx_def sample_call_def rpc_def bind_res_def or_shape_def str_or_empty_def sample_node_codec_def sample_deploy_lib_def map_err_def)

lemma sample_one_coin: "sats_of_btc (Finite 1) = 100000000"
  using sats_of_btc_exact[of 100000000 1] by (simp add: btc_double_def MAX_MONEY_def)

lemma sample_coins:
  "biggest_coin sample_node_codec (sample_call t) = Inr (OutPoint 1 0, 100000000, 12)"
  "policy_coins sample_node_codec (sample_call t) 12 = Inr [(OutPoint 1 0, 100000000)]"
  by (simp_all add: biggest_coin_def policy_coins_def policy_coin_def coin_amount_def sample_call_def rpc_def bind_res_def or_shape_def
      str_or_empty_def sample_node_codec_def map_err_def sort_desc_def sample_one_coin)

lemma sample_find:
  "node_find sample_node_codec (sample_call t) txid [1] PREVOUT = Inr (OutPoint txid 0)"
  "node_find sample_node_codec (sample_call t) txid [2] PREVOUT = Inr (OutPoint txid 1)"
  "node_find sample_node_codec (sample_call t) txid (pot_spk sample_library sample_artifacts) SUPPLY = Inr (OutPoint txid 2)"
  "node_find sample_node_codec (sample_call t) txid (issuer_spk sample_library sample_artifacts \<lparr>is_last_mint_height = BlockHeight 5\<rparr>) 1 = Inr (OutPoint txid 3)"
  "node_find sample_node_codec (sample_call t) txid (stability_spk sample_library sample_artifacts) 18000000 = Inr (OutPoint txid 4)"
  by (simp_all add: node_find_def sample_calls bind_res_def sample_outputs_def txout_def PREVOUT_def SUPPLY_def)

text \<open>Operations that succeed on this node whenever they are run.\<close>

definition yields :: "('e, 'a) nop \<Rightarrow> 'a \<Rightarrow> bool" where
  "yields m a \<longleftrightarrow> (\<forall>r. \<exists>r'. m r = (Inr a, r'))"

named_theorems yields_intro \<open>what the sample node makes of an operation\<close>

lemma yields_lift [yields_intro]: "yields (nop_lift (Inr a)) a"
  by (simp add: yields_def)

lemma yields_ask [yields_intro]: "(\<And>t. f (sample_call t) = Inr a) \<Longrightarrow> yields (nop_ask sample_world f) a"
  by (simp add: yields_def nop_ask_def sample_world_def)

lemma yields_err [yields_intro]: "yields m a \<Longrightarrow> yields (nop_err g m) a"
  by (simp add: yields_def)

lemma yields_bind: "\<lbrakk>yields m a; yields (f a) b\<rbrakk> \<Longrightarrow> yields (nop_bind m f) b"
  by (simp add: yields_def nop_bind_Inr) metis

lemma yields_send [yields_intro]: "yields (nop_send sample_library sample_node_codec sample_world tx) 1"
  by (simp add: yields_def nop_send_def nop_ask_def sample_world_def sample_calls)

lemma yields_any:
  assumes "\<And>t. \<exists>a. g (sample_call t) = Inr a" "\<And>a. yields (f a) b"
  shows "yields (nop_bind (nop_ask sample_world g) f) b"
  unfolding yields_def
proof
  fix r :: node_run
  obtain a where "g (sample_call (nr_time r)) = Inr a" using assms(1) by blast
  then show "\<exists>r'. nop_bind (nop_ask sample_world g) f r = (Inr b, r')"
    using assms(2)[of a] by (simp add: yields_def nop_bind_def nop_ask_def sample_world_def)
qed

lemma yields_after: "\<lbrakk>m r = (Inr a, u); yields (f a) b\<rbrakk> \<Longrightarrow> \<exists>r'. nop_bind m f r = (Inr b, r')"
  by (simp add: yields_def nop_bind_def)

lemma yields_then: "\<lbrakk>\<And>t. f (sample_call t) = Inr a; yields (g a) b\<rbrakk> \<Longrightarrow> yields (nop_bind (nop_err e (nop_ask sample_world f)) g) b"
  by (rule yields_bind[OF yields_err[OF yields_ask]])

lemma nop_err_Inr: "m r = (Inr a, u) \<Longrightarrow> nop_err g m r = (Inr a, u)"
  by simp

lemma lift_bind: "nop_bind (nop_lift (Inr a)) f = f a"
  by (simp add: fun_eq_iff nop_bind_def nop_lift_def)

lemma yields_pay:
  assumes "sum_list (map snd outs) + 10000 < 100000000"
  shows "yields (run_pay sample_library sample_node_codec sample_world 12 outs what) 1"
proof -
  have "select_coins sample_node_codec (sample_call t) 12 (sum_list (map snd outs) + sats_raw FEE) what = Inr ([OutPoint 1 0], 100000000)" for t
    using assms by (simp add: select_coins_def sample_coins bind_res_def map_err_def FEE_def)
  moreover have "0 < 100000000 - (sum_list (map snd outs) + sats_raw FEE)" using assms by (auto simp: word_gt_0 FEE_def)
  ultimately show ?thesis
    unfolding run_pay_def Let_def run_sign_send_def
    by (intro yields_bind[where a = "([OutPoint 1 0], 100000000)"] yields_ask)
      (auto intro!: yields_any yields_intro yields_bind[where a = sample_outputs] simp: sample_calls)
qed

lemma yields_fund: "yields (run_fund_address sample_library sample_node_codec sample_world 12 (stability_spk sample_library sample_artifacts) 18000000) (OutPoint 1 4)"
proof -
  have pay: "yields (run_pay sample_library sample_node_codec sample_world 12 [(stability_spk sample_library sample_artifacts, 18000000)] ''fund_address'') 1"
    by (rule yields_pay) simp
  have "\<exists>r'. run_fund_attempts sample_library sample_node_codec sample_world 12 (stability_spk sample_library sample_artifacts) 18000000 (Suc n) e r =
      (Inr (OutPoint 1 4), r')" for n e r
    using pay[unfolded yields_def, rule_format, of r]
    by (auto simp: nop_ask_def[of sample_world "\<lambda>call. node_find _ call _ _ _"] sample_world_def[THEN arg_cong[where f = nw_call]] sample_find)
  from this[of 119] show ?thesis by (simp add: yields_def run_fund_address_def eval_nat_numeral del: run_fund_attempts.simps)
qed

lemma yields_confirm: "yields (confirm_outpoint sample_node_codec sample_deploy_lib sample_world op (Await n)) ()"
  by (simp add: yields_def confirm_outpoint_def await_outpoint.simps nop_ask_def sample_world_def sample_calls)

lemma yields_issuance: "yields (issuance_tx sample_node_codec sample_deploy_lib sample_world ins change a b) sample_outputs"
proof -
  have calls: "rpc (sample_call t) ''rawissueasset'' args = Inr (JArray [JObject [(''hex'', JString ''h'')]])"
    "rpc (sample_call t) ''createrawtransaction'' args = Inr (JObject [(''hex'', JString ''h'')])"
    "rpc (sample_call t) ''signrawtransactionwithwallet'' args = Inr (JObject [(''hex'', JString ''h'')])" for t args
    by (simp_all add: sample_call_def rpc_def map_err_def)
  show ?thesis
    by (auto simp: issuance_tx_def yields_def nop_bind_def nop_err_def nop_ask_def nop_lift_def sample_world_def sample_calls map_err_def calls)
      (simp add: sample_node_codec_def)+
qed

text \<open>The ceremony on this node, from an even number of requests on: the two prevouts lie at different addresses.\<close>

definition sample_deploy_ctx :: "u8 ctx" where
  "sample_deploy_ctx = \<lparr>cx_params = sample_params, cx_artifacts = sample_artifacts, cx_genesis = 7\<rparr>"

definition sample_deployed :: protocol_state where
  "sample_deployed =
     \<lparr>ps_pot = \<lparr>oc_state = PotState, oc_outpoint = OutPoint 1 2, oc_value = Obol SUPPLY\<rparr>,
      ps_reserve = \<lparr>oc_state = ReserveState, oc_outpoint = OutPoint 1 4, oc_value = Sats 18000000\<rparr>,
      ps_issuer = \<lparr>oc_state = \<lparr>is_last_mint_height = BlockHeight 5\<rparr>, oc_outpoint = OutPoint 1 3, oc_value = 1\<rparr>\<rparr>"

lemma sample_split_two:
  assumes "even (nr_time r)"
  shows "\<exists>r'. split_two sample_library sample_node_codec sample_world 12 r = (Inr (OutPoint 1 0, PREVOUT, OutPoint 1 1, PREVOUT), r')"
proof -
  obtain q where q: "nop_ask sample_world (new_address sample_node_codec) r = (Inr [1], q)" "nr_time q = Suc (nr_time r)"
    using assms by (simp add: nop_ask_def sample_world_def sample_calls)
  obtain u where u: "nop_ask sample_world (new_address sample_node_codec) q = (Inr [2], u)"
    using assms q(2) by (simp add: nop_ask_def sample_world_def sample_calls)
  have "yields (nop_bind (run_pay sample_library sample_node_codec sample_world 12 [([1], PREVOUT), ([2], PREVOUT)] ''split_two'') (\<lambda>txid.
      nop_bind (nop_ask sample_world (\<lambda>call. node_find sample_node_codec call txid [1] PREVOUT)) (\<lambda>opa.
      nop_bind (nop_ask sample_world (\<lambda>call. node_find sample_node_codec call txid [2] PREVOUT)) (\<lambda>opb.
      nop_lift (Inr (opa, PREVOUT, opb, PREVOUT)))))) (OutPoint 1 0, PREVOUT, OutPoint 1 1, PREVOUT)"
    by (rule yields_bind[OF yields_pay], simp add: PREVOUT_def, rule yields_bind[OF yields_ask], rule sample_find, rule yields_bind[OF yields_ask],
        rule sample_find, rule yields_lift)
  from this[unfolded yields_def, rule_format, of u] show ?thesis using q(1) u by (auto simp: split_two_def nop_bind_Inr)
qed

lemma sample_spend:
  assumes "even (nr_time r)"
  shows "\<exists>r'. ceremony_spend sample_library sample_node_codec sample_deploy_lib sample_world [1, 2, 3, 4, 5] 18000000 (Await n) 7 12 r =
    (Inr (sample_deploy_ctx, sample_deployed), r')"
proof -
  obtain u where u: "split_two sample_library sample_node_codec sample_world 12 r = (Inr (OutPoint 1 0, PREVOUT, OutPoint 1 1, PREVOUT), u)"
    using sample_split_two[OF assms] by blast
  have params: "ceremony_params sample_deploy_lib (OutPoint 1 0) (OutPoint 1 1) 12 [1, 2, 3, 4, 5] = sample_params"
    by (simp add: ceremony_params_def sample_deploy_lib_def sample_params_def)
  have addr: "dl_covenant_address sample_deploy_lib net spk = Some ''c''" for net spk by (simp add: sample_deploy_lib_def)
  have change: "change_after (2 * PREVOUT) FEE_RPC what = Inr 100000" for what
    by (simp add: change_after_def PREVOUT_def FEE_RPC_def sub_checked_def)
  show ?thesis
    unfolding ceremony_spend_def
    by (rule yields_after, rule nop_err_Inr, rule u)
      (simp add: params sample_compile map_err_def addr change lift_bind Let_def,
       rule yields_then, rule sample_calls, rule yields_then, rule sample_calls, rule yields_bind[OF yields_issuance], rule yields_bind[OF yields_err[OF yields_send]],
       rule yields_then, rule sample_find, rule yields_then, rule sample_find, rule yields_bind[OF yields_err[OF yields_confirm]],
       rule yields_bind[OF yields_err[OF yields_fund]], rule yields_bind[OF yields_err[OF yields_confirm]],
       simp add: sample_deploy_ctx_def sample_deployed_def yields_lift)
qed

lemma sample_oracle_pks: "oracle_pks sample_deploy_parsers skeleton_config = Inr [1, 2, 3, 4, 5]"
  by code_simp

definition sample_toml :: "styxnet_config \<Rightarrow> string + string" where
  "sample_toml c = (if c = completed_config sample_node_codec sample_deploy_lib sample_deploy_ctx 5 skeleton_config then Inr ''toml'' else Inl ''unknown'')"

definition sample_from_toml :: "string \<Rightarrow> string + styxnet_config" where
  "sample_from_toml s = Inr (completed_config sample_node_codec sample_deploy_lib sample_deploy_ctx 5 skeleton_config)"

definition sample_deploy_node :: "node_world connected" where
  "sample_deploy_node = \<lparr>cn_base_url = ''http://127.0.0.1:18884'', cn_auth = CookieFile ''c'', cn_client = sample_world\<rparr>"

lemma sample_deploy_run:
  "\<exists>r'. deploy_run sample_library sample_node_codec sample_deploy_lib sample_deploy_parsers sample_toml (\<lambda>_ _. Inr sample_world) sample_deploy_node ''styxnet.toml''
     skeleton_config 18000000 ''styx-deploy'' False False 300 \<lparr>nr_time = 0, nr_ms = 0, nr_sent = []\<rparr> =
   (Inr ([WriteFile ''styxnet.toml'' ''toml''], sample_deploy_ctx, sample_deployed, 5), r')"
proof -
  have skel: "sn_assets skeleton_config = None" "with_test_oracles sample_deploy_lib False skeleton_config = Inr skeleton_config"
    by (simp_all add: skeleton_config_def with_test_oracles_def refuse_if_def)
  have need: "ceremony_need 18000000 = 18320000" by (simp add: ceremony_need_def PREVOUT_def FEE_RPC_def FEE_def)
  have wallet: "rpc (sample_call t) ''getwalletinfo'' [] = Inr (JObject [(''hex'', JString ''h'')])" for t
    by (simp add: rpc_def sample_call_def map_err_def)
  have save: "styxnet_save sample_toml (completed_config sample_node_codec sample_deploy_lib sample_deploy_ctx 5 skeleton_config) path = Inr [WriteFile path ''toml'']"
    for path by (simp add: styxnet_save_def sample_toml_def bind_res_def map_err_def)
  have "\<exists>r'. ceremony_spend sample_library sample_node_codec sample_deploy_lib sample_world [1, 2, 3, 4, 5] 18000000 (Await 300) 7 12
      \<lparr>nr_time = Suc (Suc (Suc (Suc (Suc (Suc (Suc (Suc 0))))))), nr_ms = Suc (Suc (Suc (Suc (Suc (Suc (Suc (Suc 0))))))), nr_sent = []\<rparr> =
      (Inr (sample_deploy_ctx, sample_deployed), r')" by (rule sample_spend) simp
  then show ?thesis
    by (auto simp: deploy_run_def skel sample_oracle_pks prepare_wallet_def for_wallet_def from_url_def sample_deploy_node_def ceremony_def need save wallet
        nop_bind_def nop_lift_def nop_err_def nop_ask_def sample_world_def sample_calls sample_coins spendable_def bind_res_def map_err_def)
qed

theorem deployed_config_reads_back_witness:
  "\<exists>text cfg'. styxnet_load sample_from_toml [''styxnet.toml'' \<mapsto> text] ''styxnet.toml'' = Inr cfg' \<and>
     config_params sample_deploy_parsers cfg' = Inr sample_params \<and> config_genesis sample_deploy_parsers cfg' = Inr 7 \<and>
     sn_protocol cfg' = Some \<lparr>pt_issuer_anchor_genesis = 5\<rparr>"
proof -
  obtain r' where run: "deploy_run sample_library sample_node_codec sample_deploy_lib sample_deploy_parsers sample_toml (\<lambda>_ _. Inr sample_world) sample_deploy_node
      ''styxnet.toml'' skeleton_config 18000000 ''styx-deploy'' False False 300 \<lparr>nr_time = 0, nr_ms = 0, nr_sent = []\<rparr> =
    (Inr ([WriteFile ''styxnet.toml'' ''toml''], sample_deploy_ctx, sample_deployed, 5), r')" using sample_deploy_run by blast
  have parse: "ps_asset sample_deploy_parsers (dl_asset_str sample_deploy_lib a) = Inr a"
    "ps_block_hash sample_deploy_parsers (nc_hash_str sample_node_codec a) = Inr a" for a
    by (simp_all add: sample_deploy_parsers_def sample_deploy_lib_def sample_node_codec_def unary_def)
  have toml: "\<forall>c text. sample_toml c = Inr text \<longrightarrow> sample_from_toml text = Inr c"
    by (simp add: sample_toml_def sample_from_toml_def split: if_splits)
  from deployed_config_reads_back[where read = Map.empty, OF parse toml run] show ?thesis
    unfolding sample_deploy_ctx_def ctx.select_convs by blast
qed

end
