(* ===== verification/Spec2Isabelle.thy ===== *)
theory Spec2Isabelle
  imports Styx_Service Styx_Start Styx_Explorer Styx_Deploy
begin

text \<open>
  Styx is a collateralised debt protocol on an Elements chain. A vault holds L-BTC and owes OBOL; an
  issuer meters the mint, a pot holds the unissued OBOL and a reserve (the stability pool) collects
  fees. Covenants enforce the rules on chain; the Rust code of the repository builds the
  transactions the covenants accept, follows the chain, signs oracle prices, runs wallets, keepers
  and a public explorer, and deploys the protocol. This development models that Rust code.

  \<^bold>\<open>How the parts interact.\<close> Oracles sign one price per block (\<open>styx-oracle\<close>); consumers verify
  the quotes and assemble ticks of five slots (\<open>styx-watch/src/quotes.rs\<close>). A wallet or a keeper
  scans the chain (\<open>sync.rs\<close>) into an index of the protocol state (\<open>index.rs\<close>), picks a vault,
  turns an intent into a plan (\<open>styx-pset/src/build\<close>), has every covenant slot satisfied and the
  funding inputs signed (\<open>finalize.rs\<close>, \<open>pset.rs\<close>) and broadcasts the transaction
  (\<open>styx-node\<close>). When it confirms, the index of every follower moves on. The command line
  (\<open>styx-wallet/src/main.rs\<close>) and the local web application (\<open>styx-app\<close>) drive the same wallet
  operations; the application also runs a keeper on the wallet it serves. A deployment
  (\<open>styx-deploy\<close>) creates the assets and the first state and writes the file all of them load.

  \<^bold>\<open>Theories and sources\<close> (paths under \<open>src/crates\<close>):

  \<^item> \<open>Styx_Prelude\<close>: words, checked and saturating arithmetic, big-endian bytes, the result
    monad \<open>bind_res\<close> with \<open>refuse_if\<close> and \<open>map_err\<close>, and the shared lemmas.
  \<^item> \<open>Styx_Units\<close>, \<open>Styx_Oracle\<close>, \<open>Styx_Domain\<close>, \<open>Styx_Encode\<close>, \<open>Styx_Artifacts\<close>: \<open>styx-core\<close>, in
    the order of its modules. \<open>coll_at_cr\<close> is exact on its whole domain, encodings and data
    leaves are injective, and the addresses of a compiled deployment identify covenant and state.
  \<^item> \<open>Styx_Tx\<close>, \<open>Styx_Plan\<close>, \<open>Styx_Build_Owner\<close>, \<open>Styx_Build_Keeper\<close>, \<open>Styx_Pset\<close>: \<open>styx-pset\<close>. One
    definition per checked builder and one per layout half (\<open>\<dots>_unchecked\<close>), an exact acceptance
    lemma for each (\<open>\<dots>_Inr_iff\<close>), pruning, owner signing and finalization. Finalizing keeps the
    transaction body, and the digest an owner signs does not depend on the signature.
  \<^item> \<open>Styx_Index\<close>, \<open>Styx_Index_Sim\<close>: \<open>styx-watch/src/index.rs\<close>, and that every builder's confirmed
    plan drives the index to the state the builder promised.
  \<^item> \<open>Styx_System\<close>: the abstract specification. A ledger of singletons and vaults with one step per
    builder; conservation of the OBOL supply, the mint anchor, and the index as a refinement.
  \<^item> \<open>Styx_Ladder\<close>, \<open>Styx_Decide\<close>: the economics of the operations (asset conservation, mint
    overcollateralisation, exclusive liquidation rungs, healing, solvency under redemption) and the
    keeper's decision ladder \<open>styx-keeper/src/decide.rs\<close> with its sizing searches.
  \<^item> \<open>Styx_Sync\<close>, \<open>Styx_Snapshot\<close>, \<open>Styx_Quotes\<close>: \<open>sync.rs\<close>, \<open>snapshot.rs\<close> and \<open>quotes.rs\<close> of
    \<open>styx-watch\<close>. The scan follows the chain and resumes after a failure, a snapshot survives a
    crash at every point of its save, and an assembled tick is authentic whatever is delivered.
  \<^item> \<open>Styx_Json\<close>, \<open>Styx_Node\<close>: JSON values as the code reads them, and \<open>styx-node\<close>'s \<open>client.rs\<close>
    and \<open>scan.rs\<close>, with the rounding of floating-point amounts.
  \<^item> \<open>Styx_Config\<close>, \<open>Styx_Service\<close>: the three configuration modules and the oracle daemon, its
    block loop as a step relation interleaved with the administration endpoints.
  \<^item> \<open>Styx_Wallet\<close>, \<open>Styx_Ops\<close>: \<open>styx-wallet\<close>'s \<open>wallet.rs\<close> and \<open>ops.rs\<close>: sessions, coin
    selection, self-spends, the conflict retry and every owner operation.
  \<^item> \<open>Styx_Keeper\<close>: \<open>styx-keeper/src/keeper.rs\<close>: quotes, fee estimation, one step with triage,
    pending lists and the five actions, and one turn of the daemon loop.
  \<^item> \<open>Styx_Shared\<close>: the same step on a purse behind a mutex, as a machine with one transition per lock
    section and arbitrary changes of the purse in between. It ends, it sends no more than the
    atomic step may, and alone it is the atomic step.
  \<^item> \<open>Styx_Transport\<close>: \<open>nostr.rs\<close> and \<open>transport.rs\<close> of \<open>styx-watch\<close>, and the walks below the tip that
    assemble a tick from fetched quotes. What is published parses back, in order.
  \<^item> \<open>Styx_Gate\<close>: \<open>config.rs\<close>, \<open>auth.rs\<close> and \<open>ui.rs\<close> of \<open>styx-app\<close>: where the server may listen, and
    exactly which requests reach a handler.
  \<^item> \<open>Styx_App\<close>: \<open>api.rs\<close> and the loops of \<open>main.rs\<close> of \<open>styx-app\<close>. \<open>app_step\<close> interleaves requests, the
    sections of background jobs and of the keeper thread, tick rounds and time; the invariants say
    what is sent, that one keeper runs, that a stop is obeyed and how exported plans come back.
  \<^item> \<open>Styx_Explorer\<close>: \<open>styx-explorer\<close>: the view state, the rounds of its two loops, the rendered page
    and its routes. Foreign text cannot add markup, and the band shown is the keeper's verdict.
  \<^item> \<open>Styx_Cli\<close>, \<open>Styx_Start\<close>: \<open>styx-wallet/src/main.rs\<close>, and how the keeper's daemon and the
    application come up from their configuration.
  \<^item> \<open>Styx_Deploy\<close>: the rest of \<open>styx-node/src/client.rs\<close>, \<open>ceremony.rs\<close>, \<open>styx-core/src/net.rs\<close> and
    \<open>styx-deploy\<close>, on a node whose answers depend on time. What a deployment leaves on chain is what
    the file it writes describes.
  \<^item> This theory: a property that spans the wallet, the builder, the ledger and the index.

  \<^bold>\<open>State and effects.\<close> A struct is a record with a two-letter prefix on its fields, an enum is a
  datatype. A wallet operation is a function from the wallet record to a result and the wallet
  (type \<open>wop\<close>); \<open>wl_sent\<close> lists what was broadcast and \<open>wl_clock\<close> numbers the calls to the node, so
  that the node may answer differently each time. The keeper and the application hold such a wallet. The
  deployment commands run against a clock and a list of sent transactions of their own (type \<open>nop\<close>).
  Errors are values of the source's error enums; a panic is a value of its own.

  \<^bold>\<open>Interfaces.\<close> Locales state what a client needs of a provider and are interpreted on the model's
  definitions: the two amount newtypes, the operation encoders, the price source of the oracle (its
  six exchange parsers), the quote transport (the in-memory hub and the relays), the shape every
  builder's plan has (interpreted for each builder), the operations
  that retry on a conflict and what a report says about them (each owner operation), and the keeper's
  actions (each of the five).

  \<^bold>\<open>Code outside the repository\<close> is a parameter: \<open>library\<close> (compiler, hash, taproot, txid),
  \<open>prover\<close> (Simplicity satisfier, sighash, Schnorr), \<open>node_codec\<close> and the codecs and parsers of the
  text formats, and the node, a function from request to answer. Theorems that need a law of
  them name it as a hypothesis (such as the id of a transaction not covering its witnesses), and
  the sample instances show that the hypotheses can hold.

  \<^bold>\<open>Bounds and fuel.\<close> Machine integers are words, and every \<open>+\<close> on them wraps as a release build's
  does. The supply of OBOL is assumed below \<open>2 ^ 63\<close>, so that sums of a pot and a debt stay in 64
  bits. Loops of the source with a fixed number of rounds carry
  that number: 40 attempts for a busy address scan, 120 for a funding coin to confirm, three for
  a conflicting broadcast, eleven lock sections for a keeper turn (three attempts of at most three
  sections each and two before them), and the scan of a block range its length. The searches of the
  sizing code, the wait for a confirmation and the keeper's wait for its node are total functions
  with a measure: at most two polls a second and one more, and at most 301 attempts. The daemon
  loops, which do not end, are step relations or a single turn. Clocks are natural numbers: the
  overflow of the platform's time type by an enormous timeout is not represented.

  \<^bold>\<open>Not modelled.\<close> The regtest harness and the lifecycle scenarios (\<open>regtest.rs\<close>, \<open>lifecycle.rs\<close> of
  \<open>styx-node\<close>), the builder fixtures (\<open>styx-pset/src/testkit\<close>) and the pinned values (\<open>golden.rs\<close>) are
  test code: they assert what the theorems state. The covenants (\<open>covenants\<close>, SimplicityHL) are not
  Rust: their rules appear as the checks of the builders. Command lines are parsed by a library,
  and what a command prints is modelled as the value printed, not as its text. The HTTP servers
  themselves, the event stream as a response, listening sockets, the reaction to an interrupt
  signal and the desktop shell are the platform's. A thread that panics while it holds the
  wallet is not followed further.
\<close>

section \<open>From a wallet operation to the next index\<close>

text \<open>When the wallet's index agrees with the ledger, the vault an operation picks is the ledger's.\<close>

lemma vault_entries_corr:
  assumes "corr L c st s" "lg_wf s" "(op, tv) \<in> set (vault_entries st)" "tv_known tv op = Some v"
  shows "fmlookup (lg_vaults s) (oc_outpoint v) = Some v"
proof -
  from assms(1,3) obtain x where x: "fmlookup (lg_vaults s) op = Some x" "tv = tv_of L c x"
    by (auto simp: vault_entries_def corr_def fmlookup_dom_iff)
  moreover from this assms(2) have "oc_outpoint x = op" by (auto simp: lg_wf_def)
  ultimately show ?thesis using assms(4) tv_of_known[of L c x] by simp
qed

lemma pick_vault_corr:
  assumes co: "corr L c (wl_state w) s" and wf: "lg_wf s" and pick: "pick_vault E which w = Inr v"
  shows "fmlookup (lg_vaults s) (oc_outpoint v) = Some v"
proof (cases which)
  case None
  with pick have "v \<in> set (my_vaults E w)" by (auto simp: pick_vault_def split: list.splits)
  then obtain op tv where "(op, tv) \<in> set (vault_entries (wl_state w))" "tv_known tv op = Some v"
    by (auto simp: my_vaults_def set_somes)
  then show ?thesis by (rule vault_entries_corr[OF co wf])
next
  case (Some op)
  with pick obtain tv where tv: "fmlookup (ix_vaults (wl_state w)) op = Some tv" "tv_known tv op = Some v"
    by (auto simp: pick_vault_def split: option.splits if_splits)
  with co obtain x where x: "fmlookup (lg_vaults s) op = Some x" "tv = tv_of L c x" by (auto simp: corr_def)
  with wf have "oc_outpoint x = op" by (auto simp: lg_wf_def)
  then show ?thesis using tv(2) x tv_of_known[of L c x] by simp
qed

lemma corr_pick:
  assumes "corr L c (wl_state w) s" "fmlookup (lg_vaults s) (oc_outpoint v) = Some v" "vs_owner (oc_state v) = owner_pk E w"
  shows "pick_vault E (Some (oc_outpoint v)) w = Inr v"
  using assms tv_of_known[of L c v] by (simp add: pick_vault_def corr_def) (simp add: tv_of_def)

lemma protocol_corr: "corr L c (wl_state w) s \<Longrightarrow> protocol w = Inr (lg_ps s)"
  by (simp add: protocol_def corr_def)

text \<open>A sent transaction with the body of a plan is a confirmed form of it: the id does not cover the witnesses.\<close>

lemma strip_confirms:
  assumes "\<And>tx. lb_txid L (strip tx) = lb_txid L tx" "strip tx = strip (pl_tx p)"
  shows "confirms L p tx"
proof -
  have "map ti_previous_output (tx_input t) = map ti_previous_output (tx_input (strip t))" "tx_output t = tx_output (strip t)"
    "tx_lock_time t = tx_lock_time (strip t)" for t
    by (simp_all add: strip_def strip_in_def)
  then show ?thesis using assms by (metis confirms_def plan_txid_def)
qed

lemma draw_keeps_owner:
  "draw L c ps v i = Inr b \<Longrightarrow> vs_owner (oc_state (dd_vault (bt_expected b))) = vs_owner (oc_state v) \<and>
     vs_debt (oc_state (dd_vault (bt_expected b))) = Obol (obol_raw (vs_debt (oc_state v)) + obol_raw (dr_amount i))"
  by (auto simp: draw_Inr_iff draw_unchecked_def Let_def obol_checked_add_def add_checked_def sat_add_def split: if_splits option.splits)

text \<open>One attempt of a draw, against the ledger the wallet's index agrees with.\<close>

lemma draw_once_step:
  assumes co: "corr (we_lib E) (wl_ctx w) (wl_state w) s" and wf: "lg_wf s" and spk: "wallet_spk (we_lib E) (wl_ctx w) (funding_spk E w)"
    and h: "ot_height tick \<le> BlockHeight h" and once: "draw_once E which amount tick w = (Inr rep, w')"
    and txid: "\<And>tx. lb_txid (we_lib E) (strip tx) = lb_txid (we_lib E) tx"
    and fresh: "lg_fresh s (lb_txid (we_lib E) (hd (wl_sent w')))"
  obtains v b tx s' where "fmlookup (lg_vaults s) (oc_outpoint v) = Some v" "vs_owner (oc_state v) = owner_pk E w"
    "draw (we_lib E) (wl_ctx w) (lg_ps s) v (draw_intent_of E w amount tick) = Inr b" "or_vault rep = Some (dd_vault (bt_expected b))"
    "session_of w' = session_of w" "wl_sent w' = tx # wl_sent w" "confirms (we_lib E) (bt_plan b) tx" "step (we_lib E) (wl_ctx w) h KDraw s (bt_plan b) s'"
    "lg_vaults s' = put_vault (dd_vault (bt_expected b)) (fmdrop (oc_outpoint v) (lg_vaults s))"
proof -
  obtain v where v: "pick_vault E which w = Inr v"
    and sub: "submit E True (\<lambda>w. draw (we_lib E) (wl_ctx w) (lg_ps s) v (draw_intent_of E w amount tick)) (\<lambda>d. Some (dd_vault d)) w = (Inr rep, w')"
    using once protocol_corr[OF co]
    by (auto simp: draw_once_def op_bind_def target_def bind_res_def split: sum.splits)
  from submit_cases[OF sub] obtain b tx n where b: "draw (we_lib E) (wl_ctx w) (lg_ps s) v (draw_intent_of E w amount tick) = Inr b"
    and tx: "strip tx = strip (pl_tx (bt_plan b))" and rep: "or_vault rep = Some (dd_vault (bt_expected b))"
    and w': "w' = w\<lparr>wl_clock := n, wl_sent := tx # wl_sent w\<rparr>" by auto
  have conf: "confirms (we_lib E) (bt_plan b) tx" by (rule strip_confirms[OF txid tx])
  then have "lg_fresh s (plan_txid (we_lib E) (bt_plan b))" using fresh by (simp add: w' confirms_def)
  from step_draw[OF b pick_vault_corr[OF co wf v] _ _ this, of h] h spk
  have "step (we_lib E) (wl_ctx w) h KDraw s (bt_plan b)
      (s\<lparr>lg_ps := (lg_ps s)\<lparr>ps_pot := dd_pot (bt_expected b), ps_issuer := dd_issuer (bt_expected b)\<rparr>,
         lg_vaults := put_vault (dd_vault (bt_expected b)) (fmdrop (oc_outpoint v) (lg_vaults s))\<rparr>)"
    by (simp add: draw_intent_of_def)
  from that[OF pick_vault_corr[OF co wf v] pick_vault_owner[OF v] b rep _ _ conf this] w' show ?thesis by simp
qed

section \<open>A sample draw\<close>

abbreviation draw_env :: "(u8, doc) wallet_env" where
  "draw_env \<equiv> sample_env (\<lambda>_ _ _ _. Inr (JString []))"

definition draw_wallet :: "(u8, doc) wallet" where
  "draw_wallet = \<lparr>wl_ctx = sample_ctx, wl_owner = 9, wl_funding = 2, wl_state = sample_index, wl_snapshot_path = [],
     wl_disk = (\<lambda>_. None), wl_clock = 0, wl_sent = []\<rparr>"

abbreviation draw_tick :: oracle_tick where
  "draw_tick \<equiv> sample_tick 100 100000 100000 100000"

abbreviation draw_built :: "draw_delta built" where
  "draw_built \<equiv> draw_unchecked sample_library sample_ctx (lg_ps sample_ledger) sample_vault_utxo (draw_intent_of draw_env draw_wallet (Obol 40) draw_tick)"

lemma draw_views:
  "we_lib draw_env = sample_library" "we_prover draw_env = sample_prover" "wl_ctx draw_wallet = sample_ctx" "wl_owner draw_wallet = 9"
  "wl_state draw_wallet = sample_index" "wl_sent draw_wallet = []"
  by (simp_all add: sample_env_def draw_wallet_def)

lemma draw_sample_ok:
  "draw sample_library sample_ctx (lg_ps sample_ledger) sample_vault_utxo (draw_intent_of draw_env draw_wallet (Obol 40) draw_tick) = Inr draw_built"
proof -
  have "obol_checked_add (Obol 100) (Obol 40) = Inr (Obol 140)" by (simp add: obol_checked_add_def add_checked_def)
  moreover have "covenant_cents (Obol 140) = Inr 140" by (simp add: covenant_cents_Inr_iff)
  ultimately show ?thesis
    unfolding draw_Inr_iff
    by (intro exI[of _ "Obol 140"] exI[of _ 140])
      (simp add: draw_intent_of_def sample_vault_utxo_def sample_vault_def sample_ledger_def ladder_simps FEE_def)
qed

text \<open>The sample prover satisfies every slot.\<close>

lemma sample_leaf: "\<exists>cb. fst (slot_leaf sample_library c k) = Some cb"
  by (cases k) (simp_all add: slot_leaf_def pot_control_block_def stability_control_block_def issuer_control_block_def
      vault_control_block_def control_block_def sample_library_def Let_def)

lemma sample_slot_witness: "\<exists>ws. slot_witness sample_library sample_prover c tx us slot = Inr ws"
  using sample_leaf[of c "ws_kind slot"]
  by (cases "ws_kind slot")
    (auto simp: slot_witness_def slot_leaf_def leaf_witness_def pruned_witness_def cb_or_panic_def sample_prover_def Let_def bind_res_def map_err_def)

lemma sample_witness_slots:
  "list_all (\<lambda>s. unat (ws_input s) < length (tx_input tx)) slots \<Longrightarrow>
     \<exists>tx'. witness_slots sample_library sample_prover c us tx slots = Inr tx'"
proof (induction slots arbitrary: tx)
  case (Cons s slots)
  obtain ws where ws: "slot_witness sample_library sample_prover c tx us s = Inr ws" using sample_slot_witness by blast
  from Cons.prems obtain tx1 where tx1: "set_witness tx (unat (ws_input s)) ws = Inr tx1" by (simp add: set_witness_def)
  have "length (tx_input tx1) = length (tx_input tx)" by (rule set_witness_Inr(3)[OF tx1])
  with Cons.IH[of tx1] Cons.prems ws tx1 show ?case by (simp add: bind_res_def)
qed simp

lemma sample_fill_slots:
  "list_all (\<lambda>s. unat (ws_input s) < length ins) slots \<Longrightarrow> list_all (\<lambda>i. pi_tap_key_sig i = None) ins \<Longrightarrow>
     \<exists>ins'. fill_slots sample_library c ins slots = Inr ins' \<and> list_all (\<lambda>i. pi_tap_key_sig i = None) ins'"
proof (induction slots arbitrary: ins)
  case (Cons s slots)
  obtain cb where cb: "fst (slot_leaf sample_library c (ws_kind s)) = Some cb" using sample_leaf by blast
  let ?ins = "ins[unat (ws_input s) := (ins ! unat (ws_input s))\<lparr>pi_tap_internal_key := Some nums_key,
      pi_tap_scripts := (pi_tap_scripts (ins ! unat (ws_input s)))
        (cb \<mapsto> (cmr_script sample_library (snd (slot_leaf sample_library c (ws_kind s))), lb_leaf_version sample_library))\<rparr>]"
  have "list_all (\<lambda>i. pi_tap_key_sig i = None) ?ins"
    using Cons.prems by (auto simp: list_all_length nth_list_update)
  with Cons.IH[of ?ins] Cons.prems cb show ?case
    by (simp add: cb_or_panic_def bind_res_def map_err_def refuse_if_def Let_def)
qed simp

lemma attach_no_sigs: "list_all (\<lambda>i. pi_tap_key_sig i = None) ins \<Longrightarrow> attach_sigs L S c plan tx n ins = Inr tx"
  by (induction ins arbitrary: n) auto

lemma sign_ours_none: "list_all (\<lambda>u. eu_script_pubkey u \<noteq> funding_spk E w) us \<Longrightarrow> sign_ours E w plan n us px = Inr px"
  by (induction us arbitrary: n) auto

text \<open>A plan that spends covenant coins only is signed by the sample wallet.\<close>

lemma sample_covenant_sign:
  assumes E: "we_lib E = sample_library" "we_prover E = sample_prover"
    and "validate_explicit (pl_tx plan) = Inr ()" "length (pl_in_utxos plan) = length (tx_input (pl_tx plan))"
    and slots: "list_all (\<lambda>s. unat (ws_input s) < length (tx_input (pl_tx plan))) (pl_slots plan)"
    and spk: "list_all (\<lambda>u. eu_script_pubkey u \<noteq> funding_spk E w) (pl_in_utxos plan)"
  shows "\<exists>tx. wallet_sign E plan w = Inr tx"
proof -
  define ins where "ins = map (\<lambda>i. if i < length (pl_in_utxos plan) then pset_input_empty\<lparr>pi_witness_utxo := Some (utxo_out (pl_in_utxos plan ! i))\<rparr>
                        else pset_input_empty) [0..<length (tx_input (pl_tx plan))]"
  have ins: "length ins = length (tx_input (pl_tx plan))" "list_all (\<lambda>i. pi_tap_key_sig i = None) ins"
    by (auto simp: ins_def list_all_iff pset_input_empty_def)
  obtain ins' where ins': "fill_slots sample_library (wl_ctx w) ins (pl_slots plan) = Inr ins'" "list_all (\<lambda>i. pi_tap_key_sig i = None) ins'"
    using sample_fill_slots[of ins "pl_slots plan"] slots ins by auto
  then have px: "to_pset sample_library (wl_ctx w) plan = Inr \<lparr>px_tx = pl_tx plan, px_inputs = ins'\<rparr>"
    using assms(3,4) by (simp add: to_pset_def ins_def bind_res_def refuse_if_def Let_def)
  obtain tx where "finalize sample_library sample_prover (wl_ctx w) plan = Inr tx"
    using sample_witness_slots[OF slots] by (auto simp: finalize_def)
  with px ins'(2) show ?thesis
    using sign_ours_none[OF spk, of plan 0] attach_no_sigs[OF ins'(2), where L = sample_library]
    by (simp add: wallet_sign_def E finalize_pset_def bind_res_def map_err_def)
qed

lemma ser_tree_hd: "ser_tree t \<noteq> 0x20 # xs"
proof (cases t)
  case (TapLeaf l)
  then show ?thesis by (cases "fst l") simp_all
qed simp

lemma draw_spk: "funding_spk draw_env draw_wallet \<noteq> p2tr_spk sample_library info"
  using ser_tree_hd[of "si_tree info" "u256_be 2", symmetric]
  by (simp add: funding_spk_def sample_env_def draw_wallet_def p2tr_spk_def sample_library_def)

lemma draw_wallet_spk: "wallet_spk sample_library c (funding_spk draw_env draw_wallet)"
  using draw_spk by (simp add: wallet_spk_def pot_spk_def stability_spk_def)

lemma draw_sample_sign:
  "\<exists>plan tx. owner_sign sample_library sample_prover sample_ctx (bt_plan draw_built) 9 = Inr plan \<and> wallet_sign draw_env plan draw_wallet = Inr tx"
proof -
  let ?p = "bt_plan draw_built"
  have ins: "length (tx_input (pl_tx ?p)) = 3" "length (pl_in_utxos ?p) = 3"
    and fits: "list_all (\<lambda>s. unat (ws_input s) < 3) (pl_slots ?p)"
    and find: "find_vault (pl_slots ?p) = Some (0, sample_vault)"
    and explicit: "validate_explicit (pl_tx ?p) = Inr ()"
    and spk: "list_all (\<lambda>u. eu_script_pubkey u \<noteq> funding_spk draw_env draw_wallet) (pl_in_utxos ?p)"
    using draw_spk[symmetric]
    by (simp_all add: draw_unchecked_def Let_def sample_vault_utxo_def validate_explicit_def value_explicit_def asset_explicit_def
        vault_spk_def pot_spk_def issuer_spk_def claimed_def utxo_from_def txout_def fee_out_def)
  obtain cb where cb: "vault_control_block sample_library (cx_artifacts sample_ctx) sample_vault = Some cb"
    by (simp add: vault_control_block_def control_block_def sample_library_def)
  have "list_all (\<lambda>s. unat (ws_input s) < length (tx_input (pl_tx ?p))) (takeWhile (\<lambda>s. ws_input s \<noteq> 0) (pl_slots ?p))"
    using fits unfolding ins by (auto simp: list_all_iff dest: set_takeWhileD)
  from sample_witness_slots[OF this, of sample_ctx "pl_in_utxos ?p"]
  obtain sg where sg: "vault_sighash sample_library sample_prover sample_ctx ?p = Inr sg"
    by (auto simp: vault_sighash_def find cb tx_before_slot_def cb_or_panic_def bind_res_def)
  let ?plan = "install_owner_sig ?p (pv_sign sample_prover 9 sg)"
  have same: "pl_tx ?plan = pl_tx ?p" "pl_in_utxos ?plan = pl_in_utxos ?p"
    "list_all (\<lambda>s. unat (ws_input s) < 3) (pl_slots ?plan)"
    using fits by (simp_all add: install_owner_sig_def list_all_iff)
  have "\<exists>tx. wallet_sign draw_env ?plan draw_wallet = Inr tx"
    by (rule sample_covenant_sign) (simp_all add: same ins explicit spk draw_views)
  then show ?thesis by (simp add: owner_sign_def sg bind_res_def)
qed

lemma draw_sample_once:
  "\<exists>rep w'. draw_once draw_env (Some (OutPoint 5 0)) (Obol 40) draw_tick draw_wallet = (Inr rep, w')"
proof -
  obtain plan tx where sign: "owner_sign sample_library sample_prover sample_ctx (bt_plan draw_built) 9 = Inr plan"
    "wallet_sign draw_env plan draw_wallet = Inr tx" using draw_sample_sign by blast
  have co: "corr sample_library sample_ctx (wl_state draw_wallet) sample_ledger" by (simp add: draw_wallet_def sample_corr)
  have "pick_vault draw_env (Some (oc_outpoint sample_vault_utxo)) draw_wallet = Inr sample_vault_utxo"
    by (rule corr_pick[OF co])
      (simp_all add: sample_ledger_def put_vault_def sample_vault_utxo_def sample_vault_def owner_pk_def sample_env_def draw_wallet_def)
  then have pick: "target draw_env (Some (OutPoint 5 0)) draw_wallet = (Inr (lg_ps sample_ledger, sample_vault_utxo), draw_wallet)"
    using protocol_corr[OF co] by (simp add: target_def bind_res_def sample_vault_utxo_def)
  have "\<exists>t w'. broadcast draw_env tx draw_wallet = (Inr t, w')"
    by (simp add: broadcast_def node_op_def node_send_def rpc_def or_shape_def sample_env_def sample_codec_node_def)
  then show ?thesis
    by (auto simp: draw_once_def op_bind_def op_lift_def op_ret_def pick submit_def draw_views draw_sample_ok sign sign_and_broadcast_def)
qed

section \<open>Property\<close>

text \<open>
  C12 (draw_confirms): when the wallet's index agrees with the ledger of the chain, an attempt of a
  draw that reports success has broadcast one transaction whose confirmation is a step of the
  ledger: the vault drawn is the one the ledger has at its outpoint and belongs to the wallet's key,
  the reported vault is that vault with the drawn amount added to its debt, it is the ledger's vault
  after the confirmation, and an index that applies the block picks it as the target of the next
  operation.
\<close>

theorem draw_confirms:
  assumes "corr (we_lib E) (wl_ctx w) (wl_state w) s" "lg_wf s" "obol_supply s < 2 ^ 63" "deployed (we_lib E) (wl_ctx w)"
    and "\<And>tx. lb_txid (we_lib E) (strip tx) = lb_txid (we_lib E) tx"
    and "wallet_spk (we_lib E) (wl_ctx w) (funding_spk E w)" "ot_height tick \<le> BlockHeight h"
    and "draw_once E which amount tick w = (Inr rep, w')" "lg_fresh s (lb_txid (we_lib E) (hd (wl_sent w')))"
  shows "\<exists>tx v v' s'. wl_sent w' = tx # wl_sent w \<and> or_vault rep = Some v' \<and>
    fmlookup (lg_vaults s) (oc_outpoint v) = Some v \<and> vs_owner (oc_state v) = owner_pk E w \<and>
    vs_owner (oc_state v') = owner_pk E w \<and> vs_debt (oc_state v') = Obol (obol_raw (vs_debt (oc_state v)) + obol_raw amount) \<and>
    run (we_lib E) (wl_ctx w) (followed (we_lib E) owners) s [(h, tx)] s' \<and> fmlookup (lg_vaults s') (oc_outpoint v') = Some v' \<and>
    pick_vault E (Some (oc_outpoint v'))
      (w'\<lparr>wl_state := fst (index_txs (we_lib E) (wl_ctx w) owners [(h, tx)] (wl_state w))\<rparr>) = Inr v'"
proof -
  from draw_once_step[OF assms(1,2,6,7,8,5,9)] obtain v b tx s' where v: "fmlookup (lg_vaults s) (oc_outpoint v) = Some v"
      "vs_owner (oc_state v) = owner_pk E w"
    and b: "draw (we_lib E) (wl_ctx w) (lg_ps s) v (draw_intent_of E w amount tick) = Inr b" "or_vault rep = Some (dd_vault (bt_expected b))"
    and w': "session_of w' = session_of w" "wl_sent w' = tx # wl_sent w"
    and st: "confirms (we_lib E) (bt_plan b) tx" "step (we_lib E) (wl_ctx w) h KDraw s (bt_plan b) s'"
      "lg_vaults s' = put_vault (dd_vault (bt_expected b)) (fmdrop (oc_outpoint v) (lg_vaults s))" .
  let ?v' = "dd_vault (bt_expected b)" and ?w' = "w'\<lparr>wl_state := fst (index_txs (we_lib E) (wl_ctx w) owners [(h, tx)] (wl_state w))\<rparr>"
  have keep: "vs_owner (oc_state ?v') = owner_pk E w" "vs_debt (oc_state ?v') = Obol (obol_raw (vs_debt (oc_state v)) + obol_raw amount)"
    using draw_keeps_owner[OF b(1)] v(2) by (simp_all add: draw_intent_of_def)
  have "followed (we_lib E) owners KDraw tx" by simp
  from run_op[of _ _ "followed (we_lib E) owners", OF run_nil st(2) this st(1)] have r: "run (we_lib E) (wl_ctx w) (followed (we_lib E) owners) s [(h, tx)] s'" by simp
  have look: "fmlookup (lg_vaults s') (oc_outpoint ?v') = Some ?v'" by (simp add: st(3) put_vault_def)
  have "corr (we_lib E) (wl_ctx w) (wl_state ?w') s'" using run_index[OF r assms(4,2,3,1)] by simp
  from corr_pick[OF this look, of E] have "pick_vault E (Some (oc_outpoint ?v')) ?w' = Inr ?v'"
    using keep(1) w'(1) by (simp add: owner_pk_def session_of_def)
  with v b(2) w'(2) keep r look show ?thesis by blast
qed

theorem draw_confirms_witness:
  "\<exists>rep w' tx v' s'. draw_once draw_env (Some (OutPoint 5 0)) (Obol 40) draw_tick draw_wallet = (Inr rep, w') \<and>
     wl_sent w' = [tx] \<and> run sample_library sample_ctx (followed sample_library [9]) sample_ledger [(100, tx)] s' \<and>
     fmlookup (lg_vaults s') (oc_outpoint v') = Some v' \<and> vs_debt (oc_state v') = Obol 140"
proof -
  obtain rep w' where once: "draw_once draw_env (Some (OutPoint 5 0)) (Obol 40) draw_tick draw_wallet = (Inr rep, w')"
    using draw_sample_once by blast
  have only: "fmlookup (lg_vaults sample_ledger) p = Some v \<Longrightarrow> vs_debt (oc_state v) = Obol 100" for p v
    by (auto simp: sample_ledger_def put_vault_def sample_vault_utxo_def sample_vault_def split: if_splits)
  have id: "lb_txid sample_library tx = 1" for tx by (simp add: sample_library_def)
  have fresh: "lg_fresh sample_ledger 1" and h: "ot_height draw_tick \<le> BlockHeight 100"
    by (simp_all add: lg_fresh_def sample_idle sample_tick_def)
  from draw_confirms[of draw_env draw_wallet sample_ledger draw_tick 100 "Some (OutPoint 5 0)" "Obol 40" rep w' "[9]"]
    once sample_corr sample_wf sample_deployed draw_wallet_spk fresh h
  obtain tx v v' s' where "wl_sent w' = [tx]" "fmlookup (lg_vaults sample_ledger) (oc_outpoint v) = Some v"
    "vs_debt (oc_state v') = Obol (obol_raw (vs_debt (oc_state v)) + 40)"
    "run sample_library sample_ctx (followed sample_library [9]) sample_ledger [(100, tx)] s'" "fmlookup (lg_vaults s') (oc_outpoint v') = Some v'"
    by (auto simp: draw_views id)
  with once only[of "oc_outpoint v" v] show ?thesis by auto
qed

end
